(* ===== verification/Prelude.thy ===== *)
theory Prelude
  imports Main "HOL-Library.Word"
begin

text \<open>
  Shared vocabulary of the development.

  \<^item> \<open>error\<close> is the enumeration of \<^verbatim>\<open>vbci/ident.h\<close>, in its order;
    \<open>Value::error\<close> throws one of these.
  \<^item> \<open>'a outcome\<close> is the result of an operation that may throw: \<open>Ret\<close> the result,
    \<open>Raise\<close> a Verona runtime error, \<open>Stuck\<close> where the C++ program has no defined
    Verona-level result: a failed \<open>assert\<close>, an escaping \<open>std::out_of_range\<close>, or
    undefined behaviour.
  \<^item> \<open>obind\<close> sequences two operations; an error or a stuck state skips the second.

  The collection \<open>outcome_simps\<close> holds the rewrite rules for \<open>obind\<close>.
\<close>

named_theorems outcome_simps

datatype error =
    UnknownString
  | UnknownFFI
  | UnknownRegionType
  | UnknownOpcode
  | BadRaiseTarget
  | BadAllocTarget
  | BadLabel
  | BadField
  | BadArrayIndex
  | BadRefTarget
  | BadLoadTarget
  | BadStoreTarget
  | BadStore
  | BadConversion
  | BadOperand
  | MismatchedTypes
  | MethodNotFound
  | BadStackEscape
  | BadArgs
  | BadType
  | BadRegionEntryPoint
  | BadFreeze
  | BadMerge
  | SchedulerAlreadyRunning

fun errormsg :: "error \<Rightarrow> string" where
  "errormsg UnknownString = ''unknown string''"
| "errormsg UnknownFFI = ''unknown FFI''"
| "errormsg UnknownRegionType = ''unknown region type''"
| "errormsg UnknownOpcode = ''unknown opcode''"
| "errormsg BadRaiseTarget = ''bad raise target''"
| "errormsg BadAllocTarget = ''bad alloc target''"
| "errormsg BadLabel = ''bad label''"
| "errormsg BadField = ''bad field''"
| "errormsg BadArrayIndex = ''bad array index''"
| "errormsg BadRefTarget = ''bad ref target''"
| "errormsg BadLoadTarget = ''bad load target''"
| "errormsg BadStoreTarget = ''bad store target''"
| "errormsg BadStore = ''bad store''"
| "errormsg BadConversion = ''bad conversion''"
| "errormsg BadOperand = ''bad operand''"
| "errormsg MismatchedTypes = ''mismatched types''"
| "errormsg MethodNotFound = ''method not found''"
| "errormsg BadStackEscape = ''bad stack escape''"
| "errormsg BadArgs = ''bad args''"
| "errormsg BadType = ''bad type''"
| "errormsg BadRegionEntryPoint = ''bad region entry point''"
| "errormsg BadFreeze = ''cannot freeze a readonly value''"
| "errormsg BadMerge = ''cannot merge regions: both have owners''"
| "errormsg SchedulerAlreadyRunning = ''scheduler already running''"

datatype 'a outcome = Ret 'a | Raise error | Stuck

fun obind :: "'a outcome \<Rightarrow> ('a \<Rightarrow> 'b outcome) \<Rightarrow> 'b outcome" where
  "obind (Ret x) f = f x"
| "obind (Raise e) f = Raise e"
| "obind Stuck f = Stuck"

lemma obind_cong [fundef_cong]:
  "m = m' \<Longrightarrow> (\<And>x. m' = Ret x \<Longrightarrow> f x = f' x) \<Longrightarrow> obind m f = obind m' f'"
  by (cases m') auto

lemma obind_eq_Ret [outcome_simps]:
  "obind m f = Ret y \<longleftrightarrow> (\<exists>x. m = Ret x \<and> f x = Ret y)"
  by (cases m) auto

lemma obind_eq_Raise [outcome_simps]:
  "obind m f = Raise e \<longleftrightarrow> m = Raise e \<or> (\<exists>x. m = Ret x \<and> f x = Raise e)"
  by (cases m) auto

lemma obind_eq_Stuck [outcome_simps]:
  "obind m f = Stuck \<longleftrightarrow> m = Stuck \<or> (\<exists>x. m = Ret x \<and> f x = Stuck)"
  by (cases m) auto

lemma obind_assoc:
  "obind (obind m f) g = obind m (\<lambda>x. obind (f x) g)"
  by (cases m) auto

lemma obind_Ret_right [simp]: "obind m Ret = m"
  by (cases m) auto

text \<open>An \<open>assert\<close>: a failing one ends in \<open>Stuck\<close>.\<close>

definition oassert :: "bool \<Rightarrow> unit outcome" where
  "oassert b = (if b then Ret () else Stuck)"

lemma oassert_simps [simp]: "oassert True = Ret ()" "oassert False = Stuck"
  by (simp_all add: oassert_def)

lemma oassert_eq_Ret [outcome_simps]: "oassert b = Ret u \<longleftrightarrow> b"
  by (simp add: oassert_def)

lemma oassert_neq_Raise [simp]: "oassert b \<noteq> Raise e"
  by (simp add: oassert_def)

text \<open>
  A fuelled function gives the same result with more fuel: \<open>ole m m'\<close> says that \<open>m'\<close> returns
  what \<open>m\<close> returns, where \<open>m\<close> returns. The rules in \<open>ole_intros\<close> push it through the
  control structure of a definition.
\<close>

named_theorems ole_intros

definition ole :: "'a outcome \<Rightarrow> 'a outcome \<Rightarrow> bool" where
  "ole m m' \<longleftrightarrow> (\<forall>v. m = Ret v \<longrightarrow> m' = Ret v)"

lemma oleD: "ole m m' \<Longrightarrow> m = Ret v \<Longrightarrow> m' = Ret v"
  by (simp add: ole_def)

lemma ole_refl [ole_intros]: "ole m m"
  by (simp add: ole_def)

lemma ole_obind [ole_intros]: "ole m m' \<Longrightarrow> (\<And>x. ole (f x) (f' x)) \<Longrightarrow> ole (obind m f) (obind m' f')"
  by (auto simp: ole_def outcome_simps)

lemma ole_if [ole_intros]: "(b \<Longrightarrow> ole m m') \<Longrightarrow> (\<not> b \<Longrightarrow> ole k k') \<Longrightarrow> ole (if b then m else k) (if b then m' else k')"
  by simp

lemma ole_case_prod [ole_intros]: "(\<And>x y. ole (f x y) (f' x y)) \<Longrightarrow> ole (case p of (x, y) \<Rightarrow> f x y) (case p of (x, y) \<Rightarrow> f' x y)"
  by (cases p) simp

lemma ole_case_option [ole_intros]:
  "ole m m' \<Longrightarrow> (\<And>x. ole (f x) (f' x)) \<Longrightarrow>
   ole (case p of None \<Rightarrow> m | Some x \<Rightarrow> f x) (case p of None \<Rightarrow> m' | Some x \<Rightarrow> f' x)"
  by (cases p) simp_all

lemma ole_case_list [ole_intros]:
  "ole m m' \<Longrightarrow> (\<And>x xs. ole (f x xs) (f' x xs)) \<Longrightarrow>
   ole (case p of [] \<Rightarrow> m | x # xs \<Rightarrow> f x xs) (case p of [] \<Rightarrow> m' | x # xs \<Rightarrow> f' x xs)"
  by (cases p) simp_all

lemma ole_Let [ole_intros]: "(\<And>x. ole (f x) (f' x)) \<Longrightarrow> ole (Let a f) (Let a f')"
  by simp

lemma ole_Stuck [ole_intros]: "ole Stuck m"
  by (simp add: ole_def)

text \<open>Checked vector read (\<open>std::vector::at\<close>): out of range is \<open>Stuck\<close>.\<close>

definition vec_at :: "'a list \<Rightarrow> nat \<Rightarrow> 'a outcome" where
  "vec_at xs i = (if i < length xs then Ret (xs ! i) else Stuck)"

lemma vec_at_Ret [simp]: "i < length xs \<Longrightarrow> vec_at xs i = Ret (xs ! i)"
  by (simp add: vec_at_def)

lemma vec_at_Stuck [simp]: "length xs \<le> i \<Longrightarrow> vec_at xs i = Stuck"
  by (simp add: vec_at_def)

lemma vec_at_eq_Ret [outcome_simps]: "vec_at xs i = Ret x \<longleftrightarrow> i < length xs \<and> xs ! i = x"
  by (auto simp: vec_at_def)

lemma vec_at_neq_Raise [simp]: "vec_at xs i \<noteq> Raise e"
  by (simp add: vec_at_def)

end
