(* ===== verification/Format.thy ===== *)
theory Format
  imports Prelude
begin

text \<open>
  The enumerations of \<^verbatim>\<open>include/vbc/format.h\<close> and \<^verbatim>\<open>vbci/value_type.h\<close> with the numbers the wire
  format and the interpreter give them (the C++ \<open>operator+\<close>). \<open>primitive_code\<close>,
  \<open>vtype_code\<close>, \<open>tag_code\<close> and \<open>region_code\<close> are the declaration positions; the \<open>_of\<close>
  functions read a number back, with an enumerator outside the declared range kept as such
  (\<open>TUnknown\<close>, \<open>RUnknown\<close>), since a C++ cast to an enumeration does not check.
\<close>

subsection \<open>Constants\<close>

definition MagicNumber :: "64 word" where "MagicNumber = 0xDEC0ADDE"
definition CurrentVersion :: "64 word" where "CurrentVersion = 0"
definition MainFunctionId :: nat where "MainFunctionId = 0"
definition FinalizerMethodId :: "64 word" where "FinalizerMethodId = 0"
definition CallbackMethodId :: "64 word" where "CallbackMethodId = 1"
definition DynamicTypeId :: "32 word" where "DynamicTypeId = - 1"

subsection \<open>Primitive types\<close>

datatype primitive =
    PNone | PBool | PI8 | PI16 | PI32 | PI64 | PU8 | PU16 | PU32 | PU64
  | PILong | PULong | PISize | PUSize | PF32 | PF64 | PPtr

definition primitives :: "primitive list" where
  "primitives = [PNone, PBool, PI8, PI16, PI32, PI64, PU8, PU16, PU32, PU64,
     PILong, PULong, PISize, PUSize, PF32, PF64, PPtr]"

fun primitive_code :: "primitive \<Rightarrow> nat" where
  "primitive_code PNone = 0" | "primitive_code PBool = 1"
| "primitive_code PI8 = 2" | "primitive_code PI16 = 3"
| "primitive_code PI32 = 4" | "primitive_code PI64 = 5"
| "primitive_code PU8 = 6" | "primitive_code PU16 = 7"
| "primitive_code PU32 = 8" | "primitive_code PU64 = 9"
| "primitive_code PILong = 10" | "primitive_code PULong = 11"
| "primitive_code PISize = 12" | "primitive_code PUSize = 13"
| "primitive_code PF32 = 14" | "primitive_code PF64 = 15"
| "primitive_code PPtr = 16"

definition NumPrimitiveClasses :: nat where
  "NumPrimitiveClasses = primitive_code PPtr + 1"

definition primitive_of :: "nat \<Rightarrow> primitive option" where
  "primitive_of n = (if n < NumPrimitiveClasses then Some (primitives ! n) else None)"

lemma primitive_of_code [simp]: "primitive_of (primitive_code p) = Some p"
  by (cases p) (simp_all add: primitive_of_def NumPrimitiveClasses_def primitives_def)

lemma primitive_of_SomeD: "primitive_of n = Some p \<Longrightarrow> n = primitive_code p \<and> n < 17"
  by (auto simp: primitive_of_def NumPrimitiveClasses_def primitives_def less_Suc_eq numeral_eq_Suc
      split: if_splits)

subsection \<open>Live value tags\<close>

datatype vtype =
    VNone | VBool | VI8 | VI16 | VI32 | VI64 | VU8 | VU16 | VU32 | VU64
  | VILong | VULong | VISize | VUSize | VF32 | VF64 | VPtr
  | VObject | VArray | VCown | VRegisterRef | VFieldRef | VArrayRef | VCownRef
  | VFunction | VError | VDyn | VInvalid

fun vtype_code :: "vtype \<Rightarrow> nat" where
  "vtype_code VNone = 0" | "vtype_code VBool = 1"
| "vtype_code VI8 = 2" | "vtype_code VI16 = 3"
| "vtype_code VI32 = 4" | "vtype_code VI64 = 5"
| "vtype_code VU8 = 6" | "vtype_code VU16 = 7"
| "vtype_code VU32 = 8" | "vtype_code VU64 = 9"
| "vtype_code VILong = 10" | "vtype_code VULong = 11"
| "vtype_code VISize = 12" | "vtype_code VUSize = 13"
| "vtype_code VF32 = 14" | "vtype_code VF64 = 15"
| "vtype_code VPtr = 16" | "vtype_code VObject = 17"
| "vtype_code VArray = 18" | "vtype_code VCown = 19"
| "vtype_code VRegisterRef = 20" | "vtype_code VFieldRef = 21"
| "vtype_code VArrayRef = 22" | "vtype_code VCownRef = 23"
| "vtype_code VFunction = 24" | "vtype_code VError = 25"
| "vtype_code VDyn = 26" | "vtype_code VInvalid = 27"

fun value_type :: "primitive \<Rightarrow> vtype" where
  "value_type PNone = VNone" | "value_type PBool = VBool"
| "value_type PI8 = VI8" | "value_type PI16 = VI16"
| "value_type PI32 = VI32" | "value_type PI64 = VI64"
| "value_type PU8 = VU8" | "value_type PU16 = VU16"
| "value_type PU32 = VU32" | "value_type PU64 = VU64"
| "value_type PILong = VILong" | "value_type PULong = VULong"
| "value_type PISize = VISize" | "value_type PUSize = VUSize"
| "value_type PF32 = VF32" | "value_type PF64 = VF64"
| "value_type PPtr = VPtr"

text \<open>The static assertions of \<^verbatim>\<open>value_type.h\<close>: live tags start with the primitive codes.\<close>

lemma vtype_code_value_type: "vtype_code (value_type p) = primitive_code p"
  by (cases p) simp_all

subsection \<open>Complex type tags and region types\<close>

datatype type_tag = TArray | TCown | TRef | TUnion | TTuple | TUnknown "8 word"

fun tag_code :: "type_tag \<Rightarrow> 8 word" where
  "tag_code TArray = 0" | "tag_code TCown = 1" | "tag_code TRef = 2"
| "tag_code TUnion = 3" | "tag_code TTuple = 4" | "tag_code (TUnknown n) = n"

definition tag_of :: "8 word \<Rightarrow> type_tag" where
  "tag_of n =
     (if n = 0 then TArray else if n = 1 then TCown else if n = 2 then TRef
      else if n = 3 then TUnion else if n = 4 then TTuple else TUnknown n)"

lemma tag_of_code: "t \<in> {TArray, TCown, TRef, TUnion, TTuple} \<Longrightarrow> tag_of (tag_code t) = t"
  by (auto simp: tag_of_def)

datatype region_type = RegionRC | RegionArena | RUnknown "8 word"

fun region_code :: "region_type \<Rightarrow> 8 word" where
  "region_code RegionRC = 0" | "region_code RegionArena = 1" | "region_code (RUnknown n) = n"

definition region_type_of :: "8 word \<Rightarrow> region_type" where
  "region_type_of n = (if n = 0 then RegionRC else if n = 1 then RegionArena else RUnknown n)"

end
