(* ===== verification/Leb.thy ===== *)
theory Leb
  imports Prelude
begin

unbundle bit_operations_syntax

text \<open>
  The integer codec of the VBC file format: the writer is the pair of stream operators of
  \<^verbatim>\<open>virc/vbc/emitter.cc\<close> (\<open>uleb\<close>, \<open>sleb\<close>), the reader the pair of methods of
  \<^verbatim>\<open>vbci/program.h\<close>. Bytes are \<open>8 word\<close>, a stream is a byte list and \<open>pc\<close> an index
  into it; reading past it is \<open>Stuck\<close> (\<open>std::vector::at\<close> throws).

  The writer's templates are modelled at the types the emitter instantiates: \<open>uleb_put\<close> for
  the unsigned types (all zero-extend to 64 bits), \<open>sleb_put64\<close> and \<open>sleb_put32\<close> for
  \<open>int64_t\<close> and \<open>int32_t\<close>, and \<open>sleb_put_narrow\<close> for \<open>int8_t\<close> and \<open>int16_t\<close>, where the C++ integer promotions turn the zigzag value into an \<open>int\<close> that is then written by
  the \<open>uleb\<close> loop over a signed type (\<open>uleb_put_int\<close>).
\<close>

type_synonym byte = "8 word"

subsection \<open>The writer\<close>

function uleb_put :: "64 word \<Rightarrow> byte list" where
  "uleb_put v =
     (if v > 0x7F then (ucast (v AND 0x7F) OR 0x80) # uleb_put (drop_bit 7 v)
      else [ucast v])"
  by pat_completeness auto
termination
proof (relation "measure unat")
  fix v :: "64 word"
  assume "v > 0x7F"
  then have "unat v > 127" by (simp add: word_less_nat_alt)
  then show "(drop_bit 7 v, v) \<in> measure unat"
    by (simp add: unat_drop_bit_eq drop_bit_eq_div unat_div)
qed simp

declare uleb_put.simps [simp del]

text \<open>The same loop at the signed type \<open>int\<close>: the comparison and the shift are signed.\<close>

function uleb_put_int :: "32 word \<Rightarrow> byte list" where
  "uleb_put_int v =
     (if sint v > 0x7F then (ucast (v AND 0x7F) OR 0x80) # uleb_put_int (signed_drop_bit 7 v)
      else [ucast v])"
  by pat_completeness auto
termination
proof (relation "measure (\<lambda>v. nat (sint v))")
  fix v :: "32 word"
  assume "sint v > 0x7F"
  then show "(signed_drop_bit 7 v, v) \<in> measure (\<lambda>v. nat (sint v))"
    by (simp add: sint_signed_drop_bit_eq drop_bit_eq_div)
qed simp

declare uleb_put_int.simps [simp del]

definition sleb_put64 :: "64 word \<Rightarrow> byte list" where
  "sleb_put64 v =
     (let bits = v; sign_mask = 0 - of_bool (sint v < 0)
      in uleb_put (push_bit 1 bits XOR sign_mask))"

definition sleb_put32 :: "32 word \<Rightarrow> byte list" where
  "sleb_put32 v =
     (let bits = v; sign_mask = 0 - of_bool (sint v < 0)
      in uleb_put (ucast (push_bit 1 bits XOR sign_mask)))"

definition sleb_put_narrow :: "'a::len word \<Rightarrow> byte list" where
  "sleb_put_narrow v =
     (let bits = (ucast v :: 32 word); sign_mask = 0 - of_bool (sint v < 0)
      in uleb_put_int (push_bit 1 bits XOR sign_mask))"

subsection \<open>The reader\<close>

function uleb_loop :: "byte list \<Rightarrow> nat \<Rightarrow> nat \<Rightarrow> 64 word \<Rightarrow> (64 word \<times> nat) outcome" where
  "uleb_loop from pc shift value =
     (if shift \<le> 63 then
        obind (vec_at from pc) (\<lambda>b.
          let value' = value OR push_bit shift (ucast b AND 0x7F)
          in if b AND 0x80 = 0 then Ret (value', pc + 1)
             else uleb_loop from (pc + 1) (shift + 7) value')
      else Ret (value, pc))"
  by pat_completeness auto
termination
  by (relation "measure (\<lambda>(from, pc, shift, value). 64 - shift)") auto

declare uleb_loop.simps [simp del]

definition uleb_get :: "byte list \<Rightarrow> nat \<Rightarrow> (64 word \<times> nat) outcome" where
  "uleb_get from pc = uleb_loop from pc 0 0"

definition sleb_get :: "byte list \<Rightarrow> nat \<Rightarrow> (64 word \<times> nat) outcome" where
  "sleb_get from pc =
     obind (uleb_get from pc) (\<lambda>(value, pc').
       Ret (drop_bit 1 value XOR - (value AND 1), pc'))"

subsection \<open>Bits of one group\<close>

lemma mask7_64: "(0x7F :: 64 word) = mask 7"
  by (simp add: mask_eq_exp_minus_1)

lemma mask7_32: "(0x7F :: 32 word) = mask 7"
  by (simp add: mask_eq_exp_minus_1)

lemma bit_0x80: "bit (0x80 :: byte) n \<longleftrightarrow> n = 7"
proof -
  have "(0x80 :: byte) = push_bit 7 1" by simp
  then show ?thesis by (simp only: bit_push_bit_iff) (auto simp: bit_1_iff)
qed

lemma and_0x80: "(b :: byte) AND 0x80 = 0 \<longleftrightarrow> \<not> bit b 7"
proof
  assume "b AND 0x80 = 0"
  then have "bit (b AND 0x80) 7 = bit (0 :: byte) 7" by simp
  then show "\<not> bit b 7" by (simp only: bit_and_iff bit_0x80 bit_0_eq) simp
next
  assume "\<not> bit b 7"
  then show "b AND 0x80 = 0"
    by (intro bit_word_eqI) (auto simp only: bit_and_iff bit_0x80 bit_0_eq bot_fun_def bot_bool_def)
qed

lemma byte_group_low:
  "ucast ((ucast (v AND 0x7F) :: byte) OR 0x80) AND (0x7F :: 64 word) = (v :: 64 word) AND 0x7F"
  unfolding mask7_64
  by (rule bit_word_eqI)
    (auto simp only: bit_and_iff bit_or_iff bit_unsigned_iff bit_0x80 bit_mask_iff possible_bit_word, simp)

lemma byte_group_cont: "((ucast (v AND 0x7F :: 64 word) :: byte) OR 0x80) AND 0x80 \<noteq> 0"
  unfolding and_0x80 by (simp only: bit_or_iff bit_0x80) simp

lemma last_group:
  assumes "\<not> v > (0x7F :: 64 word)"
  shows "ucast (ucast v :: byte) AND (0x7F :: 64 word) = v" "(ucast v :: byte) AND 0x80 = 0"
proof -
  from assms have "unat v < 2 ^ 7" by (simp add: not_less word_le_nat_alt)
  then have "unat (take_bit 7 v) = unat v"
    by (simp add: unsigned_take_bit_eq take_bit_nat_eq_self)
  then have v: "take_bit 7 v = v"
    by (simp add: word_unat_eq_iff)
  have b: "bit v n \<Longrightarrow> n < 7" for n
    by (subst (asm) v [symmetric]) (simp add: bit_take_bit_iff)
  show "ucast (ucast v :: byte) AND (0x7F :: 64 word) = v"
    unfolding mask7_64 by (rule bit_word_eqI) (use b in \<open>fastforce simp: bit_simps\<close>)
  show "(ucast v :: byte) AND 0x80 = 0"
    using b [of 7] by (auto simp: and_0x80 bit_simps)
qed

lemma group_join:
  "(acc OR push_bit s (v AND 0x7F)) OR push_bit (s + 7) (drop_bit 7 v)
   = acc OR push_bit s (v :: 64 word)"
proof (rule bit_word_eqI)
  fix n
  show "bit ((acc OR push_bit s (v AND 0x7F)) OR push_bit (s + 7) (drop_bit 7 v)) n
    \<longleftrightarrow> bit (acc OR push_bit s v) n"
  proof (cases "n < s + 7")
    case True
    then show ?thesis unfolding mask7_64 by (auto simp: bit_simps)
  next
    case False
    then have "7 + (n - (s + 7)) = n - s" by simp
    with False show ?thesis unfolding mask7_64 by (auto simp: bit_simps)
  qed
qed

subsection \<open>Round trip of unsigned values\<close>

lemma uleb_loop_put:
  assumes "unat v < 2 ^ (64 - s)" "s \<le> 63"
  shows "uleb_loop (pre @ uleb_put v @ post) (length pre) s acc
    = Ret (acc OR push_bit s v, length pre + length (uleb_put v))"
  using assms
proof (induction v arbitrary: pre s acc rule: uleb_put.induct)
  case (1 v)
  show ?case
  proof (cases "v > 0x7F")
    case False
    with "1.prems" show ?thesis
      by (subst uleb_loop.simps)
        (simp add: uleb_put.simps [of v] last_group Let_def del: push_bit_and)
  next
    case True
    let ?b = "ucast (v AND 0x7F) OR 0x80 :: byte"
    from True have big: "128 \<le> unat v" by (simp add: word_less_nat_alt)
    have s7: "s + 7 \<le> 63"
    proof (rule ccontr)
      assume "\<not> s + 7 \<le> 63"
      then have "64 - s \<le> 7" by simp
      then have "(2::nat) ^ (64 - s) \<le> 2 ^ 7" by (rule power_increasing) simp
      with big "1.prems"(1) show False by simp
    qed
    have small: "unat (drop_bit 7 v) < 2 ^ (64 - (s + 7))"
    proof -
      have "(2::nat) ^ (64 - s) = 2 ^ (64 - (s + 7)) * 2 ^ 7"
        using s7 by (subst power_add [symmetric]) simp
      with "1.prems"(1) have "unat v div 2 ^ 7 < 2 ^ (64 - (s + 7))"
        by (simp add: less_mult_imp_div_less)
      then show ?thesis by (simp add: unat_drop_bit_eq drop_bit_eq_div unat_div)
    qed
    have "uleb_loop (pre @ uleb_put v @ post) (length pre) s acc
      = uleb_loop ((pre @ [?b]) @ uleb_put (drop_bit 7 v) @ post) (length (pre @ [?b])) (s + 7)
          (acc OR push_bit s (v AND 0x7F))"
      using True "1.prems"(2)
      by (subst uleb_loop.simps)
        (simp add: uleb_put.simps [of v] byte_group_low byte_group_cont Let_def del: push_bit_and)
    also have "\<dots> = Ret ((acc OR push_bit s (v AND 0x7F)) OR push_bit (s + 7) (drop_bit 7 v),
        length (pre @ [?b]) + length (uleb_put (drop_bit 7 v)))"
      by (rule "1.IH" [OF True small s7])
    also have "\<dots> = Ret (acc OR push_bit s v, length pre + length (uleb_put v))"
      unfolding group_join using True by (simp add: uleb_put.simps [of v])
    finally show ?thesis .
  qed
qed

lemma uleb_get_put [simp]:
  "uleb_get (pre @ uleb_put v @ post) (length pre) = Ret (v, length pre + length (uleb_put v))"
proof -
  have "unat v < 2 ^ (64 - 0)" using unsigned_less [of v] by simp
  from uleb_loop_put [OF this, of pre post 0] show ?thesis by (simp add: uleb_get_def)
qed

subsection \<open>Zigzag\<close>

text \<open>
  \<open>push_bit 1 v\<close> is kept as a shift (the default rules turn it into a product), so that the
  extensional bit rules apply.
\<close>

declare push_bit_Suc [simp del] drop_bit_Suc [simp del]

lemma zigzag_odd: "NOT (push_bit 1 (v :: 'a::len word)) AND 1 = 1"
  by (rule bit_word_eqI) (auto simp: bit_simps)

lemma zigzag_even: "push_bit 1 (v :: 'a::len word) AND 1 = 0"
  by (rule bit_word_eqI) (auto simp: bit_simps)

lemma neg_top_bit: "sint (v :: 'a::len word) < 0 \<longleftrightarrow> bit v (LENGTH('a) - 1)"
  by (simp flip: bit_last_iff)

lemma zigzag_value:
  "push_bit 1 v XOR (0 - of_bool b) = (if b then NOT (push_bit 1 v) else push_bit 1 (v :: 'a::len word))"
  by simp

lemma zigzag64:
  fixes v :: "64 word"
  defines "z \<equiv> push_bit 1 v XOR (0 - of_bool (sint v < 0))"
  shows "drop_bit 1 z XOR - (z AND 1) = v"
proof (cases "sint v < 0")
  case True
  then have z: "z = NOT (push_bit 1 v)" by (simp add: z_def)
  from True have m: "bit v 63" by (simp add: neg_top_bit)
  have "drop_bit 1 z XOR - 1 = v"
  proof (rule bit_word_eqI)
    fix n assume "n < LENGTH(64)"
    then consider "n < 63" | "n = 63" by fastforce
    then show "bit (drop_bit 1 z XOR - 1) n \<longleftrightarrow> bit v n"
      by cases (use m in \<open>simp_all add: z bit_simps\<close>)
  qed
  then show ?thesis unfolding z zigzag_odd .
next
  case False
  then have z: "z = push_bit 1 v" by (simp add: z_def)
  from False have m: "\<not> bit v 63" by (simp add: neg_top_bit)
  have "drop_bit 1 z = v"
  proof (rule bit_word_eqI)
    fix n assume "n < LENGTH(64)"
    then consider "n < 63" | "n = 63" by fastforce
    then show "bit (drop_bit 1 z) n \<longleftrightarrow> bit v n"
      by cases (use m in \<open>simp_all add: z bit_simps\<close>)
  qed
  then show ?thesis unfolding z zigzag_even by (simp only: minus_zero xor.right_neutral)
qed

lemma sleb_get_put64 [simp]:
  "sleb_get (pre @ sleb_put64 v @ post) (length pre)
   = Ret (v, length pre + length (sleb_put64 v))"
  using zigzag64 [of v] by (simp add: sleb_get_def sleb_put64_def Let_def)

text \<open>32 bit: the reader's 64 bit result is the sign extension of the written value.\<close>

lemma zigzag32:
  fixes v :: "32 word"
  defines "z \<equiv> (ucast (push_bit 1 v XOR (0 - of_bool (sint v < 0))) :: 64 word)"
  shows "drop_bit 1 z XOR - (z AND 1) = scast v"
proof (cases "sint v < 0")
  case True
  then have z: "z = ucast (NOT (push_bit 1 v))" by (simp add: z_def)
  from True have m: "bit v 31" by (simp add: neg_top_bit)
  have one: "z AND 1 = 1" unfolding z by (rule bit_word_eqI) (auto simp: bit_simps)
  have "drop_bit 1 z XOR - 1 = scast v"
  proof (rule bit_word_eqI)
    fix n assume "n < LENGTH(64)"
    then consider "n < 31" | "n = 31" | "31 < n" by fastforce
    then show "bit (drop_bit 1 z XOR - 1) n \<longleftrightarrow> bit (scast v :: 64 word) n"
      by cases (use m \<open>n < LENGTH(64)\<close> in \<open>simp_all add: z bit_simps\<close>)
  qed
  then show ?thesis unfolding one .
next
  case False
  then have z: "z = ucast (push_bit 1 v)" by (simp add: z_def)
  from False have m: "\<not> bit v 31" by (simp add: neg_top_bit)
  have zero: "z AND 1 = 0" unfolding z by (rule bit_word_eqI) (auto simp: bit_simps)
  have "drop_bit 1 z = scast v"
  proof (rule bit_word_eqI)
    fix n assume "n < LENGTH(64)"
    then consider "n < 31" | "n = 31" | "31 < n" by fastforce
    then show "bit (drop_bit 1 z) n \<longleftrightarrow> bit (scast v :: 64 word) n"
      by cases (use m \<open>n < LENGTH(64)\<close> in \<open>simp_all add: z bit_simps\<close>)
  qed
  then show ?thesis by (simp add: zero)
qed

lemma sleb_get_put32 [simp]:
  "sleb_get (pre @ sleb_put32 v @ post) (length pre)
   = Ret (scast v, length pre + length (sleb_put32 v))"
  using zigzag32 [of v] by (simp add: sleb_get_def sleb_put32_def Let_def)

subsection \<open>The narrow signed types\<close>

lemma uleb_put_int_neg: "sint z < 0 \<Longrightarrow> uleb_put_int z = [ucast z]"
  by (subst uleb_put_int.simps) simp

lemma sint_nonneg_uint:
  assumes "0 \<le> sint (v :: 'a::len word)"
  shows "uint v = sint v"
proof -
  have "sint v < 2 ^ (LENGTH('a) - 1)" by (rule sint_lt)
  also have "\<dots> \<le> (2::int) ^ LENGTH('a)" by (rule power_increasing) auto
  finally show ?thesis using assms by (simp add: uint_sint take_bit_int_eq_self)
qed

lemma uleb_put_int_nonneg: "0 \<le> sint z \<Longrightarrow> uleb_put_int z = uleb_put (ucast z)"
proof (induction z rule: uleb_put_int.induct)
  case (1 v)
  have top: "\<not> bit v 31" using "1.prems" by (simp add: neg_top_bit flip: not_less)
  have cmp: "(ucast v :: 64 word) > 0x7F \<longleftrightarrow> sint v > 0x7F"
    using sint_nonneg_uint [OF "1.prems"] by (simp add: word_less_def uint_up_ucast is_up)
  have sdrop: "signed_drop_bit 7 v = drop_bit 7 v"
  proof (rule bit_word_eqI)
    fix n assume "n < LENGTH(32)"
    have "\<not> bit v (7 + n)" if "25 \<le> n"
      by (rule impossible_bit) (use that in simp)
    then show "bit (signed_drop_bit 7 v) n \<longleftrightarrow> bit (drop_bit 7 v) n"
      using top by (cases "n < 24"; cases "n = 24") (simp_all add: bit_simps)
  qed
  have low: "(ucast (v AND 0x7F) :: byte) = ucast ((ucast v :: 64 word) AND 0x7F)"
    unfolding mask7_64 mask7_32 by (rule bit_word_eqI) (auto simp: bit_simps)
  have high: "ucast (drop_bit 7 v) = drop_bit 7 (ucast v :: 64 word)"
    by (rule bit_word_eqI) (auto simp: bit_simps dest: bit_imp_le_length)
  have last: "(ucast v :: byte) = ucast (ucast v :: 64 word)"
    by (rule bit_word_eqI) (auto simp: bit_simps)
  have "0 \<le> sint (signed_drop_bit 7 v)"
    using "1.prems" by (simp add: sint_signed_drop_bit_eq)
  then show ?case
    using "1.IH" by (subst uleb_put_int.simps, subst uleb_put.simps) (simp add: cmp sdrop low high last)
qed

text \<open>Any value from -64 up survives the narrow writer; every value below it does not.\<close>

lemma bits_small_negative:
  fixes v :: "'a::len word"
  assumes "sint v < 0" "- 64 \<le> sint v" "6 \<le> n" "n < LENGTH('a)"
  shows "bit v n"
proof -
  have "signed_take_bit 6 (sint v) = sint v"
    using assms(1,2) by (simp add: signed_take_bit_int_eq_self_iff)
  then have "bit (sint v) n = bit (signed_take_bit 6 (sint v)) n" by simp
  also have "\<dots> = bit (sint v) 6"
    using assms(3) by (simp add: bit_signed_take_bit_iff min_def)
  finally have 1: "bit (sint v) n = bit (sint v) 6" .
  have "signed_take_bit 6 (sint v) < 0" using \<open>signed_take_bit 6 (sint v) = sint v\<close> assms(1) by simp
  then have "bit (sint v) 6" by (simp add: signed_take_bit_negative_iff)
  with 1 have "bit (sint v) n" by simp
  then show ?thesis using assms(4)
    by (cases "n = LENGTH('a) - 1")
      (simp_all add: sint_uint bit_signed_take_bit_iff bit_uint_iff min_def split: if_splits)
qed

lemma narrow_put_neg:
  fixes v :: "'a::len word"
  assumes "LENGTH('a) \<le> 16" "sint v < 0"
  shows "sleb_put_narrow v = [ucast (NOT (push_bit 1 (ucast v :: 32 word)))]"
proof -
  have "\<not> bit (ucast v :: 32 word) 30"
    using assms(1) by (simp add: bit_simps impossible_bit)
  then have "sint (NOT (push_bit 1 (ucast v :: 32 word))) < 0"
    by (simp add: neg_top_bit bit_simps)
  from uleb_put_int_neg [OF this] show ?thesis
    using assms(2) by (simp add: sleb_put_narrow_def Let_def)
qed

lemma narrow_put_nonneg:
  fixes v :: "'a::len word"
  assumes "LENGTH('a) \<le> 16" "0 \<le> sint v"
  shows "sleb_put_narrow v = uleb_put (push_bit 1 (ucast v))"
proof -
  have n30: "\<not> bit (ucast v :: 32 word) 30"
    using assms(1) by (simp add: bit_simps impossible_bit)
  then have "0 \<le> sint (push_bit 1 (ucast v :: 32 word))"
    by (simp add: neg_top_bit bit_simps flip: not_less)
  moreover have "(ucast (push_bit 1 (ucast v :: 32 word)) :: 64 word) = push_bit 1 (ucast v)"
  proof (rule bit_word_eqI)
    fix n assume "n < LENGTH(64)"
    have "\<not> bit v (n - 1)" if "32 \<le> n"
      by (rule impossible_bit) (use that assms(1) in simp)
    then show "bit (ucast (push_bit 1 (ucast v :: 32 word)) :: 64 word) n
      \<longleftrightarrow> bit (push_bit 1 (ucast v) :: 64 word) n"
      by (cases "n < 32") (auto simp: bit_simps)
  qed
  ultimately show ?thesis
    using assms(2) uleb_put_int_nonneg [of "push_bit 1 (ucast v :: 32 word)"]
    by (simp add: sleb_put_narrow_def Let_def not_less [symmetric])
qed

lemma uleb_get_single:
  assumes "b AND 0x80 = 0"
  shows "uleb_get (pre @ b # post) (length pre) = Ret (ucast b AND 0x7F, Suc (length pre))"
  using assms by (simp add: uleb_get_def uleb_loop.simps [of _ _ 0] Let_def)

lemma uleb_loop_advances:
  "uleb_loop bs pc shift acc = Ret (w, pc') \<Longrightarrow> pc \<le> pc'"
proof (induction bs pc shift acc rule: uleb_loop.induct)
  case (1 bs pc shift acc)
  show ?case
  proof (cases "shift \<le> 63 \<and> pc < length bs")
    case False
    with "1.prems" show ?thesis by (subst (asm) uleb_loop.simps) (auto split: if_splits)
  next
    case True
    show ?thesis
    proof (cases "bs ! pc AND 0x80 = 0")
      case False
      with True "1.prems" have
        "uleb_loop bs (pc + 1) (shift + 7) (acc OR push_bit shift (ucast (bs ! pc) AND 0x7F))
         = Ret (w, pc')"
        by (subst (asm) uleb_loop.simps) (simp add: Let_def)
      with True False "1.IH" [of "bs ! pc"] have "pc + 1 \<le> pc'" by simp
      then show ?thesis by simp
    qed (use True "1.prems" in \<open>subst (asm) uleb_loop.simps, simp add: Let_def\<close>)
  qed
qed

lemma uleb_get_continues:
  assumes "b AND 0x80 \<noteq> 0" "uleb_get (pre @ b # post) (length pre) = Ret (w, pc')"
  shows "Suc (length pre) < pc'"
proof -
  from assms have "uleb_loop (pre @ b # post) (Suc (length pre)) 7 (ucast b AND 0x7F) = Ret (w, pc')"
    by (simp add: uleb_get_def uleb_loop.simps [of _ _ 0] Let_def)
  then show ?thesis
    by (subst (asm) uleb_loop.simps)
      (auto simp: outcome_simps Let_def split: if_splits dest!: uleb_loop_advances)
qed

lemma sleb_narrow_ok:
  fixes v :: "'a::len word"
  assumes len: "8 \<le> LENGTH('a)" "LENGTH('a) \<le> 16" and low: "- 64 \<le> sint v"
  shows "sleb_get (pre @ sleb_put_narrow v @ post) (length pre)
    = Ret (scast v, length pre + length (sleb_put_narrow v))"
proof (cases "sint v < 0")
  case True
  let ?z = "NOT (push_bit 1 (ucast v :: 32 word))"
  let ?b = "ucast ?z :: byte"
  have ones: "bit v n" if "6 \<le> n" "n < LENGTH('a)" for n
    using True low that by (rule bits_small_negative)
  have b7: "?b AND 0x80 = 0"
    using ones [of 6] len by (simp add: and_0x80 bit_simps)
  let ?w = "ucast ?b AND 0x7F :: 64 word"
  have one: "?w AND 1 = 1"
    unfolding mask7_64 by (rule bit_word_eqI) (auto simp: bit_simps)
  have "drop_bit 1 ?w XOR - 1 = scast v"
  proof (rule bit_word_eqI)
    fix n assume n: "n < LENGTH(64)"
    have top: "bit v (LENGTH('a) - 1)" using True by (simp add: neg_top_bit)
    show "bit (drop_bit 1 ?w XOR - 1) n \<longleftrightarrow> bit (scast v :: 64 word) n"
      unfolding mask7_64 using n ones [of n] top len
      by (cases "n < 6") (auto simp: bit_simps min_def)
  qed
  with one have "drop_bit 1 ?w XOR - (?w AND 1) = scast v" by metis
  with narrow_put_neg [OF len(2) True] uleb_get_single [OF b7, of pre post] show ?thesis
    by (simp add: sleb_get_def)
next
  case False
  then have pos: "0 \<le> sint v" by simp
  let ?z = "push_bit 1 (ucast v :: 64 word)"
  have "drop_bit 1 ?z = scast v"
  proof (rule bit_word_eqI)
    fix n assume n: "n < LENGTH(64)"
    have top: "\<not> bit v (LENGTH('a) - 1)" using False by (simp add: neg_top_bit)
    have "\<not> bit v n" if "LENGTH('a) \<le> n" using that by (auto dest: bit_imp_le_length)
    then show "bit (drop_bit 1 ?z) n \<longleftrightarrow> bit (scast v :: 64 word) n"
      using n top len by (cases "n < LENGTH('a) - 1"; cases "n = LENGTH('a) - 1") (auto simp: bit_simps min_def)
  qed
  then have "drop_bit 1 ?z XOR - (?z AND 1) = scast v"
    unfolding zigzag_even by (simp only: minus_zero xor.right_neutral)
  with narrow_put_nonneg [OF len(2) pos] show ?thesis
    by (simp add: sleb_get_def)
qed

lemma sint_not64: "sint (NOT (x :: 64 word)) = NOT (sint x)"
proof (rule bit_eqI)
  fix n
  show "bit (sint (NOT x)) n \<longleftrightarrow> bit (NOT (sint x)) n"
    by (auto simp: sint_uint bit_signed_take_bit_iff bit_uint_iff bit_not_iff min_def)
qed

lemma sleb_narrow_bad:
  fixes v :: "'a::len word"
  assumes len: "8 \<le> LENGTH('a)" "LENGTH('a) \<le> 16" and low: "sint v < - 64"
  shows "sleb_get (pre @ sleb_put_narrow v @ post) (length pre)
    \<noteq> Ret (scast v, length pre + length (sleb_put_narrow v))"
proof
  assume eq: "sleb_get (pre @ sleb_put_narrow v @ post) (length pre)
    = Ret (scast v, length pre + length (sleb_put_narrow v))"
  let ?b = "ucast (NOT (push_bit 1 (ucast v :: 32 word))) :: byte"
  have put: "sleb_put_narrow v = [?b]" by (rule narrow_put_neg) (use assms in simp_all)
  from eq obtain w where get: "uleb_get (pre @ ?b # post) (length pre) = Ret (w, Suc (length pre))"
    and v: "drop_bit 1 w XOR - (w AND 1) = scast v"
    by (auto simp: put sleb_get_def outcome_simps)
  then have "?b AND 0x80 = 0" using uleb_get_continues [OF _ get] by blast
  with uleb_get_single [OF this, of pre post] get have w: "w = ucast ?b AND 0x7F" by simp
  have one: "w AND 1 = 1"
    unfolding w mask7_64 by (rule bit_word_eqI) (auto simp: bit_simps)
  have "unat (drop_bit 1 w) < 64"
  proof -
    have "unat w \<le> 127"
      unfolding w using word_and_le1 [of "ucast ?b" "0x7F :: 64 word"] by (simp add: word_le_nat_alt)
    then show ?thesis by (simp add: unat_drop_bit_eq drop_bit_eq_div unat_div)
  qed
  then have lt: "uint (drop_bit 1 w) < 64" unfolding uint_nat by linarith
  moreover have "- (2 ^ 63) \<le> uint (drop_bit 1 w)"
    by (rule order_trans [OF _ uint_ge_0]) simp
  ultimately have "sint (drop_bit 1 w) = uint (drop_bit 1 w)"
    by (subst sint_uint, subst signed_take_bit_int_eq_self_iff) simp
  moreover have "scast v = NOT (drop_bit 1 w)" using v by (simp add: one)
  then have "sint (scast v :: 64 word) = NOT (sint (drop_bit 1 w))"
    by (simp only: sint_not64)
  moreover have "sint (scast v :: 64 word) = sint v"
    using len by (simp only: signed_scast_eq) (simp add: sint_uint min_def)
  ultimately have "sint v = - uint (drop_bit 1 w) - 1" by (simp add: not_int_def)
  with lt low show False by simp
qed

end
