(* ===== verification/Location.thy ===== *)
theory Location
  imports Leb
begin

text \<open>
  Where a value lives. \<^verbatim>\<open>vbci/location.h\<close> packs this into one \<open>uintptr_t\<close>: the low three
  bits are a tag, the rest a region or header address or a stack level. The first half of
  this theory is that representation, operation by operation, over 64 bit words. The second
  half is the datatype \<open>loc\<close> the runtime model uses; \<open>enc\<close> maps it into the words, reading an
  identifier \<open>n\<close> as the 8-aligned address \<open>8 n\<close>, and the \<open>enc_\<dots>\<close> lemmas say that every
  operation of the packed form computes what the datatype says.
\<close>

type_synonym rid = nat
type_synonym oid = nat
type_synonym cid = nat

subsection \<open>The packed form\<close>

definition TagStack :: "64 word" where "TagStack = 0x1"
definition TagImmutable :: "64 word" where "TagImmutable = 0x2"
definition TagPending :: "64 word" where "TagPending = 0x3"
definition TagImmortal :: "64 word" where "TagImmortal = 0x4"
definition TagSccPtr :: "64 word" where "TagSccPtr = 0x5"
definition LocMask :: "64 word" where "LocMask = 0x7"
definition FrameInc :: "64 word" where "FrameInc = 0x8"

lemmas tag_defs = TagStack_def TagImmutable_def TagPending_def TagImmortal_def TagSccPtr_def
  LocMask_def FrameInc_def

definition raw_is_region :: "64 word \<Rightarrow> bool" where
  "raw_is_region v \<longleftrightarrow> v AND LocMask = 0"

definition raw_is_stack :: "64 word \<Rightarrow> bool" where
  "raw_is_stack v \<longleftrightarrow> v AND LocMask = TagStack"

definition raw_is_immortal :: "64 word \<Rightarrow> bool" where
  "raw_is_immortal v \<longleftrightarrow> v AND LocMask = TagImmortal"

definition raw_is_immutable :: "64 word \<Rightarrow> bool" where
  "raw_is_immutable v \<longleftrightarrow> (let tag = v AND LocMask in tag = TagImmutable \<or> tag = TagSccPtr)"

definition raw_is_scc_ptr :: "64 word \<Rightarrow> bool" where
  "raw_is_scc_ptr v \<longleftrightarrow> v AND LocMask = TagSccPtr"

definition raw_is_pending :: "64 word \<Rightarrow> bool" where
  "raw_is_pending v \<longleftrightarrow> v AND LocMask = TagPending"

definition raw_pending :: "64 word \<Rightarrow> 64 word outcome" where
  "raw_pending v = obind (oassert (raw_is_region v)) (\<lambda>_. Ret (v OR TagPending))"

definition raw_unpending :: "64 word \<Rightarrow> 64 word outcome" where
  "raw_unpending v = obind (oassert (raw_is_pending v)) (\<lambda>_. Ret (v AND NOT TagPending))"

definition raw_next_stack_level :: "64 word \<Rightarrow> 64 word outcome" where
  "raw_next_stack_level v = obind (oassert (raw_is_stack v)) (\<lambda>_. Ret (v + FrameInc))"

definition raw_stack_index :: "64 word \<Rightarrow> 64 word outcome" where
  "raw_stack_index v = obind (oassert (raw_is_stack v)) (\<lambda>_. Ret ((v - TagStack) div FrameInc))"

definition raw_scc_ptr :: "64 word \<Rightarrow> 64 word" where
  "raw_scc_ptr h = TagSccPtr OR h"

definition raw_scc_target :: "64 word \<Rightarrow> 64 word outcome" where
  "raw_scc_target v = obind (oassert (raw_is_scc_ptr v)) (\<lambda>_. Ret (v AND NOT LocMask))"

subsection \<open>The locations of the model\<close>

datatype loc = LRegion rid | LStack nat | LImmutable | LPending | LImmortal | LScc oid

fun is_region :: "loc \<Rightarrow> bool" where
  "is_region (LRegion r) = True"
| "is_region _ = False"

fun is_stack :: "loc \<Rightarrow> bool" where
  "is_stack (LStack n) = True"
| "is_stack _ = False"

fun is_immutable :: "loc \<Rightarrow> bool" where
  "is_immutable LImmutable = True"
| "is_immutable (LScc h) = True"
| "is_immutable _ = False"

fun is_scc_ptr :: "loc \<Rightarrow> bool" where
  "is_scc_ptr (LScc h) = True"
| "is_scc_ptr _ = False"

definition is_immortal :: "loc \<Rightarrow> bool" where "is_immortal l \<longleftrightarrow> l = LImmortal"

definition is_pending :: "loc \<Rightarrow> bool" where "is_pending l \<longleftrightarrow> l = LPending"

fun stack_index :: "loc \<Rightarrow> nat outcome" where
  "stack_index (LStack n) = Ret n"
| "stack_index _ = Stuck"

fun next_stack_level :: "loc \<Rightarrow> loc outcome" where
  "next_stack_level (LStack n) = Ret (LStack (Suc n))"
| "next_stack_level _ = Stuck"

fun to_region :: "loc \<Rightarrow> rid outcome" where
  "to_region (LRegion r) = Ret r"
| "to_region _ = Stuck"

fun scc_target :: "loc \<Rightarrow> oid outcome" where
  "scc_target (LScc h) = Ret h"
| "scc_target _ = Stuck"

subsection \<open>The representation\<close>

fun loc_id :: "loc \<Rightarrow> nat" where
  "loc_id (LRegion r) = r"
| "loc_id (LStack n) = n"
| "loc_id (LScc h) = h"
| "loc_id _ = 0"

fun loc_tag :: "loc \<Rightarrow> nat" where
  "loc_tag (LRegion r) = 0"
| "loc_tag (LStack n) = 1"
| "loc_tag LImmutable = 2"
| "loc_tag LPending = 3"
| "loc_tag LImmortal = 4"
| "loc_tag (LScc h) = 5"

definition address :: "nat \<Rightarrow> 64 word" where
  "address n = of_nat (8 * n)"

definition enc :: "loc \<Rightarrow> 64 word" where
  "enc l = of_nat (8 * loc_id l + loc_tag l)"

definition loc_ok :: "loc \<Rightarrow> bool" where
  "loc_ok l \<longleftrightarrow> loc_id l < 2 ^ 61"

lemma loc_tag_less: "loc_tag l < 8"
  by (cases l) auto

lemma packed_tag: "t < 8 \<Longrightarrow> (of_nat (8 * n + t) :: 64 word) AND LocMask = of_nat t"
proof -
  assume t: "t < 8"
  have "(of_nat (8 * n + t) :: 64 word) AND LocMask = take_bit 3 (of_nat (8 * n + t))"
    by (simp add: LocMask_def take_bit_eq_mask mask_eq_exp_minus_1)
  also have "\<dots> = of_nat ((8 * n + t) mod 2 ^ 3)"
    by (simp only: take_bit_of_nat) (simp only: take_bit_eq_mod)
  also have "(8 * n + t) mod 2 ^ 3 = t" using t by simp
  finally show ?thesis .
qed

lemma enc_tag: "enc l AND LocMask = of_nat (loc_tag l)"
  unfolding enc_def by (rule packed_tag [OF loc_tag_less])

lemma enc_is_region: "raw_is_region (enc l) \<longleftrightarrow> is_region l"
  by (cases l) (simp_all add: raw_is_region_def enc_tag)

lemma enc_is_stack: "raw_is_stack (enc l) \<longleftrightarrow> is_stack l"
  by (cases l) (simp_all add: raw_is_stack_def enc_tag TagStack_def)

lemma enc_is_immortal: "raw_is_immortal (enc l) \<longleftrightarrow> is_immortal l"
  by (cases l) (simp_all add: raw_is_immortal_def enc_tag TagImmortal_def is_immortal_def)

lemma enc_is_immutable: "raw_is_immutable (enc l) \<longleftrightarrow> is_immutable l"
  by (cases l) (simp_all add: raw_is_immutable_def enc_tag TagImmutable_def TagSccPtr_def)

lemma enc_is_scc_ptr: "raw_is_scc_ptr (enc l) \<longleftrightarrow> is_scc_ptr l"
  by (cases l) (simp_all add: raw_is_scc_ptr_def enc_tag TagSccPtr_def)

lemma enc_is_pending: "raw_is_pending (enc l) \<longleftrightarrow> is_pending l"
  by (cases l) (simp_all add: raw_is_pending_def enc_tag TagPending_def is_pending_def)

lemma unat_of_small: "n < 2 ^ 64 \<Longrightarrow> unat (of_nat n :: 64 word) = n"
  by (simp only: unsigned_of_nat) (simp add: take_bit_eq_mod)

lemma enc_inject:
  assumes "loc_ok l" "loc_ok m" "enc l = enc m"
  shows "l = m"
proof -
  have b: "8 * loc_id k + loc_tag k < 2 ^ 64" if "loc_ok k" for k
    using that loc_tag_less [of k] by (simp add: loc_ok_def)
  have "8 * loc_id l + loc_tag l = 8 * loc_id m + loc_tag m"
    using arg_cong [OF assms(3), of unat] b [OF assms(1)] b [OF assms(2)]
    by (simp only: enc_def unat_of_small)
  with loc_tag_less [of l] loc_tag_less [of m] have "loc_id l = loc_id m" "loc_tag l = loc_tag m"
    by presburger+
  then show ?thesis by (cases l; cases m) auto
qed

lemma mask_split: "(x :: 64 word) AND NOT m = x - (x AND m)"
proof -
  have "(x AND NOT m) AND (x AND m) = 0" by (rule bit_word_eqI) (simp add: bit_simps)
  moreover have "(x AND NOT m) OR (x AND m) = x" by (rule bit_word_eqI) (auto simp: bit_simps)
  ultimately have "(x AND NOT m) + (x AND m) = x"
    by (metis word_plus_and_or add_0)
  then show ?thesis by (simp add: algebra_simps)
qed

lemma enc_scc: "enc (LScc h) = raw_scc_ptr (address h)"
proof -
  have "(address h AND TagSccPtr) = (address h AND LocMask) AND TagSccPtr"
    by (simp add: and.assoc tag_defs)
  also have "address h AND LocMask = 0"
    using packed_tag [of 0 h] by (simp add: address_def)
  finally have "TagSccPtr AND address h = 0" by (simp add: and.commute)
  then have "raw_scc_ptr (address h) = TagSccPtr + address h"
    unfolding raw_scc_ptr_def by (metis word_plus_and_or add_0)
  then show ?thesis by (simp add: enc_def address_def TagSccPtr_def)
qed

lemma enc_scc_target: "raw_scc_target (enc (LScc h)) = Ret (address h)"
  by (simp add: raw_scc_target_def enc_is_scc_ptr mask_split enc_tag)
    (simp add: enc_def address_def)

lemma enc_region: "enc (LRegion r) = address r"
  by (simp add: enc_def address_def)

lemma enc_next_stack_level:
  "raw_next_stack_level (enc (LStack n)) = Ret (enc (LStack (Suc n)))"
  using enc_is_stack [of "LStack n"]
  by (simp add: raw_next_stack_level_def) (simp add: enc_def FrameInc_def)

lemma enc_stack_index:
  assumes "loc_ok (LStack n)"
  shows "raw_stack_index (enc (LStack n)) = Ret (of_nat n)"
proof -
  have "(of_nat (8 * n) :: 64 word) div 8 = of_nat n"
    using assms by (simp only: word_arith_nat_div unat_of_small loc_ok_def loc_id.simps) (simp add: unat_of_small del: of_nat_mult)
  with enc_is_stack [of "LStack n"] show ?thesis
    by (simp add: raw_stack_index_def TagStack_def FrameInc_def) (simp add: enc_def)
qed

lemma pending_unpending:
  assumes "raw_is_region v"
  shows "obind (raw_pending v) raw_unpending = Ret v"
proof -
  have low: "v AND LocMask = 0" using assms by (simp add: raw_is_region_def)
  have "(v OR TagPending) AND LocMask = (v AND LocMask) OR (TagPending AND LocMask)"
    by (rule bit_word_eqI) (auto simp: bit_simps)
  then have p: "raw_is_pending (v OR TagPending)"
    using low by (simp add: raw_is_pending_def tag_defs)
  have "(v OR TagPending) AND NOT TagPending = v AND NOT TagPending"
    by (rule bit_word_eqI) (auto simp: bit_simps)
  also have "v AND TagPending = (v AND LocMask) AND TagPending"
    by (simp add: and.assoc tag_defs)
  with low have "v AND NOT TagPending = v" by (simp add: mask_split)
  finally show ?thesis using assms p by (simp add: raw_pending_def raw_unpending_def)
qed

end
