(* ===== verification/Value.thy ===== *)
theory Value
  imports Format Location
begin

text \<open>
  The interpreter's values (\<^verbatim>\<open>vbci/value.h\<close>): the tagged union is a datatype with a
  constructor per \<open>ValueType\<close> that a live value can have, integers at their width, floats as
  their IEEE bit patterns, pointers into the heap as identifiers. The \<open>bool\<close> argument of the
  pointer-like values is the \<open>readonly\<close> bit, which other values never carry. A register
  reference holds the register index and the stack level of its frame; a field or array
  reference the header and the slot. \<open>long\<close> and \<open>size_t\<close> are 64 bits wide.
\<close>

datatype val =
    NoneV
  | BoolV bool
  | I8V "8 word" | I16V "16 word" | I32V "32 word" | I64V "64 word"
  | U8V "8 word" | U16V "16 word" | U32V "32 word" | U64V "64 word"
  | ILongV "64 word" | ULongV "64 word" | ISizeV "64 word" | USizeV "64 word"
  | F32V "32 word" | F64V "64 word"
  | PtrV "64 word" bool
  | ObjectV oid bool
  | ArrayV oid bool
  | CownV cid bool
  | RegisterRefV nat nat bool
  | FieldRefV oid nat bool
  | ArrayRefV oid nat bool
  | CownRefV cid bool
  | FunctionV nat
  | ErrorV error nat nat
  | InvalidV

fun get_value_type :: "val \<Rightarrow> vtype" where
  "get_value_type NoneV = VNone"
| "get_value_type (BoolV b) = VBool"
| "get_value_type (I8V v) = VI8"
| "get_value_type (I16V v) = VI16"
| "get_value_type (I32V v) = VI32"
| "get_value_type (I64V v) = VI64"
| "get_value_type (U8V v) = VU8"
| "get_value_type (U16V v) = VU16"
| "get_value_type (U32V v) = VU32"
| "get_value_type (U64V v) = VU64"
| "get_value_type (ILongV v) = VILong"
| "get_value_type (ULongV v) = VULong"
| "get_value_type (ISizeV v) = VISize"
| "get_value_type (USizeV v) = VUSize"
| "get_value_type (F32V v) = VF32"
| "get_value_type (F64V v) = VF64"
| "get_value_type (PtrV v ro) = VPtr"
| "get_value_type (ObjectV p ro) = VObject"
| "get_value_type (ArrayV p ro) = VArray"
| "get_value_type (CownV p ro) = VCown"
| "get_value_type (RegisterRefV i f ro) = VRegisterRef"
| "get_value_type (FieldRefV p i ro) = VFieldRef"
| "get_value_type (ArrayRefV p i ro) = VArrayRef"
| "get_value_type (CownRefV p ro) = VCownRef"
| "get_value_type (FunctionV f) = VFunction"
| "get_value_type (ErrorV e f pc) = VError"
| "get_value_type InvalidV = VInvalid"

fun is_readonly :: "val \<Rightarrow> bool" where
  "is_readonly (PtrV v ro) = ro"
| "is_readonly (ObjectV p ro) = ro"
| "is_readonly (ArrayV p ro) = ro"
| "is_readonly (CownV p ro) = ro"
| "is_readonly (RegisterRefV i f ro) = ro"
| "is_readonly (FieldRefV p i ro) = ro"
| "is_readonly (ArrayRefV p i ro) = ro"
| "is_readonly (CownRefV p ro) = ro"
| "is_readonly _ = False"

text \<open>\<open>v.readonly = true\<close>\<close>

fun set_readonly :: "val \<Rightarrow> val" where
  "set_readonly (PtrV v ro) = PtrV v True"
| "set_readonly (ObjectV p ro) = ObjectV p True"
| "set_readonly (ArrayV p ro) = ArrayV p True"
| "set_readonly (CownV p ro) = CownV p True"
| "set_readonly (RegisterRefV i f ro) = RegisterRefV i f True"
| "set_readonly (FieldRefV p i ro) = FieldRefV p i True"
| "set_readonly (ArrayRefV p i ro) = ArrayRefV p i True"
| "set_readonly (CownRefV p ro) = CownRefV p True"
| "set_readonly v = v"

fun is_invalid :: "val \<Rightarrow> bool" where
  "is_invalid InvalidV = True"
| "is_invalid _ = False"

fun is_header :: "val \<Rightarrow> bool" where
  "is_header (ObjectV p ro) = True"
| "is_header (ArrayV p ro) = True"
| "is_header _ = False"

fun is_object :: "val \<Rightarrow> bool" where
  "is_object (ObjectV p ro) = True"
| "is_object _ = False"

fun is_cown_value :: "val \<Rightarrow> bool" where
  "is_cown_value (CownV p ro) = True"
| "is_cown_value _ = False"

fun is_error :: "val \<Rightarrow> bool" where
  "is_error (ErrorV e f pc) = True"
| "is_error _ = False"

subsection \<open>Checked access\<close>

fun get_bool :: "val \<Rightarrow> bool outcome" where
  "get_bool (BoolV b) = Ret b"
| "get_bool _ = Raise BadConversion"

fun get_i32 :: "val \<Rightarrow> 32 word outcome" where
  "get_i32 (I32V v) = Ret v"
| "get_i32 _ = Raise BadConversion"

fun get_u8 :: "val \<Rightarrow> 8 word outcome" where
  "get_u8 (U8V v) = Ret v"
| "get_u8 _ = Raise BadConversion"

fun get_u64 :: "val \<Rightarrow> 64 word outcome" where
  "get_u64 (U64V v) = Ret v"
| "get_u64 _ = Raise BadConversion"

fun get_ptr :: "val \<Rightarrow> 64 word outcome" where
  "get_ptr (PtrV v ro) = Ret v"
| "get_ptr _ = Raise BadConversion"

fun get_header :: "val \<Rightarrow> oid outcome" where
  "get_header (ObjectV p ro) = Ret p"
| "get_header (ArrayV p ro) = Ret p"
| "get_header _ = Raise BadConversion"

fun get_object :: "val \<Rightarrow> oid outcome" where
  "get_object (ObjectV p ro) = Ret p"
| "get_object _ = Raise BadConversion"

fun get_array :: "val \<Rightarrow> oid outcome" where
  "get_array (ArrayV p ro) = Ret p"
| "get_array _ = Raise BadConversion"

fun get_cown :: "val \<Rightarrow> cid outcome" where
  "get_cown (CownV p ro) = Ret p"
| "get_cown _ = Raise BadConversion"

fun get_size :: "val \<Rightarrow> 64 word outcome" where
  "get_size (USizeV v) = Ret v"
| "get_size _ = Raise BadConversion"

fun function_of :: "val \<Rightarrow> nat option" where
  "function_of (FunctionV f) = Some f"
| "function_of _ = None"

text \<open>\<open>op_read\<close>: a read-only view of a cown (or of a raw pointer).\<close>

fun op_read :: "val \<Rightarrow> val outcome" where
  "op_read (CownV p ro) = Ret (CownV p True)"
| "op_read (PtrV v ro) = Ret (PtrV v True)"
| "op_read _ = Raise BadOperand"

lemma is_header_get_header: "is_header v \<longleftrightarrow> (\<exists>h. get_header v = Ret h)"
  by (cases v) auto

lemma is_readonly_set: "is_readonly (set_readonly v) \<or> set_readonly v = v"
  by (cases v) auto

end
