(* ===== verification/Arith.thy ===== *)
theory Arith
  imports Value
begin

text \<open>
  Arithmetic on values (\<^verbatim>\<open>vbci/value.h\<close>, \<open>Value::convert\<close> of \<^verbatim>\<open>vbci/value.cc\<close>).

  The templates \<open>unop\<close> and \<open>binop\<close> apply a C++ functor at the static type of the operands
  and wrap the result with the \<open>Value\<close> constructor of the functor's result type. Both matter:
  operands narrower than \<open>int\<close> are promoted, so a functor's result type is often not the
  operand type. A functor on integers is therefore a function of the static type (\<open>cty\<close>) and
  the mathematical operands, and gives a \<open>cres\<close>: a \<open>bool\<close> or an integer with its static type.
  Signed overflow, division by zero and an out-of-range shift amount are undefined behaviour:
  \<open>Stuck\<close>. Since C++20 shifts of negative values are defined.

  Floating point values are IEEE bit patterns. Comparison, classification, negation and
  absolute value are defined on the patterns; rounding arithmetic and \<^verbatim>\<open>libm\<close> are the
  parameters collected in \<open>fp_env\<close>, and \<open>pointer_bits\<close> there is the address a pointer value
  has as an integer.
\<close>

subsection \<open>C++ integer expressions\<close>

datatype cty = CI8 | CI16 | CI32 | CI64 | CU8 | CU16 | CU32 | CU64

fun width :: "cty \<Rightarrow> nat" where
  "width CI8 = 8" | "width CI16 = 16" | "width CI32 = 32" | "width CI64 = 64"
| "width CU8 = 8" | "width CU16 = 16" | "width CU32 = 32" | "width CU64 = 64"

fun is_signed :: "cty \<Rightarrow> bool" where
  "is_signed CI8 = True" | "is_signed CI16 = True" | "is_signed CI32 = True" | "is_signed CI64 = True"
| "is_signed _ = False"

text \<open>Integer promotion: types narrower than \<open>int\<close> become \<open>int\<close>.\<close>

fun promote :: "cty \<Rightarrow> cty" where
  "promote CI8 = CI32" | "promote CI16 = CI32" | "promote CU8 = CI32" | "promote CU16 = CI32"
| "promote t = t"

definition in_range :: "cty \<Rightarrow> int \<Rightarrow> bool" where
  "in_range t n \<longleftrightarrow>
     (if is_signed t then - (2 ^ (width t - 1)) \<le> n \<and> n < 2 ^ (width t - 1)
      else 0 \<le> n \<and> n < 2 ^ width t)"

definition wrap :: "cty \<Rightarrow> int \<Rightarrow> int" where
  "wrap t n = (if is_signed t then signed_take_bit (width t - 1) n else take_bit (width t) n)"

datatype cres = CBool bool | CVal cty int

type_synonym int_op = "cty \<Rightarrow> int \<Rightarrow> int \<Rightarrow> cres outcome"

text \<open>An arithmetic result at type \<open>t\<close>: unsigned wraps, signed overflow is undefined.\<close>

definition arith :: "cty \<Rightarrow> int \<Rightarrow> cres outcome" where
  "arith t n = (if is_signed t then (if in_range t n then Ret (CVal t n) else Stuck)
                else Ret (CVal t (wrap t n)))"

definition c_plus :: int_op where "c_plus t a b = arith (promote t) (a + b)"
definition c_minus :: int_op where "c_minus t a b = arith (promote t) (a - b)"
definition c_multiplies :: int_op where "c_multiplies t a b = arith (promote t) (a * b)"

text \<open>Division truncates towards zero; the remainder has the sign of the dividend.\<close>

definition quot :: "int \<Rightarrow> int \<Rightarrow> int" where
  "quot a b = sgn a * sgn b * (\<bar>a\<bar> div \<bar>b\<bar>)"

definition remainder :: "int \<Rightarrow> int \<Rightarrow> int" where
  "remainder a b = sgn a * (\<bar>a\<bar> mod \<bar>b\<bar>)"

definition c_divides :: int_op where
  "c_divides t a b = (if b = 0 then Stuck else arith (promote t) (quot a b))"

definition c_modulus :: int_op where
  "c_modulus t a b =
     (if b = 0 then Stuck
      else obind (arith (promote t) (quot a b)) (\<lambda>_. Ret (CVal (promote t) (remainder a b))))"

definition c_bit_and :: int_op where "c_bit_and t a b = Ret (CVal (promote t) (a AND b))"
definition c_bit_or :: int_op where "c_bit_or t a b = Ret (CVal (promote t) (a OR b))"
definition c_bit_xor :: int_op where "c_bit_xor t a b = Ret (CVal (promote t) (a XOR b))"

definition c_shl :: int_op where
  "c_shl t a b = (let p = promote t in
     if 0 \<le> b \<and> b < int (width p) then Ret (CVal p (wrap p (push_bit (nat b) a))) else Stuck)"

definition c_shr :: int_op where
  "c_shr t a b = (let p = promote t in
     if 0 \<le> b \<and> b < int (width p) then Ret (CVal p (drop_bit (nat b) a)) else Stuck)"

definition c_less :: int_op where "c_less t a b = Ret (CBool (a < b))"
definition c_less_equal :: int_op where "c_less_equal t a b = Ret (CBool (a \<le> b))"
definition c_greater :: int_op where "c_greater t a b = Ret (CBool (a > b))"
definition c_greater_equal :: int_op where "c_greater_equal t a b = Ret (CBool (a \<ge> b))"

text \<open>\<open>std::min\<close> and \<open>std::max\<close> return one of their arguments: no promotion.\<close>

definition c_min :: int_op where "c_min t a b = Ret (CVal t (if b < a then b else a))"
definition c_max :: int_op where "c_max t a b = Ret (CVal t (if a < b then b else a))"

definition nobinop :: int_op where "nobinop t a b = Raise BadOperand"

subsection \<open>Floating point\<close>

text \<open>\<open>m\<close> is the number of mantissa bits: 23 for \<open>float\<close>, 52 for \<open>double\<close>.\<close>

definition fp_mag :: "'a::len word \<Rightarrow> int" where
  "fp_mag v = uint (take_bit (LENGTH('a) - 1) v)"

definition fp_inf :: "nat \<Rightarrow> 'a::len word \<Rightarrow> int" where
  "fp_inf m v = (2 ^ (LENGTH('a) - 1 - m) - 1) * 2 ^ m"

definition fp_isnan :: "nat \<Rightarrow> 'a::len word \<Rightarrow> bool" where
  "fp_isnan m v \<longleftrightarrow> fp_mag v > fp_inf m v"

definition fp_isinf :: "nat \<Rightarrow> 'a::len word \<Rightarrow> bool" where
  "fp_isinf m v \<longleftrightarrow> fp_mag v = fp_inf m v"

definition fp_key :: "'a::len word \<Rightarrow> int" where
  "fp_key v = (if bit v (LENGTH('a) - 1) then - fp_mag v else fp_mag v)"

definition fp_lt :: "nat \<Rightarrow> 'a::len word \<Rightarrow> 'a word \<Rightarrow> bool" where
  "fp_lt m a b \<longleftrightarrow> \<not> fp_isnan m a \<and> \<not> fp_isnan m b \<and> fp_key a < fp_key b"

definition fp_le :: "nat \<Rightarrow> 'a::len word \<Rightarrow> 'a word \<Rightarrow> bool" where
  "fp_le m a b \<longleftrightarrow> \<not> fp_isnan m a \<and> \<not> fp_isnan m b \<and> fp_key a \<le> fp_key b"

definition fp_eq :: "nat \<Rightarrow> 'a::len word \<Rightarrow> 'a word \<Rightarrow> bool" where
  "fp_eq m a b \<longleftrightarrow> \<not> fp_isnan m a \<and> \<not> fp_isnan m b \<and> fp_key a = fp_key b"

definition fp_neg :: "'a::len word \<Rightarrow> 'a word" where
  "fp_neg v = v XOR push_bit (LENGTH('a) - 1) 1"

definition fp_abs :: "'a::len word \<Rightarrow> 'a word" where
  "fp_abs v = take_bit (LENGTH('a) - 1) v"

datatype fp_op2 = FAdd | FSub | FMul | FDiv | FMod | FPow | FLogbase | FAtan2

datatype fp_op1 =
    FCeil | FFloor | FExp | FLog | FSqrt | FCbrt | FSin | FCos | FTan | FAsin | FAcos | FAtan
  | FSinh | FCosh | FTanh | FAsinh | FAcosh | FAtanh

text \<open>Rounding arithmetic, \<^verbatim>\<open>libm\<close> and pointer addresses; \<open>trunc\<close> is the integer part of a finite
  double, \<open>None\<close> for an infinity or NaN.\<close>

record fp_env =
  fp32_2 :: "fp_op2 \<Rightarrow> 32 word \<Rightarrow> 32 word \<Rightarrow> 32 word"
  fp64_2 :: "fp_op2 \<Rightarrow> 64 word \<Rightarrow> 64 word \<Rightarrow> 64 word"
  fp32_1 :: "fp_op1 \<Rightarrow> 32 word \<Rightarrow> 32 word"
  fp64_1 :: "fp_op1 \<Rightarrow> 64 word \<Rightarrow> 64 word"
  widen :: "32 word \<Rightarrow> 64 word"
  narrow :: "64 word \<Rightarrow> 32 word"
  trunc :: "64 word \<Rightarrow> int option"
  fp32_of_nat :: "nat \<Rightarrow> 32 word"
  fp64_of_nat :: "nat \<Rightarrow> 64 word"
  pointer_bits :: "val \<Rightarrow> 64 word"

text \<open>The functor at \<open>float\<close> and \<open>double\<close>: a number, a truth value, or not an operation.\<close>

datatype 'a fres = FNum 'a | FBool bool

record float_op =
  at32 :: "32 word \<Rightarrow> 32 word \<Rightarrow> 32 word fres outcome"
  at64 :: "64 word \<Rightarrow> 64 word \<Rightarrow> 64 word fres outcome"

definition fl :: "fp_env \<Rightarrow> fp_op2 \<Rightarrow> float_op" where
  "fl E f = \<lparr>at32 = \<lambda>a b. Ret (FNum (fp32_2 E f a b)), at64 = \<lambda>a b. Ret (FNum (fp64_2 E f a b))\<rparr>"

definition no_fl :: float_op where
  "no_fl = \<lparr>at32 = \<lambda>a b. Raise BadOperand, at64 = \<lambda>a b. Raise BadOperand\<rparr>"

definition fl_less :: float_op where
  "fl_less = \<lparr>at32 = \<lambda>a b. Ret (FBool (fp_lt 23 a b)), at64 = \<lambda>a b. Ret (FBool (fp_lt 52 a b))\<rparr>"

definition fl_less_equal :: float_op where
  "fl_less_equal = \<lparr>at32 = \<lambda>a b. Ret (FBool (fp_le 23 a b)), at64 = \<lambda>a b. Ret (FBool (fp_le 52 a b))\<rparr>"

definition fl_greater :: float_op where
  "fl_greater = \<lparr>at32 = \<lambda>a b. Ret (FBool (fp_lt 23 b a)), at64 = \<lambda>a b. Ret (FBool (fp_lt 52 b a))\<rparr>"

definition fl_greater_equal :: float_op where
  "fl_greater_equal =
     \<lparr>at32 = \<lambda>a b. Ret (FBool (fp_le 23 b a)), at64 = \<lambda>a b. Ret (FBool (fp_le 52 b a))\<rparr>"

definition fl_min :: float_op where
  "fl_min = \<lparr>at32 = \<lambda>a b. Ret (FNum (if fp_lt 23 b a then b else a)),
             at64 = \<lambda>a b. Ret (FNum (if fp_lt 52 b a then b else a))\<rparr>"

definition fl_max :: float_op where
  "fl_max = \<lparr>at32 = \<lambda>a b. Ret (FNum (if fp_lt 23 a b then b else a)),
             at64 = \<lambda>a b. Ret (FNum (if fp_lt 52 a b then b else a))\<rparr>"

type_synonym bool_op = "bool \<Rightarrow> bool \<Rightarrow> bool outcome"

definition no_bool :: bool_op where "no_bool a b = Raise BadOperand"

subsection \<open>The templates\<close>

text \<open>The \<open>Value\<close> constructor chosen by the static type of a result.\<close>

fun value_of :: "cres \<Rightarrow> val" where
  "value_of (CBool b) = BoolV b"
| "value_of (CVal CI8 n) = I8V (word_of_int n)"
| "value_of (CVal CI16 n) = I16V (word_of_int n)"
| "value_of (CVal CI32 n) = I32V (word_of_int n)"
| "value_of (CVal CI64 n) = I64V (word_of_int n)"
| "value_of (CVal CU8 n) = U8V (word_of_int n)"
| "value_of (CVal CU16 n) = U16V (word_of_int n)"
| "value_of (CVal CU32 n) = U32V (word_of_int n)"
| "value_of (CVal CU64 n) = U64V (word_of_int n)"

fun cast :: "cres \<Rightarrow> 'a::len word" where
  "cast (CBool b) = of_bool b"
| "cast (CVal t n) = word_of_int n"

fun value_of32 :: "32 word fres \<Rightarrow> val" where
  "value_of32 (FNum v) = F32V v"
| "value_of32 (FBool b) = BoolV b"

fun value_of64 :: "64 word fres \<Rightarrow> val" where
  "value_of64 (FNum v) = F64V v"
| "value_of64 (FBool b) = BoolV b"

fun retag :: "vtype \<Rightarrow> 64 word \<Rightarrow> val outcome" where
  "retag VILong w = Ret (ILongV w)"
| "retag VULong w = Ret (ULongV w)"
| "retag VISize w = Ret (ISizeV w)"
| "retag VUSize w = Ret (USizeV w)"
| "retag _ w = Stuck"

text \<open>
  \<open>platform_tag\<close> replaces the tag of an integer result. The 64 bit types are the ones it is
  given here; a 32 bit result would leave the upper half of the union unwritten.
\<close>

fun platform_tag :: "vtype \<Rightarrow> val \<Rightarrow> val outcome" where
  "platform_tag t (I64V w) = retag t w"
| "platform_tag t (U64V w) = retag t w"
| "platform_tag t (I32V w) = Stuck"
| "platform_tag t (U32V w) = Stuck"
| "platform_tag t v = Ret v"

record binop_functors =
  opB :: bool_op
  opI :: int_op
  opU :: int_op
  opF :: float_op

fun binop_same :: "binop_functors \<Rightarrow> val \<Rightarrow> val \<Rightarrow> val outcome" where
  "binop_same F (BoolV a) v = (case v of BoolV b \<Rightarrow>
     obind (opB F a b) (\<lambda>r. Ret (BoolV r))
   | _ \<Rightarrow> Raise BadOperand)"
| "binop_same F (I8V a) v = (case v of I8V b \<Rightarrow>
     obind (opI F CI8 (sint a) (sint b)) (\<lambda>r. Ret (I8V (cast r)))
   | _ \<Rightarrow> Raise BadOperand)"
| "binop_same F (I16V a) v = (case v of I16V b \<Rightarrow>
     obind (opI F CI16 (sint a) (sint b)) (\<lambda>r. Ret (I16V (cast r)))
   | _ \<Rightarrow> Raise BadOperand)"
| "binop_same F (I32V a) v = (case v of I32V b \<Rightarrow>
     obind (opI F CI32 (sint a) (sint b)) (\<lambda>r. Ret (value_of r))
   | _ \<Rightarrow> Raise BadOperand)"
| "binop_same F (I64V a) v = (case v of I64V b \<Rightarrow>
     obind (opI F CI64 (sint a) (sint b)) (\<lambda>r. Ret (value_of r))
   | _ \<Rightarrow> Raise BadOperand)"
| "binop_same F (U8V a) v = (case v of U8V b \<Rightarrow>
     obind (opU F CU8 (uint a) (uint b)) (\<lambda>r. Ret (U8V (cast r)))
   | _ \<Rightarrow> Raise BadOperand)"
| "binop_same F (U16V a) v = (case v of U16V b \<Rightarrow>
     obind (opU F CU16 (uint a) (uint b)) (\<lambda>r. Ret (U16V (cast r)))
   | _ \<Rightarrow> Raise BadOperand)"
| "binop_same F (U32V a) v = (case v of U32V b \<Rightarrow>
     obind (opU F CU32 (uint a) (uint b)) (\<lambda>r. Ret (value_of r))
   | _ \<Rightarrow> Raise BadOperand)"
| "binop_same F (U64V a) v = (case v of U64V b \<Rightarrow>
     obind (opU F CU64 (uint a) (uint b)) (\<lambda>r. Ret (value_of r))
   | _ \<Rightarrow> Raise BadOperand)"
| "binop_same F (ILongV a) v = (case v of ILongV b \<Rightarrow>
     obind (opI F CI64 (sint a) (sint b)) (\<lambda>r. platform_tag VILong (value_of r))
   | _ \<Rightarrow> Raise BadOperand)"
| "binop_same F (ULongV a) v = (case v of ULongV b \<Rightarrow>
     obind (opU F CU64 (uint a) (uint b)) (\<lambda>r. platform_tag VULong (value_of r))
   | _ \<Rightarrow> Raise BadOperand)"
| "binop_same F (ISizeV a) v = (case v of ISizeV b \<Rightarrow>
     obind (opI F CI64 (sint a) (sint b)) (\<lambda>r. platform_tag VISize (value_of r))
   | _ \<Rightarrow> Raise BadOperand)"
| "binop_same F (USizeV a) v = (case v of USizeV b \<Rightarrow>
     obind (opU F CU64 (uint a) (uint b)) (\<lambda>r. platform_tag VUSize (value_of r))
   | _ \<Rightarrow> Raise BadOperand)"
| "binop_same F (F32V a) v = (case v of F32V b \<Rightarrow>
     obind (at32 (opF F) a b) (\<lambda>r. Ret (value_of32 r))
   | _ \<Rightarrow> Raise BadOperand)"
| "binop_same F (F64V a) v = (case v of F64V b \<Rightarrow>
     obind (at64 (opF F) a b) (\<lambda>r. Ret (value_of64 r))
   | _ \<Rightarrow> Raise BadOperand)"
| "binop_same F a v = Raise BadOperand"

definition binop :: "binop_functors \<Rightarrow> val \<Rightarrow> val \<Rightarrow> val outcome" where
  "binop F a b = (if get_value_type a \<noteq> get_value_type b then Raise MismatchedTypes else binop_same F a b)"

subsection \<open>Binary operations\<close>

definition op_add :: "fp_env \<Rightarrow> val \<Rightarrow> val \<Rightarrow> val outcome" where
  "op_add E = binop \<lparr>opB = no_bool, opI = c_plus, opU = c_plus, opF = fl E FAdd\<rparr>"

definition op_sub :: "fp_env \<Rightarrow> val \<Rightarrow> val \<Rightarrow> val outcome" where
  "op_sub E = binop \<lparr>opB = no_bool, opI = c_minus, opU = c_minus, opF = fl E FSub\<rparr>"

definition op_mul :: "fp_env \<Rightarrow> val \<Rightarrow> val \<Rightarrow> val outcome" where
  "op_mul E = binop \<lparr>opB = no_bool, opI = c_multiplies, opU = c_multiplies, opF = fl E FMul\<rparr>"

definition op_div :: "fp_env \<Rightarrow> val \<Rightarrow> val \<Rightarrow> val outcome" where
  "op_div E = binop \<lparr>opB = no_bool, opI = c_divides, opU = c_divides, opF = fl E FDiv\<rparr>"

definition op_mod :: "fp_env \<Rightarrow> val \<Rightarrow> val \<Rightarrow> val outcome" where
  "op_mod E = binop \<lparr>opB = no_bool, opI = c_modulus, opU = c_modulus, opF = fl E FMod\<rparr>"

definition op_pow :: "fp_env \<Rightarrow> val \<Rightarrow> val \<Rightarrow> val outcome" where
  "op_pow E = binop \<lparr>opB = no_bool, opI = nobinop, opU = nobinop, opF = fl E FPow\<rparr>"

definition op_and :: "val \<Rightarrow> val \<Rightarrow> val outcome" where
  "op_and = binop \<lparr>opB = \<lambda>a b. Ret (a \<and> b), opI = c_bit_and, opU = c_bit_and, opF = no_fl\<rparr>"

definition op_or :: "val \<Rightarrow> val \<Rightarrow> val outcome" where
  "op_or = binop \<lparr>opB = \<lambda>a b. Ret (a \<or> b), opI = c_bit_or, opU = c_bit_or, opF = no_fl\<rparr>"

definition op_xor :: "val \<Rightarrow> val \<Rightarrow> val outcome" where
  "op_xor = binop \<lparr>opB = \<lambda>a b. Ret (a \<noteq> b), opI = c_bit_xor, opU = c_bit_xor, opF = no_fl\<rparr>"

definition op_shl :: "val \<Rightarrow> val \<Rightarrow> val outcome" where
  "op_shl = binop \<lparr>opB = no_bool, opI = c_shl, opU = c_shl, opF = no_fl\<rparr>"

definition op_shr :: "val \<Rightarrow> val \<Rightarrow> val outcome" where
  "op_shr = binop \<lparr>opB = no_bool, opI = c_shr, opU = c_shr, opF = no_fl\<rparr>"

definition op_lt :: "val \<Rightarrow> val \<Rightarrow> val outcome" where
  "op_lt = binop \<lparr>opB = \<lambda>a b. Ret (a < b), opI = c_less, opU = c_less, opF = fl_less\<rparr>"

definition op_le :: "val \<Rightarrow> val \<Rightarrow> val outcome" where
  "op_le = binop \<lparr>opB = \<lambda>a b. Ret (a \<le> b), opI = c_less_equal, opU = c_less_equal, opF = fl_less_equal\<rparr>"

definition op_gt :: "val \<Rightarrow> val \<Rightarrow> val outcome" where
  "op_gt = binop \<lparr>opB = \<lambda>a b. Ret (b < a), opI = c_greater, opU = c_greater, opF = fl_greater\<rparr>"

definition op_ge :: "val \<Rightarrow> val \<Rightarrow> val outcome" where
  "op_ge = binop \<lparr>opB = \<lambda>a b. Ret (b \<le> a), opI = c_greater_equal, opU = c_greater_equal, opF = fl_greater_equal\<rparr>"

definition op_min :: "val \<Rightarrow> val \<Rightarrow> val outcome" where
  "op_min = binop \<lparr>opB = \<lambda>a b. Ret (a \<and> b), opI = c_min, opU = c_min, opF = fl_min\<rparr>"

definition op_max :: "val \<Rightarrow> val \<Rightarrow> val outcome" where
  "op_max = binop \<lparr>opB = \<lambda>a b. Ret (a \<or> b), opI = c_max, opU = c_max, opF = fl_max\<rparr>"

definition op_logbase :: "fp_env \<Rightarrow> val \<Rightarrow> val \<Rightarrow> val outcome" where
  "op_logbase E = binop \<lparr>opB = no_bool, opI = nobinop, opU = nobinop, opF = fl E FLogbase\<rparr>"

definition op_atan2 :: "fp_env \<Rightarrow> val \<Rightarrow> val \<Rightarrow> val outcome" where
  "op_atan2 E = binop \<lparr>opB = no_bool, opI = nobinop, opU = nobinop, opF = fl E FAtan2\<rparr>"

fun eq_same :: "val \<Rightarrow> val \<Rightarrow> bool" where
  "eq_same NoneV v = (case v of NoneV \<Rightarrow> True | _ \<Rightarrow> False)"
| "eq_same (BoolV a) v = (case v of BoolV b \<Rightarrow> (a = b) | _ \<Rightarrow> False)"
| "eq_same (I8V a) v = (case v of I8V b \<Rightarrow> (a = b) | _ \<Rightarrow> False)"
| "eq_same (I16V a) v = (case v of I16V b \<Rightarrow> (a = b) | _ \<Rightarrow> False)"
| "eq_same (I32V a) v = (case v of I32V b \<Rightarrow> (a = b) | _ \<Rightarrow> False)"
| "eq_same (I64V a) v = (case v of I64V b \<Rightarrow> (a = b) | _ \<Rightarrow> False)"
| "eq_same (U8V a) v = (case v of U8V b \<Rightarrow> (a = b) | _ \<Rightarrow> False)"
| "eq_same (U16V a) v = (case v of U16V b \<Rightarrow> (a = b) | _ \<Rightarrow> False)"
| "eq_same (U32V a) v = (case v of U32V b \<Rightarrow> (a = b) | _ \<Rightarrow> False)"
| "eq_same (U64V a) v = (case v of U64V b \<Rightarrow> (a = b) | _ \<Rightarrow> False)"
| "eq_same (ILongV a) v = (case v of ILongV b \<Rightarrow> (a = b) | _ \<Rightarrow> False)"
| "eq_same (ULongV a) v = (case v of ULongV b \<Rightarrow> (a = b) | _ \<Rightarrow> False)"
| "eq_same (ISizeV a) v = (case v of ISizeV b \<Rightarrow> (a = b) | _ \<Rightarrow> False)"
| "eq_same (USizeV a) v = (case v of USizeV b \<Rightarrow> (a = b) | _ \<Rightarrow> False)"
| "eq_same (F32V a) v = (case v of F32V b \<Rightarrow> fp_eq 23 a b | _ \<Rightarrow> False)"
| "eq_same (F64V a) v = (case v of F64V b \<Rightarrow> fp_eq 52 a b | _ \<Rightarrow> False)"
| "eq_same (PtrV a _) v = (case v of PtrV b _ \<Rightarrow> (a = b) | _ \<Rightarrow> False)"
| "eq_same (ObjectV a _) v = (case v of ObjectV b _ \<Rightarrow> (a = b) | _ \<Rightarrow> False)"
| "eq_same (ArrayV a _) v = (case v of ArrayV b _ \<Rightarrow> (a = b) | _ \<Rightarrow> False)"
| "eq_same (CownV a _) v = (case v of CownV b _ \<Rightarrow> (a = b) | _ \<Rightarrow> False)"
| "eq_same (RegisterRefV a _ _) v = (case v of RegisterRefV b _ _ \<Rightarrow> (a = b) | _ \<Rightarrow> False)"
| "eq_same (FieldRefV a i _) v = (case v of FieldRefV b j _ \<Rightarrow> (a = b \<and> i = j) | _ \<Rightarrow> False)"
| "eq_same (ArrayRefV a i _) v = (case v of ArrayRefV b j _ \<Rightarrow> (a = b \<and> i = j) | _ \<Rightarrow> False)"
| "eq_same (CownRefV a _) v = (case v of CownRefV b _ \<Rightarrow> (a = b) | _ \<Rightarrow> False)"
| "eq_same (FunctionV a) v = (case v of FunctionV b \<Rightarrow> (a = b) | _ \<Rightarrow> False)"
| "eq_same (ErrorV a _ _) v = (case v of ErrorV b _ _ \<Rightarrow> (a = b) | _ \<Rightarrow> False)"
| "eq_same InvalidV v = (case v of InvalidV \<Rightarrow> True | _ \<Rightarrow> False)"

definition op_eq :: "val \<Rightarrow> val \<Rightarrow> val" where
  "op_eq a b = BoolV (if get_value_type a \<noteq> get_value_type b then False else eq_same a b)"

definition op_ne :: "val \<Rightarrow> val \<Rightarrow> val" where
  "op_ne a b = (case op_eq a b of BoolV r \<Rightarrow> BoolV (\<not> r) | v \<Rightarrow> v)"

subsection \<open>Unary operations\<close>

type_synonym int_uop = "cty \<Rightarrow> int \<Rightarrow> cres outcome"

record unop_functors =
  uopB :: "bool \<Rightarrow> bool outcome"
  uopI :: int_uop
  uopU :: int_uop
  uopF32 :: "32 word \<Rightarrow> 32 word fres outcome"
  uopF64 :: "64 word \<Rightarrow> 64 word fres outcome"

fun unop :: "unop_functors \<Rightarrow> val \<Rightarrow> val outcome" where
  "unop F (BoolV a) = obind (uopB F a) (\<lambda>r. Ret (BoolV r))"
| "unop F (I8V a) = obind (uopI F CI8 (sint a)) (\<lambda>r. Ret (value_of r))"
| "unop F (I16V a) = obind (uopI F CI16 (sint a)) (\<lambda>r. Ret (value_of r))"
| "unop F (I32V a) = obind (uopI F CI32 (sint a)) (\<lambda>r. Ret (value_of r))"
| "unop F (I64V a) = obind (uopI F CI64 (sint a)) (\<lambda>r. Ret (value_of r))"
| "unop F (U8V a) = obind (uopU F CU8 (uint a)) (\<lambda>r. Ret (value_of r))"
| "unop F (U16V a) = obind (uopU F CU16 (uint a)) (\<lambda>r. Ret (value_of r))"
| "unop F (U32V a) = obind (uopU F CU32 (uint a)) (\<lambda>r. Ret (value_of r))"
| "unop F (U64V a) = obind (uopU F CU64 (uint a)) (\<lambda>r. Ret (value_of r))"
| "unop F (ILongV a) = obind (uopI F CI64 (sint a)) (\<lambda>r. platform_tag VILong (value_of r))"
| "unop F (ULongV a) = obind (uopU F CU64 (uint a)) (\<lambda>r. platform_tag VULong (value_of r))"
| "unop F (ISizeV a) = obind (uopI F CI64 (sint a)) (\<lambda>r. platform_tag VISize (value_of r))"
| "unop F (USizeV a) = obind (uopU F CU64 (uint a)) (\<lambda>r. platform_tag VUSize (value_of r))"
| "unop F (F32V a) = obind (uopF32 F a) (\<lambda>r. Ret (value_of32 r))"
| "unop F (F64V a) = obind (uopF64 F a) (\<lambda>r. Ret (value_of64 r))"
| "unop F a = Raise BadOperand"

definition nounop :: "'a \<Rightarrow> 'b outcome" where "nounop a = Raise BadOperand"
definition nounop_i :: int_uop where "nounop_i t a = Raise BadOperand"

definition c_negate :: int_uop where "c_negate t a = arith (promote t) (- a)"
definition c_bit_not :: int_uop where
  "c_bit_not t a = Ret (CVal (promote t) (wrap (promote t) (NOT a)))"
definition c_abs :: int_uop where "c_abs t a = arith (promote t) \<bar>a\<bar>"

definition op_neg :: "val \<Rightarrow> val outcome" where
  "op_neg = unop \<lparr>uopB = nounop, uopI = c_negate, uopU = c_negate,
     uopF32 = \<lambda>a. Ret (FNum (fp_neg a)), uopF64 = \<lambda>a. Ret (FNum (fp_neg a))\<rparr>"

definition op_not :: "val \<Rightarrow> val outcome" where
  "op_not = unop \<lparr>uopB = \<lambda>b. Ret (\<not> b), uopI = c_bit_not, uopU = c_bit_not,
     uopF32 = nounop, uopF64 = nounop\<rparr>"

definition op_abs :: "val \<Rightarrow> val outcome" where
  "op_abs = unop \<lparr>uopB = nounop, uopI = c_abs, uopU = nounop_i,
     uopF32 = \<lambda>a. Ret (FNum (fp_abs a)), uopF64 = \<lambda>a. Ret (FNum (fp_abs a))\<rparr>"

text \<open>\<open>op_ceil\<close> to \<open>op_atanh\<close>: one \<^verbatim>\<open>libm\<close> function each, on floats only.\<close>

definition op_float :: "fp_env \<Rightarrow> fp_op1 \<Rightarrow> val \<Rightarrow> val outcome" where
  "op_float E f = unop \<lparr>uopB = nounop, uopI = nounop_i, uopU = nounop_i,
     uopF32 = \<lambda>a. Ret (FNum (fp32_1 E f a)), uopF64 = \<lambda>a. Ret (FNum (fp64_1 E f a))\<rparr>"

definition op_isinf :: "val \<Rightarrow> val outcome" where
  "op_isinf = unop \<lparr>uopB = nounop, uopI = nounop_i, uopU = nounop_i,
     uopF32 = \<lambda>a. Ret (FBool (fp_isinf 23 a)), uopF64 = \<lambda>a. Ret (FBool (fp_isinf 52 a))\<rparr>"

definition op_isnan :: "val \<Rightarrow> val outcome" where
  "op_isnan = unop \<lparr>uopB = nounop, uopI = nounop_i, uopU = nounop_i,
     uopF32 = \<lambda>a. Ret (FBool (fp_isnan 23 a)), uopF64 = \<lambda>a. Ret (FBool (fp_isnan 52 a))\<rparr>"

subsection \<open>Conversion\<close>

text \<open>\<open>get<uint64_t>\<close>: signed members sign-extend; pointers give their address.\<close>

fun get_uint64 :: "fp_env \<Rightarrow> val \<Rightarrow> 64 word outcome" where
  "get_uint64 E NoneV = Ret 0"
| "get_uint64 E (BoolV b) = Ret (of_bool b)"
| "get_uint64 E (I8V v) = Ret (scast v)"
| "get_uint64 E (I16V v) = Ret (scast v)"
| "get_uint64 E (I32V v) = Ret (scast v)"
| "get_uint64 E (I64V v) = Ret v"
| "get_uint64 E (U8V v) = Ret (ucast v)"
| "get_uint64 E (U16V v) = Ret (ucast v)"
| "get_uint64 E (U32V v) = Ret (ucast v)"
| "get_uint64 E (U64V v) = Ret v"
| "get_uint64 E (ILongV v) = Ret v"
| "get_uint64 E (ULongV v) = Ret v"
| "get_uint64 E (ISizeV v) = Ret v"
| "get_uint64 E (USizeV v) = Ret v"
| "get_uint64 E (F32V v) = (case trunc E (widen E v) of
     Some n \<Rightarrow> if in_range CU64 n then Ret (word_of_int n) else Stuck | None \<Rightarrow> Stuck)"
| "get_uint64 E (F64V v) = (case trunc E v of
     Some n \<Rightarrow> if in_range CU64 n then Ret (word_of_int n) else Stuck | None \<Rightarrow> Stuck)"
| "get_uint64 E (PtrV v ro) = Ret v"
| "get_uint64 E (RegisterRefV i f ro) = Ret (of_nat i)"
| "get_uint64 E (FieldRefV p i ro) = Ret (pointer_bits E (ObjectV p ro) + of_nat i + 1)"
| "get_uint64 E (ArrayRefV p i ro) = Ret (pointer_bits E (ArrayV p ro) + of_nat i + 1)"
| "get_uint64 E (CownRefV p ro) = Ret (pointer_bits E (CownV p ro) + 1)"
| "get_uint64 E (ErrorV e f pc) = Raise BadOperand"
| "get_uint64 E InvalidV = Raise BadOperand"
| "get_uint64 E v = Ret (pointer_bits E v)"

text \<open>\<open>get<double>\<close> at the two tags \<open>convert\<close> uses it for.\<close>

fun get_double :: "fp_env \<Rightarrow> val \<Rightarrow> 64 word outcome" where
  "get_double E (F32V v) = Ret (widen E v)"
| "get_double E (F64V v) = Ret v"
| "get_double E v = obind (get_uint64 E v) (\<lambda>w. Ret (fp64_of_nat E (unat w)))"

text \<open>\<open>set<uint64_t>\<close> and \<open>set<double>\<close> under the target tag.\<close>

fun set_uint64 :: "fp_env \<Rightarrow> vtype \<Rightarrow> 64 word \<Rightarrow> val outcome" where
  "set_uint64 E VNone w = Ret NoneV"
| "set_uint64 E VBool w = Ret (BoolV (w \<noteq> 0))"
| "set_uint64 E VI8 w = Ret (I8V (ucast w))"
| "set_uint64 E VI16 w = Ret (I16V (ucast w))"
| "set_uint64 E VI32 w = Ret (I32V (ucast w))"
| "set_uint64 E VI64 w = Ret (I64V w)"
| "set_uint64 E VU8 w = Ret (U8V (ucast w))"
| "set_uint64 E VU16 w = Ret (U16V (ucast w))"
| "set_uint64 E VU32 w = Ret (U32V (ucast w))"
| "set_uint64 E VU64 w = Ret (U64V w)"
| "set_uint64 E VILong w = Ret (ILongV w)"
| "set_uint64 E VULong w = Ret (ULongV w)"
| "set_uint64 E VISize w = Ret (ISizeV w)"
| "set_uint64 E VUSize w = Ret (USizeV w)"
| "set_uint64 E VF32 w = Ret (F32V (fp32_of_nat E (unat w)))"
| "set_uint64 E VF64 w = Ret (F64V (fp64_of_nat E (unat w)))"
| "set_uint64 E _ w = Raise BadOperand"

definition trunc_to :: "fp_env \<Rightarrow> cty \<Rightarrow> 64 word \<Rightarrow> 'a::len word outcome" where
  "trunc_to E t d = (case trunc E d of
     Some n \<Rightarrow> if in_range t n then Ret (word_of_int n) else Stuck | None \<Rightarrow> Stuck)"

fun set_double :: "fp_env \<Rightarrow> vtype \<Rightarrow> 64 word \<Rightarrow> val outcome" where
  "set_double E VNone d = Ret NoneV"
| "set_double E VBool d = Ret (BoolV (\<not> fp_eq 52 d 0))"
| "set_double E VI8 d = obind (trunc_to E CI8 d) (\<lambda>w. Ret (I8V w))"
| "set_double E VI16 d = obind (trunc_to E CI16 d) (\<lambda>w. Ret (I16V w))"
| "set_double E VI32 d = obind (trunc_to E CI32 d) (\<lambda>w. Ret (I32V w))"
| "set_double E VI64 d = obind (trunc_to E CI64 d) (\<lambda>w. Ret (I64V w))"
| "set_double E VU8 d = obind (trunc_to E CU8 d) (\<lambda>w. Ret (U8V w))"
| "set_double E VU16 d = obind (trunc_to E CU16 d) (\<lambda>w. Ret (U16V w))"
| "set_double E VU32 d = obind (trunc_to E CU32 d) (\<lambda>w. Ret (U32V w))"
| "set_double E VU64 d = obind (trunc_to E CU64 d) (\<lambda>w. Ret (U64V w))"
| "set_double E VILong d = obind (trunc_to E CI64 d) (\<lambda>w. Ret (ILongV w))"
| "set_double E VULong d = obind (trunc_to E CU64 d) (\<lambda>w. Ret (ULongV w))"
| "set_double E VISize d = obind (trunc_to E CI64 d) (\<lambda>w. Ret (ISizeV w))"
| "set_double E VUSize d = obind (trunc_to E CU64 d) (\<lambda>w. Ret (USizeV w))"
| "set_double E VF32 d = Ret (F32V (narrow E d))"
| "set_double E VF64 d = Ret (F64V d)"
| "set_double E _ d = Raise BadOperand"

definition convert :: "fp_env \<Rightarrow> val \<Rightarrow> vtype \<Rightarrow> val outcome" where
  "convert E v to =
     (if vtype_code (get_value_type v) > vtype_code VFunction \<or> vtype_code to > vtype_code VF64
      then Raise BadConversion
      else if get_value_type v = to then Ret v
      else if get_value_type v = VF32 \<or> get_value_type v = VF64
      then obind (get_double E v) (set_double E to)
      else obind (get_uint64 E v) (set_uint64 E to))"

definition op_bits :: "fp_env \<Rightarrow> val \<Rightarrow> val outcome" where
  "op_bits E v = (case v of
     F32V w \<Rightarrow> Ret (U64V (ucast w))
   | F64V w \<Rightarrow> Ret (U64V w)
   | _ \<Rightarrow> convert E v VU64)"

end
