(* ===== verification/ArithLemmas.thy ===== *)
theory ArithLemmas
  imports Arith
begin

text \<open>
  What the operations of \<open>Arith\<close> compute, stated over the mathematical integer an integer value
  stands for: \<open>int_type\<close> is the C++ type of a tag, \<open>ival\<close> the number, \<open>mk_int\<close> the value of a
  given tag that is congruent to a number.
\<close>

fun int_type :: "vtype \<Rightarrow> cty option" where
  "int_type VI8 = Some CI8" | "int_type VI16 = Some CI16"
| "int_type VI32 = Some CI32" | "int_type VI64 = Some CI64"
| "int_type VU8 = Some CU8" | "int_type VU16 = Some CU16"
| "int_type VU32 = Some CU32" | "int_type VU64 = Some CU64"
| "int_type VILong = Some CI64" | "int_type VULong = Some CU64"
| "int_type VISize = Some CI64" | "int_type VUSize = Some CU64"
| "int_type _ = None"

fun ival :: "val \<Rightarrow> int" where
  "ival (I8V v) = sint v" | "ival (I16V v) = sint v" | "ival (I32V v) = sint v" | "ival (I64V v) = sint v"
| "ival (U8V v) = uint v" | "ival (U16V v) = uint v" | "ival (U32V v) = uint v" | "ival (U64V v) = uint v"
| "ival (ILongV v) = sint v" | "ival (ULongV v) = uint v"
| "ival (ISizeV v) = sint v" | "ival (USizeV v) = uint v"
| "ival _ = 0"

fun mk_int :: "vtype \<Rightarrow> int \<Rightarrow> val" where
  "mk_int VI8 n = I8V (word_of_int n)" | "mk_int VI16 n = I16V (word_of_int n)"
| "mk_int VI32 n = I32V (word_of_int n)" | "mk_int VI64 n = I64V (word_of_int n)"
| "mk_int VU8 n = U8V (word_of_int n)" | "mk_int VU16 n = U16V (word_of_int n)"
| "mk_int VU32 n = U32V (word_of_int n)" | "mk_int VU64 n = U64V (word_of_int n)"
| "mk_int VILong n = ILongV (word_of_int n)" | "mk_int VULong n = ULongV (word_of_int n)"
| "mk_int VISize n = ISizeV (word_of_int n)" | "mk_int VUSize n = USizeV (word_of_int n)"
| "mk_int _ n = InvalidV"

definition is_int :: "val \<Rightarrow> bool" where
  "is_int v \<longleftrightarrow> int_type (get_value_type v) \<noteq> None"

definition cty_of :: "val \<Rightarrow> cty" where
  "cty_of v = the (int_type (get_value_type v))"

lemma value_type_cases:
  "get_value_type v = VI8 \<longleftrightarrow> (\<exists>w. v = I8V w)"
  "get_value_type v = VI16 \<longleftrightarrow> (\<exists>w. v = I16V w)"
  "get_value_type v = VI32 \<longleftrightarrow> (\<exists>w. v = I32V w)"
  "get_value_type v = VI64 \<longleftrightarrow> (\<exists>w. v = I64V w)"
  "get_value_type v = VU8 \<longleftrightarrow> (\<exists>w. v = U8V w)"
  "get_value_type v = VU16 \<longleftrightarrow> (\<exists>w. v = U16V w)"
  "get_value_type v = VU32 \<longleftrightarrow> (\<exists>w. v = U32V w)"
  "get_value_type v = VU64 \<longleftrightarrow> (\<exists>w. v = U64V w)"
  "get_value_type v = VILong \<longleftrightarrow> (\<exists>w. v = ILongV w)"
  "get_value_type v = VULong \<longleftrightarrow> (\<exists>w. v = ULongV w)"
  "get_value_type v = VISize \<longleftrightarrow> (\<exists>w. v = ISizeV w)"
  "get_value_type v = VUSize \<longleftrightarrow> (\<exists>w. v = USizeV w)"
  by (cases v; simp)+

lemma int_cases:
  assumes "is_int a"
  obtains w where "a = I8V w" | w where "a = I16V w" | w where "a = I32V w" | w where "a = I64V w"
  | w where "a = U8V w" | w where "a = U16V w" | w where "a = U32V w" | w where "a = U64V w"
  | w where "a = ILongV w" | w where "a = ULongV w" | w where "a = ISizeV w" | w where "a = USizeV w"
  using assms by (cases a) (auto simp: is_int_def)

text \<open>Two integer operands of one type, seen through any property of the pair.\<close>

lemma int_pair_cases:
  assumes "is_int a" "get_value_type b = get_value_type a"
    and "\<And>v w. P (I8V v) (I8V w)" "\<And>v w. P (I16V v) (I16V w)"
    and "\<And>v w. P (I32V v) (I32V w)" "\<And>v w. P (I64V v) (I64V w)"
    and "\<And>v w. P (U8V v) (U8V w)" "\<And>v w. P (U16V v) (U16V w)"
    and "\<And>v w. P (U32V v) (U32V w)" "\<And>v w. P (U64V v) (U64V w)"
    and "\<And>v w. P (ILongV v) (ILongV w)" "\<And>v w. P (ULongV v) (ULongV w)"
    and "\<And>v w. P (ISizeV v) (ISizeV w)" "\<And>v w. P (USizeV v) (USizeV w)"
  shows "P a b"
  using assms(1) by (cases rule: int_cases) (use assms(2-) in \<open>auto simp: value_type_cases\<close>)

lemma word_of_int_wrap [simp]:
  "(word_of_int (wrap CU32 n) :: 32 word) = word_of_int n"
  "(word_of_int (wrap CU64 n) :: 64 word) = word_of_int n"
  by (simp_all add: wrap_def) (transfer; simp)+

lemma mk_int_ival: "is_int v \<Longrightarrow> mk_int (get_value_type v) (ival v) = v"
  by (cases v) (simp_all add: is_int_def)

lemma mk_int_type [simp]: "int_type t \<noteq> None \<Longrightarrow> get_value_type (mk_int t n) = t"
  by (cases t) simp_all

text \<open>\<open>ival\<close> of a wrapped number is congruent to it.\<close>

lemma mk_int_ring:
  "mk_int t (ival (mk_int t n) * y + ival (mk_int t m)) = mk_int t (n * y + m)"
  by (cases t) simp_all

subsection \<open>Addition, subtraction, multiplication\<close>

definition overflows :: "cty \<Rightarrow> int \<Rightarrow> bool" where
  "overflows c n \<longleftrightarrow> is_signed (promote c) \<and> \<not> in_range (promote c) n"

lemma binop_arith:
  assumes F: "opI F = (\<lambda>t x y. arith (promote t) (f x y))" "opU F = (\<lambda>t x y. arith (promote t) (f x y))"
    and a: "is_int a" and b: "get_value_type b = get_value_type a"
  shows "binop F a b = (if overflows (cty_of a) (f (ival a) (ival b)) then Stuck
     else Ret (mk_int (get_value_type a) (f (ival a) (ival b))))"
  using a b
  by (rule int_pair_cases)
    (simp_all add: binop_def F arith_def overflows_def cty_of_def)

lemma op_add_int:
  assumes "is_int a" "get_value_type b = get_value_type a"
  shows "op_add E a b = (if overflows (cty_of a) (ival a + ival b) then Stuck
     else Ret (mk_int (get_value_type a) (ival a + ival b)))"
  unfolding op_add_def by (rule binop_arith [OF _ _ assms]) (simp_all add: c_plus_def [abs_def])

lemma op_sub_int:
  assumes "is_int a" "get_value_type b = get_value_type a"
  shows "op_sub E a b = (if overflows (cty_of a) (ival a - ival b) then Stuck
     else Ret (mk_int (get_value_type a) (ival a - ival b)))"
  unfolding op_sub_def by (rule binop_arith [OF _ _ assms]) (simp_all add: c_minus_def [abs_def])

lemma op_mul_int:
  assumes "is_int a" "get_value_type b = get_value_type a"
  shows "op_mul E a b = (if overflows (cty_of a) (ival a * ival b) then Stuck
     else Ret (mk_int (get_value_type a) (ival a * ival b)))"
  unfolding op_mul_def by (rule binop_arith [OF _ _ assms]) (simp_all add: c_multiplies_def [abs_def])

text \<open>The narrow types never overflow in a sum: the promoted \<open>int\<close> holds it.\<close>

lemma sint_range: "- (2 ^ (LENGTH('a) - 1)) \<le> sint (w :: 'a::len word)" "sint w < 2 ^ (LENGTH('a) - 1)"
  using sint_greater_eq [of w] sint_less [of w] by simp_all

lemma uint_range: "uint (w :: 'a::len word) < 2 ^ LENGTH('a)"
  using unsigned_less [of w] by simp

lemma word_ranges:
  "- 128 \<le> sint (w8 :: 8 word) \<and> sint w8 < 128" "uint w8 < 256"
  "- 32768 \<le> sint (w16 :: 16 word) \<and> sint w16 < 32768" "uint w16 < 65536"
  "- 2147483648 \<le> sint (w32 :: 32 word) \<and> sint w32 < 2147483648" "uint w32 < 4294967296"
  "- 9223372036854775808 \<le> sint (w64 :: 64 word) \<and> sint w64 < 9223372036854775808"
  "uint w64 < 18446744073709551616"
  using sint_range [of w8] sint_range [of w16] sint_range [of w32] sint_range [of w64]
    uint_range [of w8] uint_range [of w16] uint_range [of w32] uint_range [of w64] by simp_all

lemma ival_range: "is_int a \<Longrightarrow> in_range (cty_of a) (ival a)"
  by (cases a) (simp_all add: is_int_def cty_of_def in_range_def word_ranges)

abbreviation narrow_ctys :: "cty set" where
  "narrow_ctys \<equiv> {CI8, CI16, CU8, CU16}"

lemma narrow_sum_ok:
  assumes "cty_of a \<in> narrow_ctys" "is_int a" "is_int b" "get_value_type b = get_value_type a"
  shows "\<not> overflows (cty_of a) (ival a + ival b)" "\<not> overflows (cty_of a) (ival a - ival b)"
proof -
  have c: "cty_of b = cty_of a" using assms(4) by (simp add: cty_of_def)
  note r = ival_range [OF assms(2)] ival_range [OF assms(3), unfolded c]
  show "\<not> overflows (cty_of a) (ival a + ival b)" "\<not> overflows (cty_of a) (ival a - ival b)"
    using assms(1) r by (auto simp: overflows_def in_range_def)
qed

subsection \<open>Division\<close>

lemma op_div_int:
  assumes "is_int a" "get_value_type b = get_value_type a"
  shows "op_div E a b = (if ival b = 0 \<or> overflows (cty_of a) (quot (ival a) (ival b)) then Stuck
     else Ret (mk_int (get_value_type a) (quot (ival a) (ival b))))"
  using assms
  by (rule int_pair_cases)
    (simp_all add: op_div_def binop_def c_divides_def arith_def overflows_def cty_of_def)

lemma op_mod_int:
  assumes "is_int a" "get_value_type b = get_value_type a"
  shows "op_mod E a b = (if ival b = 0 \<or> overflows (cty_of a) (quot (ival a) (ival b)) then Stuck
     else Ret (mk_int (get_value_type a) (remainder (ival a) (ival b))))"
  using assms
  by (rule int_pair_cases)
    (simp_all add: op_mod_def binop_def c_modulus_def arith_def overflows_def cty_of_def)

lemma quot_remainder:
  assumes "b \<noteq> 0"
  shows "quot a b * b + remainder a b = a" "\<bar>remainder a b\<bar> < \<bar>b\<bar>" "\<bar>remainder a b\<bar> \<le> \<bar>a\<bar>"
    "remainder a b = 0 \<or> sgn (remainder a b) = sgn a"
proof -
  have "quot a b * b = sgn a * (\<bar>a\<bar> div \<bar>b\<bar> * \<bar>b\<bar>)"
    by (simp add: quot_def abs_sgn mult.commute mult.left_commute)
  then have "quot a b * b + remainder a b = sgn a * (\<bar>a\<bar> div \<bar>b\<bar> * \<bar>b\<bar> + \<bar>a\<bar> mod \<bar>b\<bar>)"
    by (simp only: remainder_def distrib_left)
  also have "\<dots> = a" by (simp add: sgn_mult_abs)
  finally show "quot a b * b + remainder a b = a" .
  have nn: "0 \<le> \<bar>a\<bar> mod \<bar>b\<bar>" using assms by simp
  then have r: "\<bar>remainder a b\<bar> = (if a = 0 then 0 else \<bar>a\<bar> mod \<bar>b\<bar>)" by (simp add: remainder_def abs_mult abs_sgn_eq)
  then show "\<bar>remainder a b\<bar> < \<bar>b\<bar>" using assms by simp
  show "\<bar>remainder a b\<bar> \<le> \<bar>a\<bar>" using r zmod_le_nonneg_dividend [of "\<bar>a\<bar>" "\<bar>b\<bar>"] by simp
  from nn show "remainder a b = 0 \<or> sgn (remainder a b) = sgn a" by (auto simp: remainder_def sgn_mult)
qed

lemma ival_mk_int: "is_int v \<Longrightarrow> in_range (cty_of v) n \<Longrightarrow> ival (mk_int (get_value_type v) n) = n"
  by (cases v) (simp_all add: is_int_def cty_of_def in_range_def signed_of_int uint_word_of_int_eq signed_take_bit_int_eq_self take_bit_int_eq_self)

lemma div_mod_law:
  assumes "is_int a" "get_value_type b = get_value_type a" "op_div E a b = Ret q" "op_mod E a b = Ret r"
  shows "\<exists>q'. q = mk_int (get_value_type a) q' \<and> q' * ival b + ival r = ival a \<and> \<bar>ival r\<bar> < \<bar>ival b\<bar> \<and>
    (ival r = 0 \<or> sgn (ival r) = sgn (ival a))"
proof -
  let ?r = "remainder (ival a) (ival b)"
  from assms(3,4) op_div_int [OF assms(1,2)] op_mod_int [OF assms(1,2)]
  have q: "q = mk_int (get_value_type a) (quot (ival a) (ival b))" "r = mk_int (get_value_type a) ?r" "ival b \<noteq> 0"
    by (auto split: if_splits)
  note d = quot_remainder [OF q(3), of "ival a"]
  have "in_range (cty_of a) ?r"
    using ival_range [OF assms(1)] d(3,4) by (auto simp: in_range_def sgn_if split: if_splits)
  then have "ival r = ?r" using ival_mk_int [OF assms(1)] q(2) by simp
  with d q(1) show ?thesis by (intro exI [of _ "quot (ival a) (ival b)"]) simp
qed

subsection \<open>Comparison\<close>

lemma op_compare_int:
  assumes "is_int a" "get_value_type b = get_value_type a"
  shows "op_lt a b = Ret (if cty_of a \<in> narrow_ctys then mk_int (get_value_type a) (of_bool (ival a < ival b)) else BoolV (ival a < ival b))"
    and "op_le a b = Ret (if cty_of a \<in> narrow_ctys then mk_int (get_value_type a) (of_bool (ival a \<le> ival b)) else BoolV (ival a \<le> ival b))"
    and "op_gt a b = Ret (if cty_of a \<in> narrow_ctys then mk_int (get_value_type a) (of_bool (ival b < ival a)) else BoolV (ival b < ival a))"
    and "op_ge a b = Ret (if cty_of a \<in> narrow_ctys then mk_int (get_value_type a) (of_bool (ival b \<le> ival a)) else BoolV (ival b \<le> ival a))"
  using assms
  by (rule int_pair_cases; simp add: op_lt_def op_le_def op_gt_def op_ge_def binop_def cty_of_def
    c_less_def c_less_equal_def c_greater_def c_greater_equal_def)+

subsection \<open>Bits\<close>

lemma bits_wide [simp]:
  "(word_of_int (sint v AND sint w) :: 'a::len word) = v AND w"
  "(word_of_int (uint v AND uint w) :: 'a::len word) = v AND w"
  "(word_of_int (sint v OR sint w) :: 'a::len word) = v OR w"
  "(word_of_int (uint v OR uint w) :: 'a::len word) = v OR w"
  "(word_of_int (sint v XOR sint w) :: 'a::len word) = v XOR w"
  "(word_of_int (uint v XOR uint w) :: 'a::len word) = v XOR w"
  by (rule bit_word_eqI; simp add: bit_simps)+

lemma op_bitwise_int:
  assumes "is_int a" "get_value_type b = get_value_type a"
  shows "op_and a b = Ret (mk_int (get_value_type a) (ival a AND ival b))"
    and "op_or a b = Ret (mk_int (get_value_type a) (ival a OR ival b))"
    and "op_xor a b = Ret (mk_int (get_value_type a) (ival a XOR ival b))"
  using assms
  by (rule int_pair_cases; simp add: op_and_def op_or_def op_xor_def binop_def
    c_bit_and_def c_bit_or_def c_bit_xor_def)+

subsection \<open>Conversion between integers\<close>

lemma get_uint64_int: "is_int v \<Longrightarrow> get_uint64 E v = Ret (word_of_int (ival v))"
  by (cases v) (simp_all add: is_int_def)

lemma ucast_word_of_int:
  "LENGTH('b) \<le> LENGTH('a) \<Longrightarrow> ucast (word_of_int n :: 'a::len word) = (word_of_int n :: 'b::len word)"
  by transfer (simp add: take_bit_take_bit min_def)

lemma convert_int:
  assumes "is_int v" "int_type to \<noteq> None"
  shows "convert E v to = Ret (mk_int to (ival v))"
proof -
  have c: "\<not> vtype_code (get_value_type v) > vtype_code VFunction" "get_value_type v \<noteq> VF32" "get_value_type v \<noteq> VF64"
    using assms(1) by (cases v; simp add: is_int_def)+
  have d: "\<not> vtype_code to > vtype_code VF64" using assms(2) by (cases to) simp_all
  have s: "set_uint64 E to (word_of_int n) = Ret (mk_int to n)" for n
    using assms(2) by (cases to) (simp_all add: ucast_word_of_int)
  show ?thesis
    using c d s get_uint64_int [OF assms(1), of E] mk_int_ival [OF assms(1)]
    by (auto simp: convert_def)
qed

lemma convert_to_double:
  assumes "is_int v"
  shows "convert E v VF64 = Ret (F64V (fp64_of_nat E (nat (take_bit 64 (ival v)))))"
proof -
  have c: "\<not> vtype_code (get_value_type v) > vtype_code VFunction" "get_value_type v \<noteq> VF32" "get_value_type v \<noteq> VF64"
    using assms(1) by (cases v; simp add: is_int_def)+
  have "unat (word_of_int n :: 64 word) = nat (take_bit 64 n)" for n
    by (simp add: unsigned_of_int)
  then show ?thesis
    using c get_uint64_int [OF assms(1), of E] by (auto simp: convert_def)
qed

subsection \<open>Equality\<close>

definition is_nan :: "val \<Rightarrow> bool" where
  "is_nan v = (case v of F32V w \<Rightarrow> fp_isnan 23 w | F64V w \<Rightarrow> fp_isnan 52 w | _ \<Rightarrow> False)"

lemma op_eq_refl: "op_eq v v = BoolV (\<not> is_nan v)"
  by (cases v) (simp_all add: op_eq_def is_nan_def fp_eq_def)

lemma op_eq_sym: "op_eq v w = op_eq w v"
  by (cases v; cases w) (auto simp: op_eq_def fp_eq_def)

subsection \<open>Unary operations on the narrow types\<close>

lemma int32_range_ok:
  "in_range CI8 n \<or> in_range CI16 n \<or> in_range CU8 n \<or> in_range CU16 n \<Longrightarrow>
   in_range CI32 n \<and> in_range CI32 (- n) \<and> in_range CI32 \<bar>n\<bar>"
  by (auto simp: in_range_def)

lemma unop_narrow:
  assumes "is_int a" "cty_of a \<in> narrow_ctys"
  shows "op_neg a = Ret (I32V (word_of_int (- ival a)))"
    and "op_not a = Ret (I32V (word_of_int (NOT (ival a))))"
    and "is_signed (cty_of a) \<Longrightarrow> op_abs a = Ret (I32V (word_of_int \<bar>ival a\<bar>))"
proof -
  have r: "in_range CI32 (- ival a) \<and> in_range CI32 \<bar>ival a\<bar>"
    using int32_range_ok [of "ival a"] ival_range [OF assms(1)] assms(2) by auto
  have w: "(word_of_int (wrap CI32 n) :: 32 word) = word_of_int n" for n
    by (simp add: wrap_def) (transfer; simp add: take_bit_signed_take_bit)
  show "op_neg a = Ret (I32V (word_of_int (- ival a)))"
    "op_not a = Ret (I32V (word_of_int (NOT (ival a))))"
    "is_signed (cty_of a) \<Longrightarrow> op_abs a = Ret (I32V (word_of_int \<bar>ival a\<bar>))"
    using assms r
    by (cases a; simp add: is_int_def cty_of_def op_neg_def op_not_def op_abs_def c_negate_def
      c_bit_not_def c_abs_def arith_def w)+
qed

lemma op_neg_wide:
  assumes "is_int a" "cty_of a \<notin> narrow_ctys"
  shows "op_neg a = (if overflows (cty_of a) (- ival a) then Stuck
    else Ret (mk_int (get_value_type a) (- ival a)))"
  using assms
  by (cases a) (simp_all add: is_int_def cty_of_def op_neg_def c_negate_def arith_def overflows_def)

end
