(* ===== verification/Codec.thy ===== *)
theory Codec
  imports Leb
begin

text \<open>
  Readers and writers of VBC sections. A reader takes the file's bytes and a position and
  gives the value and the position after it, as the loader's methods advance their \<open>pc\<close>.
  The locale \<open>codec\<close> is the contract between the emitter's writer of some entity and the
  loader's reader of it: where the bytes at \<open>pc\<close> start with what the writer produced, the
  reader gives the value back and stops right behind it. Counted vectors of a codec are
  a codec again (\<open>get_vec_put\<close>), which the loader's loops rely on.
\<close>

type_synonym 'a reader = "byte list \<Rightarrow> nat \<Rightarrow> ('a \<times> nat) outcome"

fun get_list :: "'a reader \<Rightarrow> nat \<Rightarrow> 'a list reader" where
  "get_list g 0 bs pc = Ret ([], pc)"
| "get_list g (Suc n) bs pc =
     obind (g bs pc) (\<lambda>(x, pc1).
       obind (get_list g n bs pc1) (\<lambda>(xs, pc2). Ret (x # xs, pc2)))"

definition get_vec :: "'a reader \<Rightarrow> 'a list reader" where
  "get_vec g bs pc = obind (uleb_get bs pc) (\<lambda>(n, pc1). get_list g (unat n) bs pc1)"

definition put_size :: "nat \<Rightarrow> byte list" where
  "put_size n = uleb_put (of_nat n)"

definition put_vec :: "('a \<Rightarrow> byte list) \<Rightarrow> 'a list \<Rightarrow> byte list" where
  "put_vec put xs = put_size (length xs) @ concat (map put xs)"

text \<open>A 32 bit identifier: written as ULEB128, read by narrowing the 64 bit result.\<close>

definition put_id :: "32 word \<Rightarrow> byte list" where
  "put_id i = uleb_put (ucast i)"

definition get_id :: "32 word reader" where
  "get_id bs pc = obind (uleb_get bs pc) (\<lambda>(v, pc1). Ret (ucast v, pc1))"

text \<open>Length-prefixed strings (bytes).\<close>

definition put_str :: "byte list \<Rightarrow> byte list" where
  "put_str s = put_size (length s) @ s"

definition get_str :: "byte list reader" where
  "get_str bs pc = obind (uleb_get bs pc) (\<lambda>(size, pc1).
     if pc1 + unat size \<le> length bs then Ret (take (unat size) (drop pc1 bs), pc1 + unat size)
     else Stuck)"

definition string_table :: "byte list list reader" where
  "string_table bs pc = get_vec get_str bs pc"

subsection \<open>Positions\<close>

lemma drop_step: "drop pc bs = a @ b \<Longrightarrow> drop (pc + length a) bs = b"
  by (metis add.commute append_eq_conv_conj drop_drop)

lemma at_split:
  assumes "drop pc bs = xs" "xs \<noteq> []"
  obtains pre where "bs = pre @ xs" "pc = length pre"
proof -
  have "pc \<le> length bs" using assms by (metis drop_all nat_le_linear)
  then show thesis
    using assms(1) that [of "take pc bs"] by (metis append_take_drop_id length_take min.absorb2)
qed

lemma uleb_put_nonempty [simp]: "uleb_put v \<noteq> []"
  by (subst uleb_put.simps) simp

lemma uleb_get_at: "drop pc bs = uleb_put v @ rest \<Longrightarrow> uleb_get bs pc = Ret (v, pc + length (uleb_put v))"
  by (erule at_split) (simp_all add: uleb_get_put)

lemma unat_of_size: "n < 2 ^ 64 \<Longrightarrow> unat (of_nat n :: 64 word) = n"
  by (simp add: unat_of_nat take_bit_nat_eq_self)

subsection \<open>The contract\<close>

locale codec =
  fixes put :: "'a \<Rightarrow> byte list" and get :: "'a reader" and ok :: "'a \<Rightarrow> bool"
  assumes get_at: "ok x \<Longrightarrow> drop pc bs = put x @ rest \<Longrightarrow> get bs pc = Ret (x, pc + length (put x))"
begin

lemma get_list_at:
  "\<forall>x\<in>set xs. ok x \<Longrightarrow> drop pc bs = concat (map put xs) @ rest \<Longrightarrow>
     get_list get (length xs) bs pc = Ret (xs, pc + length (concat (map put xs)))"
proof (induction xs arbitrary: pc)
  case Nil
  then show ?case by simp
next
  case (Cons x xs)
  then have d: "drop pc bs = put x @ concat (map put xs) @ rest" by simp
  have 1: "get bs pc = Ret (x, pc + length (put x))"
    using Cons.prems(1) d by (intro get_at) auto
  have 2: "get_list get (length xs) bs (pc + length (put x))
      = Ret (xs, pc + length (put x) + length (concat (map put xs)))"
    by (rule Cons.IH) (use Cons.prems(1) drop_step [OF d] in auto)
  show ?case by (simp add: 1 2)
qed

lemma get_vec_at:
  assumes "\<forall>x\<in>set xs. ok x" "length xs < 2 ^ 64" "drop pc bs = put_vec put xs @ rest"
  shows "get_vec get bs pc = Ret (xs, pc + length (put_vec put xs))"
proof -
  from assms(3) have d: "drop pc bs = uleb_put (of_nat (length xs)) @ concat (map put xs) @ rest"
    by (simp add: put_vec_def put_size_def)
  from get_list_at [OF assms(1) drop_step [OF d]] uleb_get_at [OF d] show ?thesis
    using assms(2) by (simp add: get_vec_def unat_of_size put_vec_def put_size_def)
qed

end

interpretation u64_codec: codec uleb_put uleb_get "\<lambda>_. True"
  by unfold_locales (rule uleb_get_at)

lemma ucast_ucast_id32: "ucast (ucast (i :: 32 word) :: 64 word) = i"
  by (rule bit_word_eqI) (auto simp: bit_simps)

interpretation id_codec: codec put_id get_id "\<lambda>_. True"
  by unfold_locales (simp add: put_id_def get_id_def uleb_get_at ucast_ucast_id32)

interpretation str_codec: codec put_str get_str "\<lambda>s. length s < 2 ^ 64"
proof
  fix s pc bs rest
  assume len: "length s < 2 ^ 64" and "drop pc bs = put_str s @ rest"
  then have d: "drop pc bs = uleb_put (of_nat (length s)) @ s @ rest"
    by (simp add: put_str_def put_size_def)
  have r: "drop (pc + length (uleb_put (of_nat (length s)))) bs = s @ rest"
    by (rule drop_step [OF d])
  let ?n = "length (uleb_put (of_nat (length s)))"
  have "0 < ?n" by simp
  moreover from arg_cong [OF d, of length] have "length bs - pc = ?n + length s + length rest" by simp
  ultimately have "pc + ?n + length s \<le> length bs" by linarith
  then show "get_str bs pc = Ret (s, pc + length (put_str s))"
    using len by (simp add: get_str_def put_str_def put_size_def uleb_get_at [OF d] unat_of_size r)
qed

end
