(* ===== verification/VbcFile.thy ===== *)
theory VbcFile
  imports Codec Format
begin

text \<open>
  The sections of a VBC file: the tables the emitter of \<^verbatim>\<open>virc/vbc/emitter.cc\<close> writes and
  the loader of \<^verbatim>\<open>vbci/program.cc\<close> reads. Each entity has a record, a writer \<open>put_\<dots>\<close>
  (the emitter's statements for it, in their order) and a reader (\<open>parse_\<dots>\<close>, the loader's
  method), and an interpretation of the contract \<open>codec\<close> says that the reader undoes the
  writer. Method targets are the raw function indices of the file.
\<close>

subsection \<open>Functions\<close>

record vfunction =
  registers :: "64 word"
  debug_info :: "64 word"
  param_types :: "32 word list"
  return_type :: "32 word"
  var_types :: "32 word list"
  labels :: "64 word list"

definition put_function :: "vfunction \<Rightarrow> byte list" where
  "put_function f =
     uleb_put (registers f) @ uleb_put (debug_info f) @
     put_vec put_id (param_types f) @ put_id (return_type f) @
     put_vec put_id (var_types f) @ put_vec uleb_put (labels f)"

definition parse_function :: "vfunction option reader" where
  "parse_function bs pc =
     obind (uleb_get bs pc) (\<lambda>(regs, pc).
     obind (uleb_get bs pc) (\<lambda>(di, pc).
     obind (get_vec get_id bs pc) (\<lambda>(params, pc).
     obind (get_id bs pc) (\<lambda>(ret, pc).
     obind (get_vec get_id bs pc) (\<lambda>(vars, pc).
     obind (uleb_get bs pc) (\<lambda>(n, pc).
       if n = 0 then Ret (None, pc)
       else obind (get_list uleb_get (unat n) bs pc) (\<lambda>(ls, pc).
         Ret (Some \<lparr>registers = regs, debug_info = di, param_types = params,
                    return_type = ret, var_types = vars, labels = ls\<rparr>, pc))))))))"

definition function_ok :: "vfunction \<Rightarrow> bool" where
  "function_ok f \<longleftrightarrow> length (param_types f) < 2 ^ 64 \<and> length (var_types f) < 2 ^ 64
     \<and> length (labels f) < 2 ^ 64 \<and> labels f \<noteq> []"

subsection \<open>Classes\<close>

record vclass =
  cls_debug_info :: "64 word"
  cls_fields :: "(64 word \<times> 32 word) list"
  cls_methods :: "(64 word \<times> 64 word) list"

definition put_field :: "64 word \<times> 32 word \<Rightarrow> byte list" where
  "put_field = (\<lambda>(field_id, type_id). uleb_put field_id @ put_id type_id)"

definition get_field :: "(64 word \<times> 32 word) reader" where
  "get_field bs pc =
     obind (uleb_get bs pc) (\<lambda>(field_id, pc).
     obind (get_id bs pc) (\<lambda>(type_id, pc). Ret ((field_id, type_id), pc)))"

definition parse_fields :: "(64 word \<times> 32 word) list reader" where
  "parse_fields bs pc = get_vec get_field bs pc"

definition put_method :: "64 word \<times> 64 word \<Rightarrow> byte list" where
  "put_method = (\<lambda>(method_id, func_id). uleb_put method_id @ uleb_put func_id)"

definition get_method :: "(64 word \<times> 64 word) reader" where
  "get_method bs pc =
     obind (uleb_get bs pc) (\<lambda>(method_id, pc).
     obind (uleb_get bs pc) (\<lambda>(func_id, pc). Ret ((method_id, func_id), pc)))"

definition parse_methods :: "(64 word \<times> 64 word) list reader" where
  "parse_methods bs pc = get_vec get_method bs pc"

definition put_class :: "vclass \<Rightarrow> byte list" where
  "put_class c = uleb_put (cls_debug_info c) @ put_vec put_field (cls_fields c) @
     put_vec put_method (cls_methods c)"

definition parse_class :: "vclass reader" where
  "parse_class bs pc =
     obind (uleb_get bs pc) (\<lambda>(di, pc).
     obind (parse_fields bs pc) (\<lambda>(fields, pc).
     obind (parse_methods bs pc) (\<lambda>(methods, pc).
       Ret (\<lparr>cls_debug_info = di, cls_fields = fields, cls_methods = methods\<rparr>, pc))))"

definition class_ok :: "vclass \<Rightarrow> bool" where
  "class_ok c \<longleftrightarrow> length (cls_fields c) < 2 ^ 64 \<and> length (cls_methods c) < 2 ^ 64"

subsection \<open>Complex types\<close>

record complex_type =
  ct_tag :: type_tag
  ct_children :: "32 word list"

definition put_complex :: "complex_type \<Rightarrow> byte list" where
  "put_complex t = uleb_put (ucast (tag_code (ct_tag t))) @
     (if ct_tag t \<in> {TArray, TCown, TRef} then put_id (hd (ct_children t))
      else put_vec put_id (ct_children t))"

definition parse_complex_type :: "complex_type reader" where
  "parse_complex_type bs pc =
     obind (uleb_get bs pc) (\<lambda>(n, pc).
       let tag = tag_of (ucast n) in
       case tag of
         TArray \<Rightarrow> obind (get_id bs pc) (\<lambda>(c, pc). Ret (\<lparr>ct_tag = tag, ct_children = [c]\<rparr>, pc))
       | TCown \<Rightarrow> obind (get_id bs pc) (\<lambda>(c, pc). Ret (\<lparr>ct_tag = tag, ct_children = [c]\<rparr>, pc))
       | TRef \<Rightarrow> obind (get_id bs pc) (\<lambda>(c, pc). Ret (\<lparr>ct_tag = tag, ct_children = [c]\<rparr>, pc))
       | TUnion \<Rightarrow> obind (get_vec get_id bs pc) (\<lambda>(cs, pc).
           Ret (\<lparr>ct_tag = tag, ct_children = cs\<rparr>, pc))
       | TTuple \<Rightarrow> obind (get_vec get_id bs pc) (\<lambda>(cs, pc).
           Ret (\<lparr>ct_tag = tag, ct_children = cs\<rparr>, pc))
       | TUnknown _ \<Rightarrow> Ret (\<lparr>ct_tag = tag, ct_children = []\<rparr>, pc))"

definition complex_ok :: "complex_type \<Rightarrow> bool" where
  "complex_ok t \<longleftrightarrow>
     (case ct_tag t of
        TUnion \<Rightarrow> length (ct_children t) < 2 ^ 64
      | TTuple \<Rightarrow> length (ct_children t) < 2 ^ 64
      | TUnknown _ \<Rightarrow> False
      | _ \<Rightarrow> length (ct_children t) = 1)"

subsection \<open>Reading back what was written\<close>

lemma at_nested: "drop pc bs = (a @ b) @ c \<Longrightarrow> drop pc bs = a @ b @ c"
  by simp

lemma parse_function_at:
  assumes ok: "function_ok f" and d: "drop pc bs = put_function f @ rest"
  shows "parse_function bs pc = Ret (Some f, pc + length (put_function f))"
proof -
  note ok = ok [unfolded function_ok_def]
  from d have d1: "drop pc bs = uleb_put (registers f) @ uleb_put (debug_info f) @
      put_vec put_id (param_types f) @ put_id (return_type f) @
      put_vec put_id (var_types f) @ put_vec uleb_put (labels f) @ rest"
    by (simp add: put_function_def)
  note d2 = drop_step [OF d1] note d3 = drop_step [OF d2] note d4 = drop_step [OF d3]
  note d5 = drop_step [OF d4] note d6 = drop_step [OF d5]
  have n0: "(of_nat (length (labels f)) :: 64 word) \<noteq> 0"
    using ok by (metis length_0_conv unat_0 unat_of_size)
  from d6 have d7: "drop (pc + length (uleb_put (registers f)) + length (uleb_put (debug_info f)) +
      length (put_vec put_id (param_types f)) + length (put_id (return_type f)) +
      length (put_vec put_id (var_types f))) bs =
      uleb_put (of_nat (length (labels f))) @ concat (map uleb_put (labels f)) @ rest"
    by (simp add: put_vec_def put_size_def)
  let ?pc1 = "pc + length (uleb_put (registers f)) + length (uleb_put (debug_info f)) +
      length (put_vec put_id (param_types f)) + length (put_id (return_type f)) +
      length (put_vec put_id (var_types f)) + length (uleb_put (of_nat (length (labels f)))) +
      length (concat (map uleb_put (labels f)))"
  from id_codec.get_vec_at [OF _ _ d3] id_codec.get_at [OF _ d4] id_codec.get_vec_at [OF _ _ d5]
    u64_codec.get_list_at [OF _ drop_step [OF d7]] ok
  have "parse_function bs pc = Ret (Some f, ?pc1)"
    by (simp add: parse_function_def uleb_get_at [OF d1] uleb_get_at [OF d2] uleb_get_at [OF d7]
        n0 unat_of_size)
  moreover have "?pc1 = pc + length (put_function f)"
    by (simp add: put_function_def put_vec_def [of uleb_put] put_size_def)
  ultimately show ?thesis by (simp only:)
qed

interpretation field_codec: codec put_field get_field "\<lambda>_. True"
proof
  fix x :: "64 word \<times> 32 word" and pc bs rest
  obtain i t where x: "x = (i, t)" by (cases x)
  assume "drop pc bs = put_field x @ rest"
  then have d: "drop pc bs = uleb_put i @ put_id t @ rest" by (simp add: x put_field_def)
  show "get_field bs pc = Ret (x, pc + length (put_field x))"
    by (simp add: get_field_def uleb_get_at [OF d] id_codec.get_at [OF _ drop_step [OF d]] x put_field_def)
qed

interpretation method_codec: codec put_method get_method "\<lambda>_. True"
proof
  fix x :: "64 word \<times> 64 word" and pc bs rest
  obtain i f where x: "x = (i, f)" by (cases x)
  assume "drop pc bs = put_method x @ rest"
  then have d: "drop pc bs = uleb_put i @ uleb_put f @ rest" by (simp add: x put_method_def)
  show "get_method bs pc = Ret (x, pc + length (put_method x))"
    by (simp add: get_method_def uleb_get_at [OF d] uleb_get_at [OF drop_step [OF d]] x put_method_def)
qed

interpretation methods_codec: codec "put_vec put_method" parse_methods "\<lambda>ms. length ms < 2 ^ 64"
  by unfold_locales (simp add: parse_methods_def method_codec.get_vec_at)

interpretation class_codec: codec put_class parse_class class_ok
proof
  fix c pc bs rest
  assume ok: "class_ok c" and "drop pc bs = put_class c @ rest"
  then have d1: "drop pc bs = uleb_put (cls_debug_info c) @ put_vec put_field (cls_fields c) @
      put_vec put_method (cls_methods c) @ rest" by (simp add: put_class_def)
  note d2 = drop_step [OF d1] note d3 = drop_step [OF d2]
  from field_codec.get_vec_at [OF _ _ d2] methods_codec.get_at [OF _ d3] ok
  show "parse_class bs pc = Ret (c, pc + length (put_class c))"
    by (simp add: parse_class_def parse_fields_def uleb_get_at [OF d1] class_ok_def put_class_def)
qed

lemma ucast_ucast_tag: "(ucast (ucast (n :: 8 word) :: 64 word) :: 8 word) = n"
  by (rule bit_word_eqI) (auto simp: bit_simps)

lemma complex_ok_cases:
  assumes "complex_ok t"
  obtains (single) c where "ct_children t = [c]" "ct_tag t \<in> {TArray, TCown, TRef}"
  | (several) "length (ct_children t) < 2 ^ 64" "ct_tag t \<in> {TUnion, TTuple}"
proof (cases "ct_tag t \<in> {TArray, TCown, TRef}")
  case True
  with assms have "length (ct_children t) = 1" by (auto simp: complex_ok_def)
  then obtain c where "ct_children t = [c]" by (auto simp: length_Suc_conv)
  with True show thesis by (rule that(1) [rotated])
next
  case False
  with assms show thesis by (cases "ct_tag t") (auto simp: complex_ok_def intro: that(2))
qed

interpretation complex_codec: codec put_complex parse_complex_type complex_ok
proof
  fix t pc bs rest
  assume ok: "complex_ok t" and d: "drop pc bs = put_complex t @ rest"
  from ok show "parse_complex_type bs pc = Ret (t, pc + length (put_complex t))"
  proof (cases rule: complex_ok_cases)
    case (single c)
    with d have d1: "drop pc bs = uleb_put (ucast (tag_code (ct_tag t))) @ put_id c @ rest"
      by (simp add: put_complex_def)
    from single have tag: "tag_of (tag_code (ct_tag t)) = ct_tag t" by (auto intro: tag_of_code)
    show ?thesis
      using single tag id_codec.get_at [OF _ drop_step [OF d1]]
      unfolding parse_complex_type_def uleb_get_at [OF d1]
      by (auto simp: ucast_ucast_tag Let_def put_complex_def simp del: tag_code.simps
          intro!: complex_type.equality)
  next
    case several
    with d have d1: "drop pc bs = uleb_put (ucast (tag_code (ct_tag t))) @
        put_vec put_id (ct_children t) @ rest"
      by (auto simp: put_complex_def)
    from several have tag: "tag_of (tag_code (ct_tag t)) = ct_tag t" by (auto intro: tag_of_code)
    show ?thesis
      using several tag id_codec.get_vec_at [OF _ _ drop_step [OF d1]]
      unfolding parse_complex_type_def uleb_get_at [OF d1]
      by (auto simp: ucast_ucast_tag Let_def put_complex_def simp del: tag_code.simps
          intro!: complex_type.equality)
  qed
qed

subsection \<open>FFI libraries and symbols\<close>

text \<open>A library: its name's string index, and 0 or the init function's index plus one.\<close>

definition put_lib :: "64 word \<times> 64 word \<Rightarrow> byte list" where
  "put_lib = (\<lambda>(name, init). uleb_put name @ uleb_put init)"

definition get_lib :: "(64 word \<times> 64 word) reader" where
  "get_lib bs pc =
     obind (uleb_get bs pc) (\<lambda>(name, pc).
     obind (uleb_get bs pc) (\<lambda>(init_id, pc). Ret ((name, init_id), pc)))"

record vsymbol =
  sym_lib :: "64 word"
  sym_name :: "64 word"
  sym_version :: "64 word"
  sym_vararg :: bool
  sym_params :: "32 word list"
  sym_ret :: "32 word"

definition put_symbol :: "vsymbol \<Rightarrow> byte list" where
  "put_symbol s = uleb_put (sym_lib s) @ uleb_put (sym_name s) @ uleb_put (sym_version s) @
     uleb_put (if sym_vararg s then 1 else 0) @ put_vec put_id (sym_params s) @ put_id (sym_ret s)"

definition get_symbol :: "vsymbol reader" where
  "get_symbol bs pc =
     obind (uleb_get bs pc) (\<lambda>(lib, pc).
     obind (uleb_get bs pc) (\<lambda>(name, pc).
     obind (uleb_get bs pc) (\<lambda>(version, pc).
     obind (uleb_get bs pc) (\<lambda>(vararg, pc).
     obind (get_vec get_id bs pc) (\<lambda>(params, pc).
     obind (get_id bs pc) (\<lambda>(ret, pc).
       Ret (\<lparr>sym_lib = lib, sym_name = name, sym_version = version, sym_vararg = vararg \<noteq> 0,
             sym_params = params, sym_ret = ret\<rparr>, pc)))))))"

interpretation lib_codec: codec put_lib get_lib "\<lambda>_. True"
proof
  fix x :: "64 word \<times> 64 word" and pc bs rest
  obtain i f where x: "x = (i, f)" by (cases x)
  assume "drop pc bs = put_lib x @ rest"
  then have d: "drop pc bs = uleb_put i @ uleb_put f @ rest" by (simp add: x put_lib_def)
  show "get_lib bs pc = Ret (x, pc + length (put_lib x))"
    by (simp add: get_lib_def uleb_get_at [OF d] uleb_get_at [OF drop_step [OF d]] x put_lib_def)
qed

interpretation symbol_codec: codec put_symbol get_symbol "\<lambda>s. length (sym_params s) < 2 ^ 64"
proof
  fix s pc bs rest
  assume ok: "length (sym_params s) < 2 ^ 64" and "drop pc bs = put_symbol s @ rest"
  then have d1: "drop pc bs = uleb_put (sym_lib s) @ uleb_put (sym_name s) @ uleb_put (sym_version s) @
      uleb_put (if sym_vararg s then 1 else 0) @ put_vec put_id (sym_params s) @ put_id (sym_ret s) @ rest"
    by (simp add: put_symbol_def)
  note d2 = drop_step [OF d1] note d3 = drop_step [OF d2] note d4 = drop_step [OF d3]
  note d5 = drop_step [OF d4] note d6 = drop_step [OF d5]
  from id_codec.get_vec_at [OF _ _ d5] id_codec.get_at [OF _ d6] ok
  show "get_symbol bs pc = Ret (s, pc + length (put_symbol s))"
    by (simp add: get_symbol_def uleb_get_at [OF d1] uleb_get_at [OF d2] uleb_get_at [OF d3]
        uleb_get_at [OF d4] put_symbol_def)
qed

end
