(* ===== verification/TypeTable.thy ===== *)
theory TypeTable
  imports VbcFile
begin

text \<open>
  The interpreter's type table (\<^verbatim>\<open>vbci/program.cc\<close>): type identifiers are \<open>uint32_t\<close>, primitive
  and class identifiers lie below \<open>min_complex_type_id\<close>, complex types are looked up by
  their distance from it. \<open>subtype_f\<close> and \<open>layout_f\<close> are \<open>Program::subtype\<close> and
  \<open>Program::layout_type_id\<close> with the depth of the C++ recursion bounded by a fuel argument;
  on an acyclic table (\<open>types_ok\<close>) the fuel \<open>rank\<close> gives is enough (\<open>subtype_f_total\<close>) and
  \<open>subtype\<close> is the answer.
\<close>

record type_table =
  min_complex_type_id :: "32 word"
  complex_types :: "complex_type list"
  ref_map :: "32 word \<Rightarrow> 32 word option"
  typeid_ref_dyn :: "32 word"

definition is_complex :: "type_table \<Rightarrow> 32 word \<Rightarrow> bool" where
  "is_complex P type_id \<longleftrightarrow> type_id \<ge> min_complex_type_id P"

definition complex_type_at :: "type_table \<Rightarrow> 32 word \<Rightarrow> complex_type outcome" where
  "complex_type_at P type_id =
     (if \<not> is_complex P type_id then Raise BadType
      else vec_at (complex_types P) (unat (type_id - min_complex_type_id P)))"

definition has_tag :: "type_table \<Rightarrow> type_tag set \<Rightarrow> 32 word \<Rightarrow> bool outcome" where
  "has_tag P tags type_id =
     (if is_complex P type_id then obind (complex_type_at P type_id) (\<lambda>t. Ret (ct_tag t \<in> tags))
      else Ret False)"

definition is_array :: "type_table \<Rightarrow> 32 word \<Rightarrow> bool outcome" where
  "is_array P = has_tag P {TArray, TTuple}"

definition is_tuple :: "type_table \<Rightarrow> 32 word \<Rightarrow> bool outcome" where
  "is_tuple P = has_tag P {TTuple}"

definition is_ref :: "type_table \<Rightarrow> 32 word \<Rightarrow> bool outcome" where
  "is_ref P = has_tag P {TRef}"

definition is_cown :: "type_table \<Rightarrow> 32 word \<Rightarrow> bool outcome" where
  "is_cown P = has_tag P {TCown}"

definition is_union :: "type_table \<Rightarrow> 32 word \<Rightarrow> bool outcome" where
  "is_union P = has_tag P {TUnion}"

definition unarray :: "type_table \<Rightarrow> 32 word \<Rightarrow> 32 word outcome" where
  "unarray P type_id = obind (complex_type_at P type_id) (\<lambda>t.
     if ct_tag t = TTuple then Ret DynamicTypeId
     else if ct_tag t \<noteq> TArray then Raise BadType
     else vec_at (ct_children t) 0)"

definition uncown :: "type_table \<Rightarrow> 32 word \<Rightarrow> 32 word outcome" where
  "uncown P type_id = obind (complex_type_at P type_id) (\<lambda>t.
     if ct_tag t \<noteq> TCown then Raise BadType else vec_at (ct_children t) 0)"

definition unref :: "type_table \<Rightarrow> 32 word \<Rightarrow> 32 word outcome" where
  "unref P type_id = obind (complex_type_at P type_id) (\<lambda>t.
     if ct_tag t \<noteq> TRef then Raise BadType else vec_at (ct_children t) 0)"

definition ref_type :: "type_table \<Rightarrow> 32 word \<Rightarrow> 32 word" where
  "ref_type P type_id = (case ref_map P type_id of None \<Rightarrow> typeid_ref_dyn P | Some r \<Rightarrow> r)"

subsection \<open>Subtyping\<close>

text \<open>The loops over children: stop at the first failing or first succeeding element.\<close>

fun all_ret :: "('a \<Rightarrow> bool outcome) \<Rightarrow> 'a list \<Rightarrow> bool outcome" where
  "all_ret f [] = Ret True"
| "all_ret f (x # xs) = obind (f x) (\<lambda>b. if b then all_ret f xs else Ret False)"

fun any_ret :: "('a \<Rightarrow> bool outcome) \<Rightarrow> 'a list \<Rightarrow> bool outcome" where
  "any_ret f [] = Ret False"
| "any_ret f (x # xs) = obind (f x) (\<lambda>b. if b then Ret True else any_ret f xs)"

text \<open>
  One level of \<open>Program::subtype\<close>, with \<open>self\<close> for the recursive calls.
\<close>

definition subtype_step ::
  "type_table \<Rightarrow> (32 word \<Rightarrow> 32 word \<Rightarrow> bool outcome) \<Rightarrow> 32 word \<Rightarrow> 32 word \<Rightarrow> bool outcome" where
  "subtype_step P self sub super =
     (if super = DynamicTypeId then Ret True
      else if sub = DynamicTypeId then Ret False
      else if sub = super then Ret True
      else obind (is_union P sub) (\<lambda>u.
        if u then obind (complex_type_at P sub) (\<lambda>sub_t.
          all_ret (\<lambda>c. self c super) (ct_children sub_t))
        else obind (is_union P super) (\<lambda>u.
        if u then obind (complex_type_at P super) (\<lambda>super_t.
          any_ret (\<lambda>c. self sub c) (ct_children super_t))
        else if \<not> is_complex P sub then Ret False
        else if \<not> is_complex P super then Ret False
        else obind (complex_type_at P sub) (\<lambda>sub_t. obind (complex_type_at P super) (\<lambda>super_t.
          if ct_tag sub_t = TTuple \<and> ct_tag super_t = TTuple then
            (if length (ct_children sub_t) \<noteq> length (ct_children super_t) then Ret False
             else all_ret (\<lambda>(c, d). self c d) (zip (ct_children sub_t) (ct_children super_t)))
          else if ct_tag sub_t = TTuple \<and> ct_tag super_t = TArray then
            obind (vec_at (ct_children super_t) 0) (\<lambda>super_elem.
              all_ret (\<lambda>c. self c super_elem) (ct_children sub_t))
          else if ct_tag sub_t \<noteq> ct_tag super_t then Ret False
          else obind (vec_at (ct_children sub_t) 0) (\<lambda>sub_elem.
            obind (vec_at (ct_children super_t) 0) (\<lambda>super_elem.
            obind (self sub_elem super_elem) (\<lambda>b.
              if b then self super_elem sub_elem else Ret False))))))))"

fun subtype_f :: "nat \<Rightarrow> type_table \<Rightarrow> 32 word \<Rightarrow> 32 word \<Rightarrow> bool outcome" where
  "subtype_f 0 P sub super = Stuck"
| "subtype_f (Suc n) P sub super = subtype_step P (subtype_f n P) sub super"

subsection \<open>Layout\<close>

text \<open>The libffi type descriptors the layout refers to; \<open>FValue\<close> is the boxed \<open>Value\<close>.\<close>

datatype ffi_type =
    FVoid | FU8 | FS8 | FS16 | FS32 | FS64 | FU16 | FU32 | FU64
  | FFloat | FDouble | FSLong | FULong | FPointer | FValue

fun primitive_layout :: "primitive \<Rightarrow> vtype \<times> ffi_type" where
  "primitive_layout PNone = (VNone, FVoid)"
| "primitive_layout PBool = (VBool, FU8)"
| "primitive_layout PI8 = (VI8, FS8)"
| "primitive_layout PI16 = (VI16, FS16)"
| "primitive_layout PI32 = (VI32, FS32)"
| "primitive_layout PI64 = (VI64, FS64)"
| "primitive_layout PU8 = (VU8, FU8)"
| "primitive_layout PU16 = (VU16, FU16)"
| "primitive_layout PU32 = (VU32, FU32)"
| "primitive_layout PU64 = (VU64, FU64)"
| "primitive_layout PF32 = (VF32, FFloat)"
| "primitive_layout PF64 = (VF64, FDouble)"
| "primitive_layout PILong = (VILong, FSLong)"
| "primitive_layout PULong = (VULong, FULong)"
| "primitive_layout PISize = (VISize, FS64)"
| "primitive_layout PUSize = (VUSize, FU64)"
| "primitive_layout PPtr = (VPtr, FPointer)"

text \<open>
  \<open>layout_f\<close> is \<open>Program::layout_type_id\<close> with \<open>layout_union_type\<close> as its union case;
  \<open>same_layout\<close> is that method's loop.
\<close>

fun same_layout :: "('a \<Rightarrow> (vtype \<times> ffi_type) outcome) \<Rightarrow> vtype \<times> ffi_type \<Rightarrow> 'a list \<Rightarrow> bool outcome" where
  "same_layout f rep [] = Ret True"
| "same_layout f rep (x # xs) =
     obind (f x) (\<lambda>r. if rep \<noteq> r then Ret False else same_layout f rep xs)"

definition layout_union :: "(32 word \<Rightarrow> (vtype \<times> ffi_type) outcome) \<Rightarrow> complex_type \<Rightarrow> (vtype \<times> ffi_type) outcome" where
  "layout_union layout t =
     (case ct_children t of
        [] \<Rightarrow> Raise BadType
      | child # cs \<Rightarrow> obind (layout child) (\<lambda>rep.
          obind (same_layout layout rep cs) (\<lambda>ok.
            if ok then Ret rep else Ret (VDyn, FValue))))"

fun layout_f :: "nat \<Rightarrow> type_table \<Rightarrow> 32 word \<Rightarrow> (vtype \<times> ffi_type) outcome" where
  "layout_f 0 P type_id = Stuck"
| "layout_f (Suc n) P type_id =
     (if type_id = DynamicTypeId then Ret (VDyn, FValue)
      else case primitive_of (unat type_id) of
        Some p \<Rightarrow> Ret (primitive_layout p)
      | None \<Rightarrow>
        if type_id < min_complex_type_id P then Ret (VObject, FPointer)
        else if unat type_id < unat (min_complex_type_id P) + length (complex_types P) then
          obind (complex_type_at P type_id) (\<lambda>c.
            case ct_tag c of
              TArray \<Rightarrow> Ret (VArray, FPointer)
            | TCown \<Rightarrow> Ret (VCown, FPointer)
            | TRef \<Rightarrow> Ret (VDyn, FValue)
            | TUnion \<Rightarrow> layout_union (layout_f n P) c
            | TTuple \<Rightarrow> Ret (VArray, FPointer)
            | TUnknown _ \<Rightarrow> Stuck)
        else Stuck)"

definition layout_fuel :: "type_table \<Rightarrow> nat" where
  "layout_fuel P = Suc (Suc (length (complex_types P)))"

subsection \<open>Acyclic tables\<close>

definition rank :: "type_table \<Rightarrow> 32 word \<Rightarrow> nat" where
  "rank P c = (if c \<noteq> DynamicTypeId \<and> is_complex P c then Suc (unat (c - min_complex_type_id P)) else 0)"

definition id_ok :: "type_table \<Rightarrow> 32 word \<Rightarrow> bool" where
  "id_ok P c \<longleftrightarrow> c = DynamicTypeId \<or> rank P c \<le> length (complex_types P)"

definition types_ok :: "type_table \<Rightarrow> bool" where
  "types_ok P \<longleftrightarrow> NumPrimitiveClasses \<le> unat (min_complex_type_id P) \<and>
     unat (min_complex_type_id P) + length (complex_types P) < 2 ^ 32 \<and>
     (\<forall>i<length (complex_types P). complex_ok (complex_types P ! i) \<and>
        (\<forall>c\<in>set (ct_children (complex_types P ! i)). id_ok P c \<and> rank P c \<le> i))"

definition subtype :: "type_table \<Rightarrow> 32 word \<Rightarrow> 32 word \<Rightarrow> bool" where
  "subtype P sub super \<longleftrightarrow> subtype_f (Suc (rank P sub + rank P super)) P sub super = Ret True"

lemma ole_all_ret [ole_intros]: "(\<And>x. ole (f x) (f' x)) \<Longrightarrow> ole (all_ret f xs) (all_ret f' xs)"
  by (induction xs) (auto intro!: ole_intros)

lemma ole_any_ret [ole_intros]: "(\<And>x. ole (f x) (f' x)) \<Longrightarrow> ole (any_ret f xs) (any_ret f' xs)"
  by (induction xs) (auto intro!: ole_intros)

lemma all_ret_total:
  "\<forall>x\<in>set xs. f x = Ret (p x) \<Longrightarrow> all_ret f xs = Ret (\<forall>x\<in>set xs. p x)"
  by (induction xs) auto

lemma any_ret_total:
  "\<forall>x\<in>set xs. f x = Ret (p x) \<Longrightarrow> any_ret f xs = Ret (\<exists>x\<in>set xs. p x)"
  by (induction xs) auto

lemma ole_subtype_step:
  "(\<And>c d. ole (self c d) (self' c d)) \<Longrightarrow> ole (subtype_step P self a b) (subtype_step P self' a b)"
  unfolding subtype_step_def by (intro ole_intros) assumption+

lemma ole_subtype_f: "n \<le> m \<Longrightarrow> ole (subtype_f n P a b) (subtype_f m P a b)"
proof (induction n arbitrary: a b m)
  case 0
  show ?case by (simp add: ole_intros)
next
  case (Suc n)
  then obtain k where "m = Suc k" "n \<le> k" by (cases m) auto
  then show ?case using Suc.IH by (auto intro!: ole_subtype_step)
qed

lemmas subtype_f_mono = oleD [OF ole_subtype_f]

text \<open>The answer on an acyclic table, as a recursive equation over Booleans.\<close>

definition children :: "type_table \<Rightarrow> 32 word \<Rightarrow> 32 word list" where
  "children P a = ct_children (complex_types P ! (rank P a - 1))"

definition tag :: "type_table \<Rightarrow> 32 word \<Rightarrow> type_tag option" where
  "tag P a = (if 0 < rank P a then Some (ct_tag (complex_types P ! (rank P a - 1))) else None)"

definition subtype_rhs ::
  "type_table \<Rightarrow> (32 word \<Rightarrow> 32 word \<Rightarrow> bool) \<Rightarrow> 32 word \<Rightarrow> 32 word \<Rightarrow> bool" where
  "subtype_rhs P self a b \<longleftrightarrow>
     b = DynamicTypeId \<or> (a \<noteq> DynamicTypeId \<and> (a = b \<or>
       (if tag P a = Some TUnion then \<forall>c\<in>set (children P a). self c b
        else if tag P b = Some TUnion then \<exists>c\<in>set (children P b). self a c
        else tag P a \<noteq> None \<and> tag P b \<noteq> None \<and>
         (if tag P a = Some TTuple \<and> tag P b = Some TTuple
          then list_all2 self (children P a) (children P b)
          else if tag P a = Some TTuple \<and> tag P b = Some TArray
          then \<forall>c\<in>set (children P a). self c (hd (children P b))
          else tag P a = tag P b \<and> self (hd (children P a)) (hd (children P b))
            \<and> self (hd (children P b)) (hd (children P a))))))"

lemma complex_type_at_ok:
  assumes "types_ok P" "id_ok P a" "a \<noteq> DynamicTypeId" "is_complex P a"
  shows "complex_type_at P a = Ret (complex_types P ! (rank P a - 1))" "0 < rank P a"
    "rank P a - 1 < length (complex_types P)"
  using assms by (auto simp: complex_type_at_def rank_def id_ok_def)

lemma child_ok:
  assumes "types_ok P" "id_ok P a" "0 < rank P a" "c \<in> set (children P a)"
  shows "id_ok P c" "rank P c < rank P a"
proof -
  have i: "rank P a - 1 < length (complex_types P)"
    using assms(2,3) by (auto simp: id_ok_def rank_def split: if_splits)
  have "id_ok P c \<and> rank P c \<le> rank P a - 1"
    using assms(1) i assms(4) unfolding types_ok_def children_def by blast
  then show "id_ok P c" "rank P c < rank P a" using assms(3) by auto
qed

lemma complex_rank: "a \<noteq> DynamicTypeId \<Longrightarrow> is_complex P a \<longleftrightarrow> 0 < rank P a"
  by (simp add: rank_def)

lemma is_union_tag:
  assumes "types_ok P" "id_ok P a" "a \<noteq> DynamicTypeId"
  shows "is_union P a = Ret (tag P a = Some TUnion)"
  using assms complex_type_at_ok [OF assms]
  by (auto simp: is_union_def has_tag_def tag_def complex_rank)

lemma complex_type_at_tag:
  assumes "types_ok P" "id_ok P a" "a \<noteq> DynamicTypeId" "tag P a = Some t"
  shows "\<exists>ct. complex_type_at P a = Ret ct \<and> ct_tag ct = t \<and> ct_children ct = children P a"
  using assms complex_type_at_ok [OF assms(1-3)]
  by (auto simp: tag_def children_def complex_rank split: if_splits)

lemma single_child:
  assumes "types_ok P" "id_ok P a" "tag P a = Some t" "t \<in> {TArray, TCown, TRef}"
  obtains c where "children P a = [c]"
proof -
  have r: "0 < rank P a" using assms(3) by (auto simp: tag_def split: if_splits)
  then have i: "rank P a - 1 < length (complex_types P)"
    using assms(2) by (auto simp: id_ok_def rank_def split: if_splits)
  then have "complex_ok (complex_types P ! (rank P a - 1))" using assms(1) by (simp add: types_ok_def)
  then show thesis
    using assms(3,4) r that by (cases rule: complex_ok_cases) (auto simp: tag_def children_def)
qed

lemma tag_known:
  assumes "types_ok P" "id_ok P a" "tag P a = Some t"
  shows "t \<in> {TArray, TCown, TRef, TUnion, TTuple}"
proof -
  have r: "0 < rank P a" using assms(3) by (auto simp: tag_def split: if_splits)
  then have i: "rank P a - 1 < length (complex_types P)"
    using assms(2) by (auto simp: id_ok_def rank_def split: if_splits)
  then have "complex_ok (complex_types P ! (rank P a - 1))" using assms(1) by (simp add: types_ok_def)
  then show ?thesis using assms(3) r by (cases rule: complex_ok_cases) (auto simp: tag_def)
qed

lemma subtype_step_bool:
  assumes P: "types_ok P" and a: "id_ok P a" and b: "id_ok P b"
    and self: "\<And>c d. id_ok P c \<Longrightarrow> id_ok P d \<Longrightarrow> rank P c + rank P d < rank P a + rank P b
      \<Longrightarrow> self c d = Ret (sb c d)"
  shows "subtype_step P self a b = Ret (subtype_rhs P sb a b)"
proof (cases "b = DynamicTypeId \<or> a = DynamicTypeId \<or> a = b")
  case True
  then show ?thesis by (auto simp: subtype_step_def subtype_rhs_def)
next
  case False
  then have na: "a \<noteq> DynamicTypeId" and nb: "b \<noteq> DynamicTypeId" and ab: "a \<noteq> b" by auto
  note ua = is_union_tag [OF P a na] and ub = is_union_tag [OF P b nb]
  have ra: "0 < rank P a" if "tag P a = Some t" for t using that by (auto simp: tag_def split: if_splits)
  have rb: "0 < rank P b" if "tag P b = Some t" for t using that by (auto simp: tag_def split: if_splits)
  show ?thesis
  proof (cases "tag P a")
    case None
    then have nca: "\<not> is_complex P a" by (auto simp: tag_def complex_rank na split: if_splits)
    show ?thesis
    proof (cases "tag P b = Some TUnion")
      case True
      from complex_type_at_tag [OF P b nb True] obtain ct where
        ct: "complex_type_at P b = Ret ct" "ct_children ct = children P b" by blast
      have "any_ret (self a) (children P b) = Ret (\<exists>c\<in>set (children P b). sb a c)"
        using self a child_ok [OF P b rb [OF True]] by (intro any_ret_total) fastforce
      then show ?thesis using na nb ab None True ct
        by (simp add: subtype_step_def subtype_rhs_def ua ub)
    next
      case False
      then show ?thesis using na nb ab None nca
        by (simp add: subtype_step_def subtype_rhs_def ua ub)
    qed
  next
    case (Some ta)
    note cka = child_ok [OF P a ra [OF Some]]
    from complex_type_at_tag [OF P a na Some] obtain cta where
      cta: "complex_type_at P a = Ret cta" "ct_tag cta = ta" "ct_children cta = children P a" by blast
    have ca: "is_complex P a" using ra [OF Some] by (simp add: complex_rank na)
    show ?thesis
    proof (cases "ta = TUnion")
      case True
      have "all_ret (\<lambda>c. self c b) (children P a) = Ret (\<forall>c\<in>set (children P a). sb c b)"
        using self b cka by (intro all_ret_total) fastforce
      then show ?thesis using na nb ab Some True cta
        by (simp add: subtype_step_def subtype_rhs_def ua ub)
    next
      case nua: False
      show ?thesis
      proof (cases "tag P b")
        case None
        then have "\<not> is_complex P b" by (auto simp: tag_def complex_rank nb split: if_splits)
        then show ?thesis using na nb ab Some None nua ca
          by (simp add: subtype_step_def subtype_rhs_def ua ub)
      next
        case tb: (Some tb)
        note ckb = child_ok [OF P b rb [OF tb]]
        from complex_type_at_tag [OF P b nb tb] obtain ctb where
          ctb: "complex_type_at P b = Ret ctb" "ct_tag ctb = tb" "ct_children ctb = children P b" by blast
        have cb: "is_complex P b" using rb [OF tb] by (simp add: complex_rank nb)
        note base = na nb ab Some tb nua ca cb cta ctb
        note step = subtype_step_def subtype_rhs_def ua ub
        consider "tb = TUnion" | "ta = TTuple" "tb = TTuple" | "ta = TTuple" "tb = TArray"
          | "ta \<noteq> tb" "tb \<noteq> TUnion" "\<not> (ta = TTuple \<and> tb = TArray)"
          | "ta = tb" "ta \<in> {TArray, TCown, TRef}"
          using nua tag_known [OF P a Some] by (cases ta; cases tb) auto
        then show ?thesis
        proof cases
          case 1
          have "any_ret (self a) (children P b) = Ret (\<exists>c\<in>set (children P b). sb a c)"
            using self a ckb by (intro any_ret_total) fastforce
          then show ?thesis using base 1 by (simp add: step)
        next
          case 2
          have "\<forall>x\<in>set (zip (children P a) (children P b)). (\<lambda>(c, d). self c d) x = Ret ((\<lambda>(c, d). sb c d) x)"
          proof clarify
            fix c d assume "(c, d) \<in> set (zip (children P a) (children P b))"
            then have "c \<in> set (children P a)" "d \<in> set (children P b)"
              by (auto dest: set_zip_leftD set_zip_rightD)
            then show "self c d = Ret (sb c d)" using cka [of c] ckb [of d] by (intro self) auto
          qed
          note * = all_ret_total [OF this]
          have "list_all2 sb (children P a) (children P b) \<longleftrightarrow>
              length (children P a) = length (children P b) \<and>
              (\<forall>(c, d)\<in>set (zip (children P a) (children P b)). sb c d)"
            by (auto simp: list_all2_iff)
          then show ?thesis using base 2 * by (simp add: step)
        next
          case 3
          from single_child [OF P b tb] 3 obtain e where e: "children P b = [e]" by auto
          have "all_ret (\<lambda>c. self c e) (children P a) = Ret (\<forall>c\<in>set (children P a). sb c e)"
            using self cka ckb [of e] e by (intro all_ret_total) fastforce
          then show ?thesis using base 3 e by (simp add: step)
        next
          case 4
          then show ?thesis using base by (auto simp: step)
        next
          case 5
          from single_child [OF P a Some] 5 obtain d where d: "children P a = [d]" by auto
          from single_child [OF P b tb] 5 obtain e where e: "children P b = [e]" by auto
          have "self d e = Ret (sb d e)" "self e d = Ret (sb e d)"
            using cka [of d] ckb [of e] d e by (auto intro!: self)
          then show ?thesis using base 5 d e by (auto simp: step)
        qed
      qed
    qed
  qed
qed

lemma subtype_f_total:
  assumes "types_ok P" "id_ok P a" "id_ok P b" "rank P a + rank P b < n"
  shows "subtype_f n P a b = Ret (subtype P a b)"
  using assms(2-4)
proof (induction "rank P a + rank P b" arbitrary: a b n rule: less_induct)
  case less
  from less.prems(3) obtain k where n: "n = Suc k" "rank P a + rank P b \<le> k" by (cases n) auto
  have "subtype_step P (subtype_f j P) a b = Ret (subtype_rhs P (subtype P) a b)"
    if "rank P a + rank P b \<le> j" for j
    by (rule subtype_step_bool) (use assms(1) less that in auto)
  from this [OF n(2)] this [of "rank P a + rank P b"] show ?case
    by (simp add: n subtype_def)
qed

lemma subtype_eq:
  assumes "types_ok P" "id_ok P a" "id_ok P b"
  shows "subtype P a b \<longleftrightarrow> subtype_rhs P (subtype P) a b"
proof -
  have "subtype_step P (subtype_f (rank P a + rank P b) P) a b = Ret (subtype_rhs P (subtype P) a b)"
    by (rule subtype_step_bool) (use assms subtype_f_total in auto)
  then show ?thesis by (simp add: subtype_def)
qed

subsection \<open>Subtyping is a preorder\<close>

lemma subtype_Dyn [simp]: "subtype P a DynamicTypeId"
  by (simp add: subtype_def subtype_step_def)

lemma Dyn_subtype: "subtype P DynamicTypeId b \<longleftrightarrow> b = DynamicTypeId"
  by (simp add: subtype_def subtype_step_def)

lemma subtype_self [simp]: "subtype P a a"
  by (simp add: subtype_def subtype_step_def)

lemma subtype_unequal:
  assumes "types_ok P" "id_ok P a" "id_ok P b" "a \<noteq> DynamicTypeId" "b \<noteq> DynamicTypeId" "a \<noteq> b"
  shows "subtype P a b \<longleftrightarrow>
     (if tag P a = Some TUnion then \<forall>c\<in>set (children P a). subtype P c b
      else if tag P b = Some TUnion then \<exists>c\<in>set (children P b). subtype P a c
      else tag P a \<noteq> None \<and> tag P b \<noteq> None \<and>
       (if tag P a = Some TTuple \<and> tag P b = Some TTuple
        then list_all2 (subtype P) (children P a) (children P b)
        else if tag P a = Some TTuple \<and> tag P b = Some TArray
        then \<forall>c\<in>set (children P a). subtype P c (hd (children P b))
        else tag P a = tag P b \<and> subtype P (hd (children P a)) (hd (children P b))
          \<and> subtype P (hd (children P b)) (hd (children P a))))"
  using assms(4-) by (subst subtype_eq [OF assms(1-3)]) (simp add: subtype_rhs_def)

text \<open>Transitivity between types that are no unions, from transitivity at their children.\<close>

lemma subtype_trans_plain:
  assumes P: "types_ok P" and ok: "id_ok P a" "id_ok P b" "id_ok P c"
    and n: "a \<noteq> DynamicTypeId" "b \<noteq> DynamicTypeId" "c \<noteq> DynamicTypeId" "a \<noteq> b" "b \<noteq> c" "a \<noteq> c"
    and nu: "tag P a \<noteq> Some TUnion" "tag P b \<noteq> Some TUnion" "tag P c \<noteq> Some TUnion"
    and ab: "subtype P a b" and bc: "subtype P b c"
    and up: "\<And>x y z. x \<in> set (children P a) \<Longrightarrow> y \<in> set (children P b) \<Longrightarrow> z \<in> set (children P c)
      \<Longrightarrow> subtype P x y \<Longrightarrow> subtype P y z \<Longrightarrow> subtype P x z"
    and down: "\<And>x y z. x \<in> set (children P a) \<Longrightarrow> y \<in> set (children P b) \<Longrightarrow> z \<in> set (children P c)
      \<Longrightarrow> subtype P z y \<Longrightarrow> subtype P y x \<Longrightarrow> subtype P z x"
  shows "subtype P a c"
proof -
  note ab' = ab [unfolded subtype_unequal [OF P ok(1,2) n(1,2,4)]]
  note bc' = bc [unfolded subtype_unequal [OF P ok(2,3) n(2,3,5)]]
  note goal = subtype_unequal [OF P ok(1,3) n(1,3,6)]
  from ab' nu obtain ta tb where t: "tag P a = Some ta" "tag P b = Some tb" by auto
  from bc' nu obtain tc where tc: "tag P c = Some tc" by auto
  note no = nu t tc
  consider "ta = TTuple" "tb = TTuple" "tc = TTuple" | "ta = TTuple" "tb = TTuple" "tc = TArray"
    | "ta = TTuple" "tb = TArray" "tc = TArray"
    | "ta = tb" "tb = tc" "ta \<in> {TArray, TCown, TRef}"
    using ab' bc' no tag_known [OF P ok(1) t(1)] by (auto split: if_splits)
  then show ?thesis
  proof cases
    case 1
    with ab' bc' no have "list_all2 (subtype P) (children P a) (children P b)"
      "list_all2 (subtype P) (children P b) (children P c)" by auto
    then have "list_all2 (subtype P) (children P a) (children P c)"
      unfolding list_all2_conv_all_nth
      by (metis nth_mem up)
    then show ?thesis unfolding goal using no 1 by simp
  next
    case 2
    from single_child [OF P ok(3) tc] 2 obtain f where f: "children P c = [f]" by auto
    from ab' bc' no 2 f have l: "list_all2 (subtype P) (children P a) (children P b)"
      "\<forall>y\<in>set (children P b). subtype P y f" by auto
    have "subtype P x f" if x: "x \<in> set (children P a)" for x
    proof -
      from l(1) x obtain y where "y \<in> set (children P b)" "subtype P x y"
        unfolding list_all2_conv_all_nth in_set_conv_nth by metis
      with l(2) x f show ?thesis by (intro up [of x y f]) auto
    qed
    then show ?thesis unfolding goal using no 2 f by simp
  next
    case 3
    from single_child [OF P ok(2) t(2)] 3 obtain e where e: "children P b = [e]" by auto
    from single_child [OF P ok(3) tc] 3 obtain f where f: "children P c = [f]" by auto
    have "subtype P x f" if "x \<in> set (children P a)" for x
      using ab' bc' no 3 e f that by (intro up [of x e f]) auto
    then show ?thesis unfolding goal using no 3 f by simp
  next
    case 4
    from single_child [OF P ok(1) t(1)] 4 obtain d where d: "children P a = [d]" by auto
    from single_child [OF P ok(2) t(2)] 4 obtain e where e: "children P b = [e]" by auto
    from single_child [OF P ok(3) tc] 4 obtain f where f: "children P c = [f]" by auto
    have "subtype P d f" "subtype P f d"
      using ab' bc' no 4 d e f up [of d e f] down [of d e f] by auto
    then show ?thesis unfolding goal using no 4 d f by auto
  qed
qed

lemma subtype_trans:
  assumes P: "types_ok P" and "id_ok P a" "id_ok P b" "id_ok P c" "subtype P a b" "subtype P b c"
  shows "subtype P a c"
  using assms(2-)
proof (induction "rank P a + rank P b + rank P c" arbitrary: a b c rule: less_induct)
  case less
  note oka = less.prems(1) and okb = less.prems(2) and okc = less.prems(3)
  note ab = less.prems(4) and bc = less.prems(5)
  have IH: "subtype P x z" if "rank P x + rank P y + rank P z < rank P a + rank P b + rank P c"
    "id_ok P x" "id_ok P y" "id_ok P z" "subtype P x y" "subtype P y z" for x y z
    using less.hyps that by blast
  have ch: "id_ok P y \<and> rank P y < rank P x"
    if "id_ok P x" "0 < rank P x" "y \<in> set (children P x)" for x y
    using child_ok [OF P that] by simp
  have pos: "0 < rank P x" if "tag P x = Some t" for x t using that by (auto simp: tag_def split: if_splits)
  show ?case
  proof (cases "c = DynamicTypeId \<or> b = DynamicTypeId \<or> a = DynamicTypeId \<or> a = b \<or> b = c \<or> a = c")
    case True
    then show ?thesis using ab bc by (auto simp: Dyn_subtype)
  next
    case False
    then have n: "a \<noteq> DynamicTypeId" "b \<noteq> DynamicTypeId" "c \<noteq> DynamicTypeId" "a \<noteq> b" "b \<noteq> c" "a \<noteq> c" by auto
    note ab' = ab [unfolded subtype_unequal [OF P oka okb n(1,2,4)]]
    note bc' = bc [unfolded subtype_unequal [OF P okb okc n(2,3,5)]]
    note goal = subtype_unequal [OF P oka okc n(1,3,6)]
    consider (a) "tag P a = Some TUnion" | (b) "tag P a \<noteq> Some TUnion" "tag P b = Some TUnion"
      | (c) "tag P a \<noteq> Some TUnion" "tag P b \<noteq> Some TUnion" "tag P c = Some TUnion"
      | (plain) "tag P a \<noteq> Some TUnion" "tag P b \<noteq> Some TUnion" "tag P c \<noteq> Some TUnion" by blast
    then show ?thesis
    proof cases
      case a
      have "subtype P x c" if "x \<in> set (children P a)" for x
        using ab' a that ch [OF oka pos [OF a] that] okb okc bc by (intro IH [of x b c]) auto
      then show ?thesis unfolding goal using a by simp
    next
      case b
      with ab' obtain y where y: "y \<in> set (children P b)" "subtype P a y" by auto
      with bc' b have "subtype P y c" by auto
      with y ch [OF okb pos [OF b(2)] y(1)] oka okc show ?thesis by (intro IH [of a y c]) auto
    next
      case c
      with bc' obtain z where z: "z \<in> set (children P c)" "subtype P b z" by auto
      with ch [OF okc pos [OF c(3)] z(1)] oka okb ab have "subtype P a z" by (intro IH [of a b z]) auto
      then show ?thesis unfolding goal using c z by auto
    next
      case plain
      then have r: "0 < rank P a" "0 < rank P b" "0 < rank P c"
        using ab' bc' by (auto simp: tag_def split: if_splits)
      show ?thesis
      proof (rule subtype_trans_plain [OF P oka okb okc n plain ab bc])
        fix x y z assume m: "x \<in> set (children P a)" "y \<in> set (children P b)" "z \<in> set (children P c)"
        note okm = ch [OF oka r(1) m(1)] ch [OF okb r(2) m(2)] ch [OF okc r(3) m(3)]
        show "subtype P x y \<Longrightarrow> subtype P y z \<Longrightarrow> subtype P x z"
          by (rule IH [of x y z]) (use okm in auto)
        show "subtype P z y \<Longrightarrow> subtype P y x \<Longrightarrow> subtype P z x"
          by (rule IH [of z y x]) (use okm in auto)
      qed
    qed
  qed
qed

end
