(* ===== verification/Heap.thy ===== *)
theory Heap
  imports TypeTable Value
begin

text \<open>
  The heap of the interpreter: regions (\<^verbatim>\<open>vbci/region.h\<close>), headers (\<^verbatim>\<open>vbci/header.h\<close>) with
  their slots (\<^verbatim>\<open>object.h\<close>, \<^verbatim>\<open>array.h\<close>) and cowns (\<^verbatim>\<open>vbci/cown.h\<close>). Each is a finite map from an
  identifier to a record; a freed one is absent, and touching an absent one is \<open>Stuck\<close>. The
  union of \<open>parent\<close> and \<open>cown_owner_ptr\<close> with its flag \<open>cown_owned\<close> is the datatype \<open>owner\<close>; the
  cown pointer is null while a behavior's closure owns the region.

  A reference count that reaches zero calls \<open>collect\<close> or \<open>Cown::destroy\<close>, which queue the
  victim and, unless a drain is already under way, drain the queue at once. The operations
  here take that drain as a parameter \<open>K\<close> (\<open>settle\<close> for the collector, \<open>cdrain\<close> for cowns);
  the theory \<open>Collect\<close> closes the knot. Region sets (\<open>headers\<close>) are lists in insertion order:
  the C++ container's order is unspecified.

  The region parent chain is walked with fuel \<open>Suc (next_rid h)\<close>; \<open>Forest\<close> shows that it is
  enough when the chain is acyclic.
\<close>

datatype owner = Unowned | Parent rid | CownOwner "cid option"

record region =
  owner :: owner
  entry_point :: "oid option"
  stack_rc :: "32 word"
  rtype :: region_type
  frame_depth :: nat
  headers :: "oid list"
  finalizing :: bool

record hobj =
  o_loc :: loc
  o_rc :: "32 word"
  o_type :: "32 word"
  o_array :: bool
  o_slots :: "(vtype \<times> val) list"

record cown =
  c_refs :: "64 word"
  c_type :: "32 word"
  c_content :: val

datatype work_item = WRegion rid | WHeader oid

record heap =
  regions :: "rid \<Rightarrow> region option"
  objs :: "oid \<Rightarrow> hobj option"
  cowns :: "cid \<Rightarrow> cown option"
  next_rid :: nat
  next_oid :: nat
  next_cid :: nat
  worklist :: "work_item list"
  in_collection :: bool
  cowns_pending :: "cid list"
  cowns_draining :: bool
  frame_regions :: "rid list"

record conts =
  settle :: "heap \<Rightarrow> heap outcome"
  cdrain :: "heap \<Rightarrow> heap outcome"

subsection \<open>Access\<close>

definition get_region :: "rid \<Rightarrow> heap \<Rightarrow> region outcome" where
  "get_region r h = (case regions h r of None \<Rightarrow> Stuck | Some reg \<Rightarrow> Ret reg)"

definition mod_region :: "rid \<Rightarrow> (region \<Rightarrow> region) \<Rightarrow> heap \<Rightarrow> heap" where
  "mod_region r f h = h\<lparr>regions := (regions h)(r := map_option f (regions h r))\<rparr>"

definition get_obj :: "oid \<Rightarrow> heap \<Rightarrow> hobj outcome" where
  "get_obj p h = (case objs h p of None \<Rightarrow> Stuck | Some b \<Rightarrow> Ret b)"

definition mod_obj :: "oid \<Rightarrow> (hobj \<Rightarrow> hobj) \<Rightarrow> heap \<Rightarrow> heap" where
  "mod_obj p f h = h\<lparr>objs := (objs h)(p := map_option f (objs h p))\<rparr>"

definition get_cown_at :: "cid \<Rightarrow> heap \<Rightarrow> cown outcome" where
  "get_cown_at c h = (case cowns h c of None \<Rightarrow> Stuck | Some b \<Rightarrow> Ret b)"

definition mod_cown :: "cid \<Rightarrow> (cown \<Rightarrow> cown) \<Rightarrow> heap \<Rightarrow> heap" where
  "mod_cown c f h = h\<lparr>cowns := (cowns h)(c := map_option f (cowns h c))\<rparr>"

subsection \<open>Regions\<close>

definition is_frame_local :: "region \<Rightarrow> bool" where
  "is_frame_local reg \<longleftrightarrow> frame_depth reg > 0"

definition has_owner :: "region \<Rightarrow> bool" where
  "has_owner reg \<longleftrightarrow> owner reg \<noteq> Unowned"

definition has_parent :: "region \<Rightarrow> bool" where
  "has_parent reg \<longleftrightarrow> (\<exists>p. owner reg = Parent p)"

lemma has_parent_code [code, simp]:
  "has_parent reg = (case owner reg of Parent p \<Rightarrow> True | _ \<Rightarrow> False)"
  by (auto simp: has_parent_def split: owner.splits)

definition has_cown_owner :: "region \<Rightarrow> bool" where
  "has_cown_owner reg = (case owner reg of CownOwner c \<Rightarrow> True | _ \<Rightarrow> False)"

definition get_cown_owner :: "region \<Rightarrow> cid option" where
  "get_cown_owner reg = (case owner reg of CownOwner c \<Rightarrow> c | _ \<Rightarrow> None)"

text \<open>\<open>RegionArena\<close> overrides \<open>is_finalizing\<close>: its objects are never counted one by one.\<close>

definition is_finalizing :: "region \<Rightarrow> bool" where
  "is_finalizing reg \<longleftrightarrow> rtype reg = RegionArena \<or> finalizing reg"

definition new_region :: "region_type \<Rightarrow> nat \<Rightarrow> heap \<Rightarrow> (rid \<times> heap) outcome" where
  "new_region t depth h =
     (case t of
        RUnknown _ \<Rightarrow> Raise UnknownRegionType
      | _ \<Rightarrow> Ret (next_rid h, h\<lparr>regions := (regions h)(next_rid h \<mapsto>
          \<lparr>owner = Unowned, entry_point = None, stack_rc = 0, rtype = t, frame_depth = depth,
           headers = [], finalizing = False\<rparr>), next_rid := Suc (next_rid h)\<rparr>))"

definition insert_header :: "rid \<Rightarrow> oid \<Rightarrow> heap \<Rightarrow> heap" where
  "insert_header r p h =
     mod_region r (\<lambda>reg. reg\<lparr>headers := (if p \<in> set (headers reg) then headers reg else headers reg @ [p])\<rparr>) h"

definition remove_header :: "rid \<Rightarrow> oid \<Rightarrow> heap \<Rightarrow> heap" where
  "remove_header r p h = mod_region r (\<lambda>reg. reg\<lparr>headers := removeAll p (headers reg)\<rparr>) h"

definition enqueue :: "conts \<Rightarrow> work_item \<Rightarrow> heap \<Rightarrow> heap outcome" where
  "enqueue K w h = (let h = h\<lparr>worklist := worklist h @ [w]\<rparr>
     in if in_collection h then Ret h else settle K h)"

definition collect_region :: "conts \<Rightarrow> rid \<Rightarrow> heap \<Rightarrow> heap outcome" where
  "collect_region K r h = obind (get_region r h) (\<lambda>reg.
     if finalizing reg then Ret h
     else enqueue K (WRegion r) (mod_region r (\<lambda>reg. reg\<lparr>finalizing := True\<rparr>) h))"

definition collect_header :: "conts \<Rightarrow> oid \<Rightarrow> heap \<Rightarrow> heap outcome" where
  "collect_header K p h = obind (get_obj p h) (\<lambda>b.
     case o_loc b of
       LRegion r \<Rightarrow> obind (get_region r h) (\<lambda>reg.
         if is_finalizing reg then Ret h
         else if p \<notin> set (headers reg) then Ret h
         else enqueue K (WHeader p) (remove_header r p h))
     | _ \<Rightarrow> enqueue K (WHeader p) h)"

definition free_region :: "conts \<Rightarrow> rid \<Rightarrow> heap \<Rightarrow> heap outcome" where
  "free_region K r h = obind (get_region r h) (\<lambda>reg.
     obind (oassert (\<not> has_owner reg)) (\<lambda>_.
     obind (oassert (stack_rc reg = 0)) (\<lambda>_. collect_region K r h)))"

fun stack_inc_f :: "nat \<Rightarrow> rid \<Rightarrow> 32 word \<Rightarrow> heap \<Rightarrow> heap outcome" where
  "stack_inc_f 0 r inc h = Stuck"
| "stack_inc_f (Suc n) r inc h = obind (get_region r h) (\<lambda>reg.
     if is_frame_local reg then Ret h
     else obind (if stack_rc reg = 0
                 then (case owner reg of Parent p \<Rightarrow> stack_inc_f n p 1 h | _ \<Rightarrow> Ret h)
                 else Ret h)
       (\<lambda>h. Ret (mod_region r (\<lambda>reg. reg\<lparr>stack_rc := stack_rc reg + inc\<rparr>) h)))"

definition stack_inc :: "rid \<Rightarrow> 32 word \<Rightarrow> heap \<Rightarrow> heap outcome" where
  "stack_inc r inc h = stack_inc_f (Suc (next_rid h)) r inc h"

fun stack_dec_f :: "nat \<Rightarrow> conts \<Rightarrow> rid \<Rightarrow> 32 word \<Rightarrow> heap \<Rightarrow> (bool \<times> heap) outcome" where
  "stack_dec_f 0 K r dec h = Stuck"
| "stack_dec_f (Suc n) K r dec h = obind (get_region r h) (\<lambda>reg.
     if is_frame_local reg then Ret (True, h)
     else obind (oassert (stack_rc reg \<ge> dec)) (\<lambda>_.
       let h = mod_region r (\<lambda>reg. reg\<lparr>stack_rc := stack_rc reg - dec\<rparr>) h in
       if stack_rc reg - dec = 0 then
         (case owner reg of
            Unowned \<Rightarrow> obind (free_region K r h) (\<lambda>h. Ret (False, h))
          | Parent p \<Rightarrow> stack_dec_f n K p 1 h
          | CownOwner c \<Rightarrow> Ret (True, h))
       else Ret (True, h)))"

definition stack_dec :: "conts \<Rightarrow> rid \<Rightarrow> 32 word \<Rightarrow> heap \<Rightarrow> (bool \<times> heap) outcome" where
  "stack_dec K r dec h = stack_dec_f (Suc (next_rid h)) K r dec h"

text \<open>\<open>stack_dec\<close> where the caller ignores the result.\<close>

definition stack_dec' :: "conts \<Rightarrow> rid \<Rightarrow> 32 word \<Rightarrow> heap \<Rightarrow> heap outcome" where
  "stack_dec' K r dec h = obind (stack_dec K r dec h) (\<lambda>(_, h). Ret h)"

fun is_ancestor_f :: "nat \<Rightarrow> rid \<Rightarrow> rid \<Rightarrow> heap \<Rightarrow> bool outcome" where
  "is_ancestor_f 0 a r h = Stuck"
| "is_ancestor_f (Suc n) a r h = obind (get_region r h) (\<lambda>reg.
     case owner reg of
       Parent p \<Rightarrow> if p = a then Ret True else is_ancestor_f n a p h
     | _ \<Rightarrow> Ret False)"

definition is_ancestor_of :: "rid \<Rightarrow> rid \<Rightarrow> heap \<Rightarrow> bool outcome" where
  "is_ancestor_of a r h = is_ancestor_f (Suc (next_rid h)) a r h"

definition region_sendable :: "rid \<Rightarrow> heap \<Rightarrow> bool outcome" where
  "region_sendable r h = obind (get_region r h) (\<lambda>reg.
     obind (oassert (stack_rc reg > 0)) (\<lambda>_. Ret (\<not> has_owner reg \<and> stack_rc reg = 1)))"

definition set_parent :: "rid \<Rightarrow> rid \<Rightarrow> oid \<Rightarrow> heap \<Rightarrow> heap outcome" where
  "set_parent r p entry h = obind (get_region r h) (\<lambda>reg.
     obind (oassert (\<not> has_owner reg)) (\<lambda>_.
     let h = mod_region r (\<lambda>reg. reg\<lparr>owner := Parent p, entry_point := Some entry\<rparr>) h in
     if stack_rc reg > 0 then stack_inc p 1 h else Ret h))"

definition clear_parent :: "conts \<Rightarrow> rid \<Rightarrow> heap \<Rightarrow> heap outcome" where
  "clear_parent K r h = obind (get_region r h) (\<lambda>reg.
     case owner reg of
       Parent p \<Rightarrow>
         let h = mod_region r (\<lambda>reg. reg\<lparr>owner := Unowned, entry_point := None\<rparr>) h in
         if stack_rc reg > 0 then stack_dec' K p 1 h else free_region K r h
     | _ \<Rightarrow> Stuck)"

definition set_cown_owner :: "rid \<Rightarrow> cid option \<Rightarrow> oid \<Rightarrow> heap \<Rightarrow> heap outcome" where
  "set_cown_owner r c entry h = obind (get_region r h) (\<lambda>reg.
     obind (oassert (\<not> has_owner reg)) (\<lambda>_.
     Ret (mod_region r (\<lambda>reg. reg\<lparr>owner := CownOwner c, entry_point := Some entry\<rparr>) h)))"

definition clear_cown_owner :: "conts \<Rightarrow> rid \<Rightarrow> heap \<Rightarrow> heap outcome" where
  "clear_cown_owner K r h = obind (get_region r h) (\<lambda>reg.
     obind (oassert (has_cown_owner reg)) (\<lambda>_.
     let h = mod_region r (\<lambda>reg. reg\<lparr>owner := Unowned, entry_point := None\<rparr>) h in
     if stack_rc reg = 0 then free_region K r h else Ret h))"

subsection \<open>Headers\<close>

text \<open>\<open>RegionRC::object\<close> and \<open>RegionRC::array\<close>: a fresh header with its slots.\<close>

definition new_header :: "rid \<Rightarrow> 32 word \<Rightarrow> bool \<Rightarrow> (vtype \<times> val) list \<Rightarrow> heap \<Rightarrow> (oid \<times> heap) outcome" where
  "new_header r type_id arr slots h =
     (let p = next_oid h;
          h = insert_header r p (h\<lparr>objs := (objs h)(p \<mapsto>
            \<lparr>o_loc = LRegion r, o_rc = 1, o_type = type_id, o_array = arr, o_slots = slots\<rparr>),
            next_oid := Suc p\<rparr>)
      in obind (stack_inc r 1 h) (\<lambda>h. Ret (p, h)))"

definition rfree :: "rid \<Rightarrow> oid \<Rightarrow> heap \<Rightarrow> heap" where
  "rfree r p h = (remove_header r p h)\<lparr>objs := (objs h)(p := None)\<rparr>"

definition move_region :: "oid \<Rightarrow> rid \<Rightarrow> heap \<Rightarrow> heap outcome" where
  "move_region p to h = obind (get_obj p h) (\<lambda>b. obind (to_region (o_loc b)) (\<lambda>r.
     Ret (insert_header to p (mod_obj p (\<lambda>b. b\<lparr>o_loc := LRegion to\<rparr>) (remove_header r p h)))))"

fun find_f :: "nat \<Rightarrow> oid \<Rightarrow> heap \<Rightarrow> (oid \<times> heap) outcome" where
  "find_f 0 p h = Stuck"
| "find_f (Suc n) p h = obind (get_obj p h) (\<lambda>b.
     case o_loc b of
       LScc target \<Rightarrow> obind (find_f n target h) (\<lambda>(root, h).
         Ret (root, if root \<noteq> target then mod_obj p (\<lambda>b. b\<lparr>o_loc := LScc root\<rparr>) h else h))
     | _ \<Rightarrow> Ret (p, h))"

definition find_root :: "oid \<Rightarrow> heap \<Rightarrow> (oid \<times> heap) outcome" where
  "find_root p h = find_f (Suc (next_oid h)) p h"

definition inc_rc :: "oid \<Rightarrow> heap \<Rightarrow> heap" where
  "inc_rc p = mod_obj p (\<lambda>b. b\<lparr>o_rc := o_rc b + 1\<rparr>)"

definition dec_rc :: "oid \<Rightarrow> heap \<Rightarrow> heap" where
  "dec_rc p = mod_obj p (\<lambda>b. b\<lparr>o_rc := o_rc b - 1\<rparr>)"

definition set_location :: "oid \<Rightarrow> loc \<Rightarrow> heap \<Rightarrow> heap" where
  "set_location p l = mod_obj p (\<lambda>b. b\<lparr>o_loc := l\<rparr>)"

definition location_of :: "oid \<Rightarrow> heap \<Rightarrow> loc outcome" where
  "location_of p h = obind (get_obj p h) (\<lambda>b. Ret (o_loc b))"

text \<open>\<open>trace_fn\<close>: the headers in the slots of object, array and dynamic type, in order.\<close>

definition traced :: "vtype \<Rightarrow> bool" where
  "traced t \<longleftrightarrow> t = VObject \<or> t = VArray \<or> t = VDyn"

fun header_of :: "val \<Rightarrow> oid option" where
  "header_of (ObjectV p ro) = Some p"
| "header_of (ArrayV p ro) = Some p"
| "header_of _ = None"

definition trace :: "hobj \<Rightarrow> oid list" where
  "trace b = List.map_filter (\<lambda>(t, v). if traced t then header_of v else None) (o_slots b)"

fun each :: "('a \<Rightarrow> 's \<Rightarrow> 's outcome) \<Rightarrow> 'a list \<Rightarrow> 's \<Rightarrow> 's outcome" where
  "each f [] h = Ret h"
| "each f (x # xs) h = obind (f x h) (\<lambda>h. each f xs h)"

text \<open>\<open>collect_scc\<close>: every member becomes pending and is queued, then the queue is drained.\<close>

definition scc_visit :: "oid \<Rightarrow> oid \<Rightarrow> oid list \<times> heap \<Rightarrow> (oid list \<times> heap) outcome" where
  "scc_visit root p = (\<lambda>(work, h). obind (location_of p h) (\<lambda>l.
     if is_scc_ptr l then obind (find_root p h) (\<lambda>(rep, h). obind (location_of rep h) (\<lambda>rl.
       if rep = root \<or> is_pending rl then Ret (p # work, set_location p LPending h) else Ret (work, h)))
     else Ret (work, h)))"

fun scc_members :: "nat \<Rightarrow> oid \<Rightarrow> oid list \<Rightarrow> heap \<Rightarrow> heap outcome" where
  "scc_members n root [] h = Ret h"
| "scc_members 0 root (x # work) h = Stuck"
| "scc_members (Suc n) root (x # work) h = obind (get_obj x h) (\<lambda>b.
     obind (each (scc_visit root) (trace b) (work, h\<lparr>worklist := worklist h @ [WHeader x]\<rparr>))
       (\<lambda>(work, h). scc_members n root work h))"

definition collect_scc :: "conts \<Rightarrow> oid \<Rightarrow> heap \<Rightarrow> heap outcome" where
  "collect_scc K root h = obind (location_of root h) (\<lambda>l.
     obind (oassert (is_immutable l)) (\<lambda>_.
     obind (scc_members (Suc (next_oid h)) root [root] (set_location root LPending h)) (\<lambda>h.
       if in_collection h then Ret h else settle K h)))"

text \<open>The count operations at a header that is not an SCC pointer.\<close>

definition field_inc_at :: "oid \<Rightarrow> heap \<Rightarrow> heap outcome" where
  "field_inc_at p h = obind (location_of p h) (\<lambda>l.
     case l of
       LStack n \<Rightarrow> Ret h
     | LImmortal \<Rightarrow> Ret h
     | LImmutable \<Rightarrow> Ret (inc_rc p h)
     | LRegion r \<Rightarrow> obind (get_region r h) (\<lambda>reg. Ret (if is_finalizing reg then h else inc_rc p h))
     | _ \<Rightarrow> Stuck)"

definition field_dec_at :: "conts \<Rightarrow> oid \<Rightarrow> heap \<Rightarrow> heap outcome" where
  "field_dec_at K p h = obind (get_obj p h) (\<lambda>b.
     case o_loc b of
       LStack n \<Rightarrow> Ret h
     | LImmortal \<Rightarrow> Ret h
     | LImmutable \<Rightarrow> let h = dec_rc p h in if o_rc b - 1 = 0 then collect_scc K p h else Ret h
     | LRegion r \<Rightarrow> obind (get_region r h) (\<lambda>reg.
         if is_finalizing reg then Ret h
         else let h = dec_rc p h in if o_rc b - 1 = 0 then collect_header K p h else Ret h)
     | _ \<Rightarrow> Stuck)"

definition at_root :: "(oid \<Rightarrow> heap \<Rightarrow> heap outcome) \<Rightarrow> oid \<Rightarrow> heap \<Rightarrow> heap outcome" where
  "at_root f p h = obind (location_of p h) (\<lambda>l.
     if is_scc_ptr l then obind (find_root p h) (\<lambda>(root, h). f root h) else f p h)"

definition h_field_inc :: "oid \<Rightarrow> heap \<Rightarrow> heap outcome" where
  "h_field_inc = at_root field_inc_at"

definition h_field_dec :: "conts \<Rightarrow> oid \<Rightarrow> heap \<Rightarrow> heap outcome" where
  "h_field_dec K = at_root (field_dec_at K)"

definition h_reg_inc :: "oid \<Rightarrow> heap \<Rightarrow> heap outcome" where
  "h_reg_inc = at_root (\<lambda>p h. obind (field_inc_at p h) (\<lambda>h. obind (location_of p h) (\<lambda>l.
     case l of LRegion r \<Rightarrow> stack_inc r 1 h | _ \<Rightarrow> Ret h)))"

definition h_reg_dec :: "conts \<Rightarrow> oid \<Rightarrow> heap \<Rightarrow> heap outcome" where
  "h_reg_dec K = at_root (\<lambda>p h. obind (location_of p h) (\<lambda>l.
     case l of
       LRegion r \<Rightarrow> obind (stack_dec K r 1 h) (\<lambda>(alive, h). if alive then field_dec_at K p h else Ret h)
     | _ \<Rightarrow> field_dec_at K p h))"

subsection \<open>Cowns\<close>

definition new_cown :: "type_table \<Rightarrow> 32 word \<Rightarrow> heap \<Rightarrow> (cid \<times> heap) outcome" where
  "new_cown P type_id h = obind (is_cown P type_id) (\<lambda>ok.
     if \<not> ok then Raise BadType
     else Ret (next_cid h, h\<lparr>cowns := (cowns h)(next_cid h \<mapsto>
       \<lparr>c_refs = 1, c_type = type_id, c_content = InvalidV\<rparr>), next_cid := Suc (next_cid h)\<rparr>))"

definition cown_inc :: "cid \<Rightarrow> heap \<Rightarrow> heap outcome" where
  "cown_inc c h = obind (get_cown_at c h) (\<lambda>b. obind (oassert (c_refs b > 0)) (\<lambda>_.
     Ret (mod_cown c (\<lambda>b. b\<lparr>c_refs := c_refs b + 1\<rparr>) h)))"

definition cown_destroy :: "conts \<Rightarrow> cid \<Rightarrow> heap \<Rightarrow> heap outcome" where
  "cown_destroy K c h = (let h = h\<lparr>cowns_pending := c # cowns_pending h\<rparr>
     in if cowns_draining h then Ret h else cdrain K h)"

definition cown_dec :: "conts \<Rightarrow> cid \<Rightarrow> heap \<Rightarrow> heap outcome" where
  "cown_dec K c h = obind (get_cown_at c h) (\<lambda>b. obind (oassert (c_refs b > 0)) (\<lambda>_.
     let h = mod_cown c (\<lambda>b. b\<lparr>c_refs := c_refs b - 1\<rparr>) h
     in if c_refs b \<noteq> 1 then Ret h else cown_destroy K c h))"

subsection \<open>Values in the heap\<close>

fun location :: "val \<Rightarrow> heap \<Rightarrow> loc outcome" where
  "location (RegisterRefV i f ro) h = Ret (LStack f)"
| "location (ObjectV p ro) h = location_of p h"
| "location (FieldRefV p i ro) h = location_of p h"
| "location (ArrayV p ro) h = location_of p h"
| "location (ArrayRefV p i ro) h = location_of p h"
| "location (CownV c ro) h = Ret LImmutable"
| "location (CownRefV c ro) h = Ret LImmutable"
| "location _ h = Ret LImmortal"

fun region_of :: "val \<Rightarrow> heap \<Rightarrow> rid outcome" where
  "region_of (ObjectV p ro) h = obind (location_of p h) (\<lambda>l. case l of LRegion r \<Rightarrow> Ret r | _ \<Rightarrow> Raise BadAllocTarget)"
| "region_of (FieldRefV p i ro) h = obind (location_of p h) (\<lambda>l. case l of LRegion r \<Rightarrow> Ret r | _ \<Rightarrow> Raise BadAllocTarget)"
| "region_of (ArrayV p ro) h = obind (location_of p h) (\<lambda>l. case l of LRegion r \<Rightarrow> Ret r | _ \<Rightarrow> Raise BadAllocTarget)"
| "region_of (ArrayRefV p i ro) h = obind (location_of p h) (\<lambda>l. case l of LRegion r \<Rightarrow> Ret r | _ \<Rightarrow> Raise BadAllocTarget)"
| "region_of _ h = Raise BadAllocTarget"

fun on_header :: "(oid \<Rightarrow> heap \<Rightarrow> heap outcome) \<Rightarrow> (cid \<Rightarrow> heap \<Rightarrow> heap outcome) \<Rightarrow> val \<Rightarrow> heap \<Rightarrow> heap outcome" where
  "on_header f g (ObjectV p ro) h = f p h"
| "on_header f g (FieldRefV p i ro) h = f p h"
| "on_header f g (ArrayV p ro) h = f p h"
| "on_header f g (ArrayRefV p i ro) h = f p h"
| "on_header f g (CownV c ro) h = g c h"
| "on_header f g (CownRefV c ro) h = g c h"
| "on_header f g _ h = Ret h"

definition field_inc :: "val \<Rightarrow> heap \<Rightarrow> heap outcome" where
  "field_inc v h = obind (oassert (\<not> is_readonly v)) (\<lambda>_. on_header h_field_inc cown_inc v h)"

definition field_dec :: "conts \<Rightarrow> val \<Rightarrow> heap \<Rightarrow> heap outcome" where
  "field_dec K v h = obind (oassert (\<not> is_readonly v)) (\<lambda>_. on_header (h_field_dec K) (cown_dec K) v h)"

text \<open>The region adjustment of \<open>reg_inc\<close> applies to values whose header is in a region.\<close>

fun val_header :: "val \<Rightarrow> oid option" where
  "val_header (ObjectV p ro) = Some p"
| "val_header (FieldRefV p i ro) = Some p"
| "val_header (ArrayV p ro) = Some p"
| "val_header (ArrayRefV p i ro) = Some p"
| "val_header _ = None"

definition reg_inc :: "val \<Rightarrow> heap \<Rightarrow> heap outcome" where
  "reg_inc v h =
     (if is_readonly v then (case v of CownV c ro \<Rightarrow> cown_inc c h | _ \<Rightarrow> Ret h)
      else obind (field_inc v h) (\<lambda>h. case val_header v of
        Some p \<Rightarrow> obind (location_of p h) (\<lambda>l. case l of LRegion r \<Rightarrow> stack_inc r 1 h | _ \<Rightarrow> Ret h)
      | None \<Rightarrow> Ret h))"

definition reg_dec :: "conts \<Rightarrow> val \<Rightarrow> heap \<Rightarrow> heap outcome" where
  "reg_dec K v h =
     (if is_readonly v then (case v of CownV c ro \<Rightarrow> cown_dec K c h | _ \<Rightarrow> Ret h)
      else case val_header v of
        Some p \<Rightarrow> obind (location_of p h) (\<lambda>l. case l of
            LRegion r \<Rightarrow> obind (stack_dec K r 1 h) (\<lambda>(alive, h). if alive then field_dec K v h else Ret h)
          | _ \<Rightarrow> field_dec K v h)
      | None \<Rightarrow> field_dec K v h)"

end
