(* ===== verification/Chains.thy ===== *)
theory Chains
  imports Main
begin

text \<open>
  Chains of a partial function on identifiers: region parents and the union-find pointers of
  frozen objects are both followed until there is no next element. \<open>chain nxt N\<close> says that the
  pointers have no cycle and lead to identifiers below \<open>N\<close>; \<open>depth\<close> is then the number of
  steps to the end, and at most \<open>N\<close>.
\<close>

definition links :: "(nat \<Rightarrow> nat option) \<Rightarrow> (nat \<times> nat) set" where
  "links nxt = {(x, y). nxt x = Some y}"

definition chain :: "(nat \<Rightarrow> nat option) \<Rightarrow> nat \<Rightarrow> bool" where
  "chain nxt N \<longleftrightarrow> acyclic (links nxt) \<and> (\<forall>x y. nxt x = Some y \<longrightarrow> y < N)"

definition above :: "(nat \<Rightarrow> nat option) \<Rightarrow> nat \<Rightarrow> nat set" where
  "above nxt x = {y. (x, y) \<in> (links nxt)\<^sup>+}"

definition depth :: "(nat \<Rightarrow> nat option) \<Rightarrow> nat \<Rightarrow> nat" where
  "depth nxt x = card (above nxt x)"

lemma linked: "(x, y) \<in> links nxt \<longleftrightarrow> nxt x = Some y"
  by (simp add: links_def)

lemma above_None: "nxt x = None \<Longrightarrow> above nxt x = {}"
  by (auto simp: above_def linked dest!: tranclD)

lemma above_Some: "nxt x = Some y \<Longrightarrow> above nxt x = insert y (above nxt y)"
proof (intro equalityI subsetI)
  assume xy: "nxt x = Some y"
  fix z
  { assume "z \<in> above nxt x"
    then obtain w where "nxt x = Some w" "(w, z) \<in> (links nxt)\<^sup>*"
      by (auto simp: above_def linked dest!: tranclD)
    with xy show "z \<in> insert y (above nxt y)" by (auto simp: above_def rtrancl_eq_or_trancl) }
  assume "z \<in> insert y (above nxt y)"
  with xy show "z \<in> above nxt x"
    by (auto simp: above_def linked intro: trancl_into_trancl2)
qed

lemma above_irrefl: "chain nxt N \<Longrightarrow> x \<notin> above nxt x"
  by (auto simp: chain_def acyclic_def above_def)

lemma above_trans: "y \<in> above nxt x \<Longrightarrow> z \<in> above nxt y \<Longrightarrow> z \<in> above nxt x"
  by (auto simp: above_def)

lemma above_bound: "chain nxt N \<Longrightarrow> above nxt x \<subseteq> {..<N}"
  by (auto simp: above_def links_def chain_def elim: tranclE)

lemma depth_bound: "chain nxt N \<Longrightarrow> depth nxt x \<le> N"
  using card_mono [OF finite_lessThan above_bound] by (simp add: depth_def)

lemma depth_Some:
  assumes "chain nxt N" "nxt x = Some y"
  shows "depth nxt x = Suc (depth nxt y)"
  using above_Some [of nxt x y, OF assms(2)] above_irrefl [OF assms(1), of y]
    finite_subset [OF above_bound [OF assms(1)]] by (simp add: depth_def)

text \<open>Pointers to smaller identifiers only.\<close>

lemma chain_decreasing:
  assumes "\<And>x y. nxt x = Some y \<Longrightarrow> y < x \<and> y < N"
  shows "chain nxt N"
proof -
  have "(x, y) \<in> (links nxt)\<^sup>+ \<Longrightarrow> y < x" for x y
    by (induction rule: trancl_induct) (auto simp: links_def dest!: assms intro: less_trans)
  then have "acyclic (links nxt)" by (auto simp: acyclic_def)
  then show ?thesis using assms by (auto simp: chain_def)
qed

lemma chain_induct [consumes 1, case_names step]:
  assumes "chain nxt N"
    and "\<And>x. (\<And>y. nxt x = Some y \<Longrightarrow> P y) \<Longrightarrow> P x"
  shows "P x"
proof (induction "depth nxt x" arbitrary: x rule: less_induct)
  case less
  show ?case by (rule assms(2)) (use less depth_Some [OF assms(1)] in auto)
qed

text \<open>Linking the end \<open>x\<close> of one chain to \<open>y\<close> makes no cycle unless \<open>x\<close> is \<open>y\<close> or above it.\<close>

lemma chain_link:
  assumes "chain nxt N" "nxt x = None" "y < N" "x \<noteq> y" "x \<notin> above nxt y"
  shows "chain (nxt(x \<mapsto> y)) N"
proof -
  have l: "links (nxt(x \<mapsto> y)) = insert (x, y) (links nxt)"
    using assms(2) by (auto simp: links_def split: if_splits)
  have "(y, x) \<notin> (links nxt)\<^sup>*"
    using assms(4,5) by (auto simp: above_def rtrancl_eq_or_trancl)
  then have "acyclic (links (nxt(x \<mapsto> y)))"
    using assms(1) by (simp add: l acyclic_insert chain_def)
  then show ?thesis using assms(1,3) by (auto simp: chain_def)
qed

lemma chain_unlink:
  assumes "chain nxt N"
  shows "chain (nxt(x := None)) N"
proof -
  have "links (nxt(x := None)) \<subseteq> links nxt" by (auto simp: links_def split: if_splits)
  then show ?thesis using assms acyclic_subset by (auto simp: chain_def split: if_splits)
qed

text \<open>A pointer changed off the chain of \<open>y\<close> does not change what is above \<open>y\<close>.\<close>

lemma above_upd:
  assumes "x \<notin> above nxt y" "x \<noteq> y"
  shows "above (nxt(x := z)) y = above nxt y"
proof -
  have "w \<in> above (nxt(x := z)) y" if "(y, w) \<in> (links nxt)\<^sup>+" for w
    using that
  proof (induction rule: trancl_induct)
    case (base w)
    then show ?case using assms(2) by (auto simp: above_def linked)
  next
    case (step w v)
    have "w \<noteq> x" using step.hyps(1) assms(1) by (auto simp: above_def)
    with step show ?case by (auto simp: above_def linked intro: trancl_into_trancl)
  qed
  moreover have "w \<in> above nxt y" if "(y, w) \<in> (links (nxt(x := z)))\<^sup>+" for w
    using that
  proof (induction rule: trancl_induct)
    case (base w)
    then show ?case using assms(2) by (auto simp: above_def linked split: if_splits)
  next
    case (step w v)
    then have "w \<noteq> x" using assms(1) by auto
    with step show ?case by (auto simp: above_def linked intro: trancl_into_trancl)
  qed
  ultimately show ?thesis by (auto simp: above_def)
qed

text \<open>The end of a chain, and shortening a pointer to a later element of its own chain.\<close>

definition ends :: "(nat \<Rightarrow> nat option) \<Rightarrow> nat \<Rightarrow> nat \<Rightarrow> bool" where
  "ends nxt x y \<longleftrightarrow> (x, y) \<in> (links nxt)\<^sup>* \<and> nxt y = None"

lemma ends_None: "nxt x = None \<Longrightarrow> ends nxt x y \<longleftrightarrow> y = x"
  by (auto simp: ends_def linked elim: converse_rtranclE)

lemma ends_Some: "nxt x = Some z \<Longrightarrow> ends nxt x y \<longleftrightarrow> ends nxt z y"
  by (auto simp: ends_def linked elim: converse_rtranclE intro: converse_rtrancl_into_rtrancl)

lemma ends_unique: "chain nxt N \<Longrightarrow> ends nxt x y \<Longrightarrow> ends nxt x z \<Longrightarrow> y = z"
proof (induction x rule: chain_induct)
  case (step x)
  then show ?case by (cases "nxt x") (auto simp: ends_None ends_Some)
qed

lemma ends_exists: "chain nxt N \<Longrightarrow> \<exists>y. ends nxt x y"
proof (induction x rule: chain_induct)
  case (step x)
  then show ?case by (cases "nxt x") (auto simp: ends_None ends_Some)
qed

lemma chain_shortcut:
  assumes c: "chain nxt N" and x: "nxt x = Some t" and r: "(t, r) \<in> (links nxt)\<^sup>*"
  shows "chain (nxt(x \<mapsto> r)) N" "ends (nxt(x \<mapsto> r)) = ends nxt"
proof -
  have xr: "(x, r) \<in> (links nxt)\<^sup>+" using x r by (auto simp: linked intro: rtrancl_into_trancl2)
  have sub: "links (nxt(x \<mapsto> r)) \<subseteq> (links nxt)\<^sup>+" using xr by (auto simp: links_def split: if_splits)
  have "(links (nxt(x \<mapsto> r)))\<^sup>+ \<subseteq> ((links nxt)\<^sup>+)\<^sup>+" by (rule trancl_mono_subset [OF sub])
  then have "acyclic (links (nxt(x \<mapsto> r)))" using c by (auto simp: chain_def acyclic_def)
  moreover have "y < N" if "(nxt(x \<mapsto> r)) z = Some y" for z y
    using that c xr by (auto simp: chain_def linked elim: tranclE split: if_splits)
  ultimately show c': "chain (nxt(x \<mapsto> r)) N" by (simp add: chain_def)
  have e: "ends nxt y z" if "ends (nxt(x \<mapsto> r)) y z" for y z
  proof -
    have "(y, z) \<in> ((links nxt)\<^sup>+)\<^sup>*" using rtrancl_mono [OF sub] that by (auto simp: ends_def)
    with that x show ?thesis by (auto simp: ends_def split: if_splits)
  qed
  show "ends (nxt(x \<mapsto> r)) = ends nxt"
  proof (intro ext iffI)
    fix y z
    assume "ends nxt y z"
    moreover obtain w where "ends (nxt(x \<mapsto> r)) y w" using ends_exists [OF c'] by blast
    ultimately show "ends (nxt(x \<mapsto> r)) y z" using e ends_unique [OF c] by blast
  qed (rule e)
qed

end
