(* ===== verification/Forest.thy ===== *)
theory Forest
  imports Heap Chains
begin

text \<open>
  The accounting behind a region's \<open>stack_rc\<close>. The count of a heap region is meant to be the
  number of references to its objects from registers, the stack and frame-local regions, plus
  one for every sub-region that is itself referenced: \<open>stack_inc\<close> and \<open>stack_dec\<close> pass the
  first and the last reference on to the parent. \<open>rc_ok ext h\<close> states this for a given number
  \<open>ext r\<close> of direct references; the lemmas say that each operation of \<^verbatim>\<open>region.h\<close> keeps it,
  changes \<open>ext\<close> in the one place it should, and terminates within its fuel on a forest.
\<close>

definition parent_of :: "heap \<Rightarrow> rid \<Rightarrow> rid option" where
  "parent_of h r = (case regions h r of
     Some reg \<Rightarrow> (case owner reg of Parent p \<Rightarrow> Some p | _ \<Rightarrow> None) | None \<Rightarrow> None)"

definition rc :: "heap \<Rightarrow> rid \<Rightarrow> nat" where
  "rc h r = (case regions h r of Some reg \<Rightarrow> unat (stack_rc reg) | None \<Rightarrow> 0)"

definition heap_region :: "heap \<Rightarrow> rid \<Rightarrow> bool" where
  "heap_region h r \<longleftrightarrow> (\<exists>reg. regions h r = Some reg \<and> frame_depth reg = 0)"

definition forest :: "heap \<Rightarrow> bool" where
  "forest h \<longleftrightarrow> chain (parent_of h) (next_rid h) \<and>
     (\<forall>r p. parent_of h r = Some p \<longrightarrow> heap_region h r \<and> heap_region h p) \<and>
     (\<forall>r. heap_region h r \<longrightarrow> r < next_rid h)"

definition kids :: "heap \<Rightarrow> rid \<Rightarrow> rid set" where
  "kids h p = {c. parent_of h c = Some p \<and> 0 < rc h c}"

definition rc_ok :: "(rid \<Rightarrow> int) \<Rightarrow> heap \<Rightarrow> bool" where
  "rc_ok ext h \<longleftrightarrow> (\<forall>r. heap_region h r \<longrightarrow> int (rc h r) = ext r + int (card (kids h r)))"

text \<open>Two heaps with the same regions, up to counts and the finalizing flag.\<close>

definition strip :: "region \<Rightarrow> region" where
  "strip reg = reg\<lparr>stack_rc := 0, finalizing := False\<rparr>"

definition same_shape :: "heap \<Rightarrow> heap \<Rightarrow> bool" where
  "same_shape h h' \<longleftrightarrow> h' = h\<lparr>regions := regions h', worklist := worklist h'\<rparr> \<and>
     (\<forall>r. map_option strip (regions h' r) = map_option strip (regions h r))"

lemma same_shape_refl [simp]: "same_shape h h"
  by (simp add: same_shape_def)

lemma same_shape_trans: "same_shape h h' \<Longrightarrow> same_shape h' h'' \<Longrightarrow> same_shape h h''"
  unfolding same_shape_def by (metis (no_types, lifting) heap.surjective heap.update_convs(1,7))

lemma strip_sel [simp]:
  "owner (strip a) = owner a" "frame_depth (strip a) = frame_depth a"
  "entry_point (strip a) = entry_point a" "headers (strip a) = headers a" "rtype (strip a) = rtype a"
  by (simp_all add: strip_def)

lemma strip_eqD:
  assumes "strip a = strip b"
  shows "owner a = owner b \<and> frame_depth a = frame_depth b \<and>
      entry_point a = entry_point b \<and> headers a = headers b \<and> rtype a = rtype b"
  using assms by (metis strip_sel)

lemma strip_eq:
  assumes "map_option strip x = map_option strip y"
  shows "(x = None) = (y = None)"
    and "x = Some a \<Longrightarrow> \<exists>b. y = Some b \<and> owner b = owner a \<and> frame_depth b = frame_depth a \<and>
      entry_point b = entry_point a \<and> headers b = headers a \<and> rtype b = rtype a"
proof -
  show "(x = None) = (y = None)" using assms by (cases x; cases y) simp_all
  assume "x = Some a"
  then obtain b where "y = Some b" "strip a = strip b" using assms by (cases y) auto
  with strip_eqD [of a b] show "\<exists>b. y = Some b \<and> owner b = owner a \<and> frame_depth b = frame_depth a \<and>
      entry_point b = entry_point a \<and> headers b = headers a \<and> rtype b = rtype a" by auto
qed

lemma same_shape_parent: "same_shape h h' \<Longrightarrow> parent_of h' = parent_of h"
proof
  fix r
  assume "same_shape h h'"
  then have s: "map_option strip (regions h' r) = map_option strip (regions h r)"
    by (simp add: same_shape_def)
  show "parent_of h' r = parent_of h r"
    using strip_eq [OF s] by (cases "regions h' r") (auto simp: parent_of_def)
qed

lemma same_shape_heap_region: "same_shape h h' \<Longrightarrow> heap_region h' r \<longleftrightarrow> heap_region h r"
proof -
  assume "same_shape h h'"
  then have s: "map_option strip (regions h' r) = map_option strip (regions h r)"
    by (simp add: same_shape_def)
  show ?thesis
    using strip_eq [OF s] by (cases "regions h' r") (auto simp: heap_region_def)
qed

lemma same_shape_fields:
  "same_shape h h' \<Longrightarrow> next_rid h' = next_rid h \<and> objs h' = objs h \<and> cowns h' = cowns h \<and>
    in_collection h' = in_collection h"
  by (simp add: same_shape_def) (metis heap.ext_inject heap.surjective heap.update_convs(1,7))

definition owner_of :: "heap \<Rightarrow> rid \<Rightarrow> owner option" where
  "owner_of h r = map_option owner (regions h r)"

lemma owner_of_Some: "owner_of h r = Some o' \<longleftrightarrow> (\<exists>reg. regions h r = Some reg \<and> owner reg = o')"
  by (simp add: owner_of_def)

lemma same_shape_owner: "same_shape h h' \<Longrightarrow> owner_of h' = owner_of h"
proof
  fix r
  assume "same_shape h h'"
  then have "map_option strip (regions h' r) = map_option strip (regions h r)" by (simp add: same_shape_def)
  from strip_eq [OF this] show "owner_of h' r = owner_of h r"
    by (cases "regions h' r") (auto simp: owner_of_def)
qed

text \<open>Only ownership, counts and the work list differ.\<close>

definition same_rest :: "heap \<Rightarrow> heap \<Rightarrow> bool" where
  "same_rest h h' \<longleftrightarrow> h' = h\<lparr>regions := regions h', worklist := worklist h'\<rparr> \<and>
     (\<forall>q. heap_region h' q = heap_region h q \<and> map_option headers (regions h' q) = map_option headers (regions h q))"

lemma same_rest_refl [simp]: "same_rest h h"
  by (simp add: same_rest_def)

lemma same_rest_trans: "same_rest h h' \<Longrightarrow> same_rest h' h'' \<Longrightarrow> same_rest h h''"
  unfolding same_rest_def by (metis (no_types, lifting) heap.surjective heap.update_convs(1,7))

lemma same_shape_rest: "same_shape h h' \<Longrightarrow> same_rest h h'"
proof -
  assume "same_shape h h'"
  moreover have "map_option headers (regions h' q) = map_option headers (regions h q)" for q
  proof -
    have "map_option strip (regions h' q) = map_option strip (regions h q)" using \<open>same_shape h h'\<close> by (simp add: same_shape_def)
    from strip_eq [OF this] show ?thesis by (cases "regions h' q") auto
  qed
  ultimately show ?thesis by (simp add: same_rest_def same_shape_heap_region) (simp add: same_shape_def)
qed

lemma same_rest_fields:
  "same_rest h h' \<Longrightarrow> next_rid h' = next_rid h \<and> objs h' = objs h \<and> cowns h' = cowns h \<and>
    in_collection h' = in_collection h"
  by (simp add: same_rest_def) (metis heap.ext_inject heap.surjective heap.update_convs(1,7))

definition header_set :: "heap \<Rightarrow> rid \<Rightarrow> oid set" where
  "header_set h r = (case regions h r of None \<Rightarrow> {} | Some reg \<Rightarrow> set (headers reg))"

lemma header_set_cong: "map_option headers (regions h' r) = map_option headers (regions h r) \<Longrightarrow> header_set h' r = header_set h r"
  by (cases "regions h' r"; cases "regions h r") (simp_all add: header_set_def)

lemma same_rest_headers: "same_rest h h' \<Longrightarrow> header_set h' = header_set h"
  unfolding same_rest_def by (rule ext, rule header_set_cong) blast

lemma same_shape_forest: "same_shape h h' \<Longrightarrow> forest h' = forest h"
  by (simp add: forest_def same_shape_parent same_shape_heap_region same_shape_fields)

lemma finite_kids: "forest h \<Longrightarrow> finite (kids h p)"
  by (rule finite_subset [of _ "{..<next_rid h}"]) (auto simp: kids_def forest_def)

lemma not_own_parent: "forest h \<Longrightarrow> parent_of h r \<noteq> Some r"
  using above_irrefl [of "parent_of h" "next_rid h" r] above_Some [of "parent_of h" r r]
  by (auto simp: forest_def)

lemma not_own_kid: "forest h \<Longrightarrow> r \<notin> kids h r"
  using above_irrefl [of "parent_of h" "next_rid h" r] above_Some [of "parent_of h" r r]
  by (auto simp: forest_def kids_def)

subsection \<open>Changing one count\<close>

definition set_rc :: "rid \<Rightarrow> 32 word \<Rightarrow> heap \<Rightarrow> heap" where
  "set_rc r w = mod_region r (\<lambda>reg. reg\<lparr>stack_rc := w\<rparr>)"

lemma set_rc_shape: "same_shape h (set_rc r w h)"
  by (auto simp: same_shape_def set_rc_def mod_region_def strip_def map_option_case split: option.splits)

lemma set_rc_fields:
  "worklist (set_rc r w h) = worklist h" "q \<noteq> r \<Longrightarrow> regions (set_rc r w h) q = regions h q"
  by (simp_all add: set_rc_def mod_region_def)

lemma rc_set_rc: "heap_region h r \<Longrightarrow> rc (set_rc r w h) q = (if q = r then unat w else rc h q)"
  by (auto simp: rc_def set_rc_def mod_region_def heap_region_def)

lemma kids_set_rc:
  assumes "heap_region h r"
  shows "kids (set_rc r w h) q =
    (if parent_of h r = Some q then (if 0 < unat w then insert r (kids h q) else kids h q - {r}) else kids h q)"
  using assms by (auto simp: kids_def rc_set_rc same_shape_parent [OF set_rc_shape])

lemma card_kids_set_rc:
  assumes "forest h" "heap_region h r"
  shows "card (kids (set_rc r w h) q) + of_bool (parent_of h r = Some q \<and> 0 < rc h r) =
    card (kids h q) + of_bool (parent_of h r = Some q \<and> 0 < unat w)"
proof -
  have fin: "finite (kids h q)" by (rule finite_kids [OF assms(1)])
  have mem: "r \<in> kids h q \<longleftrightarrow> parent_of h r = Some q \<and> 0 < rc h r" by (simp add: kids_def)
  have "card (kids h q) = Suc (card (kids h q - {r}))" if "r \<in> kids h q"
    using card_Suc_Diff1 [OF fin that] by simp
  then show ?thesis
    using fin mem by (auto simp: kids_set_rc [OF assms(2)] insert_absorb)
qed

text \<open>A new count for \<open>r\<close> that fits \<open>e\<close> direct references, with the parent's share moved.\<close>

lemma rc_ok_set_rc:
  assumes F: "forest h" and ok: "rc_ok ext h" and r: "heap_region h r"
    and w: "int (unat w) = e + int (card (kids h r))"
    and ext': "\<And>q. q \<noteq> r \<Longrightarrow> ext' q + of_bool (parent_of h r = Some q \<and> 0 < unat w) =
      ext q + of_bool (parent_of h r = Some q \<and> 0 < rc h r)"
    and e: "ext' r = e"
  shows "rc_ok ext' (set_rc r w h)"
  unfolding rc_ok_def
proof (intro allI impI)
  fix q
  assume "heap_region (set_rc r w h) q"
  then have q: "heap_region h q" by (simp add: same_shape_heap_region [OF set_rc_shape])
  show "int (rc (set_rc r w h) q) = ext' q + int (card (kids (set_rc r w h) q))"
  proof (cases "q = r")
    case True
    have "parent_of h r \<noteq> Some r" using above_irrefl above_Some F by (fastforce simp: forest_def)
    then have "kids (set_rc r w h) r = kids h r" by (simp add: kids_set_rc [OF r])
    with True w e r show ?thesis by (simp add: rc_set_rc)
  next
    case False
    have "int (rc h q) = ext q + int (card (kids h q))" using ok q by (simp add: rc_ok_def)
    then show ?thesis
      using arg_cong [OF card_kids_set_rc [OF F r, of w q], of int] ext' [OF False] False r
      by (simp add: rc_set_rc)
  qed
qed

subsection \<open>Incrementing\<close>

lemma unat_add_lem': "unat (a :: 32 word) + unat b < 2 ^ 32 \<Longrightarrow> unat (a + b) = unat a + unat b"
  by (simp add: unat_word_ariths)

lemma forest_chain: "forest h \<Longrightarrow> chain (parent_of h) (next_rid h)"
  by (simp add: forest_def)

lemma mod_region_set_rc:
  "regions h r = Some reg \<Longrightarrow> mod_region r (\<lambda>reg. reg\<lparr>stack_rc := f (stack_rc reg)\<rparr>) h = set_rc r (f (stack_rc reg)) h"
  by (simp add: mod_region_def set_rc_def)

lemma parent_of_Some: "regions h r = Some reg \<Longrightarrow>
    parent_of h r = (case owner reg of Parent p \<Rightarrow> Some p | _ \<Rightarrow> None)"
  by (simp add: parent_of_def)

lemma above_heap: "q \<in> above (parent_of h) r \<Longrightarrow> forest h \<Longrightarrow> heap_region h q"
  by (auto simp: above_def linked forest_def elim: tranclE)

lemma stack_inc_f_ok:
  assumes "forest h" "rc_ok ext h" "heap_region h r" "depth (parent_of h) r < n"
    "0 < unat inc" "\<And>q. heap_region h q \<Longrightarrow> rc h q + unat inc < 2 ^ 32"
  shows "\<exists>h'. stack_inc_f n r inc h = Ret h' \<and> same_shape h h' \<and> worklist h' = worklist h \<and>
    rc_ok (ext(r := ext r + int (unat inc))) h' \<and>
    (\<forall>q. q \<noteq> r \<longrightarrow> q \<notin> above (parent_of h) r \<longrightarrow> regions h' q = regions h q)"
  using assms
proof (induction n arbitrary: r inc h ext)
  case (Suc n)
  note F = Suc.prems(1) and ok = Suc.prems(2) and r = Suc.prems(3) and room = Suc.prems(6)
  from r obtain reg where reg: "regions h r = Some reg" "frame_depth reg = 0"
    by (auto simp: heap_region_def)
  have rcr: "rc h r = unat (stack_rc reg)" using reg by (simp add: rc_def)
  have okr: "int (rc h r) = ext r + int (card (kids h r))" using ok r by (simp add: rc_ok_def)
  show ?case
  proof (cases "stack_rc reg = 0 \<and> parent_of h r \<noteq> None")
    case True
    then obtain p where p: "parent_of h r = Some p" and z: "stack_rc reg = 0" by auto
    have own: "owner reg = Parent p" using p reg by (auto simp: parent_of_def split: owner.splits)
    note step = depth_Some [OF forest_chain [OF F] p]
    have up: "r \<noteq> p" "r \<notin> above (parent_of h) p" "above (parent_of h) r = insert p (above (parent_of h) p)"
      using above_irrefl [OF forest_chain [OF F], of r] above_Some [of "parent_of h" r p, OF p] by auto
    have "heap_region h p" using F p by (auto simp: forest_def)
    moreover have "heap_region h q \<Longrightarrow> rc h q + unat (1 :: 32 word) < 2 ^ 32" for q
      using room [of q] Suc.prems(5) by simp
    moreover have "depth (parent_of h) p < n" "0 < unat (1 :: 32 word)" using step Suc.prems(4) by auto
    ultimately obtain h1 where h1: "stack_inc_f n p 1 h = Ret h1" "same_shape h h1"
      "worklist h1 = worklist h" "rc_ok (ext(p := ext p + int (unat (1 :: 32 word)))) h1"
      "\<And>q. q \<noteq> p \<Longrightarrow> q \<notin> above (parent_of h) p \<Longrightarrow> regions h1 q = regions h q"
      using Suc.IH [OF F ok, of p 1] by blast
    have reg1: "regions h1 r = Some reg" using h1(5) up reg by simp
    have F1: "forest h1" using same_shape_forest [OF h1(2)] F by simp
    have r1: "heap_region h1 r" using same_shape_heap_region [OF h1(2)] r by simp
    have z1: "ext r + int (card (kids h1 r)) = 0"
      using h1(4) r1 reg1 z up(1) by (auto simp: rc_ok_def rc_def)
    have "rc_ok (ext(r := ext r + int (unat inc))) (set_rc r inc h1)"
      by (rule rc_ok_set_rc [OF F1 h1(4) r1, of _ "ext r + int (unat inc)"])
        (use z1 up reg1 z Suc.prems(5) same_shape_parent [OF h1(2)] p in \<open>auto simp: rc_def\<close>)
    moreover have "stack_inc_f (Suc n) r inc h = Ret (set_rc r inc h1)"
      using reg own z h1(1) mod_region_set_rc [OF reg1, of "\<lambda>w. w + inc"]
      by (simp add: get_region_def is_frame_local_def)
    moreover have "same_shape h (set_rc r inc h1)" by (rule same_shape_trans [OF h1(2) set_rc_shape])
    moreover have "regions (set_rc r inc h1) q = regions h q" if "q \<noteq> r" "q \<notin> above (parent_of h) r" for q
      using that h1(5) [of q] up by (simp add: set_rc_fields)
    moreover have "worklist (set_rc r inc h1) = worklist h" by (simp add: set_rc_fields h1(3))
    ultimately show ?thesis by blast
  next
    case False
    let ?w = "stack_rc reg + inc"
    have w: "unat ?w = rc h r + unat inc"
      using room [OF r] rcr by (simp add: unat_add_lem')
    have "rc_ok (ext(r := ext r + int (unat inc))) (set_rc r ?w h)"
      by (rule rc_ok_set_rc [OF F ok r, of _ "ext r + int (unat inc)"])
        (use w okr False Suc.prems(5) rcr unat_eq_zero [of "stack_rc reg"] in \<open>auto simp: unat_gt_0\<close>)
    moreover have "stack_inc_f (Suc n) r inc h = Ret (set_rc r ?w h)"
      using reg False parent_of_Some [OF reg(1)] mod_region_set_rc [OF reg(1), of "\<lambda>w. w + inc"]
      by (auto simp: get_region_def is_frame_local_def split: owner.splits)
    ultimately show ?thesis using set_rc_shape set_rc_fields by blast
  qed
qed simp

lemma stack_inc_ok:
  assumes "forest h" "rc_ok ext h" "heap_region h r" "0 < unat inc"
    "\<And>q. heap_region h q \<Longrightarrow> rc h q + unat inc < 2 ^ 32"
  shows "\<exists>h'. stack_inc r inc h = Ret h' \<and> same_shape h h' \<and> worklist h' = worklist h \<and>
    rc_ok (ext(r := ext r + int (unat inc))) h' \<and>
    (\<forall>q. q \<noteq> r \<longrightarrow> q \<notin> above (parent_of h) r \<longrightarrow> regions h' q = regions h q)"
  unfolding stack_inc_def
  by (rule stack_inc_f_ok [OF assms(1-3) _ assms(4,5)])
    (use depth_bound [OF forest_chain [OF assms(1)]] in \<open>auto simp: less_Suc_eq_le\<close>)

subsection \<open>Decrementing\<close>

text \<open>\<open>anchored\<close>: some region from \<open>r\<close> up to its root is referenced or owned by a cown.\<close>

definition up :: "heap \<Rightarrow> rid \<Rightarrow> rid set" where
  "up h r = insert r (above (parent_of h) r)"

definition anchored :: "heap \<Rightarrow> rid \<Rightarrow> bool" where
  "anchored h r \<longleftrightarrow> (\<exists>q\<in>up h r. 0 < rc h q \<or> (\<exists>reg. regions h q = Some reg \<and> has_cown_owner reg))"

lemma up_Some: "parent_of h r = Some p \<Longrightarrow> up h r = insert r (up h p)"
  using above_Some [of "parent_of h" r p] by (auto simp: up_def)

lemma up_None: "parent_of h r = None \<Longrightarrow> up h r = {r}"
  using above_None [of "parent_of h" r] by (simp add: up_def)

lemma same_shape_up: "same_shape h h' \<Longrightarrow> up h' r = up h r"
  by (simp add: up_def same_shape_parent)

text \<open>Two heaps that differ in the counts of their regions only.\<close>

definition only_counts :: "heap \<Rightarrow> heap \<Rightarrow> bool" where
  "only_counts h h' \<longleftrightarrow> h' = h\<lparr>regions := regions h'\<rparr> \<and>
     (\<forall>q. map_option (\<lambda>reg. reg\<lparr>stack_rc := 0\<rparr>) (regions h' q) = map_option (\<lambda>reg. reg\<lparr>stack_rc := 0\<rparr>) (regions h q))"

lemma only_counts_refl [simp]: "only_counts h h"
  by (simp add: only_counts_def)

lemma only_counts_trans: "only_counts h h' \<Longrightarrow> only_counts h' h'' \<Longrightarrow> only_counts h h''"
  by (cases h; cases h'; cases h'') (simp add: only_counts_def)

lemma only_counts_mod: "only_counts h (mod_region r (\<lambda>reg. reg\<lparr>stack_rc := f reg\<rparr>) h)"
  by (auto simp: only_counts_def mod_region_def map_option_case split: option.splits)

lemma stack_inc_f_counts: "stack_inc_f n r inc h = Ret h' \<Longrightarrow> only_counts h h'"
proof (induction n arbitrary: r inc h h')
  case (Suc n)
  from Suc.prems show ?case
    by (auto simp: get_region_def outcome_simps split: option.splits if_splits owner.splits
        intro: only_counts_mod only_counts_trans [OF Suc.IH only_counts_mod])
qed simp

lemma stack_inc_counts: "stack_inc r inc h = Ret h' \<Longrightarrow> only_counts h h'"
  unfolding stack_inc_def by (rule stack_inc_f_counts)

lemma stack_dec_f_counts: "stack_dec_f n K r d h = Ret (True, h') \<Longrightarrow> only_counts h h'"
proof (induction n arbitrary: r d h)
  case (Suc n)
  from Suc.prems show ?case
    by (auto simp: get_region_def outcome_simps Let_def split: option.splits if_splits owner.splits
        intro: only_counts_mod only_counts_trans [OF only_counts_mod Suc.IH])
qed simp

lemma stack_dec_counts: "stack_dec K r d h = Ret (True, h') \<Longrightarrow> only_counts h h'"
  unfolding stack_dec_def by (rule stack_dec_f_counts)

text \<open>What a decrement leaves when it reports that the region was freed: the root is marked and, unless
  it was marked before, queued behind the work there was.\<close>

definition finalizing_of :: "heap \<Rightarrow> rid \<Rightarrow> bool" where
  "finalizing_of h q \<longleftrightarrow> (\<exists>reg. regions h q = Some reg \<and> finalizing reg)"

definition freed_root :: "heap \<Rightarrow> heap \<Rightarrow> rid \<Rightarrow> bool" where
  "freed_root h h' q \<longleftrightarrow>
     (\<exists>reg. regions h' q = Some reg \<and> owner reg = Unowned \<and> stack_rc reg = 0 \<and> finalizing reg) \<and>
     worklist h' = worklist h @ (if finalizing_of h q then [] else [WRegion q]) \<and>
     (\<forall>x. x \<noteq> q \<longrightarrow> finalizing_of h' x = finalizing_of h x)"

lemma finalizing_set_rc [simp]: "finalizing_of (set_rc r w h) = finalizing_of h"
  by (auto simp: finalizing_of_def set_rc_def mod_region_def fun_eq_iff split: if_splits)

lemma free_region_ok:
  assumes "regions h r = Some reg" "owner reg = Unowned" "stack_rc reg = 0" "in_collection h"
  shows "\<exists>h'. free_region K r h = Ret h' \<and> same_shape h h' \<and> freed_root h h' r \<and> rc h' = rc h \<and>
    (\<forall>q. q \<noteq> r \<longrightarrow> regions h' q = regions h q)"
proof (cases "finalizing reg")
  case True
  with assms show ?thesis
    by (auto simp: free_region_def get_region_def has_owner_def collect_region_def freed_root_def finalizing_of_def)
next
  case False
  let ?h = "mod_region r (\<lambda>reg. reg\<lparr>finalizing := True\<rparr>) h"
  let ?h' = "?h\<lparr>worklist := worklist ?h @ [WRegion r]\<rparr>"
  have "free_region K r h = Ret ?h'"
    using assms False
    by (simp add: free_region_def get_region_def has_owner_def collect_region_def enqueue_def mod_region_def)
  moreover have "same_shape h ?h'"
    by (auto simp: same_shape_def mod_region_def strip_def map_option_case split: option.splits)
  moreover have "freed_root h ?h' r"
    using assms False by (simp add: freed_root_def mod_region_def finalizing_of_def)
  moreover have "rc ?h' = rc h"
    using assms(1) by (auto simp: rc_def mod_region_def fun_eq_iff)
  moreover have "\<forall>q. q \<noteq> r \<longrightarrow> regions ?h' q = regions h q" by (simp add: mod_region_def)
  ultimately show ?thesis by blast
qed

lemma stack_dec_f_ok:
  assumes "forest h" "rc_ok ext h" "heap_region h r" "depth (parent_of h) r < n"
    "0 < unat d" "int (unat d) \<le> ext r" "\<And>q. 0 \<le> ext q"
    and alive: "in_collection h \<or> (\<exists>q\<in>up h r. 0 < (ext(r := ext r - int (unat d))) q \<or>
      (\<exists>reg. regions h q = Some reg \<and> has_cown_owner reg))"
  shows "\<exists>b h'. stack_dec_f n K r d h = Ret (b, h') \<and> same_shape h h' \<and>
    rc_ok (ext(r := ext r - int (unat d))) h' \<and>
    (if b then worklist h' = worklist h \<and> anchored h' r
     else \<not> anchored h' r \<and> (\<exists>q\<in>up h r. freed_root h h' q)) \<and>
    (\<forall>q. q \<notin> up h r \<longrightarrow> regions h' q = regions h q)"
  using assms
proof (induction n arbitrary: r d h ext)
  case (Suc n)
  note F = Suc.prems(1) and ok = Suc.prems(2) and r = Suc.prems(3)
  from r obtain reg where reg: "regions h r = Some reg" "frame_depth reg = 0"
    by (auto simp: heap_region_def)
  have rcr: "rc h r = unat (stack_rc reg)" using reg by (simp add: rc_def)
  have okr: "int (rc h r) = ext r + int (card (kids h r))" using ok r by (simp add: rc_ok_def)
  let ?w = "stack_rc reg - d" and ?ext = "ext(r := ext r - int (unat d))"
  have le': "unat d \<le> unat (stack_rc reg)" using okr rcr Suc.prems(6) by linarith
  then have le: "d \<le> stack_rc reg" by (simp add: word_le_nat_alt)
  have w: "int (unat ?w) = ext r - int (unat d) + int (card (kids h r))"
    using unat_sub [OF le] le' okr rcr by linarith
  let ?h1 = "set_rc r ?w h"
  have sh1: "same_shape h ?h1" by (rule set_rc_shape)
  have F1: "forest ?h1" using same_shape_forest [OF sh1] F by simp
  have pos: "0 < rc h r" using okr Suc.prems(5,6) by linarith
  have h1: "mod_region r (\<lambda>reg. reg\<lparr>stack_rc := stack_rc reg - d\<rparr>) h = ?h1"
    using mod_region_set_rc [OF reg(1), of "\<lambda>w. w - d"] .
  have reg1: "regions ?h1 r = Some (reg\<lparr>stack_rc := ?w\<rparr>)"
    using reg by (simp add: set_rc_def mod_region_def)
  have fr1: "\<forall>q. q \<notin> up h r \<longrightarrow> regions ?h1 q = regions h q"
    by (auto simp: up_def set_rc_fields)
  show ?case
  proof (cases "?w = 0")
    case False
    have "rc_ok ?ext ?h1"
      by (rule rc_ok_set_rc [OF F ok r w]) (use False pos in \<open>auto simp: unat_gt_0\<close>)
    moreover have "stack_dec_f (Suc n) K r d h = Ret (True, ?h1)"
      using reg le False h1 by (simp add: get_region_def is_frame_local_def Let_def)
    moreover have "anchored ?h1 r"
      using False rc_set_rc [OF r, of ?w r] by (auto simp: anchored_def up_def unat_gt_0)
    moreover note fr1
    ultimately show ?thesis using sh1 set_rc_fields(1) by (intro exI [of _ True] exI [of _ ?h1]) (simp del: fun_upd_apply stack_dec_f.simps)
  next
    case True
    note z = True
    have e0: "ext r - int (unat d) \<le> 0" using w True by simp
    show ?thesis
    proof (cases "owner reg")
      case Unowned
      have pn: "parent_of h r = None" using reg Unowned by (simp add: parent_of_def)
      have "in_collection h"
        using Suc.prems(8) e0 reg Unowned by (auto simp: up_None [OF pn] has_cown_owner_def)
      then have ic1: "in_collection ?h1" using same_shape_fields [OF sh1] by simp
      obtain h2 where h2: "free_region K r ?h1 = Ret h2" "same_shape ?h1 h2" "freed_root ?h1 h2 r" "rc h2 = rc ?h1"
        "\<And>q. q \<noteq> r \<Longrightarrow> regions h2 q = regions ?h1 q"
        using free_region_ok [OF reg1 _ _ ic1] Unowned z by auto
      have ok1: "rc_ok ?ext ?h1"
        by (rule rc_ok_set_rc [OF F ok r w]) (use pn in auto)
      have "kids h2 q = kids ?h1 q" for q
        by (simp add: kids_def h2(4) same_shape_parent [OF h2(2)])
      then have "rc_ok ?ext h2"
        using ok1 by (simp add: rc_ok_def h2(4) same_shape_heap_region [OF h2(2)])
      moreover have "\<not> anchored h2 r"
      proof -
        have "up h2 r = {r}" using same_shape_up [OF same_shape_trans [OF sh1 h2(2)]] up_None [OF pn] by simp
        moreover have "rc h2 r = 0" using h2(4) z rc_set_rc [OF r, of ?w r] by simp
        moreover have "owner reg' = Unowned" if "regions h2 r = Some reg'" for reg'
          using h2(3) that by (auto simp: freed_root_def)
        ultimately show ?thesis by (auto simp: anchored_def has_cown_owner_def)
      qed
      moreover have "freed_root h h2 r" using h2(3) by (simp add: freed_root_def set_rc_fields)
      moreover have "stack_dec_f (Suc n) K r d h = Ret (False, h2)"
        using reg le z h1 Unowned h2(1) by (simp add: get_region_def is_frame_local_def Let_def)
      moreover have "\<forall>q. q \<notin> up h r \<longrightarrow> regions h2 q = regions h q"
        using h2(5) fr1 by (auto simp: up_def)
      moreover have "r \<in> up h r" by (simp add: up_def)
      ultimately show ?thesis using same_shape_trans [OF sh1 h2(2)]
        by (intro exI [of _ False] exI [of _ h2]) (auto simp del: fun_upd_apply stack_dec_f.simps)
    next
      case (CownOwner c)
      have pn: "parent_of h r = None" using reg CownOwner by (simp add: parent_of_def)
      have "rc_ok ?ext ?h1" by (rule rc_ok_set_rc [OF F ok r w]) (use pn in auto)
      moreover have "stack_dec_f (Suc n) K r d h = Ret (True, ?h1)"
        using reg le z h1 CownOwner by (simp add: get_region_def is_frame_local_def Let_def)
      moreover have "anchored ?h1 r"
        using reg1 CownOwner by (auto simp: anchored_def up_def has_cown_owner_def)
      moreover note fr1
      ultimately show ?thesis using sh1 set_rc_fields(1) by (intro exI [of _ True] exI [of _ ?h1]) (simp del: fun_upd_apply stack_dec_f.simps)
    next
      case (Parent p)
      have p: "parent_of h r = Some p" using reg Parent by (simp add: parent_of_def)
      have p1: "parent_of ?h1 = parent_of h" by (rule same_shape_parent [OF sh1])
      have rp: "r \<noteq> p" "r \<notin> up h p"
        using above_irrefl [OF forest_chain [OF F], of r] above_Some [of "parent_of h" r p, OF p]
        by (auto simp: up_def)
      let ?ext1 = "?ext(p := ext p + 1)"
      have ok1: "rc_ok ?ext1 ?h1"
        by (rule rc_ok_set_rc [OF F ok r w]) (use p rp pos z in auto)
      have hp: "heap_region ?h1 p"
        using F p by (auto simp: forest_def same_shape_heap_region [OF sh1])
      have dp: "depth (parent_of ?h1) p < n"
        using depth_Some [OF forest_chain [OF F] p] Suc.prems(4) by (simp add: p1)
      have alive1: "in_collection ?h1 \<or> (\<exists>q\<in>up ?h1 p. 0 < (?ext1(p := ?ext1 p - int (unat (1 :: 32 word)))) q \<or>
          (\<exists>reg. regions ?h1 q = Some reg \<and> has_cown_owner reg))"
      proof (cases "in_collection h")
        case False
        with Suc.prems(8) obtain q where q: "q \<in> up h r"
          "0 < ?ext q \<or> (\<exists>reg. regions h q = Some reg \<and> has_cown_owner reg)" by auto
        have "q \<noteq> r" using q(2) e0 reg Parent by (auto simp: has_cown_owner_def)
        then have "q \<in> up h p" using q(1) up_Some [OF p] by simp
        with q(2) \<open>q \<noteq> r\<close> show ?thesis
          by (auto simp: same_shape_up [OF sh1] set_rc_fields intro!: bexI [of _ q])
      qed (simp add: same_shape_fields [OF sh1])
      have "int (unat (1 :: 32 word)) \<le> ?ext1 p" "0 < unat (1 :: 32 word)" "0 \<le> ?ext1 q" for q
        using Suc.prems(6) Suc.prems(7) [of p] Suc.prems(7) [of q] by simp_all
      then obtain b h2 where h2: "stack_dec_f n K p 1 ?h1 = Ret (b, h2)" "same_shape ?h1 h2"
        "rc_ok (?ext1(p := ?ext1 p - int (unat (1 :: 32 word)))) h2"
        "if b then worklist h2 = worklist ?h1 \<and> anchored h2 p
         else \<not> anchored h2 p \<and> (\<exists>q\<in>up ?h1 p. freed_root ?h1 h2 q)"
        "\<And>q. q \<notin> up ?h1 p \<Longrightarrow> regions h2 q = regions ?h1 q"
        using Suc.IH [OF F1 ok1 hp dp _ _ _ alive1] by blast
      have sh2: "same_shape h h2" by (rule same_shape_trans [OF sh1 h2(2)])
      have reg2: "regions h2 r = Some (reg\<lparr>stack_rc := ?w\<rparr>)"
        using h2(5) rp reg1 by (simp add: same_shape_up [OF sh1])
      have "?ext1(p := ?ext1 p - int (unat (1 :: 32 word))) = ?ext" using rp by auto
      with h2(3) have "rc_ok ?ext h2" by simp
      moreover have "anchored h2 r \<longleftrightarrow> anchored h2 p"
        using reg2 z Parent up_Some [OF p] same_shape_up [OF sh2]
        by (auto simp: anchored_def rc_def has_cown_owner_def)
      moreover have "stack_dec_f (Suc n) K r d h = Ret (b, h2)"
        using reg le z h1 Parent h2(1) by (simp add: get_region_def is_frame_local_def Let_def)
      moreover have "freed_root h h2 q \<longleftrightarrow> freed_root ?h1 h2 q" for q
        by (simp add: freed_root_def set_rc_fields)
      moreover have "\<forall>q. q \<notin> up h r \<longrightarrow> regions h2 q = regions h q"
        using h2(5) fr1 up_Some [OF p] by (auto simp: same_shape_up [OF sh1])
      ultimately show ?thesis
        using sh2 h2(4) up_Some [OF p] same_shape_up [OF sh1]
        by (intro exI [of _ b] exI [of _ h2]) (auto simp: set_rc_fields simp del: fun_upd_apply stack_dec_f.simps split: if_splits)
    qed
  qed
qed simp

lemma stack_dec_ok:
  assumes "forest h" "rc_ok ext h" "heap_region h r" "0 < unat d" "int (unat d) \<le> ext r" "\<And>q. 0 \<le> ext q"
    "in_collection h \<or> (\<exists>q\<in>up h r. 0 < (ext(r := ext r - int (unat d))) q \<or>
      (\<exists>reg. regions h q = Some reg \<and> has_cown_owner reg))"
  shows "\<exists>b h'. stack_dec K r d h = Ret (b, h') \<and> same_shape h h' \<and>
    rc_ok (ext(r := ext r - int (unat d))) h' \<and>
    (if b then worklist h' = worklist h \<and> anchored h' r
     else \<not> anchored h' r \<and> (\<exists>q\<in>up h r. freed_root h h' q)) \<and>
    (\<forall>q. q \<notin> up h r \<longrightarrow> regions h' q = regions h q)"
  unfolding stack_dec_def
  by (rule stack_dec_f_ok [OF assms(1-3) _ assms(4-7)])
    (use depth_bound [OF forest_chain [OF assms(1)]] in \<open>auto simp: less_Suc_eq_le\<close>)

subsection \<open>Ancestors\<close>

lemma is_ancestor_f_ok:
  assumes "forest h" "heap_region h r" "depth (parent_of h) r < n"
  shows "is_ancestor_f n a r h = Ret (a \<in> above (parent_of h) r)"
  using assms
proof (induction n arbitrary: r)
  case (Suc n)
  then obtain reg where reg: "regions h r = Some reg" by (auto simp: heap_region_def)
  show ?case
  proof (cases "parent_of h r")
    case None
    then show ?thesis using reg above_None [of "parent_of h" r, OF None] parent_of_Some [OF reg]
      by (auto simp: get_region_def split: owner.splits)
  next
    case (Some p)
    then have "owner reg = Parent p" using reg by (auto simp: parent_of_def split: owner.splits)
    moreover have "heap_region h p" using Suc.prems(1) Some by (auto simp: forest_def)
    ultimately show ?thesis
      using reg Suc.IH [OF Suc.prems(1), of p] depth_Some [OF forest_chain [OF Suc.prems(1)] Some] Suc.prems(3)
        above_Some [of "parent_of h" r p, OF Some]
      by (auto simp: get_region_def)
  qed
qed simp

lemma is_ancestor_ok:
  assumes "forest h" "heap_region h r"
  shows "is_ancestor_of a r h = Ret (a \<in> above (parent_of h) r)"
  unfolding is_ancestor_of_def
  by (rule is_ancestor_f_ok [OF assms])
    (use depth_bound [OF forest_chain [OF assms(1)]] in \<open>auto simp: less_Suc_eq_le\<close>)

subsection \<open>Ownership\<close>

definition set_owner :: "rid \<Rightarrow> owner \<Rightarrow> oid option \<Rightarrow> heap \<Rightarrow> heap" where
  "set_owner r o' e = mod_region r (\<lambda>reg. reg\<lparr>owner := o', entry_point := e\<rparr>)"

lemma set_owner_fields [simp]:
  "next_rid (set_owner r o' e h) = next_rid h" "worklist (set_owner r o' e h) = worklist h"
  "in_collection (set_owner r o' e h) = in_collection h" "objs (set_owner r o' e h) = objs h"
  "heap_region (set_owner r o' e h) q = heap_region h q" "rc (set_owner r o' e h) q = rc h q"
  by (auto simp: set_owner_def mod_region_def heap_region_def rc_def split: option.splits)

lemma finalizing_set_owner [simp]: "finalizing_of (set_owner r o' e h) = finalizing_of h"
  by (auto simp: finalizing_of_def set_owner_def mod_region_def fun_eq_iff split: if_splits)

lemma set_owner_rest: "same_rest h (set_owner r o' e h)"
  by (simp add: same_rest_def) (auto simp: set_owner_def mod_region_def option.map_comp comp_def)

lemma owner_set_owner: "regions h r \<noteq> None \<Longrightarrow> owner_of (set_owner r o' e h) = (owner_of h)(r \<mapsto> o')"
  by (auto simp: owner_of_def set_owner_def mod_region_def)

lemma parent_set_owner:
  "heap_region h r \<Longrightarrow> parent_of (set_owner r o' e h) =
    (parent_of h)(r := (case o' of Parent p \<Rightarrow> Some p | _ \<Rightarrow> None))"
  by (auto simp: parent_of_def set_owner_def mod_region_def heap_region_def fun_eq_iff)

lemma forest_set_parent:
  assumes "forest h" "heap_region h r" "heap_region h p" "parent_of h r = None" "r \<notin> up h p"
  shows "forest (set_owner r (Parent p) e h)"
proof -
  have "p < next_rid h" using assms(1,3) by (simp add: forest_def)
  then have "chain ((parent_of h)(r \<mapsto> p)) (next_rid h)"
    using chain_link [OF forest_chain [OF assms(1)] assms(4)] assms(5) by (auto simp: up_def)
  then show ?thesis
    using assms by (auto simp: forest_def parent_set_owner split: if_splits)
qed

lemma forest_unset_parent:
  assumes "forest h" "heap_region h r" "\<And>p. o' \<noteq> Parent p"
  shows "forest (set_owner r o' e h)"
  using chain_unlink [OF forest_chain [OF assms(1)], of r] assms
  by (cases o') (auto simp: forest_def parent_set_owner split: if_splits)

lemma kids_set_owner:
  assumes "heap_region h r"
  shows "kids (set_owner r o' e h) q =
    (if o' = Parent q \<and> 0 < rc h r then insert r (kids h q) else kids h q - {r})"
  using assms by (auto simp: kids_def parent_set_owner split: owner.splits)

text \<open>Moving a region between owners moves its share from the old parent's count to the new one's.\<close>

lemma rc_ok_set_owner:
  assumes F: "forest h" and r: "heap_region h r" and ok: "rc_ok ext h"
    and ext': "\<And>q. ext' q + of_bool (o' = Parent q \<and> 0 < rc h r) =
      ext q + of_bool (parent_of h r = Some q \<and> 0 < rc h r)"
  shows "rc_ok ext' (set_owner r o' e h)"
  unfolding rc_ok_def
proof (intro allI impI)
  fix q
  assume "heap_region (set_owner r o' e h) q"
  then have okq: "int (rc h q) = ext q + int (card (kids h q))" using ok by (simp add: rc_ok_def)
  have fin: "finite (kids h q)" by (rule finite_kids [OF F])
  have mem: "r \<in> kids h q \<longleftrightarrow> parent_of h r = Some q \<and> 0 < rc h r" by (simp add: kids_def)
  have "card (kids h q) = Suc (card (kids h q - {r}))" if "r \<in> kids h q"
    using card_Suc_Diff1 [OF fin that] by simp
  then have "card (kids (set_owner r o' e h) q) + of_bool (parent_of h r = Some q \<and> 0 < rc h r) =
      card (kids h q) + of_bool (o' = Parent q \<and> 0 < rc h r)"
    using fin mem by (auto simp: kids_set_owner [OF r] insert_absorb)
  from arg_cong [OF this, of int] okq ext' [of q]
  show "int (rc (set_owner r o' e h) q) = ext' q + int (card (kids (set_owner r o' e h) q))"
    by simp
qed

lemma set_parent_ok:
  assumes F: "forest h" and ok: "rc_ok ext h" and r: "heap_region h r" and p: "heap_region h p"
    and un: "\<And>reg. regions h r = Some reg \<Longrightarrow> owner reg = Unowned" and cyc: "r \<notin> up h p"
    and room: "\<And>q. heap_region h q \<Longrightarrow> rc h q + 1 < 2 ^ 32"
  shows "\<exists>h'. set_parent r p e h = Ret h' \<and> forest h' \<and> rc_ok ext h' \<and> same_rest h h' \<and>
    parent_of h' = (parent_of h)(r \<mapsto> p) \<and> owner_of h' = (owner_of h)(r \<mapsto> Parent p) \<and> worklist h' = worklist h \<and>
    (\<forall>q. q \<noteq> r \<longrightarrow> q \<notin> up h p \<longrightarrow> regions h' q = regions h q)"
proof -
  from r obtain reg where reg: "regions h r = Some reg" "frame_depth reg = 0"
    by (auto simp: heap_region_def)
  have pn: "parent_of h r = None" using un [OF reg(1)] reg by (simp add: parent_of_def)
  let ?h = "set_owner r (Parent p) (Some e) h"
  have F1: "forest ?h" by (rule forest_set_parent [OF F r p pn cyc])
  have par: "parent_of ?h = (parent_of h)(r \<mapsto> p)" by (simp add: parent_set_owner [OF r])
  have own1: "owner_of ?h = (owner_of h)(r \<mapsto> Parent p)" using reg by (simp add: owner_set_owner)
  have fr: "regions ?h q = regions h q" if "q \<noteq> r" for q
    using that by (simp add: set_owner_def mod_region_def)
  have rp: "r \<noteq> p" "r \<notin> above (parent_of h) p" using cyc by (auto simp: up_def)
  have sp: "set_parent r p e h = (if stack_rc reg > 0 then stack_inc p 1 ?h else Ret ?h)"
    using reg un [OF reg(1)] by (simp add: set_parent_def get_region_def has_owner_def set_owner_def Let_def)
  show ?thesis
  proof (cases "stack_rc reg = 0")
    case True
    then have "rc h r = 0" using reg by (simp add: rc_def)
    then have "rc_ok ext ?h" by (intro rc_ok_set_owner [OF F r ok]) simp
    with F1 par own1 fr sp True set_owner_rest show ?thesis by (intro exI [of _ ?h]) auto
  next
    case False
    then have pos: "0 < rc h r" using reg by (simp add: rc_def unat_gt_0)
    have ok1: "rc_ok (ext(p := ext p - 1)) ?h"
      by (rule rc_ok_set_owner [OF F r ok]) (use pos pn in auto)
    obtain h' where h': "stack_inc p 1 ?h = Ret h'" "same_shape ?h h'" "worklist h' = worklist ?h"
      "rc_ok ((ext(p := ext p - 1))(p := (ext(p := ext p - 1)) p + int (unat (1 :: 32 word)))) h'"
      "\<forall>q. q \<noteq> p \<longrightarrow> q \<notin> above (parent_of ?h) p \<longrightarrow> regions h' q = regions ?h q"
      using stack_inc_ok [OF F1 ok1, of p 1] p room by auto
    have "above (parent_of ?h) p = above (parent_of h) p"
      unfolding par using rp(2) rp(1) by (rule above_upd)
    moreover have "rc_ok ext h'" using h'(4) by simp
    ultimately show ?thesis
      using h' F1 par own1 fr sp False same_shape_forest [OF h'(2)] same_shape_parent [OF h'(2)] same_shape_owner [OF h'(2)]
        same_rest_trans [OF set_owner_rest same_shape_rest [OF h'(2)]]
      by (intro exI [of _ h']) (auto simp: word_gt_0 up_def)
  qed
qed

lemma clear_parent_ok:
  assumes F: "forest h" and ok: "rc_ok ext h" and p: "parent_of h r = Some p" and pos: "\<And>q. 0 \<le> ext q"
    and alive: "in_collection h \<or> 0 < rc h r \<and> (\<exists>q\<in>up h p. 0 < ext q \<or>
      (\<exists>reg. regions h q = Some reg \<and> has_cown_owner reg))"
  shows "\<exists>h'. clear_parent K r h = Ret h' \<and> forest h' \<and> rc_ok ext h' \<and> same_rest h h' \<and>
    parent_of h' = (parent_of h)(r := None) \<and> owner_of h' = (owner_of h)(r \<mapsto> Unowned) \<and>
    (\<forall>q. q \<notin> up h r \<longrightarrow> regions h' q = regions h q) \<and>
    (in_collection h \<or> worklist h' = worklist h) \<and> (rc h r = 0 \<longrightarrow> freed_root h h' r)"
proof -
  have r: "heap_region h r" and hp: "heap_region h p" using F p by (auto simp: forest_def)
  from r obtain reg where reg: "regions h r = Some reg" "frame_depth reg = 0"
    by (auto simp: heap_region_def)
  have own: "owner reg = Parent p" using p reg by (auto simp: parent_of_def split: owner.splits)
  let ?h = "set_owner r Unowned None h"
  have cp: "clear_parent K r h = (if stack_rc reg > 0 then stack_dec' K p 1 ?h else free_region K r ?h)"
    using reg own by (simp add: clear_parent_def get_region_def set_owner_def Let_def)
  have F1: "forest ?h" by (rule forest_unset_parent [OF F r]) simp
  have par: "parent_of ?h = (parent_of h)(r := None)" by (simp add: parent_set_owner [OF r])
  have own1: "owner_of ?h = (owner_of h)(r \<mapsto> Unowned)" using reg by (simp add: owner_set_owner)
  have rp: "r \<noteq> p" "r \<notin> above (parent_of h) p" "up h r = insert r (up h p)"
    using above_irrefl [OF forest_chain [OF F], of r] above_Some [of "parent_of h" r p, OF p] up_Some [OF p]
    by auto
  have upp: "up ?h p = up h p" by (simp add: up_def par above_upd rp)
  have fr: "regions ?h q = regions h q" if "q \<noteq> r" for q
    using that by (simp add: set_owner_def mod_region_def)
  show ?thesis
  proof (cases "stack_rc reg = 0")
    case True
    then have z: "rc h r = 0" using reg by (simp add: rc_def)
    then have ok1: "rc_ok ext ?h" by (intro rc_ok_set_owner [OF F r ok]) simp
    have ic: "in_collection ?h" using alive z by simp
    have reg1: "regions ?h r = Some (reg\<lparr>owner := Unowned, entry_point := None\<rparr>)"
      using reg by (simp add: set_owner_def mod_region_def)
    obtain h' where h': "free_region K r ?h = Ret h'" "same_shape ?h h'" "rc h' = rc ?h"
      "\<forall>q. q \<noteq> r \<longrightarrow> regions h' q = regions ?h q" "freed_root ?h h' r"
      using free_region_ok [OF reg1 _ _ ic] True by auto
    have freed: "freed_root h h' r" using h'(5) by (simp add: freed_root_def)
    have "kids h' q = kids ?h q" for q
      by (simp add: kids_def h'(3) same_shape_parent [OF h'(2)])
    then have "rc_ok ext h'"
      using ok1 by (simp add: rc_ok_def h'(3) same_shape_heap_region [OF h'(2)])
    then show ?thesis
      using cp True h'(1-4) freed F1 par own1 fr rp(3) ic same_shape_forest [OF h'(2)] same_shape_parent [OF h'(2)] same_shape_owner [OF h'(2)]
        same_rest_trans [OF set_owner_rest same_shape_rest [OF h'(2)]]
      by (intro exI [of _ h']) auto
  next
    case False
    then have z: "0 < rc h r" using reg by (simp add: rc_def unat_gt_0)
    let ?e = "ext(p := ext p + 1)"
    have ok1: "rc_ok ?e ?h" by (rule rc_ok_set_owner [OF F r ok]) (use z p in auto)
    have alive1: "in_collection ?h \<or> (\<exists>q\<in>up ?h p. 0 < (?e(p := ?e p - int (unat (1 :: 32 word)))) q \<or>
        (\<exists>reg. regions ?h q = Some reg \<and> has_cown_owner reg))"
    proof (cases "in_collection h")
      case False
      with alive obtain q where q: "q \<in> up h p" "0 < ext q \<or> (\<exists>reg. regions h q = Some reg \<and> has_cown_owner reg)"
        by auto
      then have "q \<noteq> r" using rp by (auto simp: up_def)
      then have "0 < (?e(p := ?e p - int (unat (1 :: 32 word)))) q \<or>
          (\<exists>reg. regions ?h q = Some reg \<and> has_cown_owner reg)" using q(2) fr [of q] by auto
      with q(1) show ?thesis unfolding upp by blast
    qed simp
    have "int (unat (1 :: 32 word)) \<le> ?e p" "0 < unat (1 :: 32 word)" "0 \<le> ?e q" "heap_region ?h p" for q
      using pos [of p] pos [of q] hp by simp_all
    then obtain b h' where h': "stack_dec K p 1 ?h = Ret (b, h')" "same_shape ?h h'"
      "rc_ok (?e(p := ?e p - int (unat (1 :: 32 word)))) h'"
      "if b then worklist h' = worklist ?h \<and> anchored h' p
       else \<not> anchored h' p \<and> (\<exists>q\<in>up ?h p. freed_root ?h h' q)"
      "\<forall>q. q \<notin> up ?h p \<longrightarrow> regions h' q = regions ?h q"
      using stack_dec_ok [OF F1 ok1 _ _ _ _ alive1] by blast
    have wl: "in_collection h \<or> worklist h' = worklist h"
    proof (cases "in_collection h")
      case False
      with alive1 obtain q where q: "q \<in> up ?h p" "0 < ext q \<or> (\<exists>reg. regions ?h q = Some reg \<and> has_cown_owner reg)"
        by auto
      have "q \<in> up h' p" using q(1) by (simp add: same_shape_up [OF h'(2)])
      moreover have "0 < rc h' q \<or> (\<exists>reg. regions h' q = Some reg \<and> has_cown_owner reg)"
        using q(2)
      proof
        assume "0 < ext q"
        moreover have "heap_region h' q"
          using q(1) F1 \<open>heap_region ?h p\<close> by (auto simp: up_def same_shape_heap_region [OF h'(2)] dest: above_heap)
        ultimately show ?thesis using h'(3) by (auto simp: rc_ok_def)
      next
        assume "\<exists>reg. regions ?h q = Some reg \<and> has_cown_owner reg"
        then obtain rg where rg: "regions ?h q = Some rg" "has_cown_owner rg" by blast
        have "map_option strip (regions h' q) = map_option strip (regions ?h q)"
          using h'(2) by (simp add: same_shape_def)
        from strip_eq(2) [OF this [symmetric] rg(1)] rg(2) show ?thesis
          by (auto simp: has_cown_owner_def)
      qed
      ultimately have "anchored h' p" by (auto simp: anchored_def)
      with h'(4) show ?thesis by (simp split: if_splits)
    qed simp
    have "rc_ok ext h'" using h'(3) by simp
    then show ?thesis
      using cp False h' F1 par own1 fr rp(3) upp wl z same_shape_forest [OF h'(2)] same_shape_parent [OF h'(2)] same_shape_owner [OF h'(2)]
        same_rest_trans [OF set_owner_rest same_shape_rest [OF h'(2)]]
      by (intro exI [of _ h']) (auto simp: word_gt_0 stack_dec'_def)
  qed
qed

end
