(* ===== verification/Drag.thy ===== *)
theory Drag
  imports Forest
begin

text \<open>
  \<open>drag_allocation\<close> (\<^verbatim>\<open>vbci/drag.cc\<close>): moving a frame-local allocation, with everything
  frame-local it reaches, into region \<open>r\<close>. \<open>drag_search\<close> is the worklist loop, one pop per
  step; \<open>drag_apply\<close> the part after it, which cannot fail. The worklist is a stack with its
  back at the head of the list. The pointer \<open>pr\<close> to the exchange's region is the option it
  points to (a null \<open>pr\<close> behaves as a pointer to null).
\<close>

record drag_state =
  wl :: "oid list"
  rcs :: "(oid \<times> 32 word) list"
  subs :: "(rid \<times> oid) list"
  decs :: nat
  pr :: "rid option"

fun bump :: "oid \<Rightarrow> (oid \<times> 32 word) list \<Rightarrow> (oid \<times> 32 word) list" where
  "bump p [] = []"
| "bump p ((q, c) # m) = (if q = p then (q, c + 1) # m else (q, c) # bump p m)"

definition in_region :: "heap \<Rightarrow> oid \<Rightarrow> bool outcome" where
  "in_region h p = obind (location_of p h) (\<lambda>l. Ret (is_region l))"

fun keep :: "('a \<Rightarrow> bool outcome) \<Rightarrow> 'a list \<Rightarrow> 'a list outcome" where
  "keep f [] = Ret []"
| "keep f (x # xs) = obind (f x) (\<lambda>b. obind (keep f xs) (\<lambda>ys. Ret (if b then x # ys else ys)))"

text \<open>A reference into another heap region: \<open>None\<close> is a failed drag (\<open>return false\<close>).\<close>

definition drag_heap_ref ::
  "conts \<Rightarrow> rid \<Rightarrow> region \<Rightarrow> oid \<Rightarrow> rid \<Rightarrow> region \<Rightarrow> drag_state \<Rightarrow> heap \<Rightarrow> (drag_state option \<times> heap) outcome" where
  "drag_heap_ref K r reg p hr hreg st h =
     (if pr st = Some hr then obind (stack_dec' K hr 1 h) (\<lambda>h. Ret (Some (st\<lparr>pr := None\<rparr>), h))
      else if is_frame_local reg then Ret (Some st, h)
      else if owner hreg = Parent r then Ret (Some st, h)
      else if has_owner hreg then Ret (None, h)
      else obind (is_ancestor_of hr r h) (\<lambda>cyclic.
        if cyclic \<or> hr \<in> fst ` set (subs st) then Ret (None, h)
        else Ret (Some (st\<lparr>subs := subs st @ [(hr, p)]\<rparr>), h)))"

text \<open>A header in a region.\<close>

definition drag_region_ref ::
  "conts \<Rightarrow> rid \<Rightarrow> region \<Rightarrow> oid \<Rightarrow> hobj \<Rightarrow> rid \<Rightarrow> drag_state \<Rightarrow> heap \<Rightarrow> (drag_state option \<times> heap) outcome" where
  "drag_region_ref K r reg p b hr st h =
     (if hr = r then
        Ret (Some (if is_frame_local reg then st else st\<lparr>decs := Suc (decs st)\<rparr>), h)
      else obind (get_region hr h) (\<lambda>hreg.
        if is_frame_local reg \<and> is_frame_local hreg \<and> frame_depth reg \<ge> frame_depth hreg then Ret (Some st, h)
        else if \<not> is_frame_local hreg then drag_heap_ref K r reg p hr hreg st h
        else obind (keep (in_region h) (trace b)) (\<lambda>ps.
          Ret (Some (st\<lparr>rcs := rcs st @ [(p, 1)], wl := rev ps @ wl st\<rparr>), h))))"

text \<open>One pop.\<close>

definition drag_step ::
  "conts \<Rightarrow> rid \<Rightarrow> region \<Rightarrow> oid \<Rightarrow> drag_state \<Rightarrow> heap \<Rightarrow> (drag_state option \<times> heap) outcome" where
  "drag_step K r reg p st h =
     (if p \<in> fst ` set (rcs st) then Ret (Some (st\<lparr>rcs := bump p (rcs st)\<rparr>), h)
      else obind (get_obj p h) (\<lambda>b.
        if is_immutable (o_loc b) then Ret (Some st, h)
        else if is_stack (o_loc b) then Ret (None, h)
        else obind (to_region (o_loc b)) (\<lambda>hr. drag_region_ref K r reg p b hr st h)))"

fun drag_search ::
  "nat \<Rightarrow> conts \<Rightarrow> rid \<Rightarrow> region \<Rightarrow> drag_state \<Rightarrow> heap \<Rightarrow> (bool \<times> drag_state \<times> heap) outcome" where
  "drag_search 0 K r reg st h = Stuck"
| "drag_search (Suc n) K r reg st h =
     (case wl st of
        [] \<Rightarrow> Ret (True, st, h)
      | p # ps \<Rightarrow> obind (drag_step K r reg p (st\<lparr>wl := ps\<rparr>) h) (\<lambda>(next, h).
          case next of None \<Rightarrow> Ret (False, st, h) | Some st \<Rightarrow> drag_search n K r reg st h))"

lemma drag_search_numeral [simp]:
  "drag_search (numeral k) K r reg st h =
     (case wl st of
        [] \<Rightarrow> Ret (True, st, h)
      | p # ps \<Rightarrow> obind (drag_step K r reg p (st\<lparr>wl := ps\<rparr>) h) (\<lambda>(next, h).
          case next of None \<Rightarrow> Ret (False, st, h) | Some st \<Rightarrow> drag_search (pred_numeral k) K r reg st h))"
  by (simp add: numeral_eq_Suc)

definition slots_total :: "heap \<Rightarrow> nat" where
  "slots_total h = sum_list (map (\<lambda>p. case objs h p of None \<Rightarrow> 0 | Some b \<Rightarrow> length (o_slots b)) [0..<next_oid h])"

definition adopt :: "conts \<Rightarrow> rid \<Rightarrow> rid \<times> oid \<Rightarrow> heap \<Rightarrow> heap outcome" where
  "adopt K r s h = obind (set_parent (fst s) r (snd s) h) (stack_dec' K (fst s) 1)"

definition relocate_obj :: "bool \<Rightarrow> rid \<Rightarrow> oid \<Rightarrow> oid \<times> 32 word \<Rightarrow> heap \<Rightarrow> heap outcome" where
  "relocate_obj is_move r root m h = obind (get_obj (fst m) h) (\<lambda>b.
     let c = (if fst m = root \<and> \<not> is_move then snd m - 1 else snd m) in
     obind (oassert (o_rc b \<ge> c)) (\<lambda>_.
     obind (stack_inc r (o_rc b - c) h) (move_region (fst m) r)))"

definition drag_apply :: "bool \<Rightarrow> conts \<Rightarrow> rid \<Rightarrow> oid \<Rightarrow> drag_state \<Rightarrow> heap \<Rightarrow> heap outcome" where
  "drag_apply is_move K r root st h =
     obind (stack_inc r 1 h) (\<lambda>h.
     obind (each (adopt K r) (subs st) h) (\<lambda>h.
     obind (each (relocate_obj is_move r root) (rcs st) h) (\<lambda>h.
     obind (stack_dec' K r (of_nat (decs st)) h) (\<lambda>h.
     stack_dec' K r 1 h))))"

definition drag_allocation ::
  "bool \<Rightarrow> conts \<Rightarrow> rid \<Rightarrow> oid \<Rightarrow> rid option \<Rightarrow> heap \<Rightarrow> (bool \<times> rid option \<times> heap) outcome" where
  "drag_allocation is_move K r root ptr h = obind (get_region r h) (\<lambda>reg.
     obind (drag_search (Suc (Suc (slots_total h))) K r reg
              \<lparr>wl = [root], rcs = [], subs = [], decs = 0, pr = ptr\<rparr> h) (\<lambda>(ok, st, h).
       if \<not> ok then Ret (False, pr st, h)
       else obind (drag_apply is_move K r root st h) (\<lambda>h. Ret (True, pr st, h))))"

subsection \<open>The search leaves the heap alone\<close>

definition pure_step :: "heap \<Rightarrow> (drag_state option \<times> heap) outcome \<Rightarrow> bool" where
  "pure_step h m \<longleftrightarrow> (\<forall>res h'. m = Ret (res, h') \<longrightarrow> h' = h \<and> (\<forall>st'. res = Some st' \<longrightarrow> pr st' = None))"

lemma pure_step_intros:
  "pr st = None \<Longrightarrow> pure_step h (Ret (Some st, h))" "pure_step h (Ret (None, h))"
  "(\<And>x. pure_step h (f x)) \<Longrightarrow> pure_step h (obind m f)"
  "(b \<Longrightarrow> pure_step h k) \<Longrightarrow> (\<not> b \<Longrightarrow> pure_step h k') \<Longrightarrow> pure_step h (if b then k else k')"
  by (auto simp: pure_step_def outcome_simps)

lemma drag_heap_ref_pure: "pr st = None \<Longrightarrow> pure_step h (drag_heap_ref K r reg p hr hreg st h)"
  unfolding drag_heap_ref_def
  by (rule pure_step_intros(4), simp, intro pure_step_intros) simp_all

lemma drag_region_ref_pure: "pr st = None \<Longrightarrow> pure_step h (drag_region_ref K r reg p b hr st h)"
  unfolding drag_region_ref_def by (intro pure_step_intros drag_heap_ref_pure) simp_all

lemma drag_step_pure: "pr st = None \<Longrightarrow> pure_step h (drag_step K r reg p st h)"
  unfolding drag_step_def by (intro pure_step_intros drag_region_ref_pure) simp_all

lemma drag_search_pure:
  assumes "drag_search n K r reg st h = Ret (ok, st', h')" "pr st = None"
  shows "h' = h \<and> pr st' = None"
  using assms
proof (induction n arbitrary: st h)
  case (Suc n)
  show ?case
  proof (cases "wl st")
    case (Cons p ps)
    with Suc.prems(1) obtain res h1 where
      d: "drag_step K r reg p (st\<lparr>wl := ps\<rparr>) h = Ret (res, h1)" and
      k: "(case res of None \<Rightarrow> Ret (False, st, h1) | Some st1 \<Rightarrow> drag_search n K r reg st1 h1) = Ret (ok, st', h')"
      by (auto simp: outcome_simps)
    from drag_step_pure [of "st\<lparr>wl := ps\<rparr>" h K r reg p] Suc.prems(2) d have h1: "h1 = h" "\<And>st1. res = Some st1 \<Longrightarrow> pr st1 = None"
      by (auto simp: pure_step_def)
    show ?thesis
    proof (cases res)
      case None
      with k Suc.prems(2) h1 show ?thesis by auto
    next
      case (Some st1)
      with k Suc.IH [of st1 h1] h1 show ?thesis by auto
    qed
  qed (use Suc.prems in auto)
qed simp

text \<open>A drag that fails has changed nothing.\<close>

lemma drag_failure_atomic:
  assumes "drag_allocation is_move K r root None h = Ret (False, ptr, h')"
  shows "h' = h \<and> ptr = None"
proof -
  let ?st = "\<lparr>wl = [root], rcs = [], subs = [], decs = 0, pr = None\<rparr>"
  from assms obtain reg st where
    "drag_search (Suc (Suc (slots_total h))) K r reg ?st h = Ret (False, st, h')" "ptr = pr st"
    unfolding drag_allocation_def
    by (auto simp: outcome_simps simp del: drag_search.simps split: if_splits)
  then show ?thesis using drag_search_pure [of "Suc (Suc (slots_total h))" K r reg ?st h False st h']
    by (simp del: drag_search.simps)
qed

subsection \<open>The search terminates\<close>

text \<open>No dangling references: every traced header exists, every region it names exists.\<close>

definition closed_heap :: "heap \<Rightarrow> bool" where
  "closed_heap h \<longleftrightarrow> (\<forall>p b. objs h p = Some b \<longrightarrow> p < next_oid h \<and>
     (\<forall>q\<in>set (trace b). objs h q \<noteq> None) \<and>
     (\<forall>r. o_loc b = LRegion r \<longrightarrow> regions h r \<noteq> None))"

definition regional :: "heap \<Rightarrow> oid \<Rightarrow> bool" where
  "regional h p \<longleftrightarrow> (\<exists>b r. objs h p = Some b \<and> o_loc b = LRegion r)"

lemma keep_eq: "\<forall>x\<in>set xs. f x = Ret (P x) \<Longrightarrow> keep f xs = Ret (filter P xs)"
  by (induction xs) auto

lemma keep_regional:
  "closed_heap h \<Longrightarrow> objs h p = Some b \<Longrightarrow> keep (in_region h) (trace b) = Ret (filter (regional h) (trace b))"
proof (rule keep_eq, rule ballI)
  fix q
  assume "closed_heap h" "objs h p = Some b" "q \<in> set (trace b)"
  then obtain c where "objs h q = Some c" by (fastforce simp: closed_heap_def)
  then show "in_region h q = Ret (regional h q)"
    by (cases "o_loc c") (auto simp: in_region_def location_of_def get_obj_def regional_def)
qed

lemma trace_length: "length (trace b) \<le> length (o_slots b)"
  by (simp add: trace_def List.map_filter_def)

definition weight :: "heap \<Rightarrow> oid \<Rightarrow> nat" where
  "weight h p = (case objs h p of None \<Rightarrow> 0 | Some b \<Rightarrow> length (o_slots b))"

definition left :: "heap \<Rightarrow> drag_state \<Rightarrow> nat" where
  "left h st = length (wl st) + (\<Sum>p\<in>{0..<next_oid h} - fst ` set (rcs st). weight h p)"

lemma slots_total_sum: "slots_total h = (\<Sum>p\<in>{0..<next_oid h}. weight h p)"
  by (simp add: slots_total_def weight_def interv_sum_list_conv_sum_set_nat)

lemma fst_bump: "fst ` set (bump p m) = fst ` set m"
  by (induction p m rule: bump.induct) auto

lemma drag_step_total:
  assumes C: "closed_heap h" and F: "forest h" and reg: "regions h r = Some reg"
    and p: "regional h p" and pn: "pr st = None" and w: "\<forall>q\<in>set (wl st). regional h q"
  shows "\<exists>res. drag_step K r reg p st h = Ret (res, h) \<and>
    (\<forall>st'. res = Some st' \<longrightarrow> pr st' = None \<and> (\<forall>q\<in>set (wl st'). regional h q) \<and> left h st' \<le> left h st)"
proof (cases "p \<in> fst ` set (rcs st)")
  case True
  then show ?thesis using pn w by (auto simp: drag_step_def left_def fst_bump)
next
  case False
  from p obtain b hr where b: "objs h p = Some b" "o_loc b = LRegion hr" by (auto simp: regional_def)
  then obtain hreg where hreg: "regions h hr = Some hreg" using C by (fastforce simp: closed_heap_def)
  have anc: "is_ancestor_of hr r h = Ret (hr \<in> above (parent_of h) r)" if "\<not> is_frame_local reg"
    using is_ancestor_ok [OF F] reg that by (auto simp: heap_region_def is_frame_local_def)
  let ?ps = "filter (regional h) (trace b)"
  let ?st = "st\<lparr>rcs := rcs st @ [(p, 1)], wl := rev ?ps @ wl st\<rparr>"
  have pn0: "p < next_oid h" using C b by (auto simp: closed_heap_def)
  have "left h ?st \<le> left h st"
  proof -
    let ?A = "{0..<next_oid h} - fst ` set (rcs st)"
    have "{0..<next_oid h} - fst ` set (rcs ?st) = ?A - {p}" by auto
    moreover have "(\<Sum>x\<in>?A. weight h x) = weight h p + (\<Sum>x\<in>?A - {p}. weight h x)"
      using False pn0 by (intro sum.remove) auto
    moreover have "length ?ps \<le> weight h p"
      using trace_length [of b] b by (auto simp: weight_def intro: order_trans [OF length_filter_le])
    ultimately show ?thesis by (simp add: left_def)
  qed
  then have visit: "pr ?st = None \<and> (\<forall>q\<in>set (wl ?st). regional h q) \<and> left h ?st \<le> left h st"
    using pn w by auto
  have same: "pr st1 = None \<and> (\<forall>q\<in>set (wl st1). regional h q) \<and> left h st1 \<le> left h st"
    if "wl st1 = wl st" "rcs st1 = rcs st" "pr st1 = pr st" for st1
    using that pn w by (simp add: left_def)
  have step: "drag_step K r reg p st h = drag_region_ref K r reg p b hr st h"
    using False b by (simp add: drag_step_def get_obj_def)
  have ref: "\<exists>res. drag_heap_ref K r reg p hr hreg st h = Ret (res, h) \<and> (\<forall>st'. res = Some st' \<longrightarrow>
      wl st' = wl st \<and> rcs st' = rcs st \<and> pr st' = pr st)"
    using pn anc by (simp add: drag_heap_ref_def)
  show ?thesis
  proof (cases "hr = r")
    case True
    then show ?thesis unfolding step using pn w by (auto simp: drag_region_ref_def left_def)
  next
    case False
    consider "is_frame_local reg \<and> is_frame_local hreg \<and> frame_depth reg \<ge> frame_depth hreg"
      | "\<not> is_frame_local hreg"
      | "\<not> (is_frame_local reg \<and> is_frame_local hreg \<and> frame_depth reg \<ge> frame_depth hreg)" "is_frame_local hreg"
      by blast
    then show ?thesis
    proof cases
      case 1
      with False hreg show ?thesis unfolding step using pn w
        by (auto simp: drag_region_ref_def get_region_def left_def)
    next
      case 2
      with False hreg have e: "drag_step K r reg p st h = drag_heap_ref K r reg p hr hreg st h"
        unfolding step by (simp add: drag_region_ref_def get_region_def)
      obtain res where r1: "drag_heap_ref K r reg p hr hreg st h = Ret (res, h)"
        "\<And>st'. res = Some st' \<Longrightarrow> wl st' = wl st \<and> rcs st' = rcs st \<and> pr st' = pr st"
        using ref by blast
      have "pr st' = None \<and> (\<forall>q\<in>set (wl st'). regional h q) \<and> left h st' \<le> left h st"
        if "res = Some st'" for st' using same [of st'] r1(2) [OF that] by blast
      then show ?thesis unfolding e r1(1) by blast
    next
      case 3
      have k: "keep (in_region h) (trace b) = Ret ?ps" by (rule keep_regional [OF C b(1)])
      have "get_region hr h = Ret hreg" using hreg by (simp add: get_region_def)
      then have "drag_region_ref K r reg p b hr st h = Ret (Some ?st, h)"
        unfolding drag_region_ref_def if_not_P [OF False] using 3 k
        by (simp only: obind.simps if_not_P not_not if_False not_True_eq_False)
      with visit show ?thesis unfolding step by blast
    qed
  qed
qed

lemma drag_search_total:
  assumes "closed_heap h" "forest h" "regions h r = Some reg" "pr st = None"
    "\<forall>q\<in>set (wl st). regional h q" "left h st < n"
  shows "\<exists>ok st'. drag_search n K r reg st h = Ret (ok, st', h)"
  using assms(4-)
proof (induction n arbitrary: st)
  case (Suc n)
  show ?case
  proof (cases "wl st")
    case Nil
    then show ?thesis by auto
  next
    case (Cons p ps)
    let ?st = "st\<lparr>wl := ps\<rparr>"
    have l: "left h st = Suc (left h ?st)" by (simp add: left_def Cons)
    obtain res where res: "drag_step K r reg p ?st h = Ret (res, h)"
      "\<And>st'. res = Some st' \<Longrightarrow> pr st' = None \<and> (\<forall>q\<in>set (wl st'). regional h q) \<and> left h st' \<le> left h ?st"
      using drag_step_total [OF assms(1-3), of p ?st K] Suc.prems Cons by auto
    show ?thesis
    proof (cases res)
      case None
      with res(1) Cons show ?thesis by auto
    next
      case (Some st1)
      have "left h st1 < n" using res(2) [OF Some] l Suc.prems(3) by linarith
      with Suc.IH [of st1] res(2) [OF Some] res(1) Some Cons show ?thesis by auto
    qed
  qed
qed simp

text \<open>The fuel of \<open>drag_allocation\<close> is enough.\<close>

lemma drag_search_returns:
  assumes "closed_heap h" "forest h" "regions h r = Some reg" "regional h root"
  shows "\<exists>ok st. drag_search (Suc (Suc (slots_total h))) K r reg
    \<lparr>wl = [root], rcs = [], subs = [], decs = 0, pr = None\<rparr> h = Ret (ok, st, h)"
  by (rule drag_search_total [OF assms(1-3)])
    (use assms(4) in \<open>simp_all add: left_def slots_total_sum\<close>)

end
