(* ===== verification/Barrier.thy ===== *)
theory Barrier
  imports Drag
begin

text \<open>
  The write barrier (\<^verbatim>\<open>vbci/writebarrier.h\<close>): every store into an object or array goes
  through it. \<open>prepare_store\<close>, \<open>prepare_out\<close> and \<open>prepare_in\<close> decide, from the locations of the
  storage, of the outgoing and of the incoming value, whether the store is allowed and which
  count and ownership operations it needs; \<open>apply_in\<close> and \<open>apply_out\<close> carry them out. The record
  \<open>write_ops\<close> is the C++ struct, its \<open>int8_t\<close> counters are integers (they stay in -1..1).

  A slot is a pair of its \<open>ValueType\<close> and the value \<open>Value::from_addr\<close> reads back from its memory;
  \<open>to_addr\<close> is what a store leaves there: the type named by the slot is written, the
  \<open>readonly\<close> bit of a pointer is not, and reading an inactive union member is \<open>Stuck\<close>.

  A move (\<open>is_move\<close>) passes the register by value: whatever is left in it when \<open>apply_in\<close>
  returns is released there.
\<close>

fun to_addr :: "vtype \<Rightarrow> val \<Rightarrow> val outcome" where
  "to_addr VNone v = Ret NoneV"
| "to_addr VPtr v = (case v of PtrV w ro \<Rightarrow> Ret (PtrV w False) | _ \<Rightarrow> Stuck)"
| "to_addr VObject v = (case v of ObjectV p ro \<Rightarrow> Ret (ObjectV p False) | _ \<Rightarrow> Stuck)"
| "to_addr VArray v = (case v of ArrayV p ro \<Rightarrow> Ret (ArrayV p False) | _ \<Rightarrow> Stuck)"
| "to_addr VCown v = (case v of CownV c ro \<Rightarrow> Ret (CownV c False) | _ \<Rightarrow> Stuck)"
| "to_addr t v =
     (if vtype_code t \<le> vtype_code VF64 then (if get_value_type v = t then Ret v else Stuck) else Ret v)"

definition load_slot :: "oid \<Rightarrow> nat \<Rightarrow> heap \<Rightarrow> val outcome" where
  "load_slot p i h = obind (get_obj p h) (\<lambda>b. obind (vec_at (o_slots b) i) (\<lambda>s. Ret (snd s)))"

definition write_slot :: "oid \<Rightarrow> nat \<Rightarrow> vtype \<Rightarrow> val \<Rightarrow> heap \<Rightarrow> heap outcome" where
  "write_slot p i t v h = obind (get_obj p h) (\<lambda>b. obind (vec_at (o_slots b) i) (\<lambda>_. obind (to_addr t v) (\<lambda>w.
     Ret (mod_obj p (\<lambda>b. b\<lparr>o_slots := (o_slots b)[i := (t, w)]\<rparr>) h))))"

text \<open>\<open>Thread::frame_region_for_stack\<close>: frames are numbered from the outermost.\<close>

definition frame_region_for_stack :: "loc \<Rightarrow> heap \<Rightarrow> rid outcome" where
  "frame_region_for_stack l h = obind (stack_index l) (\<lambda>i. vec_at (frame_regions h) i)"

record write_ops =
  store_loc :: loc
  out_loc :: loc
  in_loc :: loc
  ok :: bool
  need_in_drag :: bool
  in_drag_value :: "rid option"
  need_in_inc :: bool
  need_in_clear :: bool
  need_in_stack_inc :: int
  need_in_parent :: bool
  in_parent_value :: "rid option"
  need_out_dec :: bool
  need_out_stack_inc :: int
  need_out_clear_parent :: bool
  out_clear_parent_region :: "rid option"

definition new_write_ops :: write_ops where
  "new_write_ops =
     \<lparr>store_loc = LImmortal, out_loc = LImmortal, in_loc = LImmortal, ok = True,
      need_in_drag = False, in_drag_value = None, need_in_inc = False, need_in_clear = False,
      need_in_stack_inc = 0, need_in_parent = False, in_parent_value = None, need_out_dec = False,
      need_out_stack_inc = 0, need_out_clear_parent = False, out_clear_parent_region = None\<rparr>"

subsection \<open>Preparing\<close>

definition fail :: "write_ops \<Rightarrow> write_ops" where "fail w = w\<lparr>ok := False\<rparr>"
definition in_inc :: "write_ops \<Rightarrow> write_ops" where "in_inc w = w\<lparr>need_in_inc := True\<rparr>"
definition in_clear :: "write_ops \<Rightarrow> write_ops" where "in_clear w = w\<lparr>need_in_clear := True\<rparr>"
definition in_stack_inc :: "write_ops \<Rightarrow> write_ops" where "in_stack_inc w = w\<lparr>need_in_stack_inc := need_in_stack_inc w + 1\<rparr>"
definition in_stack_dec :: "write_ops \<Rightarrow> write_ops" where "in_stack_dec w = w\<lparr>need_in_stack_inc := need_in_stack_inc w - 1\<rparr>"
definition in_drag :: "rid \<Rightarrow> write_ops \<Rightarrow> write_ops" where "in_drag r w = w\<lparr>need_in_drag := True, in_drag_value := Some r\<rparr>"
definition in_parent :: "rid \<Rightarrow> write_ops \<Rightarrow> write_ops" where "in_parent r w = w\<lparr>need_in_parent := True, in_parent_value := Some r\<rparr>"
definition out_stack_inc :: "write_ops \<Rightarrow> write_ops" where "out_stack_inc w = w\<lparr>need_out_stack_inc := need_out_stack_inc w + 1\<rparr>"

definition out_clear_parent :: "write_ops \<Rightarrow> write_ops outcome" where
  "out_clear_parent w = obind (to_region (out_loc w)) (\<lambda>r.
     Ret (w\<lparr>need_out_clear_parent := True, out_clear_parent_region := Some r\<rparr>))"

text \<open>\<open>loc.is_region() && loc.to_region()->is_frame_local()\<close>\<close>

definition in_frame_local :: "loc \<Rightarrow> heap \<Rightarrow> bool outcome" where
  "in_frame_local l h = (case l of
     LRegion r \<Rightarrow> obind (get_region r h) (\<lambda>reg. Ret (is_frame_local reg))
   | _ \<Rightarrow> Ret False)"

definition prepare_store :: "loc \<Rightarrow> write_ops \<Rightarrow> write_ops" where
  "prepare_store l w = (let w = w\<lparr>store_loc := l\<rparr> in
     if is_immutable l \<or> is_immortal l then fail w else w)"

definition prepare_out :: "loc \<Rightarrow> heap \<Rightarrow> write_ops \<Rightarrow> write_ops outcome" where
  "prepare_out l h w = (let w = w\<lparr>out_loc := l\<rparr> in
     if \<not> ok w \<or> \<not> is_region l then Ret w
     else obind (in_frame_local (store_loc w) h) (\<lambda>fl.
       let w = (if \<not> is_stack (store_loc w) \<and> \<not> fl then out_stack_inc w else w)
       in if store_loc w \<noteq> l then out_clear_parent w else Ret w))"

text \<open>The incoming value is frame-local.\<close>

definition prepare_in_local :: "region \<Rightarrow> heap \<Rightarrow> write_ops \<Rightarrow> write_ops outcome" where
  "prepare_in_local in_r h w = (case store_loc w of
     LStack n \<Rightarrow>
       if n < frame_depth in_r
       then obind (frame_region_for_stack (LStack n) h) (\<lambda>r. Ret (in_drag r w)) else Ret w
   | LRegion s \<Rightarrow> obind (get_region s h) (\<lambda>store_r.
       if is_frame_local store_r
       then Ret (if frame_depth store_r < frame_depth in_r then in_drag s w else w)
       else Ret (in_drag s w))
   | _ \<Rightarrow> Stuck)"

text \<open>The incoming value is in the heap region \<open>i\<close>.\<close>

definition prepare_in_region :: "bool \<Rightarrow> rid \<Rightarrow> region \<Rightarrow> heap \<Rightarrow> write_ops \<Rightarrow> write_ops outcome" where
  "prepare_in_region is_move i in_r h w =
     (let w = (if is_move then in_stack_dec w else w) in
      if is_stack (store_loc w) then Ret (in_stack_inc w)
      else obind (in_frame_local (store_loc w) h) (\<lambda>fl.
        if fl then Ret (in_stack_inc w)
        else obind (to_region (store_loc w)) (\<lambda>s.
          if store_loc w = in_loc w then Ret w
          else if has_owner in_r then Ret (if out_loc w = in_loc w then w else fail w)
          else obind (is_ancestor_of i s h) (\<lambda>cyclic.
            Ret (if cyclic then fail w else in_parent s w)))))"

definition prepare_in :: "bool \<Rightarrow> loc \<Rightarrow> heap \<Rightarrow> write_ops \<Rightarrow> write_ops outcome" where
  "prepare_in is_move l h w = (let w = w\<lparr>in_loc := l\<rparr> in
     if \<not> ok w then Ret w
     else if is_immortal l then Ret w
     else if is_stack l then
       (if \<not> is_stack (store_loc w) then Ret (fail w)
        else obind (stack_index (store_loc w)) (\<lambda>s. obind (stack_index l) (\<lambda>i.
          Ret (if s < i then fail w else w))))
     else
       (let w = (if is_move then in_clear w else in_inc w) in
        if is_immutable l then Ret w
        else obind (to_region l) (\<lambda>i. obind (get_region i h) (\<lambda>in_r.
          if is_frame_local in_r then prepare_in_local in_r h w
          else prepare_in_region is_move i in_r h w))))"

subsection \<open>Applying\<close>

text \<open>The pending adjustment of a location's \<open>stack_rc\<close>.\<close>

definition stack_adjust :: "conts \<Rightarrow> int \<Rightarrow> loc \<Rightarrow> heap \<Rightarrow> heap outcome" where
  "stack_adjust K n l h = obind (oassert (- 1 \<le> n \<and> n \<le> 1)) (\<lambda>_.
     if n = 1 then obind (to_region l) (\<lambda>r. stack_inc r 1 h)
     else if n = - 1 then obind (to_region l) (\<lambda>r. stack_dec' K r 1 h)
     else Ret h)"

text \<open>The drag of the incoming value: \<open>None\<close> when it fails.\<close>

definition apply_drag :: "bool \<Rightarrow> conts \<Rightarrow> val \<Rightarrow> write_ops \<Rightarrow> heap \<Rightarrow> (bool \<times> write_ops \<times> heap) outcome" where
  "apply_drag is_move K v w h =
     (if \<not> need_in_drag w then Ret (True, w, h)
      else obind (oassert (\<not> need_in_parent w)) (\<lambda>_. obind (get_header v) (\<lambda>p.
        case in_drag_value w of None \<Rightarrow> Stuck
        | Some r \<Rightarrow> obind (drag_allocation is_move K r p (out_clear_parent_region w) h) (\<lambda>(done, ptr, h).
            let w = w\<lparr>out_clear_parent_region := ptr\<rparr> in
            if \<not> done then Ret (False, w, h)
            else Ret (True, if ptr = None then w\<lparr>need_out_clear_parent := False\<rparr> else w, h)))))"

definition apply_in_counts ::
  "bool \<Rightarrow> conts \<Rightarrow> oid option \<Rightarrow> val \<Rightarrow> write_ops \<Rightarrow> heap \<Rightarrow> (val \<times> write_ops \<times> heap) outcome" where
  "apply_in_counts is_move K in_header v w h =
     (let w = (if out_loc w = in_loc w
               then w\<lparr>need_in_stack_inc := need_in_stack_inc w + need_out_stack_inc w, need_out_stack_inc := 0\<rparr>
               else w) in
      obind (if is_move then obind (oassert (\<not> need_in_inc w)) (\<lambda>_. Ret h)
             else obind (oassert (\<not> need_in_clear w)) (\<lambda>_. if need_in_inc w then field_inc v h else Ret h)) (\<lambda>h.
      obind (if need_in_parent w
             then obind (oassert (\<not> need_in_drag w)) (\<lambda>_. case (in_header, in_parent_value w) of
               (Some e, Some p) \<Rightarrow> obind (to_region (in_loc w)) (\<lambda>r. set_parent r p e h)
             | _ \<Rightarrow> Stuck)
             else Ret h) (\<lambda>h.
      obind (stack_adjust K (need_in_stack_inc w) (in_loc w) h) (\<lambda>h.
        Ret (if is_move \<and> need_in_clear w then InvalidV else v, w, h)))))"

definition apply_in ::
  "bool \<Rightarrow> conts \<Rightarrow> oid \<Rightarrow> nat \<Rightarrow> vtype \<Rightarrow> val \<Rightarrow> write_ops \<Rightarrow> heap \<Rightarrow> (bool \<times> write_ops \<times> heap) outcome" where
  "apply_in is_move K p i t v w h = obind (oassert (ok w)) (\<lambda>_.
     let in_header = (if need_in_parent w \<and> is_header v then header_of v else None) in
     obind (apply_drag is_move K v w h) (\<lambda>(done, w, h).
       if \<not> done then obind (if is_move then reg_dec K v h else Ret h) (\<lambda>h. Ret (False, w, h))
       else obind (write_slot p i t v h) (\<lambda>h.
         obind (apply_in_counts is_move K in_header v w h) (\<lambda>(rest, w, h).
         obind (if is_move then reg_dec K rest h else Ret h) (\<lambda>h. Ret (True, w, h))))))"

definition apply_out :: "conts \<Rightarrow> val \<Rightarrow> write_ops \<Rightarrow> heap \<Rightarrow> heap outcome" where
  "apply_out K out w h = obind (oassert (ok w)) (\<lambda>_.
     obind (if need_out_dec w then field_dec K out h else Ret h) (\<lambda>h.
     obind (stack_adjust K (need_out_stack_inc w) (out_loc w) h) (\<lambda>h.
     if need_out_clear_parent w
     then obind (location out h) (\<lambda>l. obind (to_region l) (\<lambda>r. clear_parent K r h))
     else Ret h)))"

subsection \<open>The barrier operations\<close>

definition barrier_init :: "conts \<Rightarrow> loc \<Rightarrow> oid \<Rightarrow> nat \<Rightarrow> vtype \<Rightarrow> val \<Rightarrow> heap \<Rightarrow> heap outcome" where
  "barrier_init K l p i t v h =
     (if is_readonly v then Raise BadStore
      else obind (location v h) (\<lambda>vl. obind (prepare_in True vl h (prepare_store l new_write_ops)) (\<lambda>w.
        if \<not> ok w then Raise BadAllocTarget
        else obind (apply_in True K p i t v w h) (\<lambda>(done, w, h).
          if \<not> done then Raise BadStore else Ret h))))"

definition barrier_exchange ::
  "bool \<Rightarrow> conts \<Rightarrow> loc \<Rightarrow> oid \<Rightarrow> nat \<Rightarrow> vtype \<Rightarrow> val \<Rightarrow> heap \<Rightarrow> (val \<times> heap) outcome" where
  "barrier_exchange is_move K l p i t v h =
     obind (load_slot p i h) (\<lambda>prev. obind (location prev h) (\<lambda>pl. obind (location v h) (\<lambda>vl.
     obind (prepare_out pl h (prepare_store l new_write_ops)) (\<lambda>w.
     obind (prepare_in is_move vl h w) (\<lambda>w.
       if \<not> ok w then Raise BadStore
       else obind (apply_in is_move K p i t v w h) (\<lambda>(done, w, h).
         if \<not> done then Raise BadStore
         else obind (apply_out K prev w h) (\<lambda>h. Ret (prev, h))))))))"

definition barrier_drop :: "conts \<Rightarrow> loc \<Rightarrow> val \<Rightarrow> heap \<Rightarrow> heap outcome" where
  "barrier_drop K l v h = obind (location v h) (\<lambda>vl.
     if is_immortal vl \<or> is_stack vl then Ret h
     else if is_immutable vl then field_dec K v h
     else obind (to_region vl) (\<lambda>r. obind (get_region r h) (\<lambda>reg.
       if is_frame_local reg then field_dec K v h
       else if is_stack l then stack_dec' K r 1 h
       else obind (in_frame_local l h) (\<lambda>fl.
         if fl then stack_dec' K r 1 h
         else if l = vl then field_dec K v h
         else if has_parent reg then clear_parent K r h
         else field_dec K v h))))"

end
