(* ===== verification/BarrierLemmas.thy ===== *)
theory BarrierLemmas
  imports Barrier
begin

text \<open>
  The write barrier keeps the region accounting. A store by a running program goes through a
  reference held in a register, so the storage region has a stack reference of its own; under
  that condition nothing is released by the store itself and the collector is not entered.
\<close>

subsection \<open>Stack references to held regions\<close>

text \<open>\<open>room ext h k\<close>: no count can overflow by adding \<open>k\<close> to it.\<close>

definition room :: "(rid \<Rightarrow> int) \<Rightarrow> heap \<Rightarrow> nat \<Rightarrow> bool" where
  "room ext h k \<longleftrightarrow> (\<forall>q. ext q + int (next_rid h) + int k < 2 ^ 32)"

lemma room_weaken:
  assumes "room ext h k" "next_rid h' = next_rid h" "\<And>q. ext' q + int k' \<le> ext q + int k"
  shows "room ext' h' k'"
  unfolding room_def
proof
  fix q
  show "ext' q + int (next_rid h') + int k' < 2 ^ 32"
    using assms(1) [unfolded room_def, rule_format, of q] assms(2) assms(3) [of q] by simp
qed

lemma kids_bound: "forest h \<Longrightarrow> card (kids h q) \<le> next_rid h"
proof -
  assume F: "forest h"
  have "kids h q \<subseteq> {..<next_rid h}" using F by (auto simp: kids_def forest_def)
  then show ?thesis using card_mono [OF finite_lessThan] by fastforce
qed

lemma room_rc:
  assumes "forest h" "rc_ok ext h" "room ext h k" "heap_region h q"
  shows "rc h q + k < 2 ^ 32"
proof -
  have "int (rc h q) = ext q + int (card (kids h q))" using assms(2,4) by (simp add: rc_ok_def)
  moreover have "ext q + int (next_rid h) + int k < 2 ^ 32" using assms(3) by (simp add: room_def)
  ultimately have "int (rc h q + k) < int (2 ^ 32)" using kids_bound [OF assms(1), of q] by simp
  then show ?thesis by (simp only: of_nat_less_iff)
qed

lemma stack_inc_room:
  assumes "forest h" "rc_ok ext h" "heap_region h r" "room ext h 1"
  shows "\<exists>h'. stack_inc r 1 h = Ret h' \<and> same_shape h h' \<and> worklist h' = worklist h \<and>
    rc_ok (ext(r := ext r + 1)) h'"
proof -
  have "heap_region h q \<Longrightarrow> rc h q + unat (1 :: 32 word) < 2 ^ 32" for q
    using room_rc [OF assms(1,2,4), of q] by simp
  from stack_inc_ok [OF assms(1-3) _ this] show ?thesis by auto
qed

text \<open>A decrement that leaves a stack reference on the chain keeps the region.\<close>

lemma stack_dec_held:
  assumes F: "forest h" and ok: "rc_ok ext h" and r: "heap_region h r" and e: "1 \<le> ext r" and pos: "\<And>q. 0 \<le> ext q"
    and held: "q \<in> up h r" "0 < (ext(r := ext r - 1)) q"
  shows "\<exists>h'. stack_dec K r 1 h = Ret (True, h') \<and> same_shape h h' \<and> worklist h' = worklist h \<and>
    rc_ok (ext(r := ext r - 1)) h'"
proof -
  have alive: "in_collection h \<or> (\<exists>q\<in>up h r. 0 < (ext(r := ext r - int (unat (1 :: 32 word)))) q \<or>
      (\<exists>reg. regions h q = Some reg \<and> has_cown_owner reg))"
    using held by (simp only: unat_1 of_nat_1) blast
  have "0 < unat (1 :: 32 word)" "int (unat (1 :: 32 word)) \<le> ext r" using e by simp_all
  from stack_dec_ok [OF F ok r this pos alive, of K] obtain b h' where
    h': "stack_dec K r 1 h = Ret (b, h')" "same_shape h h'"
      "rc_ok (ext(r := ext r - int (unat (1 :: 32 word)))) h'"
      "if b then worklist h' = worklist h \<and> anchored h' r
       else \<not> anchored h' r \<and> (\<exists>q\<in>up h r. freed_root h h' q)"
    by blast
  have "heap_region h q" using held(1) r F by (auto simp: up_def dest: above_heap)
  then have "heap_region h' q" by (simp add: same_shape_heap_region [OF h'(2)])
  then have "0 < rc h' q" using h'(3) held(2) by (auto simp: rc_ok_def)
  moreover have "q \<in> up h' r" using held(1) by (simp add: same_shape_up [OF h'(2)])
  ultimately have "anchored h' r" by (auto simp: anchored_def)
  with h' show ?thesis by (cases b) auto
qed

lemma stack_adjust_ok:
  assumes F: "forest h" and ok: "rc_ok ext h" and n: "- 1 \<le> n" "n \<le> 1" and rm: "room ext h 1" and pos: "\<And>q. 0 \<le> ext q"
    and inc: "n = 1 \<Longrightarrow> l = LRegion r \<and> heap_region h r"
    and dec: "n = - 1 \<Longrightarrow> l = LRegion r \<and> heap_region h r \<and> 1 \<le> ext r \<and> (\<exists>q\<in>up h r. 0 < (ext(r := ext r - 1)) q)"
  shows "\<exists>h'. stack_adjust K n l h = Ret h' \<and> same_shape h h' \<and> worklist h' = worklist h \<and>
    rc_ok (ext(r := ext r + n)) h'"
proof -
  consider "n = 1" | "n = - 1" | "n = 0" using n by linarith
  then show ?thesis
  proof cases
    case 1
    with inc obtain "l = LRegion r" "heap_region h r" by auto
    with 1 stack_inc_room [OF F ok _ rm] show ?thesis by (simp add: stack_adjust_def)
  next
    case 2
    with dec obtain q where q: "l = LRegion r" "heap_region h r" "1 \<le> ext r" "q \<in> up h r" "0 < (ext(r := ext r - 1)) q"
      by auto
    from stack_dec_held [OF F ok q(2,3) pos q(4,5), of K] 2 q(1) show ?thesis
      by (auto simp: stack_adjust_def stack_dec'_def)
  next
    case 3
    then show ?thesis using ok by (simp add: stack_adjust_def)
  qed
qed

subsection \<open>Changes to objects\<close>

definition objs_only :: "heap \<Rightarrow> heap \<Rightarrow> bool" where
  "objs_only h h' \<longleftrightarrow> h' = h\<lparr>objs := objs h'\<rparr>"

lemma objs_only_regions: "objs_only h h' \<Longrightarrow> regions h' = regions h \<and> next_rid h' = next_rid h \<and>
    in_collection h' = in_collection h \<and> worklist h' = worklist h"
  by (simp add: objs_only_def) (metis heap.ext_inject heap.surjective heap.update_convs(2))

lemma objs_only_same:
  assumes "objs_only h h'"
  shows "parent_of h' = parent_of h" "rc h' = rc h" "heap_region h' = heap_region h" "kids h' = kids h"
    "up h' = up h" "forest h' = forest h" "rc_ok ext h' = rc_ok ext h" "room ext h' k = room ext h k"
proof -
  note r = objs_only_regions [OF assms]
  show p: "parent_of h' = parent_of h" "rc h' = rc h" "heap_region h' = heap_region h"
    using r by (auto simp: parent_of_def [abs_def] rc_def [abs_def] heap_region_def [abs_def])
  then show k: "kids h' = kids h" "up h' = up h" by (auto simp: kids_def [abs_def] up_def [abs_def])
  show "forest h' = forest h" "rc_ok ext h' = rc_ok ext h" "room ext h' k = room ext h k"
    using r p k by (simp_all add: forest_def rc_ok_def room_def)
qed

lemma objs_only_trans: "objs_only h h1 \<Longrightarrow> objs_only h1 h2 \<Longrightarrow> objs_only h h2"
  unfolding objs_only_def by (metis (no_types, lifting) heap.surjective heap.update_convs(2))

lemma mod_obj_only: "objs_only h (mod_obj p f h)"
  by (simp add: objs_only_def mod_obj_def)

lemma write_slot_ok:
  assumes "objs h p = Some b" "i < length (o_slots b)" "to_addr t v = Ret w"
  shows "\<exists>h'. write_slot p i t v h = Ret h' \<and> objs_only h h' \<and>
    objs h' = (objs h)(p \<mapsto> b\<lparr>o_slots := (o_slots b)[i := (t, w)]\<rparr>)"
  using assms mod_obj_only by (auto simp: write_slot_def get_obj_def) (auto simp: mod_obj_def)

text \<open>Counting a field reference to an object in a region.\<close>

lemma field_inc_region:
  assumes "is_header v" "header_of v = Some q" "\<not> is_readonly v" "objs h q = Some c" "o_loc c = LRegion j" "regions h j = Some reg"
  shows "\<exists>h'. field_inc v h = Ret h' \<and> objs_only h h' \<and>
    objs h' = (if is_finalizing reg then objs h else (objs h)(q \<mapsto> c\<lparr>o_rc := o_rc c + 1\<rparr>))"
proof -
  have "on_header f g v h = f q h" for f g using assms(1,2) by (cases v) auto
  then show ?thesis
    using assms mod_obj_only [of h q "\<lambda>b. b\<lparr>o_rc := o_rc b + 1\<rparr>"]
    by (auto simp: field_inc_def h_field_inc_def at_root_def location_of_def get_obj_def field_inc_at_def
      get_region_def inc_rc_def objs_only_def) (auto simp: mod_obj_def)
qed

lemma header_location: "is_header v \<Longrightarrow> header_of v = Some q \<Longrightarrow> location v h = location_of q h"
  by (cases v) auto

subsection \<open>Preparing a store into a heap region\<close>

definition store_plan :: "bool \<Rightarrow> rid \<Rightarrow> loc \<Rightarrow> rid \<Rightarrow> bool \<Rightarrow> write_ops" where
  "store_plan m s pl j par = new_write_ops
     \<lparr>store_loc := LRegion s, out_loc := pl, in_loc := LRegion j, need_in_inc := \<not> m, need_in_clear := m,
      need_in_stack_inc := - of_bool m, need_in_parent := par, in_parent_value := (if par then Some s else None),
      need_out_stack_inc := of_bool (is_region pl), need_out_clear_parent := (is_region pl \<and> pl \<noteq> LRegion s),
      out_clear_parent_region := (case pl of LRegion r \<Rightarrow> if r \<noteq> s then Some r else None | _ \<Rightarrow> None)\<rparr>"

definition owned :: "heap \<Rightarrow> rid \<Rightarrow> bool" where
  "owned h r \<longleftrightarrow> (\<exists>reg. regions h r = Some reg \<and> has_owner reg)"

text \<open>When a store of a value in region \<open>j\<close> over one at \<open>pl\<close> is refused.\<close>

definition store_refused :: "heap \<Rightarrow> rid \<Rightarrow> loc \<Rightarrow> rid \<Rightarrow> bool" where
  "store_refused h s pl j \<longleftrightarrow> j \<noteq> s \<and> (if owned h j then pl \<noteq> LRegion j else j \<in> above (parent_of h) s)"

lemma heap_region_frame: "heap_region h s \<Longrightarrow> in_frame_local (LRegion s) h = Ret False"
  by (auto simp: heap_region_def in_frame_local_def get_region_def is_frame_local_def)

lemma prepare_out_heap:
  assumes "heap_region h s"
  shows "prepare_out pl h (prepare_store (LRegion s) new_write_ops) = Ret (new_write_ops
    \<lparr>store_loc := LRegion s, out_loc := pl, need_out_stack_inc := of_bool (is_region pl),
     need_out_clear_parent := (is_region pl \<and> pl \<noteq> LRegion s),
     out_clear_parent_region := (case pl of LRegion r \<Rightarrow> if r \<noteq> s then Some r else None | _ \<Rightarrow> None)\<rparr>)"
  using heap_region_frame [OF assms]
  by (cases pl) (auto simp: prepare_out_def prepare_store_def new_write_ops_def is_immortal_def out_stack_inc_def
    out_clear_parent_def)

lemma prepare_in_heap:
  assumes F: "forest h" and s: "heap_region h s" and j: "heap_region h j"
  shows "prepare_in m (LRegion j) h (new_write_ops
    \<lparr>store_loc := LRegion s, out_loc := pl, need_out_stack_inc := of_bool (is_region pl),
     need_out_clear_parent := (is_region pl \<and> pl \<noteq> LRegion s),
     out_clear_parent_region := (case pl of LRegion r \<Rightarrow> if r \<noteq> s then Some r else None | _ \<Rightarrow> None)\<rparr>) =
   Ret (let w = store_plan m s pl j (j \<noteq> s \<and> \<not> owned h j)
        in if store_refused h s pl j
           then fail (w\<lparr>need_in_parent := False, in_parent_value := None\<rparr>) else w)"
proof -
  obtain reg where reg: "regions h j = Some reg" "frame_depth reg = 0" using j by (auto simp: heap_region_def)
  have own: "owned h j = has_owner reg" using reg by (simp add: owned_def)
  note anc = is_ancestor_ok [OF F s, of j]
  show ?thesis
    using reg anc heap_region_frame [OF s]
    by (auto simp: prepare_in_def prepare_in_region_def store_plan_def store_refused_def own new_write_ops_def
      is_immortal_def get_region_def is_frame_local_def in_stack_dec_def in_clear_def in_inc_def fail_def
      in_parent_def Let_def)
qed

text \<open>A refused store.\<close>

lemma exchange_refused:
  assumes F: "forest h" and s: "heap_region h s" and j: "heap_region h j"
    and "load_slot p i h = Ret prev" "location prev h = Ret pl" "location v h = Ret (LRegion j)"
    and "store_refused h s pl j"
  shows "barrier_exchange m K (LRegion s) p i t v h = Raise BadStore"
  using assms prepare_out_heap [OF s, of pl] prepare_in_heap [OF F s j, of m pl]
  by (simp add: barrier_exchange_def fail_def Let_def)

subsection \<open>A store into a heap region\<close>

definition same_locs :: "heap \<Rightarrow> heap \<Rightarrow> bool" where
  "same_locs h h' \<longleftrightarrow> (\<forall>q. map_option o_loc (objs h' q) = map_option o_loc (objs h q))"

lemma same_locs_location:
  assumes "same_locs h h'"
  shows "location v h' = location v h"
proof -
  have "location_of q h' = location_of q h" for q
    using assms [unfolded same_locs_def, rule_format, of q]
    by (cases "objs h q"; cases "objs h' q") (simp_all add: location_of_def get_obj_def)
  then show ?thesis by (cases v) simp_all
qed

text \<open>The references from registers and frames after the exchange: the old value's region gains
  one, the region of a moved value loses one.\<close>

definition exchanged :: "bool \<Rightarrow> loc \<Rightarrow> rid \<Rightarrow> (rid \<Rightarrow> int) \<Rightarrow> rid \<Rightarrow> int" where
  "exchanged m pl j ext q = ext q + of_bool (pl = LRegion q) - of_bool (m \<and> q = j)"

definition held :: "(rid \<Rightarrow> int) \<Rightarrow> rid \<Rightarrow> rid \<Rightarrow> bool" where
  "held ext s j \<longleftrightarrow> (\<forall>q. of_bool (q = s) + of_bool (q = j) \<le> ext q)"

lemma held_pos: "held ext s j \<Longrightarrow> 0 \<le> ext q"
  unfolding held_def by (drule spec [of _ q]) (auto simp: of_bool_def split: if_splits)

text \<open>The writes: the slot, and the count of a copied value.\<close>

lemma exchange_writes:
  assumes b: "objs h p = Some b" "i < length (o_slots b)" and w: "to_addr t v = Ret w"
    and v: "is_header v" "header_of v = Some q" "\<not> is_readonly v"
    and c: "objs h q = Some c" "o_loc c = LRegion j" and j: "heap_region h j"
  shows "\<exists>h1 h2. write_slot p i t v h = Ret h1 \<and> (if m then Ret h1 else field_inc v h1) = Ret h2 \<and>
    objs_only h h2 \<and> same_locs h h2 \<and> load_slot p i h2 = Ret w"
proof -
  obtain h1 where h1: "write_slot p i t v h = Ret h1" "objs_only h h1"
    "objs h1 = (objs h)(p \<mapsto> b\<lparr>o_slots := (o_slots b)[i := (t, w)]\<rparr>)"
    using write_slot_ok [OF b w] by blast
  have l1: "same_locs h h1" using b by (simp add: same_locs_def h1(3))
  have s1: "load_slot p i h1 = Ret w" using b by (simp add: load_slot_def get_obj_def h1(3))
  show ?thesis
  proof (cases m)
    case True
    with h1 l1 s1 show ?thesis by auto
  next
    case False
    obtain reg where "regions h1 j = Some reg"
      using j objs_only_regions [OF h1(2)] by (auto simp: heap_region_def)
    moreover obtain c1 where c1: "objs h1 q = Some c1" "o_loc c1 = LRegion j"
      using c b by (cases "q = p") (auto simp: h1(3))
    ultimately obtain h2 where h2: "field_inc v h1 = Ret h2" "objs_only h1 h2"
      "objs h2 = (if is_finalizing reg then objs h1 else (objs h1)(q \<mapsto> c1\<lparr>o_rc := o_rc c1 + 1\<rparr>))"
      using field_inc_region [OF v] by blast
    have "same_locs h1 h2" using c1 by (simp add: same_locs_def h2(3))
    then have "same_locs h h2" using l1 by (simp add: same_locs_def)
    moreover have "load_slot p i h2 = Ret w"
      using s1 c1 by (auto simp: load_slot_def get_obj_def h2(3) split: option.splits)
    ultimately show ?thesis using False h1 h2 objs_only_trans by auto
  qed
qed

lemma reg_dec_invalid [simp]: "reg_dec K InvalidV h = Ret h"
  by (simp add: reg_dec_def field_dec_def)

lemma apply_in_plan:
  assumes "header_of v = Some q" "is_header v"
    and "write_slot p i t v h = Ret h1" "(if m then Ret h1 else field_inc v h1) = Ret h2"
    and "(if par then set_parent j s q h2 else Ret h2) = Ret h3"
    and "stack_adjust K ((if pl = LRegion j then of_bool (is_region pl) else 0) - of_bool m) (LRegion j) h3 = Ret h4"
  shows "apply_in m K p i t v (store_plan m s pl j par) h =
    Ret (True, (store_plan m s pl j par)\<lparr>need_in_stack_inc := (if pl = LRegion j then of_bool (is_region pl) else 0) - of_bool m,
      need_out_stack_inc := (if pl = LRegion j then 0 else of_bool (is_region pl))\<rparr>, h4)"
  using assms
  by (cases m; cases par; cases "pl = LRegion j")
    (simp_all add: apply_in_def apply_drag_def apply_in_counts_def store_plan_def new_write_ops_def Let_def)

text \<open>What the store changes in the parent relation. Where the old value and the new one are in one
  sub-region, that sub-region still loses its parent: the flag raised by \<open>prepare_out\<close> is not
  taken back.\<close>

definition exchanged_parents :: "heap \<Rightarrow> rid \<Rightarrow> loc \<Rightarrow> rid \<Rightarrow> rid \<Rightarrow> rid option" where
  "exchanged_parents h s pl j =
     (let par = (if j \<noteq> s \<and> \<not> owned h j then (parent_of h)(j \<mapsto> s) else parent_of h)
      in case pl of LRegion r \<Rightarrow> if r \<noteq> s then par(r := None) else par | _ \<Rightarrow> par)"

lemma exchange_heap_ok:
  assumes F: "forest h" and ok: "rc_ok ext h" and rm: "room ext h 2" and s: "heap_region h s" and j: "heap_region h j"
    and b: "objs h p = Some b" "i < length (o_slots b)" "o_slots b ! i = (t, prev)"
    and v: "is_header v" "header_of v = Some q" "\<not> is_readonly v"
    and c: "objs h q = Some c" "o_loc c = LRegion j" and w: "to_addr t v = Ret w"
    and pl: "location prev h = Ret pl" "\<And>r. pl = LRegion r \<Longrightarrow> heap_region h r \<and> (r = s \<or> parent_of h r = Some s)"
    and held: "held ext s j" and nr: "\<not> store_refused h s pl j"
  shows "\<exists>h'. barrier_exchange m K (LRegion s) p i t v h = Ret (prev, h') \<and> forest h' \<and>
    rc_ok (exchanged m pl j ext) h' \<and> parent_of h' = exchanged_parents h s pl j \<and> load_slot p i h' = Ret w"
proof -
  note pos = held_pos [OF held]
  have es: "1 \<le> ext s" "1 \<le> ext j" "j = s \<Longrightarrow> 2 \<le> ext s"
    using held [unfolded held_def, rule_format, of s] held [unfolded held_def, rule_format, of j]
    by (auto simp: of_bool_def split: if_splits)
  let ?par = "j \<noteq> s \<and> \<not> owned h j"
  let ?in = "(if pl = LRegion j then of_bool (is_region pl) else 0) - of_bool m :: int"
  let ?out = "if pl = LRegion j then 0 else of_bool (is_region pl) :: int"
  obtain h1 h2 where h1: "write_slot p i t v h = Ret h1" "(if m then Ret h1 else field_inc v h1) = Ret h2"
    and h2: "objs_only h h2" "same_locs h h2" "load_slot p i h2 = Ret w"
    using exchange_writes [OF b(1,2) w v c j] by blast
  note same2 = objs_only_same [OF h2(1)]
  \<comment> \<open>the new parent\<close>
  let ?P3 = "if ?par then (parent_of h)(j \<mapsto> s) else parent_of h"
  have "\<exists>h3. (if ?par then set_parent j s q h2 else Ret h2) = Ret h3 \<and> forest h3 \<and> rc_ok ext h3 \<and> same_rest h2 h3 \<and>
      parent_of h3 = ?P3"
  proof (cases ?par)
    case True
    have un: "regions h2 j = Some reg \<Longrightarrow> owner reg = Unowned" for reg
      using True objs_only_regions [OF h2(1)] by (auto simp: owned_def has_owner_def)
    have "j \<notin> up h2 s" using True nr by (auto simp: store_refused_def up_def same2)
    moreover have "heap_region h2 r \<Longrightarrow> rc h2 r + 1 < 2 ^ 32" for r
      using room_rc [OF F ok rm, of r] by (simp add: same2)
    ultimately show ?thesis
      using set_parent_ok [of h2 ext j s q] True F ok j s un by (auto simp: same2)
  qed (use F ok in \<open>auto simp: same2\<close>)
  then obtain h3 where h3: "(if ?par then set_parent j s q h2 else Ret h2) = Ret h3" "forest h3" "rc_ok ext h3"
    "same_rest h2 h3" "parent_of h3 = ?P3" by blast
  have hr3: "heap_region h3 r = heap_region h r" for r using h3(4) by (simp add: same_rest_def same2)
  have n3: "next_rid h3 = next_rid h"
    using same_rest_fields [OF h3(4)] objs_only_regions [OF h2(1)] by simp
  \<comment> \<open>the count of the incoming region\<close>
  have rm3: "room ext h3 1" by (rule room_weaken [OF rm n3]) simp
  have "\<exists>h4. stack_adjust K ?in (LRegion j) h3 = Ret h4 \<and> same_shape h3 h4 \<and> worklist h4 = worklist h3 \<and>
      rc_ok (ext(j := ext j + ?in)) h4"
  proof (rule stack_adjust_ok [OF h3(2,3) _ _ rm3 pos])
    assume "?in = - 1"
    then have "pl \<noteq> LRegion j" by (cases m) auto
    have "\<exists>r\<in>up h3 j. 0 < (ext(j := ext j - 1)) r"
    proof (cases "j = s")
      case False
      then have "?par" using nr \<open>pl \<noteq> LRegion j\<close> by (auto simp: store_refused_def split: if_splits)
      then have "parent_of h3 j = Some s" by (simp add: h3(5))
      then have "up h3 j = insert j (up h3 s)" by (rule up_Some)
      moreover have "s \<in> up h3 s" by (simp add: up_def)
      ultimately have "s \<in> up h3 j" by simp
      with False es show ?thesis by (intro bexI [of _ s]) auto
    qed (use es in \<open>auto simp: up_def\<close>)
    with es j show "LRegion j = LRegion j \<and> heap_region h3 j \<and> 1 \<le> ext j \<and> (\<exists>q\<in>up h3 j. 0 < (ext(j := ext j - 1)) q)"
      by (simp add: hr3)
  qed (cases m; simp add: hr3 j)+
  then obtain h4 where h4: "stack_adjust K ?in (LRegion j) h3 = Ret h4" "same_shape h3 h4"
    "rc_ok (ext(j := ext j + ?in)) h4" by blast
  have F4: "forest h4" by (simp add: same_shape_forest [OF h4(2)] h3(2))
  let ?e4 = "ext(j := ext j + ?in)"
  have pos4: "0 \<le> ?e4 r" for r using pos [of r] es by auto
  have "next_rid h4 = next_rid h" using same_shape_fields [OF h4(2)] n3 by simp
  then have rm4: "room ?e4 h4 1" by (rule room_weaken [OF rm]) (cases m; simp)
  \<comment> \<open>the count of the outgoing region\<close>
  let ?r = "case pl of LRegion r \<Rightarrow> r | _ \<Rightarrow> 0"
  have "\<exists>h5. stack_adjust K ?out pl h4 = Ret h5 \<and> same_shape h4 h5 \<and> worklist h5 = worklist h4 \<and>
      rc_ok (?e4(?r := ?e4 ?r + ?out)) h5"
    by (rule stack_adjust_ok [OF F4 h4(3) _ _ rm4 pos4])
      (use pl(2) in \<open>auto simp: hr3 same_shape_heap_region [OF h4(2)] split: loc.splits\<close>)
  then obtain h5 where h5: "stack_adjust K ?out pl h4 = Ret h5" "same_shape h4 h5" "rc_ok (?e4(?r := ?e4 ?r + ?out)) h5"
    by blast
  have e5: "?e4(?r := ?e4 ?r + ?out) = exchanged m pl j ext"
    by (rule ext) (cases pl; auto simp: exchanged_def of_bool_def)
  have F5: "forest h5" by (simp add: same_shape_forest [OF h5(2)] F4)
  have P5: "parent_of h5 = ?P3"
    by (simp only: same_shape_parent [OF h5(2)] same_shape_parent [OF h4(2)] h3(5))
  have ob5: "objs h5 = objs h2"
    using same_rest_fields [OF h3(4)] same_shape_fields [OF h4(2)] same_shape_fields [OF h5(2)] by simp
  have loc5: "location prev h5 = Ret pl"
    using same_locs_location [of h h5 prev] h2(2) pl(1) by (simp add: same_locs_def ob5)
  have sl5: "load_slot p i h5 = Ret w" using h2(3) by (simp add: load_slot_def get_obj_def ob5)
  have pos5: "0 \<le> exchanged m pl j ext r" for r
    using pos [of r] es by (auto simp: exchanged_def of_bool_def)
  \<comment> \<open>the old parent\<close>
  have "\<exists>h'. (if is_region pl \<and> pl \<noteq> LRegion s then clear_parent K ?r h5 else Ret h5) = Ret h' \<and> forest h' \<and>
      rc_ok (exchanged m pl j ext) h' \<and> parent_of h' = exchanged_parents h s pl j \<and> load_slot p i h' = Ret w"
  proof (cases "is_region pl \<and> pl \<noteq> LRegion s")
    case True
    then obtain r where r: "pl = LRegion r" "r \<noteq> s" by (cases pl) auto
    then have pr: "parent_of h5 r = Some s" "heap_region h5 r"
      using pl(2) by (auto simp: P5 hr3 same_shape_heap_region [OF h5(2)] same_shape_heap_region [OF h4(2)])
    have "0 < exchanged m pl j ext r" using pos [of r] es r by (auto simp: exchanged_def of_bool_def)
    then have "0 < rc h5 r" using h5(3) pr(2) unfolding e5 by (auto simp: rc_ok_def)
    moreover have "0 < exchanged m pl j ext s" using es r by (auto simp: exchanged_def of_bool_def)
    then have "\<exists>q\<in>up h5 s. 0 < exchanged m pl j ext q \<or> (\<exists>reg. regions h5 q = Some reg \<and> has_cown_owner reg)"
      by (auto simp: up_def)
    ultimately obtain h' where h': "clear_parent K r h5 = Ret h'" "forest h'" "rc_ok (exchanged m pl j ext) h'"
      "same_rest h5 h'" "parent_of h' = (parent_of h5)(r := None)"
      using clear_parent_ok [OF F5 h5(3) [unfolded e5] pr(1) pos5, of K] by blast
    have "load_slot p i h' = Ret w"
      using sl5 same_rest_fields [OF h'(4)] by (simp add: load_slot_def get_obj_def)
    moreover have "parent_of h' = exchanged_parents h s pl j"
      using r by (simp add: h'(5) P5 exchanged_parents_def Let_def)
    ultimately show ?thesis using True r h' by auto
  next
    case False
    then have "parent_of h5 = exchanged_parents h s pl j"
      by (cases pl) (auto simp: P5 exchanged_parents_def Let_def)
    moreover have "(if is_region pl \<and> pl \<noteq> LRegion s then clear_parent K ?r h5 else Ret h5) = Ret h5"
      by (simp only: if_not_P [OF False])
    ultimately show ?thesis using F5 h5(3) sl5 unfolding e5 by blast
  qed
  then obtain h' where h': "(if is_region pl \<and> pl \<noteq> LRegion s then clear_parent K ?r h5 else Ret h5) = Ret h'"
    "forest h'" "rc_ok (exchanged m pl j ext) h'" "parent_of h' = exchanged_parents h s pl j" "load_slot p i h' = Ret w"
    by blast
  \<comment> \<open>putting the pieces together\<close>
  let ?w = "(store_plan m s pl j ?par)\<lparr>need_in_stack_inc := ?in, need_out_stack_inc := ?out\<rparr>"
  have ai: "apply_in m K p i t v (store_plan m s pl j ?par) h = Ret (True, ?w, h4)"
    by (rule apply_in_plan [OF v(2,1) h1 h3(1) h4(1)])
  have ao: "apply_out K prev ?w h4 = Ret h'"
    using h5(1) h'(1) loc5
    by (cases pl) (auto simp: apply_out_def store_plan_def new_write_ops_def split: if_splits)
  have vl: "location v h = Ret (LRegion j)"
    using header_location [OF v(1,2), of h] c by (simp add: location_of_def get_obj_def)
  have sl: "load_slot p i h = Ret prev" using b by (simp add: load_slot_def get_obj_def)
  have okw: "ok (store_plan m s pl j ?par)" by (simp add: store_plan_def new_write_ops_def)
  have "barrier_exchange m K (LRegion s) p i t v h = Ret (prev, h')"
    using sl pl(1) vl prepare_out_heap [OF s, of pl] prepare_in_heap [OF F s j, of m pl] nr okw ai ao
    by (simp add: barrier_exchange_def Let_def)
  with h'(2-) show ?thesis by blast
qed

end
