(* ===== verification/Collect.thy ===== *)
theory Collect
  imports BarrierLemmas
begin

text \<open>
  The two-phase collector (\<^verbatim>\<open>vbci/collect.cc\<close>) with the finalization of objects and arrays
  (\<open>Object::finalize\<close>, \<open>Array::finalize\<close>, \<open>RegionRC::finalize_contents\<close>) and the destruction of
  cowns (\<^verbatim>\<open>vbci/cown.h\<close>). It closes the knot left open by \<open>Heap\<close>: \<open>runtime E n\<close> holds the
  collector's drain and the cown queue's drain. The drains do not nest: while one runs,
  \<open>in_collection\<close> (\<open>cowns_draining\<close>) makes its entry point only queue, so inside it the
  corresponding continuation is never called, and is \<open>Stuck\<close> here.

  Finalizers are bytecode. What they do to the heap is the parameter \<open>run_cleanup\<close>
  (\<open>Thread::run_cleanup\<close>, which swallows errors), applied to a read-only reference to the
  object; \<open>finalizer\<close> gives the finalizer of a class. Inserting into a region's header set
  while it is iterated is undefined behaviour: \<open>Stuck\<close>.

  A drain ends when its queue is empty; \<open>n\<close> bounds the number of queue items it handles.
\<close>

record env =
  finalizer :: "32 word \<Rightarrow> nat option"
  run_cleanup :: "nat \<Rightarrow> val \<Rightarrow> heap \<Rightarrow> heap outcome"

subsection \<open>Finalization\<close>

definition finalize_slot :: "conts \<Rightarrow> oid \<Rightarrow> nat \<Rightarrow> heap \<Rightarrow> heap outcome" where
  "finalize_slot K p i h = obind (get_obj p h) (\<lambda>b. obind (vec_at (o_slots b) i) (\<lambda>(t, v).
     if traced t then barrier_drop K (o_loc b) v h
     else if t = VCown \<and> \<not> o_array b then field_dec K v h
     else Ret h))"

definition finalize :: "env \<Rightarrow> conts \<Rightarrow> oid \<Rightarrow> heap \<Rightarrow> heap outcome" where
  "finalize E K p h = obind (get_obj p h) (\<lambda>b.
     obind (case (if o_array b then None else finalizer E (o_type b)) of
              None \<Rightarrow> Ret h
            | Some f \<Rightarrow> run_cleanup E f (ObjectV p True) h) (\<lambda>h.
     each (finalize_slot K p) [0..<length (o_slots b)] h))"

fun finalize_each :: "env \<Rightarrow> conts \<Rightarrow> rid \<Rightarrow> oid list \<Rightarrow> oid list \<Rightarrow> heap \<Rightarrow> heap outcome" where
  "finalize_each E K r hs [] h = Ret h"
| "finalize_each E K r hs (p # ps) h = obind (get_region r h) (\<lambda>reg.
     obind (oassert (set (headers reg) \<subseteq> set hs)) (\<lambda>_.
     obind (if p \<in> set (headers reg) then finalize E K p h else Ret h) (finalize_each E K r hs ps)))"

definition finalize_contents :: "env \<Rightarrow> conts \<Rightarrow> rid \<Rightarrow> heap \<Rightarrow> heap outcome" where
  "finalize_contents E K r h = obind (get_region r h) (\<lambda>reg.
     obind (oassert (finalizing reg)) (\<lambda>_. finalize_each E K r (headers reg) (headers reg) h))"

subsection \<open>Cowns\<close>

text \<open>\<open>~Cown\<close>\<close>

definition cown_dtor :: "conts \<Rightarrow> cid \<Rightarrow> heap \<Rightarrow> heap outcome" where
  "cown_dtor K c h = obind (get_cown_at c h) (\<lambda>b. obind (location (c_content b) h) (\<lambda>l.
     obind (case l of LRegion r \<Rightarrow> stack_inc r 1 h | _ \<Rightarrow> Ret h) (\<lambda>h.
     obind (field_dec K (c_content b) h) (\<lambda>h.
     let h = mod_cown c (\<lambda>b. b\<lparr>c_content := InvalidV\<rparr>) h in
     case l of LRegion r \<Rightarrow> obind (clear_cown_owner K r h) (stack_dec' K r 1) | _ \<Rightarrow> Ret h))))"

definition free_cown :: "cid \<Rightarrow> heap \<Rightarrow> heap" where
  "free_cown c h = h\<lparr>cowns := (cowns h)(c := None)\<rparr>"

fun cown_loop :: "nat \<Rightarrow> conts \<Rightarrow> heap \<Rightarrow> heap outcome" where
  "cown_loop n K h = (case cowns_pending h of
     [] \<Rightarrow> Ret (h\<lparr>cowns_draining := False\<rparr>)
   | c # cs \<Rightarrow> (case n of
       0 \<Rightarrow> Stuck
     | Suc n \<Rightarrow> obind (cown_dtor K c (h\<lparr>cowns_pending := cs\<rparr>)) (\<lambda>h. cown_loop n K (free_cown c h))))"

declare cown_loop.simps [simp del]

definition cown_drain :: "nat \<Rightarrow> (heap \<Rightarrow> heap outcome) \<Rightarrow> heap \<Rightarrow> heap outcome" where
  "cown_drain n s h = cown_loop n \<lparr>settle = s, cdrain = \<lambda>_. Stuck\<rparr> (h\<lparr>cowns_draining := True\<rparr>)"

subsection \<open>The collector\<close>

definition inside :: "nat \<Rightarrow> conts" where
  "inside n = \<lparr>settle = \<lambda>_. Stuck, cdrain = cown_drain n (\<lambda>_. Stuck)\<rparr>"

definition finalize_item :: "env \<Rightarrow> conts \<Rightarrow> work_item \<Rightarrow> heap \<Rightarrow> heap outcome" where
  "finalize_item E K w h = (case w of WHeader p \<Rightarrow> finalize E K p h | WRegion r \<Rightarrow> finalize_contents E K r h)"

text \<open>Phase 1: the items finalized so far (in reverse) and the remaining fuel come back.\<close>

fun phase1 :: "nat \<Rightarrow> env \<Rightarrow> conts \<Rightarrow> work_item list \<Rightarrow> heap \<Rightarrow> (nat \<times> work_item list \<times> heap) outcome" where
  "phase1 n E K ws h = (case worklist h of
     [] \<Rightarrow> Ret (n, ws, h)
   | w # rest \<Rightarrow> (case n of
       0 \<Rightarrow> Stuck
     | Suc n \<Rightarrow> obind (finalize_item E K w (h\<lparr>worklist := rest\<rparr>)) (phase1 n E K (w # ws))))"

declare phase1.simps [simp del]

definition delete_obj :: "oid \<Rightarrow> heap \<Rightarrow> heap outcome" where
  "delete_obj p h = obind (get_obj p h) (\<lambda>_. Ret (h\<lparr>objs := (objs h)(p := None)\<rparr>))"

definition delete_header :: "oid \<Rightarrow> heap \<Rightarrow> heap outcome" where
  "delete_header p h = obind (location_of p h) (\<lambda>l.
     if is_immutable l \<or> is_pending l then delete_obj p h
     else case l of LRegion r \<Rightarrow> obind (get_region r h) (\<lambda>_. Ret (rfree r p h)) | _ \<Rightarrow> Stuck)"

definition release_dead_objects :: "rid \<Rightarrow> heap \<Rightarrow> heap outcome" where
  "release_dead_objects r h = obind (get_region r h) (\<lambda>reg.
     obind (each delete_obj (headers reg) h) (\<lambda>h. Ret (h\<lparr>regions := (regions h)(r := None)\<rparr>)))"

definition phase2 :: "work_item list \<Rightarrow> heap \<Rightarrow> heap outcome" where
  "phase2 ws h = obind (each delete_header [p. WHeader p \<leftarrow> ws] h)
     (each release_dead_objects [r. WRegion r \<leftarrow> ws])"

text \<open>A round of the two phases and, while the queue is not empty, another one.\<close>

fun drain_rounds :: "nat \<Rightarrow> nat \<Rightarrow> env \<Rightarrow> heap \<Rightarrow> heap outcome" where
  "drain_rounds 0 n E h = Stuck"
| "drain_rounds (Suc k) n E h =
     obind (phase1 n E (inside n) [] (h\<lparr>in_collection := True\<rparr>)) (\<lambda>(n, ws, h).
     obind (phase2 (rev ws) h) (\<lambda>h.
       if worklist h \<noteq> [] then drain_rounds k n E h else Ret (h\<lparr>in_collection := False\<rparr>)))"

definition drain :: "nat \<Rightarrow> env \<Rightarrow> heap \<Rightarrow> heap outcome" where
  "drain n E h = drain_rounds (Suc n) n E h"

definition runtime :: "env \<Rightarrow> nat \<Rightarrow> conts" where
  "runtime E n = \<lparr>settle = drain n E, cdrain = cown_drain n (drain n E)\<rparr>"

subsection \<open>What a drain leaves\<close>

lemma drain_rounds_done: "drain_rounds k n E h = Ret h' \<Longrightarrow> worklist h' = [] \<and> \<not> in_collection h'"
proof (induction k arbitrary: n h)
  case (Suc k)
  then show ?case by (auto simp: outcome_simps split: if_splits prod.splits)
qed simp

lemma drain_done: "drain n E h = Ret h' \<Longrightarrow> worklist h' = [] \<and> \<not> in_collection h'"
  unfolding drain_def by (rule drain_rounds_done)

lemma cown_loop_done: "cown_loop n K h = Ret h' \<Longrightarrow> cowns_pending h' = [] \<and> \<not> cowns_draining h'"
proof (induction n arbitrary: h)
  case 0
  then show ?case by (subst (asm) cown_loop.simps) (auto split: list.splits)
next
  case (Suc n)
  show ?case
  proof (cases "cowns_pending h")
    case Nil
    with Suc.prems show ?thesis by (subst (asm) cown_loop.simps) auto
  next
    case (Cons c cs)
    with Suc.prems obtain h1 where "cown_loop n K h1 = Ret h'"
      by (auto simp: cown_loop.simps [of "Suc n"] outcome_simps)
    then show ?thesis by (rule Suc.IH)
  qed
qed

lemma cown_drain_done: "cown_drain n s h = Ret h' \<Longrightarrow> cowns_pending h' = [] \<and> \<not> cowns_draining h'"
  unfolding cown_drain_def by (rule cown_loop_done)

subsection \<open>Releasing a whole region\<close>

text \<open>
  \<open>contained E h r\<close>: nothing in region \<open>r\<close> has a finalizer or refers out of it. Such a region is
  deleted without touching anything else.
\<close>

definition contained :: "env \<Rightarrow> heap \<Rightarrow> rid \<Rightarrow> bool" where
  "contained E h r \<longleftrightarrow> (\<forall>reg. regions h r = Some reg \<longrightarrow> distinct (headers reg) \<and>
     (\<forall>p\<in>set (headers reg). \<exists>b. objs h p = Some b \<and> o_loc b = LRegion r \<and>
        (o_array b \<or> finalizer E (o_type b) = None) \<and>
        (\<forall>(t, v)\<in>set (o_slots b). \<not> is_readonly v \<and>
           (if traced t then location v h = Ret (LRegion r) \<or> location v h = Ret LImmortal
            else t = VCown \<longrightarrow> o_array b \<or> v = InvalidV))))"

lemma field_dec_finalizing:
  assumes "location v h = Ret (LRegion r)" "regions h r = Some reg" "is_finalizing reg" "\<not> is_readonly v"
  shows "field_dec K v h = Ret h"
  using assms by (cases v) (auto simp: field_dec_def h_field_dec_def at_root_def field_dec_at_def
    location_of_def get_obj_def get_region_def outcome_simps split: option.splits)

lemma drop_finalizing:
  assumes "location v h = Ret (LRegion r) \<or> location v h = Ret LImmortal"
    "regions h r = Some reg" "is_finalizing reg" "\<not> is_readonly v"
  shows "barrier_drop K (LRegion r) v h = Ret h"
  using assms field_dec_finalizing [OF _ assms(2-4), of K]
  by (auto simp: barrier_drop_def is_immortal_def get_region_def in_frame_local_def)

lemma each_same: "(\<And>x. x \<in> set xs \<Longrightarrow> f x h = Ret h) \<Longrightarrow> each f xs h = Ret h"
  by (induction xs) auto

lemma finalize_contained:
  assumes "contained E h r" "regions h r = Some reg" "is_finalizing reg" "p \<in> set (headers reg)"
  shows "finalize E K p h = Ret h"
proof -
  obtain b where b: "objs h p = Some b" "o_loc b = LRegion r" "o_array b \<or> finalizer E (o_type b) = None" and
    s: "\<And>t v. (t, v) \<in> set (o_slots b) \<Longrightarrow> \<not> is_readonly v \<and>
           (if traced t then location v h = Ret (LRegion r) \<or> location v h = Ret LImmortal
            else t = VCown \<longrightarrow> o_array b \<or> v = InvalidV)"
    using assms unfolding contained_def by blast
  have "finalize_slot K p i h = Ret h" if i: "i < length (o_slots b)" for i
  proof -
    obtain t v where tv: "o_slots b ! i = (t, v)" by fastforce
    with s [of t v] nth_mem [OF i] drop_finalizing [OF _ assms(2,3), of v K] show ?thesis
      by (cases "traced t")
        (auto simp: finalize_slot_def get_obj_def b i tv field_dec_def)
  qed
  then have "each (finalize_slot K p) [0..<length (o_slots b)] h = Ret h" by (intro each_same) simp
  with b show ?thesis by (auto simp: finalize_def get_obj_def)
qed

lemma finalize_contents_contained:
  assumes "contained E h r" "regions h r = Some reg" "finalizing reg"
  shows "finalize_contents E K r h = Ret h"
proof -
  have "finalize_each E K r (headers reg) ps h = Ret h" for ps
    using finalize_contained [OF assms(1,2)] assms(2,3)
    by (induction ps) (auto simp: get_region_def is_finalizing_def)
  with assms(2,3) show ?thesis by (simp add: finalize_contents_def get_region_def)
qed

lemma delete_each:
  assumes "distinct ps" "\<And>p. p \<in> set ps \<Longrightarrow> objs h p \<noteq> None"
  shows "each delete_obj ps h = Ret (h\<lparr>objs := objs h |` (- set ps)\<rparr>)"
  using assms
proof (induction ps arbitrary: h)
  case (Cons p ps)
  let ?h = "h\<lparr>objs := (objs h)(p := None)\<rparr>"
  have "(objs h)(p := None) |` (- set ps) = objs h |` (- set (p # ps))"
    by (rule ext) (auto simp: restrict_map_def)
  moreover have "each delete_obj ps ?h = Ret (?h\<lparr>objs := objs ?h |` (- set ps)\<rparr>)"
    using Cons.prems by (intro Cons.IH) auto
  moreover have "delete_obj p h = Ret ?h"
    using Cons.prems(2) [of p] by (auto simp: delete_obj_def get_obj_def)
  ultimately show ?case by simp
next
  case (Nil h)
  have "objs h |` UNIV = objs h" by (rule ext) simp
  then show ?case by simp
qed

text \<open>\<open>without h r\<close>: the heap with region \<open>r\<close> and its objects gone.\<close>

definition without :: "heap \<Rightarrow> rid \<Rightarrow> heap" where
  "without h r = h\<lparr>regions := (regions h)(r := None),
     objs := objs h |` (- (case regions h r of None \<Rightarrow> {} | Some reg \<Rightarrow> set (headers reg)))\<rparr>"

lemma drain_region:
  assumes "contained E h r" "regions h r = Some reg" "finalizing reg" "worklist h = [WRegion r]"
  shows "drain (Suc n) E h = Ret (without (h\<lparr>worklist := [], in_collection := False\<rparr>) r)"
proof -
  let ?h = "h\<lparr>in_collection := True, worklist := []\<rparr>"
  have loc: "location v (h\<lparr>in_collection := c, worklist := ws\<rparr>) = location v h" for v ws c
    by (cases v) (simp_all add: location_of_def get_obj_def)
  have "contained E ?h r" using assms(1) unfolding contained_def loc by simp
  then have 1: "finalize_contents E K r ?h = Ret ?h" for K
    by (rule finalize_contents_contained [where reg = reg]) (simp_all add: assms)
  have "distinct (headers reg)" "\<forall>p\<in>set (headers reg). objs h p \<noteq> None"
    using assms(1,2) by (auto simp: contained_def)
  then have 2: "each delete_obj (headers reg) ?h = Ret (?h\<lparr>objs := objs h |` (- set (headers reg))\<rparr>)"
    using delete_each [of "headers reg" ?h] by simp
  have "phase1 (Suc n) E (inside (Suc n)) [] (h\<lparr>in_collection := True\<rparr>) = Ret (n, [WRegion r], ?h)"
    by (simp add: phase1.simps [of "Suc n"] phase1.simps [of n] assms finalize_item_def 1)
  moreover have "phase2 [WRegion r] ?h = Ret (without ?h r)"
    by (simp add: phase2_def release_dead_objects_def get_region_def assms 2 without_def)
  ultimately show ?thesis by (simp add: drain_def without_def assms)
qed

lemma collect_region_contained:
  assumes "contained E h r" "regions h r = Some reg" "\<not> finalizing reg" "worklist h = []" "\<not> in_collection h"
  shows "collect_region (runtime E (Suc n)) r h = Ret (without h r)"
proof -
  let ?h = "mod_region r (\<lambda>reg. reg\<lparr>finalizing := True\<rparr>) h\<lparr>worklist := [WRegion r]\<rparr>"
  have loc: "location v ?h = location v h" for v
    by (cases v) (simp_all add: location_of_def get_obj_def mod_region_def)
  have "contained E ?h r" using assms(1,2) unfolding contained_def loc by (simp add: mod_region_def)
  then have "drain (Suc n) E ?h = Ret (without (?h\<lparr>worklist := [], in_collection := False\<rparr>) r)"
    by (rule drain_region [where reg = "reg\<lparr>finalizing := True\<rparr>"]) (simp_all add: mod_region_def assms)
  moreover have "without (?h\<lparr>worklist := [], in_collection := False\<rparr>) r = without h r"
    using assms by (simp add: without_def mod_region_def)
  ultimately show ?thesis
    using assms by (simp add: collect_region_def get_region_def enqueue_def runtime_def mod_region_def)
qed

lemma stack_dec_contained:
  assumes "contained E h r" "regions h r = Some reg" "\<not> finalizing reg" "worklist h = []" "\<not> in_collection h"
    "frame_depth reg = 0" "owner reg = Unowned" "stack_rc reg = d"
  shows "stack_dec (runtime E (Suc n)) r d h = Ret (False, without h r)"
proof -
  let ?h = "mod_region r (\<lambda>reg. reg\<lparr>stack_rc := stack_rc reg - d\<rparr>) h"
  have loc: "location v ?h = location v h" for v
    by (cases v) (simp_all add: location_of_def get_obj_def mod_region_def)
  have "contained E ?h r" using assms(1,2) unfolding contained_def loc by (simp add: mod_region_def)
  then have "collect_region (runtime E (Suc n)) r ?h = Ret (without ?h r)"
    by (rule collect_region_contained [where reg = "reg\<lparr>stack_rc := 0\<rparr>"]) (simp_all add: mod_region_def assms)
  moreover have "without ?h r = without h r" using assms by (simp add: without_def mod_region_def)
  ultimately show ?thesis
    using assms by (simp add: stack_dec_def free_region_def get_region_def is_frame_local_def mod_region_def has_owner_def)
qed

subsection \<open>Frozen cycles\<close>

text \<open>
  \<open>collect_scc\<close> marks the members of a frozen component pending before their fields are
  dropped, and \<open>drop\<close> takes a pending target for a region.
\<close>

lemma drop_pending: "location v h = Ret LPending \<Longrightarrow> barrier_drop K l v h = Stuck"
  by (simp add: barrier_drop_def is_immortal_def)

lemma header_of_location:
  "header_of v = Some p \<Longrightarrow> location v h = location_of p h"
  by (cases v) auto

lemma collect_self_cycle:
  assumes "objs h p = Some b" "o_loc b = LImmutable" "o_slots b = [(t, v)]" "traced t" "header_of v = Some p"
    "o_array b \<or> finalizer E (o_type b) = None" "worklist h = []" "\<not> in_collection h"
  shows "collect_scc (runtime E n) p h = Stuck"
proof -
  let ?h = "set_location p LPending h"
  have b: "objs ?h p = Some (b\<lparr>o_loc := LPending\<rparr>)" by (simp add: set_location_def mod_obj_def assms)
  have 1: "scc_visit p p (w, ?h\<lparr>worklist := ws\<rparr>) = Ret (w, ?h\<lparr>worklist := ws\<rparr>)" for w ws
    by (simp add: scc_visit_def location_of_def get_obj_def b)
  have "scc_members (Suc (next_oid h)) p [p] ?h = Ret (?h\<lparr>worklist := [WHeader p]\<rparr>)"
    using assms 1 b by (simp add: get_obj_def trace_def List.map_filter_def set_location_def mod_obj_def)
  moreover have "drain n E (?h\<lparr>worklist := [WHeader p]\<rparr>) = Stuck"
  proof (cases n)
    case (Suc m)
    let ?g = "?h\<lparr>in_collection := True, worklist := []\<rparr>"
    have "location v ?g = Ret LPending"
      using b by (simp add: header_of_location [OF assms(5)] location_of_def get_obj_def)
    then have "finalize_slot K p 0 ?g = Stuck" for K
      using b assms by (simp add: finalize_slot_def get_obj_def drop_pending)
    then have "finalize E K p ?g = Stuck" for K
      using b assms by (auto simp: finalize_def get_obj_def)
    then show ?thesis by (simp add: drain_def Suc phase1.simps [of "Suc m"] finalize_item_def)
  qed (simp add: drain_def phase1.simps [of 0])
  ultimately show ?thesis
    using assms by (simp add: collect_scc_def location_of_def get_obj_def runtime_def set_location_def mod_obj_def)
qed

lemma drop_self_cycle:
  assumes "objs h p = Some b" "o_loc b = LImmutable" "o_rc b = 1" "o_slots b = [(t, v)]" "traced t" "header_of v = Some p"
    "o_array b \<or> finalizer E (o_type b) = None" "worklist h = []" "\<not> in_collection h"
  shows "h_field_dec (runtime E n) p h = Stuck"
proof -
  have "collect_scc (runtime E n) p (dec_rc p h) = Stuck"
    by (rule collect_self_cycle [where b = "b\<lparr>o_rc := 0\<rparr>" and t = t and v = v])
      (use assms in \<open>simp_all add: dec_rc_def mod_obj_def\<close>)
  with assms show ?thesis
    by (simp add: h_field_dec_def at_root_def location_of_def get_obj_def field_dec_at_def)
qed

end
