(* ===== verification/Cells.thy ===== *)
theory Cells
  imports Collect
begin

text \<open>
  Storage cells: the fields of objects (\<^verbatim>\<open>vbci/object.h\<close>), the elements of arrays
  (\<^verbatim>\<open>vbci/array.h\<close>) and the content of cowns (\<^verbatim>\<open>vbci/cown.h\<close>), with allocation, type-checked
  exchange, the bulk array operations, pinning and sendability.

  \<open>program\<close> is the part of a loaded program these need: a class holds its fields' types and
  layouts, its field map and its methods; a class's index is its type id. Registers are a list
  \<open>L\<close> of values here, read by \<open>type_id\<close> through register references; following those has fuel
  \<open>Suc (length L)\<close>, so a cycle of them is \<open>Stuck\<close> (the C++ recursion overflows the stack).

  A fresh object's fields are uninitialised memory: \<open>InvalidV\<close> until \<open>init\<close> stores to them.
  A fresh array is zeroed: null pointers read as \<open>InvalidV\<close>.
\<close>

record field =
  fi_type :: "32 word"
  fi_layout :: vtype

record cls =
  c_size :: nat
  c_fields :: "field list"
  c_field_map :: "64 word \<Rightarrow> nat option"
  c_methods :: "64 word \<Rightarrow> nat option"
  c_singleton :: "oid option"

record program =
  types :: type_table
  classes :: "cls list"
  funcs :: "vfunction list"
  string_arrays :: "oid list"
  symbols :: "vsymbol list"
  memo_funcs :: "nat list"

definition cls_at :: "program \<Rightarrow> 32 word \<Rightarrow> cls outcome" where
  "cls_at P t = (if unat t < length (classes P) then Ret (classes P ! unat t) else Raise BadType)"

definition check_subtype :: "program \<Rightarrow> 32 word \<Rightarrow> 32 word \<Rightarrow> bool outcome" where
  "check_subtype P a b = subtype_f (Suc (rank (types P) a + rank (types P) b)) (types P) a b"

lemma check_subtype_ok:
  "types_ok (types P) \<Longrightarrow> id_ok (types P) a \<Longrightarrow> id_ok (types P) b \<Longrightarrow>
   check_subtype P a b = Ret (subtype (types P) a b)"
  unfolding check_subtype_def by (rule subtype_f_total) simp_all

definition layout_of :: "program \<Rightarrow> 32 word \<Rightarrow> (vtype \<times> ffi_type) outcome" where
  "layout_of P t = layout_f (layout_fuel (types P)) (types P) t"

definition field_type_id :: "program \<Rightarrow> oid \<Rightarrow> nat \<Rightarrow> heap \<Rightarrow> 32 word outcome" where
  "field_type_id P p i h = obind (get_obj p h) (\<lambda>b. obind (cls_at P (o_type b)) (\<lambda>c.
     obind (vec_at (c_fields c) i) (\<lambda>f. Ret (fi_type f))))"

definition content_type_id :: "program \<Rightarrow> oid \<Rightarrow> heap \<Rightarrow> 32 word outcome" where
  "content_type_id P p h = obind (get_obj p h) (\<lambda>b. unarray (types P) (o_type b))"

definition cown_content_type :: "program \<Rightarrow> cid \<Rightarrow> heap \<Rightarrow> 32 word outcome" where
  "cown_content_type P c h = obind (get_cown_at c h) (\<lambda>b. uncown (types P) (c_type b))"

text \<open>\<open>Object::field\<close>: the slot of a field name.\<close>

definition field_slot :: "program \<Rightarrow> oid \<Rightarrow> 64 word \<Rightarrow> heap \<Rightarrow> nat outcome" where
  "field_slot P p f h = obind (get_obj p h) (\<lambda>b. obind (cls_at P (o_type b)) (\<lambda>c.
     case c_field_map c f of None \<Rightarrow> Raise BadField | Some i \<Rightarrow> Ret i))"

subsection \<open>Types of values\<close>

fun type_id_f :: "nat \<Rightarrow> program \<Rightarrow> val list \<Rightarrow> val \<Rightarrow> heap \<Rightarrow> 32 word outcome" where
  "type_id_f n P L (ObjectV p ro) h = obind (get_obj p h) (\<lambda>b. Ret (o_type b))"
| "type_id_f n P L (ArrayV p ro) h = obind (get_obj p h) (\<lambda>b. Ret (o_type b))"
| "type_id_f n P L (CownV c ro) h = obind (get_cown_at c h) (\<lambda>b. Ret (Heap.c_type b))"
| "type_id_f n P L (RegisterRefV i f ro) h = (case n of
     0 \<Rightarrow> Stuck
   | Suc n \<Rightarrow> obind (vec_at L i) (\<lambda>v. obind (type_id_f n P L v h) (\<lambda>t. Ret (ref_type (types P) t))))"
| "type_id_f n P L (FieldRefV p i ro) h = obind (field_type_id P p i h) (\<lambda>t. Ret (ref_type (types P) t))"
| "type_id_f n P L (ArrayRefV p i ro) h = obind (content_type_id P p h) (\<lambda>t. Ret (ref_type (types P) t))"
| "type_id_f n P L (CownRefV c ro) h = obind (cown_content_type P c h) (\<lambda>t. Ret (ref_type (types P) t))"
| "type_id_f n P L (FunctionV f) h = Ret DynamicTypeId"
| "type_id_f n P L (ErrorV e f pc) h = Ret DynamicTypeId"
| "type_id_f n P L InvalidV h = Ret DynamicTypeId"
| "type_id_f n P L v h = Ret (of_nat (vtype_code (get_value_type v)))"

definition type_id :: "program \<Rightarrow> val list \<Rightarrow> val \<Rightarrow> heap \<Rightarrow> 32 word outcome" where
  "type_id P L v h = type_id_f (Suc (length L)) P L v h"

definition check_type :: "program \<Rightarrow> val list \<Rightarrow> val \<Rightarrow> 32 word \<Rightarrow> heap \<Rightarrow> unit outcome" where
  "check_type P L v t h = obind (type_id P L v h) (\<lambda>s. obind (check_subtype P s t) (\<lambda>ok.
     if ok then Ret () else Raise BadType))"

text \<open>\<open>Value::method\<close>\<close>

definition method_of :: "program \<Rightarrow> val list \<Rightarrow> val \<Rightarrow> 64 word \<Rightarrow> heap \<Rightarrow> nat option outcome" where
  "method_of P L v w h = obind (type_id P L v h) (\<lambda>t. obind (cls_at P t) (\<lambda>c. Ret (c_methods c w)))"

subsection \<open>Allocation\<close>

fun zero_value :: "vtype \<Rightarrow> val" where
  "zero_value VNone = NoneV"
| "zero_value VBool = BoolV False"
| "zero_value VI8 = I8V 0" | "zero_value VI16 = I16V 0" | "zero_value VI32 = I32V 0" | "zero_value VI64 = I64V 0"
| "zero_value VU8 = U8V 0" | "zero_value VU16 = U16V 0" | "zero_value VU32 = U32V 0" | "zero_value VU64 = U64V 0"
| "zero_value VILong = ILongV 0" | "zero_value VULong = ULongV 0"
| "zero_value VISize = ISizeV 0" | "zero_value VUSize = USizeV 0"
| "zero_value VF32 = F32V 0" | "zero_value VF64 = F64V 0"
| "zero_value VPtr = PtrV 0 False"
| "zero_value _ = InvalidV"

definition fresh_fields :: "cls \<Rightarrow> (vtype \<times> val) list" where
  "fresh_fields c = map (\<lambda>f. (fi_layout f, InvalidV)) (c_fields c)"

text \<open>\<open>RegionRC::object\<close>\<close>

definition region_object :: "program \<Rightarrow> rid \<Rightarrow> 32 word \<Rightarrow> heap \<Rightarrow> (oid \<times> heap) outcome" where
  "region_object P r t h = obind (cls_at P t) (\<lambda>c. new_header r t False (fresh_fields c) h)"

definition fresh_elements :: "program \<Rightarrow> 32 word \<Rightarrow> nat \<Rightarrow> (vtype \<times> val) list outcome" where
  "fresh_elements P t n = obind (unarray (types P) t) (\<lambda>e. obind (layout_of P e) (\<lambda>rep.
     Ret (replicate n (fst rep, zero_value (fst rep)))))"

text \<open>\<open>RegionRC::array\<close>\<close>

definition region_array :: "program \<Rightarrow> rid \<Rightarrow> 32 word \<Rightarrow> nat \<Rightarrow> heap \<Rightarrow> (oid \<times> heap) outcome" where
  "region_array P r t n h = obind (fresh_elements P t n) (\<lambda>slots. new_header r t True slots h)"

text \<open>A header at the location \<open>l\<close> of a frame's stack: no region counts it.\<close>

definition stack_header :: "loc \<Rightarrow> 32 word \<Rightarrow> bool \<Rightarrow> (vtype \<times> val) list \<Rightarrow> heap \<Rightarrow> oid \<times> heap" where
  "stack_header l t arr slots h = (next_oid h, h\<lparr>objs := (objs h)(next_oid h \<mapsto>
     \<lparr>o_loc = l, o_rc = 1, o_type = t, o_array = arr, o_slots = slots\<rparr>), next_oid := Suc (next_oid h)\<rparr>)"

text \<open>\<open>Object::init\<close> with the arguments in \<open>vs\<close>.\<close>

definition init_field :: "program \<Rightarrow> conts \<Rightarrow> val list \<Rightarrow> loc \<Rightarrow> oid \<Rightarrow> (nat \<times> field \<times> val) \<Rightarrow> heap \<Rightarrow> heap outcome" where
  "init_field P K L l p = (\<lambda>(i, f, v) h. obind (check_type P L v (fi_type f) h) (\<lambda>_.
     barrier_init K l p i (fi_layout f) v h))"

definition obj_init :: "program \<Rightarrow> conts \<Rightarrow> val list \<Rightarrow> oid \<Rightarrow> cls \<Rightarrow> val list \<Rightarrow> heap \<Rightarrow> heap outcome" where
  "obj_init P K L p c vs h = obind (location_of p h) (\<lambda>l.
     each (init_field P K L l p) (zip [0..<length (c_fields c)] (zip (c_fields c) vs)) h)"

subsection \<open>Exchange\<close>

definition obj_exchange ::
  "program \<Rightarrow> val list \<Rightarrow> bool \<Rightarrow> conts \<Rightarrow> oid \<Rightarrow> nat \<Rightarrow> val \<Rightarrow> heap \<Rightarrow> (val \<times> heap) outcome" where
  "obj_exchange P L m K p i v h = obind (get_obj p h) (\<lambda>b. obind (cls_at P (o_type b)) (\<lambda>c.
     obind (vec_at (c_fields c) i) (\<lambda>f. obind (check_type P L v (fi_type f) h) (\<lambda>_.
     barrier_exchange m K (o_loc b) p i (fi_layout f) v h))))"

text \<open>An element's layout is the one its slot carries; out of range memory is \<open>Stuck\<close>.\<close>

definition array_exchange ::
  "program \<Rightarrow> val list \<Rightarrow> bool \<Rightarrow> conts \<Rightarrow> oid \<Rightarrow> nat \<Rightarrow> val \<Rightarrow> heap \<Rightarrow> (val \<times> heap) outcome" where
  "array_exchange P L m K p i v h = obind (content_type_id P p h) (\<lambda>t.
     obind (check_type P L v t h) (\<lambda>_. obind (get_obj p h) (\<lambda>b. obind (vec_at (o_slots b) i) (\<lambda>s.
     barrier_exchange m K (o_loc b) p i (fst s) v h))))"

subsection \<open>Bulk array operations\<close>

definition bulk_prim :: "vtype \<Rightarrow> bool" where
  "bulk_prim t \<longleftrightarrow> vtype_code t \<le> vtype_code VPtr"

definition set_slots :: "oid \<Rightarrow> (vtype \<times> val) list \<Rightarrow> heap \<Rightarrow> heap" where
  "set_slots p s = mod_obj p (\<lambda>b. b\<lparr>o_slots := s\<rparr>)"

text \<open>
  An element goes through a temporary register made from the borrowed value; the reference the
  exchange hands back is discarded.
\<close>

definition put_element ::
  "program \<Rightarrow> val list \<Rightarrow> conts \<Rightarrow> oid \<Rightarrow> nat \<Rightarrow> val \<Rightarrow> heap \<Rightarrow> heap outcome" where
  "put_element P L K p i v h = obind (reg_inc v h) (\<lambda>h.
     obind (array_exchange P L False K p i v h) (\<lambda>(_, h). reg_dec K v h))"

definition copy_element ::
  "program \<Rightarrow> val list \<Rightarrow> conts \<Rightarrow> oid \<Rightarrow> nat \<Rightarrow> oid \<Rightarrow> nat \<Rightarrow> nat \<Rightarrow> heap \<Rightarrow> heap outcome" where
  "copy_element P L K d doff s soff i h =
     obind (load_slot s (soff + i) h) (\<lambda>v. put_element P L K d (doff + i) v h)"

definition bulk_copy ::
  "program \<Rightarrow> val list \<Rightarrow> conts \<Rightarrow> oid \<Rightarrow> nat \<Rightarrow> oid \<Rightarrow> nat \<Rightarrow> nat \<Rightarrow> heap \<Rightarrow> heap outcome" where
  "bulk_copy P L K d doff s soff len h =
     (if len = 0 then Ret h
      else obind (get_obj d h) (\<lambda>db. obind (get_obj s h) (\<lambda>sb.
        obind (oassert (doff + len \<le> length (o_slots db) \<and> soff + len \<le> length (o_slots sb) \<and>
                        fst (hd (o_slots db)) = fst (hd (o_slots sb)))) (\<lambda>_.
        if bulk_prim (fst (hd (o_slots db)))
        then Ret (set_slots d (take doff (o_slots db) @ take len (drop soff (o_slots sb)) @ drop (doff + len) (o_slots db)) h)
        else if d = s \<and> doff > soff
        then each (copy_element P L K d doff s soff) (rev [0..<len]) h
        else each (copy_element P L K d doff s soff) [0..<len] h))))"

definition bulk_fill :: "program \<Rightarrow> val list \<Rightarrow> conts \<Rightarrow> oid \<Rightarrow> nat \<Rightarrow> nat \<Rightarrow> val \<Rightarrow> heap \<Rightarrow> heap outcome" where
  "bulk_fill P L K p off len v h =
     (if len = 0 then Ret h
      else obind (get_obj p h) (\<lambda>b.
        obind (oassert (off + len \<le> length (o_slots b))) (\<lambda>_.
        let t = fst (hd (o_slots b)) in
        if bulk_prim t
        then obind (to_addr t v) (\<lambda>w.
          Ret (set_slots p (take off (o_slots b) @ replicate len (t, w) @ drop (off + len) (o_slots b)) h))
        else each (\<lambda>i. put_element P L K p (off + i) v) [0..<len] h)))"

text \<open>
  \<open>bulk_compare\<close>: \<open>memcmp\<close> on the memory of primitive elements, little-endian. C fixes only the
  sign of its result; here it is -1, 0 or 1.
\<close>

definition word_bytes :: "'a::len word \<Rightarrow> byte list" where
  "word_bytes w = map (\<lambda>i. ucast (drop_bit (8 * i) w)) [0..<LENGTH('a) div 8]"

fun value_bytes :: "val \<Rightarrow> byte list" where
  "value_bytes (BoolV b) = [of_bool b]"
| "value_bytes (I8V w) = word_bytes w" | "value_bytes (U8V w) = word_bytes w"
| "value_bytes (I16V w) = word_bytes w" | "value_bytes (U16V w) = word_bytes w"
| "value_bytes (I32V w) = word_bytes w" | "value_bytes (U32V w) = word_bytes w"
| "value_bytes (I64V w) = word_bytes w" | "value_bytes (U64V w) = word_bytes w"
| "value_bytes (ILongV w) = word_bytes w" | "value_bytes (ULongV w) = word_bytes w"
| "value_bytes (ISizeV w) = word_bytes w" | "value_bytes (USizeV w) = word_bytes w"
| "value_bytes (F32V w) = word_bytes w" | "value_bytes (F64V w) = word_bytes w"
| "value_bytes (PtrV w ro) = word_bytes w"
| "value_bytes _ = []"

fun mem_compare :: "byte list \<Rightarrow> byte list \<Rightarrow> int" where
  "mem_compare (a # as) (b # bs) = (if a < b then - 1 else if b < a then 1 else mem_compare as bs)"
| "mem_compare _ _ = 0"

definition slot_bytes :: "(vtype \<times> val) list \<Rightarrow> byte list" where
  "slot_bytes ss = concat (map (\<lambda>s. value_bytes (snd s)) ss)"

definition bulk_compare :: "oid \<Rightarrow> nat \<Rightarrow> oid \<Rightarrow> nat \<Rightarrow> nat \<Rightarrow> heap \<Rightarrow> int outcome" where
  "bulk_compare a aoff b boff len h =
     (if len = 0 then Ret 0
      else obind (get_obj a h) (\<lambda>ab. obind (get_obj b h) (\<lambda>bb.
        obind (oassert (aoff + len \<le> length (o_slots ab) \<and> boff + len \<le> length (o_slots bb) \<and>
                        fst (hd (o_slots ab)) = fst (hd (o_slots bb)))) (\<lambda>_.
        if \<not> bulk_prim (fst (hd (o_slots ab))) then Raise BadType
        else Ret (mem_compare (slot_bytes (take len (drop aoff (o_slots ab))))
                              (slot_bytes (take len (drop boff (o_slots bb)))))))))"

text \<open>
  The discarded result of the exchange: filling an element that refers into its own region
  leaves a stack reference on the region that nobody holds, and the old element's count as it was.
\<close>

lemma fill_leaks:
  assumes F: "forest h" and ok: "rc_ok ext h" and rm: "room ext h 1" and s: "heap_region h s"
    and b: "objs h p = Some b" "o_loc b = LRegion s" "o_slots b = [(VDyn, prev)]" "location prev h = Ret (LRegion s)"
    and ty: "content_type_id P p h = Ret t" "check_type P L NoneV t h = Ret ()"
  shows "\<exists>h'. bulk_fill P L K p 0 1 NoneV h = Ret h' \<and> rc_ok (ext(s := ext s + 1)) h' \<and>
    objs h' = (objs h)(p \<mapsto> b\<lparr>o_slots := [(VDyn, NoneV)]\<rparr>)"
proof -
  let ?h1 = "mod_obj p (\<lambda>b. b\<lparr>o_slots := [(VDyn, NoneV)]\<rparr>) h"
  obtain h1 where h1: "write_slot p 0 VDyn NoneV h = Ret h1" "objs_only h h1"
    "objs h1 = (objs h)(p \<mapsto> b\<lparr>o_slots := [(VDyn, NoneV)]\<rparr>)"
    using write_slot_ok [OF b(1), of 0 VDyn NoneV NoneV] b(3) by auto
  note s1 = objs_only_same [OF h1(2)]
  obtain h' where h': "stack_inc s 1 h1 = Ret h'" "same_shape h1 h'" "rc_ok (ext(s := ext s + 1)) h'"
    using stack_inc_room [of h1 ext s] F ok rm s s1 by auto
  obtain sr where sr: "regions h s = Some sr" "frame_depth sr = 0" using s by (auto simp: heap_region_def)
  have "barrier_exchange False K (LRegion s) p 0 VDyn NoneV h = Ret (prev, h')"
    using b h1(1) h'(1) sr
    by (simp add: barrier_exchange_def load_slot_def get_obj_def prepare_store_def new_write_ops_def is_immortal_def
      prepare_out_def in_frame_local_def get_region_def is_frame_local_def out_stack_inc_def prepare_in_def Let_def
      apply_in_def apply_drag_def apply_in_counts_def stack_adjust_def apply_out_def)
  then have "put_element P L K p 0 NoneV h = Ret h'"
    using ty b by (simp add: put_element_def reg_inc_def field_inc_def array_exchange_def get_obj_def reg_dec_def field_dec_def)
  then have "bulk_fill P L K p 0 1 NoneV h = Ret h'"
    using b by (simp add: bulk_fill_def get_obj_def bulk_prim_def)
  with h' h1 show ?thesis using same_shape_fields [OF h'(2)] by auto
qed

end
