(* ===== verification/Cowns.thy ===== *)
theory Cowns
  imports Cells
begin

text \<open>
  The content of cowns (\<^verbatim>\<open>vbci/cown.h\<close>: \<open>load\<close>, \<open>add_reference\<close>, \<open>exchange\<close>), sending values to
  behaviors (\<open>Header::sendable\<close>, \<open>Value::is_sendable\<close>) and pinning them for foreign code
  (\<open>Value::pin\<close>, \<open>Value::unpin\<close>).

  A cown owns the region its content is in. \<open>cown_swap\<close> is \<open>Cown::exchange\<close> behind its type
  check: it says whether the exchange took place and gives the heap either way. In a move the
  register is extracted when the value is stored; where the exchange is refused, the error that is
  thrown destroys it, which releases its reference.
\<close>

definition cown_load :: "cid \<Rightarrow> heap \<Rightarrow> val outcome" where
  "cown_load c h = obind (get_cown_at c h) (\<lambda>b. Ret (c_content b))"

definition set_content :: "cid \<Rightarrow> val \<Rightarrow> heap \<Rightarrow> heap" where
  "set_content c v = mod_cown c (\<lambda>b. b\<lparr>c_content := v\<rparr>)"

text \<open>A fresh region with a dragged allocation, or \<open>None\<close> with the region released again.\<close>

definition drag_to_fresh :: "bool \<Rightarrow> conts \<Rightarrow> oid \<Rightarrow> heap \<Rightarrow> (rid option \<times> heap) outcome" where
  "drag_to_fresh m K p h = obind (new_region RegionRC 0 h) (\<lambda>(nr, h).
     obind (drag_allocation m K nr p None h) (\<lambda>(done, _, h).
       if done then Ret (Some nr, h)
       else obind (free_region K nr h) (\<lambda>h. Ret (None, h))))"

text \<open>The region the incoming value will be in: \<open>None\<close> when it has to be refused.\<close>

definition incoming_region :: "bool \<Rightarrow> conts \<Rightarrow> val \<Rightarrow> loc \<Rightarrow> heap \<Rightarrow> (rid option option \<times> heap) outcome" where
  "incoming_region m K v l h = (case l of
     LRegion r \<Rightarrow> obind (get_region r h) (\<lambda>reg.
       if is_frame_local reg then obind (get_header v) (\<lambda>p.
         obind (drag_to_fresh m K p h) (\<lambda>(nr, h). Ret (map_option Some nr, h)))
       else if has_owner reg then Ret (None, h)
       else Ret (Some (Some r), h))
   | _ \<Rightarrow> Ret (Some None, h))"

definition add_reference :: "bool \<Rightarrow> conts \<Rightarrow> cid \<Rightarrow> val \<Rightarrow> heap \<Rightarrow> (bool \<times> heap) outcome" where
  "add_reference m K c v h = obind (location v h) (\<lambda>l.
     if is_stack l then Ret (False, h)
     else obind (incoming_region m K v l h) (\<lambda>(target, h).
       case target of
         None \<Rightarrow> Ret (False, h)
       | Some r \<Rightarrow>
           obind (if m then Ret h else field_inc v h) (\<lambda>h.
           let h = set_content c v h in
           obind (case r of
               None \<Rightarrow> Ret h
             | Some r \<Rightarrow> obind (get_header v) (\<lambda>p. obind (set_cown_owner r (Some c) p h) (\<lambda>h.
                 if m \<and> l = LRegion r then stack_dec' K r 1 h else Ret h))) (\<lambda>h.
           Ret (True, h)))))"

text \<open>The region of the old content is let go before the new content comes in.\<close>

definition release_content :: "conts \<Rightarrow> loc \<Rightarrow> heap \<Rightarrow> heap outcome" where
  "release_content K l h = (case l of
     LRegion r \<Rightarrow> obind (stack_inc r 1 h) (clear_cown_owner K r)
   | _ \<Rightarrow> Ret h)"

definition restore_content :: "conts \<Rightarrow> cid \<Rightarrow> loc \<Rightarrow> heap \<Rightarrow> heap outcome" where
  "restore_content K c l h = (case l of
     LRegion r \<Rightarrow> obind (cown_load c h) (\<lambda>v. obind (get_header v) (\<lambda>p.
       obind (set_cown_owner r (Some c) p h) (stack_dec' K r 1)))
   | _ \<Rightarrow> Ret h)"

definition cown_swap :: "bool \<Rightarrow> conts \<Rightarrow> cid \<Rightarrow> val \<Rightarrow> heap \<Rightarrow> (bool \<times> val \<times> heap) outcome" where
  "cown_swap m K c v h = obind (cown_load c h) (\<lambda>prev. obind (location prev h) (\<lambda>pl. obind (location v h) (\<lambda>l.
     if l = pl then
       obind (if m then Ret h else field_inc v h) (\<lambda>h.
       let h = set_content c v h in
       obind (case pl of LRegion r \<Rightarrow> if m then Ret h else stack_inc r 1 h | _ \<Rightarrow> Ret h) (\<lambda>h.
       Ret (True, prev, h)))
     else obind (release_content K pl h) (\<lambda>h. obind (add_reference m K c v h) (\<lambda>(done, h).
       if done then Ret (True, prev, h)
       else obind (restore_content K c pl h) (\<lambda>h.
         obind (if m then reg_dec K v h else Ret h) (\<lambda>h. Ret (False, prev, h))))))))"

definition cown_exchange ::
  "program \<Rightarrow> val list \<Rightarrow> bool \<Rightarrow> conts \<Rightarrow> cid \<Rightarrow> val \<Rightarrow> heap \<Rightarrow> (val \<times> heap) outcome" where
  "cown_exchange P L m K c v h =
     obind (if is_error v then Ret ()
            else obind (type_id P L v h) (\<lambda>s. obind (cown_content_type P c h) (\<lambda>t.
              obind (check_subtype P s t) (\<lambda>ok. if ok then Ret () else Raise BadType)))) (\<lambda>_.
     obind (cown_swap m K c v h) (\<lambda>(done, prev, h).
       if done then Ret (prev, h) else Raise BadStore))"

subsection \<open>Sending\<close>

definition header_sendable :: "conts \<Rightarrow> oid \<Rightarrow> heap \<Rightarrow> (bool \<times> heap) outcome" where
  "header_sendable K p h = obind (location_of p h) (\<lambda>l. case l of
     LStack n \<Rightarrow> Ret (False, h)
   | LRegion r \<Rightarrow> obind (get_region r h) (\<lambda>reg.
       if is_frame_local reg then
         obind (new_region RegionRC 0 h) (\<lambda>(nr, h).
         obind (drag_allocation False K nr p None h) (\<lambda>(done, _, h).
           if \<not> done then Ret (False, h)
           else obind (region_sendable nr h) (\<lambda>b. Ret (b, h))))
       else obind (region_sendable r h) (\<lambda>b. Ret (b, h)))
   | _ \<Rightarrow> Ret (True, h))"

fun is_sendable :: "conts \<Rightarrow> val \<Rightarrow> heap \<Rightarrow> (bool \<times> heap) outcome" where
  "is_sendable K (ObjectV p ro) h = header_sendable K p h"
| "is_sendable K (ArrayV p ro) h = header_sendable K p h"
| "is_sendable K (PtrV w ro) h = Ret (False, h)"
| "is_sendable K (RegisterRefV i f ro) h = Ret (False, h)"
| "is_sendable K (FieldRefV p i ro) h = Ret (False, h)"
| "is_sendable K (ArrayRefV p i ro) h = Ret (False, h)"
| "is_sendable K (CownRefV c ro) h = Ret (False, h)"
| "is_sendable K v h = Ret (True, h)"

subsection \<open>Pinning\<close>

text \<open>The cown that owns the region \<open>l\<close> was when the header was looked at.\<close>

definition owning_cown :: "loc \<Rightarrow> heap \<Rightarrow> cid option outcome" where
  "owning_cown l h = (case l of LRegion r \<Rightarrow> obind (get_region r h) (\<lambda>reg. Ret (get_cown_owner reg)) | _ \<Rightarrow> Ret None)"

definition pin :: "conts \<Rightarrow> val \<Rightarrow> heap \<Rightarrow> heap outcome" where
  "pin K v h =
     (if is_header v then
        (if is_readonly v then Raise BadOperand
         else obind (get_header v) (\<lambda>p. obind (location_of p h) (\<lambda>l.
           if is_stack l then Raise BadStackEscape
           else obind (in_frame_local l h) (\<lambda>fl.
             obind (if fl then obind (drag_to_fresh False K p h) (\<lambda>(nr, h). if nr = None then Raise BadStackEscape else Ret h)
                    else Ret h) (\<lambda>h.
             obind (reg_inc v h) (\<lambda>h. obind (owning_cown l h) (\<lambda>c. case c of None \<Rightarrow> Ret h | Some c \<Rightarrow> cown_inc c h)))))))
      else if is_cown_value v then reg_inc v h
      else Raise BadOperand)"

definition unpin :: "conts \<Rightarrow> val \<Rightarrow> heap \<Rightarrow> heap outcome" where
  "unpin K v h =
     (if is_header v then
        obind (get_header v) (\<lambda>p. obind (location_of p h) (\<lambda>l. obind (owning_cown l h) (\<lambda>c.
          obind (reg_dec K v h) (\<lambda>h. case c of None \<Rightarrow> Ret h | Some c \<Rightarrow> cown_dec K c h))))
      else if is_cown_value v then reg_dec K v h
      else Raise BadOperand)"

end
