(* ===== verification/CownLemmas.thy ===== *)
theory CownLemmas
  imports Cowns
begin

text \<open>
  Exchanging a cown's content keeps the region accounting and hands the cown's ownership from
  the old content's region to the new one's; a refused exchange puts everything back; pinning
  and unpinning a value in an unchanged heap cancel out.
\<close>

lemma parent_owner: "parent_of h r = (case owner_of h r of Some (Parent p) \<Rightarrow> Some p | _ \<Rightarrow> None)"
  by (auto simp: parent_of_def owner_of_def split: option.splits owner.splits)

lemma regions_same:
  assumes "regions h' = regions h" "next_rid h' = next_rid h"
  shows "parent_of h' = parent_of h" "rc h' = rc h" "heap_region h' = heap_region h" "owner_of h' = owner_of h"
    "forest h' = forest h" "rc_ok ext h' = rc_ok ext h"
proof -
  show p: "parent_of h' = parent_of h" "rc h' = rc h" "heap_region h' = heap_region h" "owner_of h' = owner_of h"
    by (auto simp: parent_of_def [abs_def] rc_def [abs_def] heap_region_def [abs_def] owner_of_def [abs_def] assms)
  then have "kids h' = kids h" by (auto simp: kids_def [abs_def])
  with p show "forest h' = forest h" "rc_ok ext h' = rc_ok ext h" by (simp_all add: forest_def rc_ok_def assms)
qed

subsection \<open>Handing a region over\<close>

lemma stack_dec_cown:
  assumes F: "forest h" and ok: "rc_ok ext h" and r: "heap_region h r" and e: "1 \<le> ext r" and pos: "\<And>q. 0 \<le> ext q"
    and o': "owner_of h r = Some (CownOwner c)"
  shows "\<exists>h'. stack_dec' K r 1 h = Ret h' \<and> same_shape h h' \<and> worklist h' = worklist h \<and>
    rc_ok (ext(r := ext r - 1)) h'"
proof -
  have up: "r \<in> up h r" by (simp add: up_def)
  have cown: "\<exists>reg. regions h r = Some reg \<and> has_cown_owner reg"
    using o' by (auto simp: owner_of_Some has_cown_owner_def)
  have "0 < unat (1 :: 32 word)" "int (unat (1 :: 32 word)) \<le> ext r" using e by simp_all
  moreover have "in_collection h \<or> (\<exists>q\<in>up h r. 0 < (ext(r := ext r - int (unat (1 :: 32 word)))) q \<or>
      (\<exists>reg. regions h q = Some reg \<and> has_cown_owner reg))" using up cown by blast
  ultimately obtain b h' where
    h': "stack_dec K r 1 h = Ret (b, h')" "same_shape h h'" "rc_ok (ext(r := ext r - int (unat (1 :: 32 word)))) h'"
      "if b then worklist h' = worklist h \<and> anchored h' r else \<not> anchored h' r \<and> (\<exists>q\<in>up h r. freed_root h h' q)"
    using stack_dec_ok [OF F ok r _ _ pos, of 1 K] by blast
  have "owner_of h' r = Some (CownOwner c)" using o' by (simp add: same_shape_owner [OF h'(2)])
  then have "anchored h' r" by (auto simp: anchored_def up_def owner_of_Some has_cown_owner_def)
  with h' show ?thesis by (cases b) (auto simp: stack_dec'_def)
qed

lemma set_cown_owner_ok:
  assumes "forest h" "rc_ok ext h" "heap_region h r" "owner_of h r = Some Unowned"
  shows "set_cown_owner r c e h = Ret (set_owner r (CownOwner c) (Some e) h)"
    "forest (set_owner r (CownOwner c) (Some e) h)" "rc_ok ext (set_owner r (CownOwner c) (Some e) h)"
    "parent_of (set_owner r (CownOwner c) (Some e) h) = parent_of h"
proof -
  have p: "parent_of h r = None" using assms(4) by (simp add: parent_owner)
  show "set_cown_owner r c e h = Ret (set_owner r (CownOwner c) (Some e) h)"
    using assms(4) by (auto simp: set_cown_owner_def get_region_def owner_of_Some has_owner_def set_owner_def)
  show "forest (set_owner r (CownOwner c) (Some e) h)" by (rule forest_unset_parent [OF assms(1,3)]) simp
  show "rc_ok ext (set_owner r (CownOwner c) (Some e) h)"
    by (rule rc_ok_set_owner [OF assms(1,3,2)]) (simp add: p)
  show "parent_of (set_owner r (CownOwner c) (Some e) h) = parent_of h"
    using p by (auto simp: parent_set_owner [OF assms(3)])
qed

lemma clear_cown_owner_ok:
  assumes "forest h" "rc_ok ext h" "heap_region h r" "owner_of h r = Some (CownOwner c)" "0 < rc h r"
  shows "clear_cown_owner K r h = Ret (set_owner r Unowned None h)"
    "forest (set_owner r Unowned None h)" "rc_ok ext (set_owner r Unowned None h)"
    "parent_of (set_owner r Unowned None h) = parent_of h"
proof -
  have p: "parent_of h r = None" using assms(4) by (simp add: parent_owner)
  show "clear_cown_owner K r h = Ret (set_owner r Unowned None h)"
    using assms(4,5) by (auto simp: clear_cown_owner_def get_region_def owner_of_Some has_cown_owner_def set_owner_def rc_def unat_gt_0)
  show "forest (set_owner r Unowned None h)" by (rule forest_unset_parent [OF assms(1,3)]) simp
  show "rc_ok ext (set_owner r Unowned None h)"
    by (rule rc_ok_set_owner [OF assms(1,3,2)]) (simp add: p)
  show "parent_of (set_owner r Unowned None h) = parent_of h"
    using p by (auto simp: parent_set_owner [OF assms(3)])
qed

text \<open>The old content's region ends up unowned, with one more stack reference.\<close>

lemma release_content_ok:
  assumes F: "forest h" and ok: "rc_ok ext h" and rm: "room ext h 1" and pos: "\<And>q. 0 \<le> ext q"
    and r: "heap_region h r" "owner_of h r = Some (CownOwner c)"
  shows "\<exists>h'. release_content K (LRegion r) h = Ret h' \<and> forest h' \<and> rc_ok (ext(r := ext r + 1)) h' \<and>
    same_rest h h' \<and> parent_of h' = parent_of h \<and> owner_of h' = (owner_of h)(r \<mapsto> Unowned)"
proof -
  obtain h1 where h1: "stack_inc r 1 h = Ret h1" "same_shape h h1" "rc_ok (ext(r := ext r + 1)) h1"
    using stack_inc_room [OF F ok r(1) rm] by blast
  have F1: "forest h1" "heap_region h1 r" "owner_of h1 r = Some (CownOwner c)"
    using F r by (simp_all add: same_shape_forest [OF h1(2)] same_shape_heap_region [OF h1(2)] same_shape_owner [OF h1(2)])
  have "int (rc h1 r) = ext r + 1 + int (card (kids h1 r))" using h1(3) F1(2) by (simp add: rc_ok_def)
  with pos [of r] have "0 < rc h1 r" by linarith
  note c = clear_cown_owner_ok [OF F1(1) h1(3) F1(2,3) this]
  have "regions h1 r \<noteq> None" using F1(2) by (auto simp: heap_region_def)
  then have "owner_of (set_owner r Unowned None h1) = (owner_of h)(r \<mapsto> Unowned)"
    by (simp add: owner_set_owner same_shape_owner [OF h1(2)])
  moreover have "same_rest h (set_owner r Unowned None h1)"
    using same_rest_trans [OF same_shape_rest [OF h1(2)] set_owner_rest] .
  ultimately show ?thesis
    using h1 c by (simp add: release_content_def same_shape_parent [OF h1(2)])
qed

text \<open>The new content, already in a heap region of its own, is stored and its region taken over.\<close>

lemma add_reference_ok:
  assumes F: "forest h" and ok: "rc_ok ext h" and pos: "\<And>q. 0 \<le> ext q"
    and j: "heap_region h j" "owner_of h j = Some Unowned"
    and v: "is_header v" "header_of v = Some q" "\<not> is_readonly v" "objs h q = Some b" "o_loc b = LRegion j"
    and c: "cowns h c = Some cw" and held: "m \<Longrightarrow> 1 \<le> ext j"
  shows "\<exists>h'. add_reference m K c v h = Ret (True, h') \<and> forest h' \<and> rc_ok (ext(j := ext j - of_bool m)) h' \<and>
    parent_of h' = parent_of h \<and> owner_of h' = (owner_of h)(j \<mapsto> CownOwner (Some c)) \<and> cown_load c h' = Ret v"
proof -
  obtain reg where reg: "regions h j = Some reg" "frame_depth reg = 0" "owner reg = Unowned"
    using j by (auto simp: heap_region_def owner_of_Some)
  have l: "location v h = Ret (LRegion j)"
    using v by (simp add: header_location [OF v(1,2)] location_of_def get_obj_def)
  have t: "incoming_region m K v (LRegion j) h = Ret (Some (Some j), h)"
    by (simp add: incoming_region_def get_region_def reg is_frame_local_def has_owner_def)
  obtain h1 where h1: "(if m then Ret h else field_inc v h) = Ret h1" "objs_only h h1"
    using field_inc_region [OF v reg(1)] by (cases m) (auto simp: objs_only_def)
  let ?h2 = "set_content c v h1"
  have r2: "regions ?h2 = regions h" "next_rid ?h2 = next_rid h"
    using objs_only_regions [OF h1(2)] by (simp_all add: set_content_def mod_cown_def)
  note s2 = regions_same [OF r2]
  have p: "get_header v = Ret q" using v(1,2) by (cases v) auto
  note o3 = set_cown_owner_ok [of ?h2 ext j "Some c" q, unfolded s2, OF F ok j]
  let ?h3 = "set_owner j (CownOwner (Some c)) (Some q) ?h2"
  have own3: "owner_of ?h3 = (owner_of h)(j \<mapsto> CownOwner (Some c))"
    by (simp add: owner_set_owner s2 r2 reg)
  have "cowns h1 c = Some cw" using c h1(2) by (simp add: objs_only_def) (metis heap.ext_inject heap.surjective heap.update_convs(2))
  then have load3: "cown_load c ?h3 = Ret v"
    by (simp add: cown_load_def get_cown_at_def set_content_def mod_cown_def set_owner_def mod_region_def)
  have "\<exists>h'. (if m then stack_dec' K j 1 ?h3 else Ret ?h3) = Ret h' \<and> same_shape ?h3 h' \<and>
      rc_ok (ext(j := ext j - of_bool m)) h'"
  proof (cases m)
    case True
    have "heap_region ?h3 j" using j(1) by (simp add: s2)
    moreover have "owner_of ?h3 j = Some (CownOwner (Some c))" by (simp add: own3)
    ultimately show ?thesis
      using stack_dec_cown [OF o3(2) o3(3) _ held [OF True] pos, of "Some c" K] True by auto
  next
    case False
    then show ?thesis using o3(3) by simp
  qed
  then obtain h' where h': "(if m then stack_dec' K j 1 ?h3 else Ret ?h3) = Ret h'" "same_shape ?h3 h'"
    "rc_ok (ext(j := ext j - of_bool m)) h'" by blast
  have "add_reference m K c v h = Ret (True, h')"
    using h1(1) h'(1) o3(1) by (simp add: add_reference_def l t p Let_def)
  moreover have "forest h'" using o3(2) same_shape_forest [OF h'(2)] by simp
  moreover have "parent_of h' = parent_of h" using o3(4) same_shape_parent [OF h'(2)] by simp
  moreover have "cown_load c h' = Ret v"
    using load3 same_shape_fields [OF h'(2)] by (simp add: cown_load_def get_cown_at_def)
  ultimately show ?thesis using h'(3) own3 same_shape_owner [OF h'(2)] by simp
qed

theorem cown_swap_ok:
  assumes F: "forest h" and ok: "rc_ok ext h" and rm: "room ext h 1" and pos: "\<And>q. 0 \<le> ext q"
    and c: "cowns h c = Some cw" "c_content cw = prev" "location prev h = Ret (LRegion r)"
    and r: "heap_region h r" "owner_of h r = Some (CownOwner (Some c))"
    and j: "heap_region h j" "owner_of h j = Some Unowned"
    and v: "is_header v" "header_of v = Some q" "\<not> is_readonly v" "objs h q = Some b" "o_loc b = LRegion j"
    and held: "m \<Longrightarrow> 1 \<le> ext j"
  shows "\<exists>h'. cown_swap m K c v h = Ret (True, prev, h') \<and> forest h' \<and>
    rc_ok (ext(r := ext r + 1, j := ext j - of_bool m)) h' \<and> parent_of h' = parent_of h \<and>
    owner_of h' = (owner_of h)(r \<mapsto> Unowned, j \<mapsto> CownOwner (Some c)) \<and> cown_load c h' = Ret v"
proof -
  have jr: "j \<noteq> r" using r(2) j(2) by auto
  obtain h1 where h1: "release_content K (LRegion r) h = Ret h1" "forest h1" "rc_ok (ext(r := ext r + 1)) h1"
    "same_rest h h1" "parent_of h1 = parent_of h" "owner_of h1 = (owner_of h)(r \<mapsto> Unowned)"
    using release_content_ok [OF F ok rm pos r] by blast
  note f1 = same_rest_fields [OF h1(4)]
  have "heap_region h1 j" using j(1) h1(4) by (simp add: same_rest_def)
  moreover have "owner_of h1 j = Some Unowned" using j(2) jr h1(6) by simp
  moreover have "objs h1 q = Some b" "cowns h1 c = Some cw" using v(4) c(1) f1 by simp_all
  moreover have "0 \<le> (ext(r := ext r + 1)) q" for q using pos [of q] pos [of r] by simp
  moreover have "m \<Longrightarrow> 1 \<le> (ext(r := ext r + 1)) j" using held jr by simp
  ultimately obtain h' where h': "add_reference m K c v h1 = Ret (True, h')" "forest h'"
    "rc_ok ((ext(r := ext r + 1))(j := (ext(r := ext r + 1)) j - of_bool m)) h'" "parent_of h' = parent_of h1"
    "owner_of h' = (owner_of h1)(j \<mapsto> CownOwner (Some c))" "cown_load c h' = Ret v"
    using add_reference_ok [OF h1(2,3), of j v q b c cw m K] v(1-3,5) by blast
  have "location v h = Ret (LRegion j)"
    using v by (simp add: header_location [OF v(1,2)] location_of_def get_obj_def)
  then have "cown_swap m K c v h = Ret (True, prev, h')"
    using c h1(1) h'(1) jr by (simp add: cown_swap_def cown_load_def get_cown_at_def)
  with h' h1(5,6) jr show ?thesis by simp
qed

subsection \<open>A refused exchange\<close>

lemma one_le_word: "w \<noteq> 0 \<Longrightarrow> 1 \<le> (w :: 'a::len word)"
  by (simp add: word_le_nat_alt unat_gt_0 Suc_le_eq)

lemma inc_neq_0: "w \<noteq> - 1 \<Longrightarrow> w + 1 \<noteq> (0 :: 'a::len word)"
  by (metis add_diff_cancel_right' diff_0)

text \<open>Values a cown does not take: on the stack, or in a heap region that has an owner.\<close>

definition not_takeable :: "loc \<Rightarrow> heap \<Rightarrow> bool" where
  "not_takeable l h = (case l of
     LStack n \<Rightarrow> True
   | LRegion j \<Rightarrow> (case regions h j of Some reg \<Rightarrow> frame_depth reg = 0 \<and> has_owner reg | None \<Rightarrow> False)
   | _ \<Rightarrow> False)"

lemma add_reference_refused:
  assumes "location v h = Ret l" "not_takeable l h"
  shows "add_reference m K c v h = Ret (False, h)"
  using assms by (cases l)
    (auto simp: add_reference_def incoming_region_def not_takeable_def get_region_def is_frame_local_def split: option.splits)

lemma mod_region_known:
  "regions h r = Some reg \<Longrightarrow> mod_region r f h = h\<lparr>regions := (regions h)(r \<mapsto> f reg)\<rparr>"
  by (simp add: mod_region_def)

lemma cown_swap_refused:
  assumes c: "cowns h c = Some cw" "c_content cw = prev" "is_header prev" "header_of prev = Some e" "location prev h = Ret (LRegion r)"
    and r: "regions h r = Some reg" "owner reg = CownOwner (Some c)" "entry_point reg = Some e" "stack_rc reg \<noteq> - 1" "frame_depth reg = 0"
    and l: "location v h = Ret l" "l \<noteq> LRegion r" "not_takeable l h"
  shows "cown_swap m K c v h = obind (if m then reg_dec K v h else Ret h) (\<lambda>h. Ret (False, prev, h))"
proof -
  let ?h1 = "h\<lparr>regions := (regions h)(r \<mapsto> reg\<lparr>stack_rc := stack_rc reg + 1, owner := Unowned, entry_point := None\<rparr>)\<rparr>"
  have nz: "stack_rc reg + 1 \<noteq> 0" using r(4) by (rule inc_neq_0)
  then have 1: "release_content K (LRegion r) h = Ret ?h1"
    using r by (auto simp: release_content_def stack_inc_def get_region_def is_frame_local_def clear_cown_owner_def
      has_cown_owner_def mod_region_known)
  have "location v ?h1 = location v h" by (cases v) (simp_all add: location_of_def get_obj_def)
  moreover have "not_takeable l ?h1" using l(2,3) by (cases l) (auto simp: not_takeable_def)
  ultimately have 2: "add_reference m K c v ?h1 = Ret (False, ?h1)"
    using l(1) by (intro add_reference_refused) simp_all
  have "get_header prev = Ret e" using c(3,4) by (cases prev) auto
  moreover have "reg\<lparr>owner := CownOwner (Some c), entry_point := Some e\<rparr> = reg" using r by simp
  moreover have "1 \<le> stack_rc reg + 1" by (rule one_le_word [OF nz])
  ultimately have 3: "restore_content K c (LRegion r) ?h1 = Ret h"
    using c r by (simp add: restore_content_def cown_load_def get_cown_at_def set_cown_owner_def get_region_def has_owner_def
      mod_region_known stack_dec'_def stack_dec_def is_frame_local_def fun_upd_idem)
  show ?thesis
    using c(1,2,5) l(1,2) 1 2 3 by (simp add: cown_swap_def cown_load_def get_cown_at_def)
qed

subsection \<open>Pinning\<close>

lemma pin_unpin:
  assumes v: "is_header v" "header_of v = Some p" "\<not> is_readonly v"
    and b: "objs h p = Some b" "o_loc b = LRegion r" "o_rc b \<noteq> - 1" "o_rc b \<noteq> 0"
    and r: "regions h r = Some reg" "frame_depth reg = 0" "stack_rc reg \<noteq> 0" "stack_rc reg \<noteq> - 1"
    and c: "\<And>c. owner reg = CownOwner (Some c) \<Longrightarrow> \<exists>cw. cowns h c = Some cw \<and> c_refs cw \<noteq> 0 \<and> c_refs cw \<noteq> - 1"
  shows "\<exists>h'. pin K v h = Ret h' \<and> unpin K v h' = Ret h"
proof -
  let ?b = "if is_finalizing reg then b else b\<lparr>o_rc := o_rc b + 1\<rparr>"
  let ?reg = "reg\<lparr>stack_rc := stack_rc reg + 1\<rparr>"
  let ?h1 = "h\<lparr>objs := (objs h)(p \<mapsto> ?b), regions := (regions h)(r \<mapsto> ?reg)\<rparr>"
  have pv: "get_header v = Ret p" "val_header v = Some p" "\<And>f g h. on_header f g v h = f p h"
    using v(1,2) by (cases v; simp)+
  have nz: "stack_rc reg + 1 \<noteq> 0" "o_rc b + 1 \<noteq> 0" using r(4) b(3) inc_neq_0 by auto
  have fz: "is_finalizing (reg\<lparr>stack_rc := w\<rparr>) = is_finalizing reg" for w by (simp add: is_finalizing_def)
  have same: "(objs h)(p \<mapsto> b) = objs h" using b(1) by (simp add: fun_upd_idem)
  have inc: "reg_inc v h = Ret ?h1"
    using v b r by (simp add: reg_inc_def field_inc_def pv h_field_inc_def at_root_def location_of_def get_obj_def
      field_inc_at_def get_region_def inc_rc_def mod_obj_def stack_inc_def is_frame_local_def mod_region_def same)
  have dec: "reg_dec K v (?h1\<lparr>cowns := cs\<rparr>) = Ret (h\<lparr>cowns := cs\<rparr>)" for cs
    using v b r nz one_le_word [OF nz(1)]
    by (simp add: reg_dec_def field_dec_def pv h_field_dec_def at_root_def location_of_def get_obj_def
      field_dec_at_def get_region_def dec_rc_def mod_obj_def stack_dec_def is_frame_local_def mod_region_def fz fun_upd_idem Let_def)
  have loc: "location_of p ?h1 = Ret (LRegion r)" using b by (simp add: location_of_def get_obj_def)
  have own: "owning_cown (LRegion r) (?h1\<lparr>cowns := cs\<rparr>) = Ret (get_cown_owner reg)" for cs
    by (simp add: owning_cown_def get_region_def get_cown_owner_def)
  have fl: "in_frame_local (LRegion r) h = Ret False"
    by (simp add: in_frame_local_def get_region_def r is_frame_local_def)
  have loc0: "location_of p h = Ret (LRegion r)" using b by (simp add: location_of_def get_obj_def)
  show ?thesis
  proof (cases "get_cown_owner reg")
    case None
    have "pin K v h = Ret ?h1"
      using v own [of "cowns h"] by (simp add: pin_def pv loc0 fl inc None)
    moreover have "unpin K v ?h1 = Ret h"
      using v own [of "cowns h"] dec [of "cowns h"] by (simp add: unpin_def pv loc None)
    ultimately show ?thesis by blast
  next
    case (Some c)
    then obtain cw where cw: "cowns h c = Some cw" "c_refs cw \<noteq> 0" "c_refs cw \<noteq> - 1"
      using c [of c] by (auto simp: get_cown_owner_def split: owner.splits)
    let ?cs = "(cowns h)(c \<mapsto> cw\<lparr>c_refs := c_refs cw + 1\<rparr>)"
    have "0 < c_refs cw" "0 < c_refs cw + 1" using cw(2) inc_neq_0 [OF cw(3)] by (simp_all add: word_neq_0_conv)
    then have ci: "cown_inc c ?h1 = Ret (?h1\<lparr>cowns := ?cs\<rparr>)"
      and cd: "cown_dec K c (h\<lparr>cowns := ?cs\<rparr>) = Ret h"
      using cw by (simp_all add: cown_inc_def cown_dec_def get_cown_at_def mod_cown_def fun_upd_idem Let_def)
    have "pin K v h = Ret (?h1\<lparr>cowns := ?cs\<rparr>)"
      using v own [of "cowns h"] ci by (simp add: pin_def pv loc0 fl inc Some)
    moreover have "unpin K v (?h1\<lparr>cowns := ?cs\<rparr>) = Ret h"
      using v own [of ?cs] dec [of ?cs] cd loc by (simp add: unpin_def pv Some location_of_def get_obj_def)
    ultimately show ?thesis by blast
  qed
qed

end
