(* ===== verification/Freeze.thy ===== *)
theory Freeze
  imports CownLemmas
begin

text \<open>
  Freezing a reachable graph (\<^verbatim>\<open>vbci/freeze.cc\<close>): a depth-first search in which the members of a
  strongly connected component are linked by union-find pointers (\<open>LScc\<close>) to a representative
  that carries the component's count. \<open>addr\<close> is the address of a header, which decides
  which of two representatives wins; the pointer tag that marks a post-order entry of the DFS
  stack is the constructor \<open>Post\<close>. Stacks have their back at the head of the list.

  The fuel of a search, \<open>Suc (Suc (next_oid h + slots_total h))\<close>, covers its pops: every header
  is marked at most once, and pushes one post-order entry and its traced fields.
\<close>

datatype mark = Visit oid | Post oid

definition set_rc_obj :: "oid \<Rightarrow> 32 word \<Rightarrow> heap \<Rightarrow> heap" where
  "set_rc_obj p w = mod_obj p (\<lambda>b. b\<lparr>o_rc := w\<rparr>)"

definition get_rc :: "oid \<Rightarrow> heap \<Rightarrow> 32 word outcome" where
  "get_rc p h = obind (get_obj p h) (\<lambda>b. Ret (o_rc b))"

definition scc_union :: "(oid \<Rightarrow> nat) \<Rightarrow> oid \<Rightarrow> oid \<Rightarrow> heap \<Rightarrow> heap outcome" where
  "scc_union addr child rep h =
     obind (find_root child h) (\<lambda>(r, h). obind (find_root rep h) (\<lambda>(rep_r, h).
     obind (oassert (r \<noteq> rep_r)) (\<lambda>_.
     let (lo, hi) = (if addr r > addr rep_r then (rep_r, r) else (r, rep_r)) in
     obind (get_rc hi h) (\<lambda>a. obind (get_rc lo h) (\<lambda>b.
     Ret (set_location lo (LScc hi) (set_rc_obj hi (a + b - 1) h)))))))"

text \<open>\<open>while (!pending.empty() && pending.back() != rep)\<close>\<close>

fun collapse :: "(oid \<Rightarrow> nat) \<Rightarrow> oid \<Rightarrow> oid list \<Rightarrow> heap \<Rightarrow> (oid list \<times> heap) outcome" where
  "collapse addr rep [] h = Ret ([], h)"
| "collapse addr rep (p # ps) h =
     (if p = rep then Ret (p # ps, h)
      else obind (scc_union addr p rep h) (collapse addr rep ps))"

text \<open>
  \<open>trace_fields\<close>: the children pushed and the number of edges to frozen headers. \<open>scope\<close> is the
  region being frozen with the headers frozen so far; \<open>None\<close> in \<open>freeze_local\<close>.
\<close>

definition trace_child :: "heap \<Rightarrow> (rid \<times> oid list) option \<Rightarrow> oid \<Rightarrow> mark list \<times> 32 word \<Rightarrow> (mark list \<times> 32 word) outcome" where
  "trace_child h scope p = (\<lambda>(dfs, n). obind (location_of p h) (\<lambda>l.
     if is_scc_ptr l \<or> is_pending l then Ret (Visit p # dfs, if scope \<noteq> None then n + 1 else n)
     else if is_immutable l \<or> is_immortal l then
       Ret (dfs, case scope of Some (_, frozen) \<Rightarrow> if p \<in> set frozen then n + 1 else n | None \<Rightarrow> n)
     else case l of
       LRegion r \<Rightarrow> Ret (Visit p # dfs, case scope of Some (s, _) \<Rightarrow> if r = s then n + 1 else n | None \<Rightarrow> n)
     | _ \<Rightarrow> Ret (dfs, n)))"

definition trace_fields :: "heap \<Rightarrow> (rid \<times> oid list) option \<Rightarrow> oid \<Rightarrow> mark list \<Rightarrow> (mark list \<times> 32 word) outcome" where
  "trace_fields h scope p dfs = obind (get_obj p h) (\<lambda>b. each (trace_child h scope) (trace b) (dfs, 0))"

definition dfs_fuel :: "heap \<Rightarrow> nat" where
  "dfs_fuel h = Suc (Suc (next_oid h + slots_total h))"

subsection \<open>Frame-local objects\<close>

record local_state =
  l_dfs :: "mark list"
  l_pending :: "oid list"
  l_roots :: "oid list"

definition local_post :: "oid \<Rightarrow> local_state \<Rightarrow> heap \<Rightarrow> (local_state \<times> heap) outcome" where
  "local_post p st h = (case l_pending st of
     q # ps \<Rightarrow>
       if q = p then obind (find_root p h) (\<lambda>(rep, h).
         Ret (st\<lparr>l_pending := ps\<rparr>, set_location rep LImmutable h))
       else Ret (st, h)
   | [] \<Rightarrow> Ret (st, h))"

definition local_visit :: "(oid \<Rightarrow> nat) \<Rightarrow> oid \<Rightarrow> local_state \<Rightarrow> heap \<Rightarrow> (local_state \<times> heap) outcome" where
  "local_visit addr p st h = obind (find_root p h) (\<lambda>(rep, h). obind (location_of rep h) (\<lambda>l.
     if is_pending l then obind (get_rc rep h) (\<lambda>c.
       obind (collapse addr rep (l_pending st) (set_rc_obj rep (c - 1) h)) (\<lambda>(ps, h).
       Ret (st\<lparr>l_pending := ps\<rparr>, h)))
     else case l of
       LRegion r \<Rightarrow> obind (get_region r h) (\<lambda>reg.
         if \<not> is_frame_local reg then Ret (st\<lparr>l_roots := p # l_roots st\<rparr>, h)
         else let h = set_location p LPending (remove_header r p h) in
           obind (trace_fields h None p (Post p # l_dfs st)) (\<lambda>(dfs, _).
           Ret (st\<lparr>l_dfs := dfs, l_pending := p # l_pending st\<rparr>, h)))
     | _ \<Rightarrow> Ret (st, h)))"

fun local_loop :: "nat \<Rightarrow> (oid \<Rightarrow> nat) \<Rightarrow> local_state \<Rightarrow> heap \<Rightarrow> (local_state \<times> heap) outcome" where
  "local_loop n addr st h = (case l_dfs st of
     [] \<Rightarrow> Ret (st, h)
   | m # ms \<Rightarrow> (case n of
       0 \<Rightarrow> Stuck
     | Suc n \<Rightarrow> obind (case m of
           Post p \<Rightarrow> local_post p (st\<lparr>l_dfs := ms\<rparr>) h
         | Visit p \<Rightarrow> local_visit addr p (st\<lparr>l_dfs := ms\<rparr>) h) (\<lambda>(st, h). local_loop n addr st h)))"

declare local_loop.simps [simp del]

subsection \<open>One region\<close>

record freeze_state =
  f_work :: "oid list"
  f_dfs :: "mark list"
  f_pending :: "oid list"
  f_set :: "oid list"
  f_arc :: "32 word"
  f_internal :: "32 word"

definition freeze_post :: "oid \<Rightarrow> freeze_state \<Rightarrow> heap \<Rightarrow> (freeze_state \<times> heap) outcome" where
  "freeze_post p st h = (case f_pending st of
     q # ps \<Rightarrow>
       if q = p then obind (find_root p h) (\<lambda>(rep, h). obind (get_rc rep h) (\<lambda>c.
         Ret (st\<lparr>f_pending := ps, f_arc := f_arc st + c\<rparr>, set_location rep LImmutable h)))
       else Ret (st, h)
   | [] \<Rightarrow> Ret (st, h))"

definition freeze_visit :: "(oid \<Rightarrow> nat) \<Rightarrow> rid \<Rightarrow> oid \<Rightarrow> freeze_state \<Rightarrow> heap \<Rightarrow> (freeze_state \<times> heap) outcome" where
  "freeze_visit addr r p st h = obind (find_root p h) (\<lambda>(rep, h). obind (location_of rep h) (\<lambda>l.
     if is_pending l then obind (get_rc rep h) (\<lambda>c.
       obind (collapse addr rep (f_pending st) (set_rc_obj rep (c - 1) h)) (\<lambda>(ps, h).
       Ret (st\<lparr>f_pending := ps\<rparr>, h)))
     else case l of
       LRegion s \<Rightarrow>
         if s = r then
           let h = set_location p LPending (remove_header r p h); set = p # f_set st in
           obind (trace_fields h (Some (r, set)) p (Post p # f_dfs st)) (\<lambda>(dfs, n).
           Ret (st\<lparr>f_dfs := dfs, f_pending := p # f_pending st, f_set := set, f_internal := f_internal st + n\<rparr>, h))
         else obind (get_region s h) (\<lambda>reg.
           Ret (if is_frame_local reg then st else st\<lparr>f_work := p # f_work st\<rparr>, h))
     | _ \<Rightarrow> Ret (st, h)))"

fun freeze_dfs :: "nat \<Rightarrow> (oid \<Rightarrow> nat) \<Rightarrow> rid \<Rightarrow> freeze_state \<Rightarrow> heap \<Rightarrow> (freeze_state \<times> heap) outcome" where
  "freeze_dfs n addr r st h = (case f_dfs st of
     [] \<Rightarrow> Ret (st, h)
   | m # ms \<Rightarrow> (case n of
       0 \<Rightarrow> Stuck
     | Suc n \<Rightarrow> obind (case m of
           Post p \<Rightarrow> freeze_post p (st\<lparr>f_dfs := ms\<rparr>) h
         | Visit p \<Rightarrow> freeze_visit addr r p (st\<lparr>f_dfs := ms\<rparr>) h) (\<lambda>(st, h). freeze_dfs n addr r st h)))"

declare freeze_dfs.simps [simp del]

text \<open>References from what stays in the region into the frozen set.\<close>

definition count_header :: "oid list \<Rightarrow> heap \<Rightarrow> oid \<Rightarrow> 32 word \<Rightarrow> 32 word outcome" where
  "count_header frozen h p n = obind (get_obj p h) (\<lambda>b.
     Ret (n + of_nat (length (filter (\<lambda>q. q \<in> set frozen) (trace b)))))"

definition settle_region :: "conts \<Rightarrow> rid \<Rightarrow> oid \<Rightarrow> bool \<Rightarrow> freeze_state \<Rightarrow> heap \<Rightarrow> heap outcome" where
  "settle_region K r root is_sub st h = obind (get_region r h) (\<lambda>reg.
     obind (each (count_header (f_set st) h) (headers reg) 0) (\<lambda>outside.
     let parent_ref = (if is_sub then 1 else 0);
         inner = f_internal st + outside + parent_ref in
     obind (oassert (f_arc st \<ge> inner)) (\<lambda>_.
     obind (if has_parent reg \<and> entry_point reg = Some root then clear_parent K r h
            else if has_cown_owner reg \<and> entry_point reg = Some root then clear_cown_owner K r h
            else Ret h) (\<lambda>h.
     if f_arc st - inner > 0 then stack_dec' K r (f_arc st - inner) h else Ret h))))"

text \<open>One entry of the worklist; the ones found in other regions come back.\<close>

definition freeze_one :: "(oid \<Rightarrow> nat) \<Rightarrow> conts \<Rightarrow> oid \<Rightarrow> oid list \<Rightarrow> heap \<Rightarrow> (oid list \<times> heap) outcome" where
  "freeze_one addr K root work h = obind (location_of root h) (\<lambda>l.
     if is_immutable l then Ret (work, h)
     else obind (to_region l) (\<lambda>r. obind (get_region r h) (\<lambda>reg.
       obind (freeze_dfs (dfs_fuel h) addr r
         \<lparr>f_work = work, f_dfs = [Visit root], f_pending = [], f_set = [], f_arc = 0, f_internal = 0\<rparr> h) (\<lambda>(st, h).
       obind (settle_region K r root (has_owner reg) st h) (\<lambda>h. Ret (f_work st, h))))))"

fun freeze_loop :: "nat \<Rightarrow> (oid \<Rightarrow> nat) \<Rightarrow> conts \<Rightarrow> oid list \<Rightarrow> heap \<Rightarrow> heap outcome" where
  "freeze_loop n addr K [] h = Ret h"
| "freeze_loop 0 addr K (p # ps) h = Stuck"
| "freeze_loop (Suc n) addr K (p # ps) h = obind (freeze_one addr K p ps h) (\<lambda>(ps, h). freeze_loop n addr K ps h)"

definition freeze_heap :: "(oid \<Rightarrow> nat) \<Rightarrow> conts \<Rightarrow> oid \<Rightarrow> heap \<Rightarrow> heap outcome" where
  "freeze_heap addr K root h = freeze_loop (dfs_fuel h) addr K [root] h"

subsection \<open>The operation\<close>

text \<open>
  The second phase of \<open>freeze_local\<close> calls \<open>freeze\<close> on headers in heap regions, where it does not
  come back to frame-local ones: a header that is no longer in a heap region is immutable.
\<close>

definition freeze_root :: "(oid \<Rightarrow> nat) \<Rightarrow> conts \<Rightarrow> oid \<Rightarrow> heap \<Rightarrow> heap outcome" where
  "freeze_root addr K p h = obind (location_of p h) (\<lambda>l.
     if is_immutable l \<or> is_immortal l \<or> is_stack l then Ret h
     else obind (to_region l) (\<lambda>r. obind (get_region r h) (\<lambda>reg.
       obind (oassert (\<not> is_frame_local reg)) (\<lambda>_. freeze_heap addr K p h))))"

definition freeze_local :: "(oid \<Rightarrow> nat) \<Rightarrow> conts \<Rightarrow> oid \<Rightarrow> heap \<Rightarrow> heap outcome" where
  "freeze_local addr K root h =
     obind (local_loop (dfs_fuel h) addr \<lparr>l_dfs = [Visit root], l_pending = [], l_roots = []\<rparr> h) (\<lambda>(st, h).
     each (freeze_root addr K) (rev (l_roots st)) h)"

definition freeze :: "(oid \<Rightarrow> nat) \<Rightarrow> conts \<Rightarrow> oid \<Rightarrow> heap \<Rightarrow> (bool \<times> heap) outcome" where
  "freeze addr K root h = obind (location_of root h) (\<lambda>l.
     if is_immutable l \<or> is_immortal l then Ret (True, h)
     else if is_stack l then Ret (False, h)
     else obind (to_region l) (\<lambda>r. obind (get_region r h) (\<lambda>reg.
       if is_frame_local reg then obind (freeze_local addr K root h) (\<lambda>h. Ret (True, h))
       else obind (freeze_heap addr K root h) (\<lambda>h. Ret (True, h)))))"

end
