(* ===== verification/FreezeLemmas.thy ===== *)
theory FreezeLemmas
  imports Freeze
begin

text \<open>
  Union-find on frozen headers: \<open>Header::find\<close> terminates and finds the end of the pointer
  chain, and its path compression leaves every header's representative as it was.
\<close>

definition scc_next :: "heap \<Rightarrow> oid \<Rightarrow> oid option" where
  "scc_next h p = (case objs h p of Some b \<Rightarrow> (case o_loc b of LScc q \<Rightarrow> Some q | _ \<Rightarrow> None) | None \<Rightarrow> None)"

definition frozen_links_ok :: "heap \<Rightarrow> bool" where
  "frozen_links_ok h \<longleftrightarrow> chain (scc_next h) (next_oid h) \<and> (\<forall>p q. scc_next h p = Some q \<longrightarrow> objs h q \<noteq> None)"

text \<open>What path compression may change.\<close>

definition compressed :: "heap \<Rightarrow> heap \<Rightarrow> bool" where
  "compressed h h' \<longleftrightarrow> objs_only h h' \<and> frozen_links_ok h' \<and> ends (scc_next h') = ends (scc_next h) \<and>
     (\<forall>p. case objs h p of
        None \<Rightarrow> objs h' p = None
      | Some b \<Rightarrow> if is_scc_ptr (o_loc b) then \<exists>q. objs h' p = Some (b\<lparr>o_loc := LScc q\<rparr>) else objs h' p = Some b)"

lemma compressedD:
  "compressed h h' \<Longrightarrow> case objs h p of
        None \<Rightarrow> objs h' p = None
      | Some b \<Rightarrow> if is_scc_ptr (o_loc b) then \<exists>q. objs h' p = Some (b\<lparr>o_loc := LScc q\<rparr>) else objs h' p = Some b"
  unfolding compressed_def by blast

lemma compressed_refl: "frozen_links_ok h \<Longrightarrow> compressed h h"
proof -
  have "case objs h p of
        None \<Rightarrow> objs h p = None
      | Some b \<Rightarrow> if is_scc_ptr (o_loc b) then \<exists>q. objs h p = Some (b\<lparr>o_loc := LScc q\<rparr>) else objs h p = Some b" for p
  proof (cases "objs h p")
    case (Some b)
    have "\<exists>q. b = b\<lparr>o_loc := LScc q\<rparr>" if "is_scc_ptr (o_loc b)"
    proof -
      from that obtain q where "o_loc b = LScc q" by (cases "o_loc b") auto
      then have "b = b\<lparr>o_loc := LScc q\<rparr>" by (cases b) simp
      then show ?thesis by blast
    qed
    with Some show ?thesis by auto
  qed simp
  then show "frozen_links_ok h \<Longrightarrow> compressed h h" by (simp add: compressed_def objs_only_def)
qed

lemma compressed_step:
  assumes c: "compressed h h1" and p: "objs h1 p = Some b" "o_loc b = LScc t" and r: "ends (scc_next h1) t r" "objs h1 r \<noteq> None"
  shows "compressed h (mod_obj p (\<lambda>b. b\<lparr>o_loc := LScc r\<rparr>) h1)" (is "compressed h ?h'")
proof -
  have nxt: "scc_next ?h' = (scc_next h1)(p \<mapsto> r)" by (rule ext) (simp add: scc_next_def mod_obj_def p)
  have pt: "scc_next h1 p = Some t" by (simp add: scc_next_def p)
  have ok1: "frozen_links_ok h1" using c by (simp add: compressed_def)
  have tr: "(t, r) \<in> (links (scc_next h1))\<^sup>*" using r by (simp add: ends_def)
  have n: "next_oid ?h' = next_oid h1" by (simp add: mod_obj_def)
  from ok1 have "chain (scc_next h1) (next_oid h1)" by (simp add: frozen_links_ok_def)
  note sh = chain_shortcut [OF this pt tr]
  have "frozen_links_ok ?h'"
    using sh(1) ok1 r(2) p(1) unfolding frozen_links_ok_def nxt n by (auto simp: mod_obj_def split: if_splits)
  moreover have "ends (scc_next ?h') = ends (scc_next h)" using sh(2) c by (simp add: nxt compressed_def)
  moreover have "objs_only h ?h'" using objs_only_trans [OF _ mod_obj_only] c by (simp add: compressed_def)
  moreover have "case objs h q of None \<Rightarrow> objs ?h' q = None
      | Some b \<Rightarrow> if is_scc_ptr (o_loc b) then \<exists>s. objs ?h' q = Some (b\<lparr>o_loc := LScc s\<rparr>) else objs ?h' q = Some b" for q
  proof -
    show ?thesis using compressedD [OF c, of q] p by (cases "q = p") (auto simp: mod_obj_def split: option.splits if_splits)
  qed
  ultimately show ?thesis unfolding compressed_def by blast
qed

lemma ends_in: "ends nxt x y \<Longrightarrow> y = x \<or> y \<in> above nxt x"
  by (auto simp: ends_def above_def rtrancl_eq_or_trancl)

lemma compressed_objs: "compressed h h' \<Longrightarrow> objs h' p = None \<longleftrightarrow> objs h p = None"
  using compressedD [of h h' p] by (auto split: option.splits if_splits)

lemma find_f_ok:
  assumes "frozen_links_ok h" "objs h p \<noteq> None" "depth (scc_next h) p < n"
  shows "\<exists>r h'. find_f n p h = Ret (r, h') \<and> ends (scc_next h) p r \<and> compressed h h' \<and> objs h r \<noteq> None \<and>
    (scc_next h p \<noteq> None \<longrightarrow> scc_next h' p = Some r) \<and> (\<forall>q. q \<noteq> p \<longrightarrow> q \<notin> above (scc_next h) p \<longrightarrow> objs h' q = objs h q)"
  using assms
proof (induction n arbitrary: p)
  case (Suc n)
  then obtain b where b: "objs h p = Some b" by auto
  have c: "chain (scc_next h) (next_oid h)" using Suc.prems by (simp add: frozen_links_ok_def)
  show ?case
  proof (cases "scc_next h p")
    case None
    then have "find_f (Suc n) p h = Ret (p, h)" using b by (auto simp: scc_next_def get_obj_def split: loc.splits)
    with None Suc.prems(1) b show ?thesis by (simp add: ends_None compressed_refl)
  next
    case (Some t)
    then have l: "o_loc b = LScc t" using b by (auto simp: scc_next_def split: loc.splits)
    have t: "objs h t \<noteq> None" "depth (scc_next h) t < n"
      using Suc.prems depth_Some [OF c Some] Some by (auto simp: frozen_links_ok_def)
    from Suc.IH [OF Suc.prems(1) this] obtain r h1 where
      1: "find_f n t h = Ret (r, h1)" "ends (scc_next h) t r" "compressed h h1" "objs h r \<noteq> None" and
      same: "\<And>q. q \<noteq> t \<Longrightarrow> q \<notin> above (scc_next h) t \<Longrightarrow> objs h1 q = objs h q" by blast
    note ab = above_Some [of "scc_next h", OF Some]
    have "p \<notin> above (scc_next h) p" by (rule above_irrefl [OF c])
    then have b1: "objs h1 p = Some b" using same [of p] b ab by simp
    have "ends (scc_next h) p r" using 1(2) by (simp add: ends_Some [of "scc_next h", OF Some])
    moreover have "\<forall>q. q \<noteq> p \<longrightarrow> q \<notin> above (scc_next h) p \<longrightarrow> objs h1 q = objs h q" using same ab by simp
    moreover have "scc_next h1 p = Some t" by (simp add: scc_next_def b1 l)
    moreover have "ends (scc_next h1) t r" "objs h1 r \<noteq> None"
      using 1(2-4) compressed_objs [OF 1(3)] by (simp_all add: compressed_def)
    then have "compressed h (mod_obj p (\<lambda>b. b\<lparr>o_loc := LScc r\<rparr>) h1)" by (rule compressed_step [OF 1(3) b1 l])
    moreover have "find_f (Suc n) p h =
        Ret (r, if r = t then h1 else mod_obj p (\<lambda>b. b\<lparr>o_loc := LScc r\<rparr>) h1)"
      using 1(1) b l by (simp add: get_obj_def)
    moreover have "scc_next (mod_obj p (\<lambda>b. b\<lparr>o_loc := LScc r\<rparr>) h1) p = Some r"
      by (simp add: scc_next_def mod_obj_def b1)
    moreover have "q \<noteq> p \<Longrightarrow> objs (mod_obj p (\<lambda>b. b\<lparr>o_loc := LScc r\<rparr>) h1) q = objs h1 q" for q
      by (simp add: mod_obj_def)
    ultimately show ?thesis
      using 1(3,4) by (cases "r = t") simp_all
  qed
qed simp

theorem find_root_ok:
  assumes "frozen_links_ok h" "objs h p \<noteq> None"
  shows "\<exists>r h'. find_root p h = Ret (r, h') \<and> ends (scc_next h) p r \<and> compressed h h' \<and>
    (scc_next h p \<noteq> None \<longrightarrow> scc_next h' p = Some r)"
proof -
  have "depth (scc_next h) p < Suc (next_oid h)"
    using depth_bound [of "scc_next h" "next_oid h" p] assms(1) by (simp add: frozen_links_ok_def)
  from find_f_ok [OF assms this] show ?thesis unfolding find_root_def by blast
qed

subsection \<open>Evaluating a freeze\<close>

lemma find_f_numeral [simp]:
  "find_f (numeral k) p h = obind (get_obj p h) (\<lambda>b.
     case o_loc b of
       LScc target \<Rightarrow> obind (find_f (pred_numeral k) target h) (\<lambda>(root, h).
         Ret (root, if root \<noteq> target then mod_obj p (\<lambda>b. b\<lparr>o_loc := LScc root\<rparr>) h else h))
     | _ \<Rightarrow> Ret (p, h))"
  by (simp add: numeral_eq_Suc)

lemma freeze_dfs_numeral [simp]:
  "freeze_dfs (numeral k) addr r st h = (case f_dfs st of
     [] \<Rightarrow> Ret (st, h)
   | m # ms \<Rightarrow> obind (case m of
           Post p \<Rightarrow> freeze_post p (st\<lparr>f_dfs := ms\<rparr>) h
         | Visit p \<Rightarrow> freeze_visit addr r p (st\<lparr>f_dfs := ms\<rparr>) h) (\<lambda>(st, h). freeze_dfs (pred_numeral k) addr r st h))"
  by (subst freeze_dfs.simps) (simp add: numeral_eq_Suc split: list.splits)

lemma freeze_dfs_done [simp]: "f_dfs st = [] \<Longrightarrow> freeze_dfs n addr r st h = Ret (st, h)"
  by (subst freeze_dfs.simps) simp

lemma local_loop_numeral [simp]:
  "local_loop (numeral k) addr st h = (case l_dfs st of
     [] \<Rightarrow> Ret (st, h)
   | m # ms \<Rightarrow> obind (case m of
           Post p \<Rightarrow> local_post p (st\<lparr>l_dfs := ms\<rparr>) h
         | Visit p \<Rightarrow> local_visit addr p (st\<lparr>l_dfs := ms\<rparr>) h) (\<lambda>(st, h). local_loop (pred_numeral k) addr st h))"
  by (subst local_loop.simps) (simp add: numeral_eq_Suc split: list.splits)

lemma local_loop_done [simp]: "l_dfs st = [] \<Longrightarrow> local_loop n addr st h = Ret (st, h)"
  by (subst local_loop.simps) simp

lemma freeze_loop_numeral [simp]:
  "freeze_loop (numeral k) addr K (p # ps) h = obind (freeze_one addr K p ps h) (\<lambda>(ps, h). freeze_loop (pred_numeral k) addr K ps h)"
  by (simp add: numeral_eq_Suc)

lemmas freeze_eval = location_of_def get_obj_def is_immortal_def get_region_def is_frame_local_def Let_def
  freeze_visit_def freeze_post_def local_visit_def local_post_def find_root_def is_pending_def trace_fields_def
  trace_def List.map_filter_def traced_def trace_child_def freeze_one_def dfs_fuel_def slots_total_def upt_rec
  set_location_def remove_header_def mod_region_def mod_obj_def get_rc_def set_rc_obj_def scc_union_def

text \<open>
  A frame-local object 0 with two fields, whose targets 1 and 2 refer back to it; and, in a heap
  region, two objects that refer to each other, the first one held by \<open>n\<close> registers.
\<close>

definition graph_obj :: "oid list \<Rightarrow> 32 word \<Rightarrow> hobj" where
  "graph_obj ps c = \<lparr>o_loc = LRegion 0, o_rc = c, o_type = 17, o_array = False,
     o_slots = map (\<lambda>p. (VObject, ObjectV p False)) ps\<rparr>"

definition graph_heap :: "nat \<Rightarrow> 32 word \<Rightarrow> nat \<Rightarrow> (oid \<Rightarrow> hobj option) \<Rightarrow> heap" where
  "graph_heap d n k bs = \<lparr>regions = [0 \<mapsto> \<lparr>owner = Unowned, entry_point = None, stack_rc = n, rtype = RegionRC,
       frame_depth = d, headers = [0..<k], finalizing = False\<rparr>],
     objs = bs, cowns = Map.empty, next_rid = 1, next_oid = k, next_cid = 0, worklist = [], in_collection = False,
     cowns_pending = [], cowns_draining = False, frame_regions = [0]\<rparr>"

definition tree_heap :: heap where
  "tree_heap = graph_heap 1 0 3 [0 \<mapsto> graph_obj [1, 2] 3, 1 \<mapsto> graph_obj [0] 1, 2 \<mapsto> graph_obj [0] 1]"

definition pair_heap :: "32 word \<Rightarrow> heap" where
  "pair_heap n = graph_heap 0 n 2 [0 \<mapsto> graph_obj [1] (n + 1), 1 \<mapsto> graph_obj [0] 1]"

lemma freeze_tree: "freeze addr K 0 tree_heap = Stuck \<longleftrightarrow> addr 0 < addr 2"
  unfolding freeze_def freeze_local_def
  by (cases "addr 0 < addr 2"; cases "addr 0 < addr 1")
    (simp_all add: tree_heap_def graph_heap_def graph_obj_def freeze_eval del: One_nat_def)

definition pair_frozen :: "(oid \<Rightarrow> nat) \<Rightarrow> 32 word \<Rightarrow> heap" where
  "pair_frozen addr n = (graph_heap 0 n 2
     (if addr 0 < addr 1
      then [0 \<mapsto> graph_obj [1] n\<lparr>o_loc := LScc 1\<rparr>, 1 \<mapsto> graph_obj [0] n\<lparr>o_loc := LImmutable\<rparr>]
      else [1 \<mapsto> graph_obj [0] 1\<lparr>o_loc := LScc 0\<rparr>, 0 \<mapsto> graph_obj [1] n\<lparr>o_loc := LImmutable\<rparr>]))
     \<lparr>regions := [0 \<mapsto> \<lparr>owner = Unowned, entry_point = None, stack_rc = n, rtype = RegionRC,
       frame_depth = 0, headers = [], finalizing = False\<rparr>]\<rparr>"

lemma freeze_pair:
  "freeze addr K 0 (pair_heap n) =
     (if n < 2 then Stuck
      else if n = 2 then Ret (True, pair_frozen addr n)
      else obind (stack_dec' K 0 (n - 2) (pair_frozen addr n)) (\<lambda>h. Ret (True, h)))"
proof -
  have "\<not> n < 2 \<Longrightarrow> 2 \<le> n" "0 < n - 2 \<longleftrightarrow> n \<noteq> 2" "n < 2 \<Longrightarrow> \<not> 2 \<le> n"
    by (auto simp: word_neq_0_conv [symmetric])
  then show ?thesis
    unfolding freeze_def freeze_heap_def pair_frozen_def
    by (cases "addr 0 < addr 1"; cases "n < 2"; cases "n = 2")
      (simp_all add: pair_heap_def graph_heap_def graph_obj_def freeze_eval settle_region_def has_owner_def has_cown_owner_def obind_assoc
        del: One_nat_def)
qed

lemma freeze_pair_left:
  assumes "\<not> n < 2"
  shows "\<exists>h reg. freeze addr K 0 (pair_heap n) = Ret (True, h) \<and> regions h 0 = Some reg \<and> headers reg = [] \<and> stack_rc reg = 2"
proof -
  have "n - 2 \<le> n" using assms by (simp add: word_sub_le not_less)
  then show ?thesis
    unfolding freeze_pair using assms
    by (cases "n = 2") (auto simp: pair_frozen_def graph_heap_def stack_dec'_def stack_dec_def get_region_def is_frame_local_def mod_region_def)
qed

end
