(* ===== verification/Sequent.thy ===== *)
theory Sequent
  imports Prelude
begin

text \<open>
  The proof search of \<^verbatim>\<open>virc/analysis/sequent.h\<close>, which decides subtyping in both compilers. A
  Trieste node is its label, the token and text, and its children. \<open>SequentCalculus\<close> is the record
  \<open>calculus\<close>: the connectives are predicates on labels, the axioms are callbacks found by label,
  which may themselves search and so may not return. A state's vectors are popped at their back: a
  pending list has its back at the head.

  \<open>holds\<close> reads a node as a set of values; \<open>reduce_exact\<close> says that the search decides the
  inclusion, where the axioms are exact on atoms.
\<close>

datatype 'a node = Node (label: 'a) (subnodes: "'a node list")

record 'a search_ctx =
  implications :: "'a node list"
  assumptions :: "'a node list"

type_synonym 'a axiom = "'a search_ctx \<Rightarrow> 'a node \<Rightarrow> 'a node \<Rightarrow> bool outcome"

record 'a calculus =
  is_unwrap :: "'a \<Rightarrow> bool"
  is_or :: "'a \<Rightarrow> bool"
  is_and :: "'a \<Rightarrow> bool"
  is_not :: "'a \<Rightarrow> bool"
  is_implies :: "'a \<Rightarrow> bool"
  axioms :: "'a \<Rightarrow> 'a axiom option"
  contradiction_axioms :: "'a \<Rightarrow> 'a axiom option"

definition axiom_eq :: "'a axiom" where "axiom_eq ctx l r = Ret (l = r)"
definition axiom_true :: "'a axiom" where "axiom_true ctx l r = Ret True"
definition axiom_false :: "'a axiom" where "axiom_false ctx l r = Ret False"

subsection \<open>The search\<close>

text \<open>The callback found for \<open>r\<close>'s token, or \<open>d\<close> without one.\<close>

definition ask :: "'a axiom option \<Rightarrow> bool \<Rightarrow> 'a axiom" where
  "ask a d ctx l r = (case a of None \<Rightarrow> Ret d | Some f \<Rightarrow> f ctx l r)"

definition contradiction :: "'a calculus \<Rightarrow> 'a search_ctx \<Rightarrow> 'a node \<Rightarrow> 'a node \<Rightarrow> bool outcome" where
  "contradiction C ctx l r =
     (let cr = contradiction_axioms C (label r); cl = contradiction_axioms C (label l);
          has_axiom = cr \<noteq> None \<or> cl \<noteq> None in
      obind (ask cr True ctx l r) (\<lambda>a. if \<not> a then Ret False
      else obind (ask cl True ctx r l) (\<lambda>b. if \<not> b then Ret False
      else if has_axiom then Ret True
      else obind (ask (axioms C (label r)) False ctx l r) (\<lambda>p. if p then Ret False
      else obind (ask (axioms C (label l)) False ctx r l) (\<lambda>q. Ret (\<not> q))))))"

fun any_out :: "('b \<Rightarrow> bool outcome) \<Rightarrow> 'b list \<Rightarrow> bool outcome" where
  "any_out f [] = Ret False"
| "any_out f (x # xs) = obind (f x) (\<lambda>b. if b then Ret True else any_out f xs)"

fun all_out :: "('b \<Rightarrow> bool outcome) \<Rightarrow> 'b list \<Rightarrow> bool outcome" where
  "all_out f [] = Ret True"
| "all_out f (x # xs) = obind (f x) (\<lambda>b. if b then all_out f xs else Ret False)"

lemma any_out_cong [fundef_cong]: "xs = ys \<Longrightarrow> (\<And>x. x \<in> set ys \<Longrightarrow> f x = g x) \<Longrightarrow> any_out f xs = any_out g ys"
proof -
  have "any_out f ys = any_out g ys" if "\<forall>x \<in> set ys. f x = g x" for ys using that by (induction ys) (auto cong: if_cong)
  then show "xs = ys \<Longrightarrow> (\<And>x. x \<in> set ys \<Longrightarrow> f x = g x) \<Longrightarrow> any_out f xs = any_out g ys" by simp
qed

lemma all_out_cong [fundef_cong]: "xs = ys \<Longrightarrow> (\<And>x. x \<in> set ys \<Longrightarrow> f x = g x) \<Longrightarrow> all_out f xs = all_out g ys"
proof -
  have "all_out f ys = all_out g ys" if "\<forall>x \<in> set ys. f x = g x" for ys using that by (induction ys) (auto cong: if_cong)
  then show "xs = ys \<Longrightarrow> (\<And>x. x \<in> set ys \<Longrightarrow> f x = g x) \<Longrightarrow> all_out f xs = all_out g ys" by simp
qed

lemma any_out_Ret: "(\<And>x. x \<in> set xs \<Longrightarrow> f x = Ret (g x)) \<Longrightarrow> any_out f xs = Ret (\<exists>x \<in> set xs. g x)"
  by (induction xs) auto

lemma all_out_Ret: "(\<And>x. x \<in> set xs \<Longrightarrow> f x = Ret (g x)) \<Longrightarrow> all_out f xs = Ret (\<forall>x \<in> set xs. g x)"
  by (induction xs) auto

definition assume_implication :: "'a node \<Rightarrow> 'a search_ctx \<Rightarrow> 'a search_ctx" where
  "assume_implication l ctx = (if l \<in> set (implications ctx) then ctx
     else ctx\<lparr>implications := implications ctx @ [l]\<rparr>)"

primrec node_weight :: "'a node \<Rightarrow> nat" where
  "node_weight (Node a ks) = Suc (sum_list (map node_weight ks))"

lemma node_weight_kid: "k \<in> set (subnodes l) \<Longrightarrow> node_weight k < node_weight l"
  by (cases l) (auto simp: less_Suc_eq_le intro: member_le_sum_list)

lemma node_weight_kids: "sum_list (map node_weight (subnodes l)) < node_weight l"
  by (cases l) simp

definition weights :: "'a node list \<Rightarrow> nat" where
  "weights ns = sum_list (map node_weight ns)"

lemma weights_simps [simp]: "weights [] = 0" "weights (n # ns) = node_weight n + weights ns"
  "weights (ms @ ns) = weights ms + weights ns" "weights (rev ns) = weights ns"
  by (simp_all add: weights_def flip: rev_map)

lemma weights_kids [simp]: "weights (subnodes l) < node_weight l"
  by (simp add: weights_def node_weight_kids)

lemma node_weight_pos [simp]: "0 < node_weight l"
  by (cases l) simp

lemma weights_one: "subnodes l = [k] \<Longrightarrow> node_weight k < node_weight l"
  using weights_kids [of l] by simp

lemma weights_two: "subnodes l = [a, b] \<Longrightarrow> node_weight a + node_weight b < node_weight l"
    "subnodes l = [a, b] \<Longrightarrow> node_weight a < node_weight l" "subnodes l = [a, b] \<Longrightarrow> node_weight b < node_weight l"
  using weights_kids [of l] by simp_all

text \<open>The final check: some atom on the left proves some atom on the right.\<close>

definition close_atoms :: "'a calculus \<Rightarrow> 'a search_ctx \<Rightarrow> 'a node list \<Rightarrow> 'a node list \<Rightarrow> bool outcome" where
  "close_atoms C ctx la ra =
     any_out (\<lambda>l. any_out (\<lambda>r. ask (axioms C (label r)) False ctx l r) ra) la"

function reduce :: "'a calculus \<Rightarrow> 'a search_ctx \<Rightarrow> 'a node list \<Rightarrow> 'a node list \<Rightarrow> 'a node list \<Rightarrow> 'a node list \<Rightarrow> bool outcome" where
  "reduce C ctx lp (r # rp) la ra =
     (if is_unwrap C (label r) \<or> is_or C (label r) then reduce C ctx lp (rev (subnodes r) @ rp) la ra
      else if is_and C (label r) then all_out (\<lambda>k. reduce C ctx lp (k # rp) la ra) (subnodes r)
      else if is_not C (label r) then
        (case subnodes r of [k] \<Rightarrow> reduce C ctx (k # lp) rp la ra | _ \<Rightarrow> Stuck)
      else if is_implies C (label r) then
        (case subnodes r of [a, b] \<Rightarrow> reduce C ctx (a # lp) (b # rp) la ra | _ \<Rightarrow> Stuck)
      else reduce C ctx lp rp la (ra @ [r]))"
| "reduce C ctx (l # lp) [] la ra =
     (if is_unwrap C (label l) \<or> is_and C (label l) then reduce C ctx (rev (subnodes l) @ lp) [] la ra
      else if is_or C (label l) then all_out (\<lambda>k. reduce C ctx (k # lp) [] la ra) (subnodes l)
      else if is_not C (label l) then
        (case subnodes l of [k] \<Rightarrow> reduce C ctx lp [k] la ra | _ \<Rightarrow> Stuck)
      else if is_implies C (label l) then
        (case subnodes l of [a, b] \<Rightarrow> let ctx' = assume_implication l ctx in
           obind (reduce C ctx' lp [a] la ra) (\<lambda>ok. if ok then reduce C ctx' (b # lp) [] la ra else Ret False)
         | _ \<Rightarrow> Stuck)
      else obind (any_out (\<lambda>t. contradiction C ctx t l) la) (\<lambda>c.
        if c then Ret True else reduce C ctx lp [] (la @ [l]) ra))"
| "reduce C ctx [] [] la ra = close_atoms C ctx la ra"
  by pat_completeness auto
termination
proof (relation "measure (\<lambda>(C, ctx, lp, rp, la, ra). weights lp + weights rp)", goal_cases)
qed (auto simp: weights_one weights_two node_weight_kid split: if_splits)

declare reduce.simps [simp del]

definition sequent :: "'a calculus \<Rightarrow> 'a search_ctx \<Rightarrow> 'a node \<Rightarrow> 'a node \<Rightarrow> bool outcome" where
  "sequent C ctx l r = reduce C (ctx\<lparr>implications := []\<rparr>) (l # rev (implications ctx)) [r] [] []"

definition invariant :: "'a calculus \<Rightarrow> 'a search_ctx \<Rightarrow> 'a node \<Rightarrow> 'a node \<Rightarrow> bool outcome" where
  "invariant C ctx l r = obind (sequent C ctx l r) (\<lambda>ok. if ok then sequent C ctx r l else Ret False)"

subsection \<open>What the search decides\<close>

definition is_atom :: "'a calculus \<Rightarrow> 'a node \<Rightarrow> bool" where
  "is_atom C n = (\<not> is_unwrap C (label n) \<and> \<not> is_or C (label n) \<and> \<not> is_and C (label n)
     \<and> \<not> is_not C (label n) \<and> \<not> is_implies C (label n))"

text \<open>Each token has one role, a negation has one child and an implication two; a wrapper wraps
  one node.\<close>

primrec formula :: "'a calculus \<Rightarrow> 'a node \<Rightarrow> bool" where
  "formula C (Node a ks) = ((is_unwrap C a \<longrightarrow> length ks = 1 \<and> \<not> is_or C a \<and> \<not> is_and C a)
     \<and> (is_or C a \<longrightarrow> \<not> is_and C a)
     \<and> (is_not C a \<longrightarrow> length ks = 1) \<and> (is_implies C a \<longrightarrow> length ks = 2)
     \<and> (is_atom C (Node a ks) \<or> list_all (formula C) ks))"

primrec holds :: "'a calculus \<Rightarrow> ('a node \<Rightarrow> bool) \<Rightarrow> 'a node \<Rightarrow> bool" where
  "holds C v (Node a ks) =
     (if is_unwrap C a \<or> is_or C a then list_ex (\<lambda>b. b) (map (holds C v) ks)
      else if is_and C a then list_all (\<lambda>b. b) (map (holds C v) ks)
      else if is_not C a then \<not> list_ex (\<lambda>b. b) (map (holds C v) ks)
      else if is_implies C a then
        (hd (map (holds C v) ks) \<longrightarrow> last (map (holds C v) ks))
      else v (Node a ks))"

definition entailed :: "'a calculus \<Rightarrow> ('a node \<Rightarrow> bool) set \<Rightarrow> 'a node list \<Rightarrow> 'a node list \<Rightarrow> bool" where
  "entailed C V ls rs = (\<forall>v \<in> V. list_all (holds C v) ls \<longrightarrow> list_ex (holds C v) rs)"

definition exact_atoms :: "'a calculus \<Rightarrow> ('a node \<Rightarrow> bool) set \<Rightarrow> ('a node \<Rightarrow> 'a node \<Rightarrow> bool) \<Rightarrow> ('a node \<Rightarrow> 'a node \<Rightarrow> bool) \<Rightarrow> bool" where
  "exact_atoms C V proves clash =
     ((\<forall>ctx l r. is_atom C l \<and> is_atom C r \<longrightarrow> ask (axioms C (label r)) False ctx l r = Ret (proves l r))
      \<and> (\<forall>ctx l r. is_atom C l \<and> is_atom C r \<longrightarrow> contradiction C ctx l r = Ret (clash l r))
      \<and> (\<forall>v \<in> V. \<forall>l r. is_atom C l \<and> is_atom C r \<and> proves l r \<and> v l \<longrightarrow> v r)
      \<and> (\<forall>v \<in> V. \<forall>l r. is_atom C l \<and> is_atom C r \<and> clash l r \<longrightarrow> \<not> (v l \<and> v r))
      \<and> (\<forall>ls rs. list_all (is_atom C) ls \<and> list_all (is_atom C) rs
          \<and> sorted_wrt (\<lambda>l r. \<not> clash l r) ls
          \<and> (\<forall>l \<in> set ls. \<forall>r \<in> set rs. \<not> proves l r)
          \<longrightarrow> (\<exists>v \<in> V. list_all v ls \<and> \<not> list_ex v rs)))"

definition settled_state :: "'a calculus \<Rightarrow> ('a node \<Rightarrow> 'a node \<Rightarrow> bool) \<Rightarrow> 'a node list \<Rightarrow> 'a node list \<Rightarrow> bool" where
  "settled_state C clash la ra = (list_all (is_atom C) la \<and> list_all (is_atom C) ra
     \<and> sorted_wrt (\<lambda>l r. \<not> clash l r) la)"

lemma holds_atom [simp]: "is_atom C n \<Longrightarrow> holds C v n = v n"
  by (cases n) (simp add: is_atom_def)

lemma holds_kids:
  "is_unwrap C (label n) \<or> is_or C (label n) \<Longrightarrow> holds C v n = list_ex (holds C v) (subnodes n)"
  "\<not> is_unwrap C (label n) \<Longrightarrow> \<not> is_or C (label n) \<Longrightarrow> is_and C (label n) \<Longrightarrow> holds C v n = list_all (holds C v) (subnodes n)"
  by (cases n; simp add: list_ex_iff list_all_iff)+

lemma holds_not:
  "\<not> is_unwrap C (label n) \<Longrightarrow> \<not> is_or C (label n) \<Longrightarrow> \<not> is_and C (label n) \<Longrightarrow> is_not C (label n)
    \<Longrightarrow> subnodes n = [k] \<Longrightarrow> holds C v n = (\<not> holds C v k)"
  by (cases n) simp

lemma holds_implies:
  "\<not> is_unwrap C (label n) \<Longrightarrow> \<not> is_or C (label n) \<Longrightarrow> \<not> is_and C (label n) \<Longrightarrow> \<not> is_not C (label n)
    \<Longrightarrow> is_implies C (label n) \<Longrightarrow> subnodes n = [a, b] \<Longrightarrow> holds C v n = (holds C v a \<longrightarrow> holds C v b)"
  by (cases n) simp

lemma formula_kids:
  "formula C n \<Longrightarrow> \<not> is_atom C n \<Longrightarrow> list_all (formula C) (subnodes n)"
  "formula C n \<Longrightarrow> is_unwrap C (label n) \<Longrightarrow> \<exists>k. subnodes n = [k]"
  "formula C n \<Longrightarrow> is_not C (label n) \<Longrightarrow> \<exists>k. subnodes n = [k]"
  "formula C n \<Longrightarrow> is_implies C (label n) \<Longrightarrow> \<exists>a b. subnodes n = [a, b]"
  "formula C n \<Longrightarrow> is_unwrap C (label n) \<Longrightarrow> \<not> is_or C (label n) \<and> \<not> is_and C (label n)"
  "formula C n \<Longrightarrow> is_or C (label n) \<Longrightarrow> \<not> is_and C (label n)"
  by (cases n; auto simp: length_Suc_conv eval_nat_numeral)+

lemma entailed_sets: "set ls = set ls' \<Longrightarrow> set rs = set rs' \<Longrightarrow> entailed C V ls rs = entailed C V ls' rs'"
  by (simp add: entailed_def list_all_iff list_ex_iff)

lemma entailed_right:
  "(\<And>v. holds C v r = list_ex (holds C v) ks) \<Longrightarrow> entailed C V ls (rev ks @ rs) = entailed C V ls (r # rs)"
  "(\<And>v. holds C v r = list_all (holds C v) ks) \<Longrightarrow> (\<forall>k \<in> set ks. entailed C V ls (k # rs)) = entailed C V ls (r # rs)"
  "(\<And>v. holds C v r = (\<not> holds C v k)) \<Longrightarrow> entailed C V (k # ls) rs = entailed C V ls (r # rs)"
  "(\<And>v. holds C v r = (holds C v a \<longrightarrow> holds C v b)) \<Longrightarrow> entailed C V (a # ls) (b # rs) = entailed C V ls (r # rs)"
  unfolding entailed_def by (auto simp: list_all_iff list_ex_iff)

lemma entailed_left:
  "(\<And>v. holds C v l = list_all (holds C v) ks) \<Longrightarrow> entailed C V (rev ks @ ls) rs = entailed C V (l # ls) rs"
  "(\<And>v. holds C v l = list_ex (holds C v) ks) \<Longrightarrow> (\<forall>k \<in> set ks. entailed C V (k # ls) rs) = entailed C V (l # ls) rs"
  "(\<And>v. holds C v l = (\<not> holds C v k)) \<Longrightarrow> entailed C V ls (k # rs) = entailed C V (l # ls) rs"
  "(\<And>v. holds C v l = (holds C v a \<longrightarrow> holds C v b)) \<Longrightarrow>
    (entailed C V ls (a # rs) \<and> entailed C V (b # ls) rs) = entailed C V (l # ls) rs"
  unfolding entailed_def by (auto simp: list_all_iff list_ex_iff)

lemma exact_atomsD:
  assumes "exact_atoms C V proves clash" "is_atom C l" "is_atom C r"
  shows "ask (axioms C (label r)) False ctx l r = Ret (proves l r)"
    and "contradiction C ctx l r = Ret (clash l r)"
    and "v \<in> V \<Longrightarrow> proves l r \<Longrightarrow> v l \<Longrightarrow> v r"
    and "v \<in> V \<Longrightarrow> clash l r \<Longrightarrow> v l \<Longrightarrow> \<not> v r"
proof -
  note c = assms(1) [unfolded exact_atoms_def]
  show "ask (axioms C (label r)) False ctx l r = Ret (proves l r)"
    using c [THEN conjunct1] assms(2,3) by simp
  show "contradiction C ctx l r = Ret (clash l r)"
    using c [THEN conjunct2, THEN conjunct1] assms(2,3) by simp
  show "v \<in> V \<Longrightarrow> proves l r \<Longrightarrow> v l \<Longrightarrow> v r"
    using c [THEN conjunct2, THEN conjunct2, THEN conjunct1] assms(2,3) by blast
  show "v \<in> V \<Longrightarrow> clash l r \<Longrightarrow> v l \<Longrightarrow> \<not> v r"
    using c [THEN conjunct2, THEN conjunct2, THEN conjunct2, THEN conjunct1] assms(2,3) by blast
qed

lemma exact_atoms_prime:
  assumes "exact_atoms C V proves clash" "settled_state C clash la ra"
    "\<forall>l \<in> set la. \<forall>r \<in> set ra. \<not> proves l r"
  shows "\<exists>v \<in> V. list_all v la \<and> \<not> list_ex v ra"
proof -
  note c = assms(1) [unfolded exact_atoms_def, THEN conjunct2, THEN conjunct2, THEN conjunct2, THEN conjunct2]
  show ?thesis using c [rule_format, of la ra] assms(2,3) by (simp add: settled_state_def)
qed

lemma close_atoms_exact:
  assumes "exact_atoms C V proves clash" "settled_state C clash la ra"
  shows "close_atoms C ctx la ra = Ret (entailed C V la ra)"
proof -
  have at: "\<And>l. l \<in> set la \<Longrightarrow> is_atom C l" "\<And>r. r \<in> set ra \<Longrightarrow> is_atom C r"
    using assms(2) by (auto simp: settled_state_def list_all_iff)
  have "close_atoms C ctx la ra = Ret (\<exists>l \<in> set la. \<exists>r \<in> set ra. proves l r)"
    unfolding close_atoms_def
  proof (rule any_out_Ret)
    fix l assume "l \<in> set la"
    then show "any_out (\<lambda>r. ask (axioms C (label r)) False ctx l r) ra = Ret (\<exists>r \<in> set ra. proves l r)"
      using exact_atomsD(1) [OF assms(1) at(1) at(2)] by (intro any_out_Ret)
  qed
  also have "(\<exists>l \<in> set la. \<exists>r \<in> set ra. proves l r) = entailed C V la ra"
  proof
    assume "\<exists>l \<in> set la. \<exists>r \<in> set ra. proves l r"
    then obtain l r where lr: "l \<in> set la" "r \<in> set ra" "proves l r" by blast
    have "holds C v r" if "v \<in> V" "holds C v l" for v
      using exact_atomsD(3) [OF assms(1) at(1) [OF lr(1)] at(2) [OF lr(2)] that(1) lr(3)] that(2) at lr by simp
    with lr show "entailed C V la ra" unfolding entailed_def list_all_iff list_ex_iff by blast
  next
    assume e: "entailed C V la ra"
    show "\<exists>l \<in> set la. \<exists>r \<in> set ra. proves l r"
    proof (rule ccontr)
      assume "\<not> ?thesis"
      then obtain v where v: "v \<in> V" "list_all v la" "\<not> list_ex v ra" using exact_atoms_prime [OF assms] by blast
      have "list_all (holds C v) la" "\<not> list_ex (holds C v) ra"
        using v at by (simp_all add: list_all_iff list_ex_iff)
      with e v(1) show False by (simp add: entailed_def)
    qed
  qed
  finally show ?thesis .
qed

lemma clash_entails:
  assumes "exact_atoms C V proves clash" "settled_state C clash la ra" "is_atom C l" "t \<in> set la" "clash t l"
  shows "entailed C V (l # ls @ la) rs"
proof -
  have "is_atom C t" using assms(2,4) by (auto simp: settled_state_def list_all_iff)
  then have "\<not> (v t \<and> v l)" if "v \<in> V" for v using exact_atomsD(4) [OF assms(1) _ assms(3) that] assms(5) by blast
  then show ?thesis using assms(3,4) \<open>is_atom C t\<close> by (force simp: entailed_def list_all_iff)
qed

lemma clash_search:
  assumes "exact_atoms C V proves clash" "settled_state C clash la ra" "is_atom C l"
  shows "any_out (\<lambda>t. contradiction C ctx t l) la = Ret (\<exists>t \<in> set la. clash t l)"
proof (rule any_out_Ret)
  fix t assume "t \<in> set la"
  then have "is_atom C t" using assms(2) by (auto simp: settled_state_def list_all_iff)
  then show "contradiction C ctx t l = Ret (clash t l)" by (rule exact_atomsD(2) [OF assms(1) _ assms(3)])
qed

text \<open>The search returns on every formula, and its answer is the entailment.\<close>

lemma reduce_exact:
  assumes "exact_atoms C V proves clash" "settled_state C clash la ra"
    "list_all (formula C) lp" "list_all (formula C) rp"
  shows "reduce C ctx lp rp la ra = Ret (entailed C V (lp @ la) (rp @ ra))"
  using assms
proof (induction C ctx lp rp la ra rule: reduce.induct)
  case (1 C ctx lp r rp la ra)
  have f: "formula C r" using 1 by simp
  consider "is_unwrap C (label r) \<or> is_or C (label r)"
    | "\<not> is_unwrap C (label r)" "\<not> is_or C (label r)" "is_and C (label r)"
    | "\<not> is_unwrap C (label r)" "\<not> is_or C (label r)" "\<not> is_and C (label r)" "is_not C (label r)"
    | "\<not> is_unwrap C (label r)" "\<not> is_or C (label r)" "\<not> is_and C (label r)" "\<not> is_not C (label r)" "is_implies C (label r)"
    | "is_atom C r" by (auto simp: is_atom_def)
  then show ?case
  proof cases
    case kind: 1
    then have "list_all (formula C) (subnodes r)" using f formula_kids(1) by (auto simp: is_atom_def)
    then show ?thesis using "1.IH"(1) [OF kind] "1.prems" kind
      by (simp add: reduce.simps(1) entailed_right(1) [OF holds_kids(1)])
  next
    case kind: 2
    then have ks: "list_all (formula C) (subnodes r)" using f formula_kids(1) by (auto simp: is_atom_def)
    have "all_out (\<lambda>k. reduce C ctx lp (k # rp) la ra) (subnodes r) = Ret (\<forall>k \<in> set (subnodes r). entailed C V (lp @ la) (k # rp @ ra))"
      using "1.IH"(2) "1.prems" kind ks by (intro all_out_Ret) (auto simp: list_all_iff)
    then show ?thesis using kind by (simp add: reduce.simps(1) entailed_right(2) [OF holds_kids(2)])
  next
    case kind: 3
    then obtain k where k: "subnodes r = [k]" using f formula_kids(3) by blast
    have "formula C k" using kind f k formula_kids(1) by (fastforce simp: is_atom_def)
    then show ?thesis using "1.IH"(3) k "1.prems" kind
      by (simp add: reduce.simps(1) entailed_right(3) [OF holds_not])
  next
    case kind: 4
    then obtain a b where k: "subnodes r = [a, b]" using f formula_kids(4) by blast
    have "formula C a" "formula C b" using kind f k formula_kids(1) by (fastforce simp: is_atom_def)+
    then show ?thesis using "1.IH"(4) k "1.prems" kind
      by (simp add: reduce.simps(1) entailed_right(4) [OF holds_implies])
  next
    case kind: 5
    have "settled_state C clash la (ra @ [r])" using "1.prems"(2) kind by (simp add: settled_state_def)
    then show ?thesis using "1.IH"(5) "1.prems" kind
      by (auto simp: reduce.simps(1) is_atom_def intro!: entailed_sets)
  qed
next
  case (2 C ctx l lp la ra)
  have f: "formula C l" using 2 by simp
  consider "is_unwrap C (label l)"
    | "is_and C (label l)" "\<not> is_unwrap C (label l)" "\<not> is_or C (label l)"
    | "\<not> is_unwrap C (label l)" "is_or C (label l)" "\<not> is_and C (label l)"
    | "\<not> is_unwrap C (label l)" "\<not> is_or C (label l)" "\<not> is_and C (label l)" "is_not C (label l)"
    | "\<not> is_unwrap C (label l)" "\<not> is_or C (label l)" "\<not> is_and C (label l)" "\<not> is_not C (label l)" "is_implies C (label l)"
    | "is_atom C l" using formula_kids(6) [OF f] by (auto simp: is_atom_def)
  then show ?case
  proof cases
    case kind: 1
    then have ks: "list_all (formula C) (subnodes l)" using f formula_kids(1) by (auto simp: is_atom_def)
    obtain k where k: "subnodes l = [k]" using kind f formula_kids(2) by blast
    have "holds C v l = list_all (holds C v) (subnodes l)" for v using kind k by (simp add: holds_kids(1))
    from entailed_left(1) [OF this] show ?thesis using "2.IH"(1) "2.prems" kind ks by (simp add: reduce.simps(2))
  next
    case kind: 2
    then have "list_all (formula C) (subnodes l)" using f formula_kids(1) by (auto simp: is_atom_def)
    then show ?thesis using "2.IH"(1) "2.prems" kind
      by (simp add: reduce.simps(2) entailed_left(1) [OF holds_kids(2)])
  next
    case kind: 3
    then have ks: "list_all (formula C) (subnodes l)" using f formula_kids(1) by (auto simp: is_atom_def)
    have "all_out (\<lambda>k. reduce C ctx (k # lp) [] la ra) (subnodes l) = Ret (\<forall>k \<in> set (subnodes l). entailed C V (k # lp @ la) ra)"
      using "2.IH"(2) "2.prems" kind ks by (intro all_out_Ret) (auto simp: list_all_iff)
    then show ?thesis using kind by (simp add: reduce.simps(2) entailed_left(2) [OF holds_kids(1)])
  next
    case kind: 4
    then obtain k where k: "subnodes l = [k]" using f formula_kids(3) by blast
    have "formula C k" using kind f k formula_kids(1) by (fastforce simp: is_atom_def)
    then show ?thesis using "2.IH"(3) k "2.prems" kind
      by (simp add: reduce.simps(2) entailed_left(3) [OF holds_not])
  next
    case kind: 5
    then obtain a b where k: "subnodes l = [a, b]" using f formula_kids(4) by blast
    have "formula C a" "formula C b" using kind f k formula_kids(1) by (fastforce simp: is_atom_def)+
    then have left: "reduce C (assume_implication l ctx) lp [a] la ra = Ret (entailed C V (lp @ la) (a # ra))"
      using "2.IH"(4) k "2.prems" kind by simp
    have "reduce C (assume_implication l ctx) (b # lp) [] la ra = Ret (entailed C V (b # lp @ la) ra)"
      if "entailed C V (lp @ la) (a # ra)"
      using "2.IH"(5) [of a "[b]" b "[]" "assume_implication l ctx" True] k "2.prems" kind left that \<open>formula C b\<close> by simp
    with left show ?thesis using k kind
      by (simp add: reduce.simps(2) flip: entailed_left(4) [OF holds_implies])
  next
    case kind: 6
    have c: "any_out (\<lambda>t. contradiction C ctx t l) la = Ret (\<exists>t \<in> set la. clash t l)"
      by (rule clash_search [OF "2.prems"(1,2) kind])
    have step: "reduce C ctx (l # lp) [] la ra = (if \<exists>t \<in> set la. clash t l then Ret True else reduce C ctx lp [] (la @ [l]) ra)"
      using kind c by (simp add: reduce.simps(2) is_atom_def)
    show ?thesis
    proof (cases "\<exists>t \<in> set la. clash t l")
      case True
      then show ?thesis using step clash_entails [OF "2.prems"(1,2) kind] by auto
    next
      case False
      then have "settled_state C clash (la @ [l]) ra"
        using "2.prems"(2) kind by (auto simp: settled_state_def sorted_wrt_append)
      then have "reduce C ctx lp [] (la @ [l]) ra = Ret (entailed C V (lp @ la @ [l]) ra)"
        using "2.IH"(6) [of False] "2.prems" kind c False by (simp add: is_atom_def)
      moreover have "entailed C V (lp @ la @ [l]) ra = entailed C V (l # lp @ la) ra" by (rule entailed_sets) auto
      ultimately show ?thesis using step False by simp
    qed
  qed
next
  case (3 C ctx la ra)
  then show ?case by (simp add: reduce.simps close_atoms_exact)
qed

end
