(* ===== verification/Merge.thy ===== *)
theory Merge
  imports CownLemmas
begin

text \<open>
  Merging two regions (\<^verbatim>\<open>vbci/merge.cc\<close>). The map from sub-regions to their entry points that
  \<open>merge_regions\<close> fills by scanning the fields is a list of pairs in insertion order: the
  order in which the C++ container is walked is unspecified.
\<close>

definition merge_region :: "val \<Rightarrow> heap \<Rightarrow> rid option outcome" where
  "merge_region v h =
     (if is_readonly v \<or> \<not> is_header v then Ret None
      else obind (location v h) (\<lambda>l. Ret (case l of LRegion r \<Rightarrow> Some r | _ \<Rightarrow> None)))"

definition merge_is_stack :: "val \<Rightarrow> heap \<Rightarrow> bool outcome" where
  "merge_is_stack v h =
     (if is_readonly v \<or> \<not> is_header v then Ret False
      else obind (location v h) (\<lambda>l. Ret (is_stack l)))"

text \<open>One traced field: an entry into a sub-region of \<open>src\<close> is remembered, the first one counts.\<close>

definition scan_child :: "heap \<Rightarrow> rid \<Rightarrow> rid \<Rightarrow> oid \<Rightarrow> (rid \<times> oid) list \<Rightarrow> (rid \<times> oid) list outcome" where
  "scan_child h dest src p found = obind (location_of p h) (\<lambda>l. case l of
     LRegion r \<Rightarrow>
       if r = src \<or> r = dest then Ret found
       else obind (get_region r h) (\<lambda>reg.
         Ret (if owner reg = Parent src \<and> r \<notin> fst ` set found then found @ [(r, p)] else found))
   | _ \<Rightarrow> Ret found)"

definition scan_header :: "heap \<Rightarrow> rid \<Rightarrow> rid \<Rightarrow> oid \<Rightarrow> (rid \<times> oid) list \<Rightarrow> (rid \<times> oid) list outcome" where
  "scan_header h dest src p found = obind (get_obj p h) (\<lambda>b. each (scan_child h dest src) (trace b) found)"

definition rehome :: "conts \<Rightarrow> rid \<Rightarrow> rid \<times> oid \<Rightarrow> heap \<Rightarrow> heap outcome" where
  "rehome K dest s h =
     obind (stack_inc (fst s) 1 h) (\<lambda>h.
     obind (clear_parent K (fst s) h) (\<lambda>h.
     obind (set_parent (fst s) dest (snd s) h) (stack_dec' K (fst s) 1)))"

text \<open>The end of \<open>merge_regions\<close>: the stack references change sides and \<open>src\<close> is let go.\<close>

definition merge_counts :: "conts \<Rightarrow> rid \<Rightarrow> rid \<Rightarrow> heap \<Rightarrow> heap outcome" where
  "merge_counts K dest src h = obind (get_region src h) (\<lambda>reg.
     let n = stack_rc reg in
     obind (if n > 0 then stack_inc dest n h else Ret h) (\<lambda>h.
     obind (stack_dec' K dest 1 h) (\<lambda>h.
     if n > 0 then stack_dec' K src n h else free_region K src h)))"

definition merge_regions :: "conts \<Rightarrow> rid \<Rightarrow> rid \<Rightarrow> heap \<Rightarrow> heap outcome" where
  "merge_regions K dest src h =
     obind (stack_inc dest 1 h) (\<lambda>h.
     obind (get_region src h) (\<lambda>reg.
     obind (each (scan_header h dest src) (headers reg) []) (\<lambda>found.
     obind (each (\<lambda>p. move_region p dest) (headers reg) h) (\<lambda>h.
     obind (each (rehome K dest) found h) (merge_counts K dest src)))))"

definition merge_drag :: "conts \<Rightarrow> rid \<Rightarrow> val \<Rightarrow> heap \<Rightarrow> heap outcome" where
  "merge_drag K r v h = obind (get_header v) (\<lambda>p. obind (drag_allocation False K r p None h) (\<lambda>(done, _, h).
     if done then Ret h else Raise BadMerge))"

definition merge :: "conts \<Rightarrow> val \<Rightarrow> val \<Rightarrow> heap \<Rightarrow> heap outcome" where
  "merge K a b h =
     obind (merge_is_stack a h) (\<lambda>a_stack. obind (merge_is_stack b h) (\<lambda>b_stack.
     obind (merge_region a h) (\<lambda>a_r. obind (merge_region b h) (\<lambda>b_r.
     case (a_r, b_r) of
       (None, None) \<Rightarrow> Ret h
     | (None, Some _) \<Rightarrow> if a_stack then Raise BadStackEscape else Ret h
     | (Some _, None) \<Rightarrow> if b_stack then Raise BadStackEscape else Ret h
     | (Some r, Some s) \<Rightarrow>
         if r = s then Ret h
         else obind (get_region r h) (\<lambda>ra. obind (get_region s h) (\<lambda>rb.
           if is_frame_local ra \<and> is_frame_local rb then Ret h
           else if is_frame_local rb then merge_drag K r b h
           else if is_frame_local ra then merge_drag K s a h
           else if has_owner ra \<and> has_owner rb then Raise BadMerge
           else if has_owner rb then merge_regions K s r h
           else merge_regions K r s h))))))"

end
