(* ===== verification/StackAlloc.thy ===== *)
theory StackAlloc
  imports Prelude
begin

text \<open>
  The bump allocator behind a thread's frames (\<^verbatim>\<open>vbci/stack.h\<close>, \<^verbatim>\<open>vbci/stack.cc\<close>). Memory is a
  list of 1024 byte chunks; \<open>mem c o\<close> is the header last constructed at offset \<open>o\<close> of chunk
  \<open>c\<close>, if any: a \<open>Marker\<close> (the type identifier \<open>StackSentinelTypeId\<close>) or a \<open>Live\<close> object or
  array of the given size. An allocation that does not fit the rest of the chunk leaves a marker
  and moves on; \<open>visit_headers\<close> steps over headers by their size and stops at a marker.

  \<open>frames\<close> below is the discipline of \<open>Thread\<close>: a frame saves the top when it is pushed, objects
  are allocated in the youngest frame, and popping restores the saved top. The invariant
  \<open>frames_ok\<close> says that walking from a frame's saved top meets exactly its live allocations.
\<close>

datatype header_at = Marker | Live nat

record stack =
  nchunks :: nat
  top_chunk :: nat
  top_offset :: nat
  mem :: "nat \<Rightarrow> nat \<Rightarrow> header_at option"

type_synonym stack_idx = "nat \<times> nat"

definition ChunkSize :: nat where "ChunkSize = 1024"
definition HeaderSize :: nat where "HeaderSize = 16"

definition align_up :: "nat \<Rightarrow> nat" where
  "align_up n = (n + 7) div 8 * 8"

definition save_top :: "stack \<Rightarrow> stack_idx" where
  "save_top s = (top_chunk s, top_offset s)"

definition restore_top :: "stack_idx \<Rightarrow> stack \<Rightarrow> stack" where
  "restore_top i s = s\<lparr>top_chunk := fst i, top_offset := snd i\<rparr>"

definition put_header_at :: "stack_idx \<Rightarrow> header_at \<Rightarrow> stack \<Rightarrow> stack" where
  "put_header_at p h s = s\<lparr>mem := (mem s)(fst p := (mem s (fst p))(snd p \<mapsto> h))\<rparr>"

text \<open>\<open>alloc\<close>: \<open>None\<close> is the null pointer for a request larger than a chunk.\<close>

definition alloc :: "nat \<Rightarrow> stack \<Rightarrow> (stack_idx option \<times> stack) outcome" where
  "alloc sz s =
     (let aligned_size = align_up sz in
      if aligned_size > ChunkSize then Ret (None, s)
      else obind
        (if top_offset s + aligned_size > ChunkSize then
           obind (if HeaderSize \<le> ChunkSize - top_offset s
                  then obind (oassert (top_chunk s < nchunks s)) (\<lambda>_. Ret (put_header_at (save_top s) Marker s))
                  else Ret s)
             (\<lambda>s. Ret (s\<lparr>top_chunk := Suc (top_chunk s), top_offset := 0\<rparr>))
         else Ret s)
        (\<lambda>s. let s = (if nchunks s \<le> top_chunk s
                      then s\<lparr>nchunks := Suc (nchunks s), top_chunk := nchunks s, top_offset := 0\<rparr> else s)
             in Ret (Some (save_top s), s\<lparr>top_offset := top_offset s + aligned_size\<rparr>)))"

text \<open>Allocation and construction: \<open>stack.alloc\<close> followed by the placement of the header.\<close>

definition create :: "nat \<Rightarrow> stack \<Rightarrow> (stack_idx \<times> stack) outcome" where
  "create sz s = obind (alloc sz s) (\<lambda>(p, s).
     case p of None \<Rightarrow> Stuck | Some p \<Rightarrow> Ret (p, put_header_at p (Live sz) s))"

text \<open>The walk over one chunk, and over the chunks from \<open>start\<close> to \<open>stop\<close>.\<close>

function visit_chunk :: "(nat \<Rightarrow> header_at option) \<Rightarrow> nat \<Rightarrow> nat \<Rightarrow> nat \<Rightarrow> stack_idx list outcome" where
  "visit_chunk m c offset limit =
     (if offset < limit then
        (if limit - offset < HeaderSize then Ret []
         else case m offset of
           None \<Rightarrow> Stuck
         | Some Marker \<Rightarrow> Ret []
         | Some (Live sz) \<Rightarrow>
             if align_up sz = 0 then Stuck
             else obind (visit_chunk m c (offset + align_up sz) limit) (\<lambda>rest. Ret ((c, offset) # rest)))
      else Ret [])"
  by pat_completeness auto
termination by (relation "measure (\<lambda>(m, c, offset, limit). limit - offset)") auto

declare visit_chunk.simps [simp del]

fun visit_chunks :: "stack \<Rightarrow> stack_idx \<Rightarrow> stack_idx \<Rightarrow> nat list \<Rightarrow> stack_idx list outcome" where
  "visit_chunks s start stop [] = Ret []"
| "visit_chunks s start stop (c # cs) =
     obind (visit_chunk (mem s c) c
        (if c = fst start then snd start else 0) (if c = fst stop then snd stop else ChunkSize)) (\<lambda>xs.
     obind (visit_chunks s start stop cs) (\<lambda>ys. Ret (xs @ ys)))"

definition visit_headers :: "stack_idx \<Rightarrow> stack_idx \<Rightarrow> stack \<Rightarrow> stack_idx list outcome" where
  "visit_headers start stop s =
     visit_chunks s start stop (filter (\<lambda>c. c < nchunks s) [fst start..<Suc (fst stop)])"

subsection \<open>Runs and paths\<close>

text \<open>\<open>run m c o o' xs\<close>: from offset \<open>o\<close> to \<open>o'\<close> chunk \<open>c\<close> holds exactly the live headers \<open>xs\<close>.\<close>

inductive run :: "(nat \<Rightarrow> header_at option) \<Rightarrow> nat \<Rightarrow> nat \<Rightarrow> nat \<Rightarrow> stack_idx list \<Rightarrow> bool"
  for m c where
  run_nil: "run m c o' o' []"
| run_snoc: "run m c o' o'' xs \<Longrightarrow> m o'' = Some (Live sz) \<Longrightarrow> HeaderSize \<le> sz \<Longrightarrow>
    run m c o' (o'' + align_up sz) (xs @ [(c, o'')])"

definition closed :: "(nat \<Rightarrow> header_at option) \<Rightarrow> nat \<Rightarrow> bool" where
  "closed m off \<longleftrightarrow> ChunkSize - off < HeaderSize \<or> m off = Some Marker"

inductive path :: "(nat \<Rightarrow> nat \<Rightarrow> header_at option) \<Rightarrow> stack_idx \<Rightarrow> stack_idx \<Rightarrow> stack_idx list \<Rightarrow> bool"
  for m where
  path_run: "run (m c) c o' o'' xs \<Longrightarrow> o'' \<le> ChunkSize \<Longrightarrow> path m (c, o') (c, o'') xs"
| path_next: "path m p (c, o') xs \<Longrightarrow> closed (m c) o' \<Longrightarrow> run (m (Suc c)) (Suc c) 0 o'' ys \<Longrightarrow>
    o'' \<le> ChunkSize \<Longrightarrow> path m p (Suc c, o'') (xs @ ys)"

lemma align_up_ge: "n \<le> align_up n"
  by (simp add: align_up_def)

lemma run_le: "run m c off off' xs \<Longrightarrow> off \<le> off'"
  by (induction rule: run.induct) auto

lemma run_cong:
  assumes "run m c off off' xs" "\<And>i. i < off' \<Longrightarrow> m' i = m i"
  shows "run m' c off off' xs"
  using assms
proof (induction rule: run.induct)
  case (run_snoc off off'' xs sz)
  have "0 < align_up sz" using align_up_ge [of sz] run_snoc.hyps(3) by (simp add: HeaderSize_def)
  with run_snoc show ?case by (intro run.run_snoc) auto
qed (rule run_nil)

definition before :: "stack_idx \<Rightarrow> stack_idx \<Rightarrow> bool" where
  "before p q \<longleftrightarrow> fst p < fst q \<or> fst p = fst q \<and> snd p < snd q"

lemma path_cong:
  assumes "path m p q xs" "\<And>c i. before (c, i) q \<Longrightarrow> m' c i = m c i"
  shows "path m' p q xs"
  using assms
proof (induction rule: path.induct)
  case (path_run c off off' xs)
  have "run (m' c) c off off' xs"
    by (rule run_cong [OF path_run(1)]) (simp add: path_run.prems before_def)
  with path_run(2) show ?case by (rule path.path_run [rotated])
next
  case (path_next p c off xs off' ys)
  have "m' c off = m c off" by (simp add: path_next.prems before_def)
  with path_next(2) have "closed (m' c) off" by (simp add: closed_def)
  moreover have "run (m' (Suc c)) (Suc c) 0 off' ys"
    by (rule run_cong [OF path_next(3)]) (simp add: path_next.prems before_def)
  moreover have "path m' p (c, off) xs"
    by (rule path_next.IH) (auto intro!: path_next.prems simp: before_def)
  ultimately show ?case using path_next(4) by (intro path.path_next)
qed

lemma path_le: "path m p q xs \<Longrightarrow> p = q \<or> before p q"
proof (induction rule: path.induct)
  case (path_run c off off' xs)
  then show ?case using run_le [OF path_run(1)] by (auto simp: before_def)
qed (auto simp: before_def)

subsection \<open>The walk follows a path\<close>

lemma visit_run:
  assumes "run m c off off' xs" "off' \<le> limit"
  shows "visit_chunk m c off limit = obind (visit_chunk m c off' limit) (\<lambda>ys. Ret (xs @ ys))"
  using assms
proof (induction arbitrary: rule: run.induct)
  case (run_snoc off off'' xs sz)
  have a: "HeaderSize \<le> align_up sz" using align_up_ge [of sz] run_snoc.hyps(3) by simp
  moreover have "\<not> limit - off'' < HeaderSize" "off'' < limit"
    using a run_snoc.prems by (auto simp: HeaderSize_def)
  ultimately have "visit_chunk m c off'' limit =
      obind (visit_chunk m c (off'' + align_up sz) limit) (\<lambda>rest. Ret ((c, off'') # rest))"
    using run_snoc.hyps(2) by (subst visit_chunk.simps) (simp add: HeaderSize_def)
  with run_snoc.IH run_snoc.prems show ?case by (simp add: obind_assoc)
qed simp

lemma visit_end: "visit_chunk m c off off = Ret []"
  by (simp add: visit_chunk.simps)

lemma visit_closed: "closed m off \<Longrightarrow> visit_chunk m c off ChunkSize = Ret []"
  by (subst visit_chunk.simps) (auto simp: closed_def)

lemma visit_chunks_append:
  "visit_chunks s a b (cs @ ds) =
   obind (visit_chunks s a b cs) (\<lambda>xs. obind (visit_chunks s a b ds) (\<lambda>ys. Ret (xs @ ys)))"
  by (induction cs) (simp_all add: obind_assoc)

lemma visit_chunks_cong:
  "(\<And>d. d \<in> set cs \<Longrightarrow> (if d = fst b then snd b else ChunkSize) = (if d = fst b' then snd b' else ChunkSize))
   \<Longrightarrow> visit_chunks s a b cs = visit_chunks s a b' cs"
  by (induction cs) auto

lemma visit_path:
  assumes "path m p (c, off) xs" "m = mem s" "off \<le> L"
  shows "visit_chunks s p (c, L) [fst p..<Suc c] = obind (visit_chunk (m c) c off L) (\<lambda>ys. Ret (xs @ ys))"
  using assms
proof (induction p "(c, off)" xs arbitrary: c off L rule: path.induct)
  case (path_run c off off' xs)
  then show ?case using visit_run [OF path_run(1)] by (simp add: obind_assoc)
next
  case (path_next p c off xs off' ys)
  have le: "fst p \<le> c" using path_le [OF path_next(1)] by (auto simp: before_def)
  have "visit_chunks s p (Suc c, L) [fst p..<Suc c] = visit_chunks s p (c, ChunkSize) [fst p..<Suc c]"
    by (rule visit_chunks_cong) auto
  also have "\<dots> = Ret xs"
  proof (cases "off \<le> ChunkSize")
    case True
    with path_next(2) [OF path_next.prems(1)] visit_closed [OF path_next(3)] show ?thesis by simp
  next
    case False
    then show ?thesis using path_next(1) by (auto elim: path.cases)
  qed
  finally have 1: "visit_chunks s p (Suc c, L) [fst p..<Suc c] = Ret xs" .
  have "[fst p..<Suc (Suc c)] = [fst p..<Suc c] @ [Suc c]" using le by simp
  moreover have "visit_chunks s p (Suc c, L) [Suc c] =
      obind (visit_chunk (m (Suc c)) (Suc c) off' L) (\<lambda>zs. Ret (ys @ zs))"
    using visit_run [OF path_next(4) path_next.prems(2)] le path_next.prems(1)
    by (simp add: obind_assoc)
  ultimately show ?case using 1 by (simp add: visit_chunks_append obind_assoc del: upt_Suc)
qed

subsection \<open>Frames\<close>

definition idx_ok :: "stack \<Rightarrow> stack_idx \<Rightarrow> bool" where
  "idx_ok s i \<longleftrightarrow> snd i \<le> ChunkSize \<and> (fst i < nchunks s \<or> i = (0, 0))"

lemma run_origin: "run m c off 0 xs \<Longrightarrow> xs = []"
proof (erule run.cases)
  fix off' off'' ys sz
  assume "(0::nat) = off'' + align_up sz" "HeaderSize \<le> sz"
  then show ?thesis using align_up_ge [of sz] by (simp add: HeaderSize_def)
qed simp

lemma path_origin: "path m p (0, 0) xs \<Longrightarrow> xs = []"
  by (erule path.cases) (auto dest: run_origin)

lemma visit_headers_path:
  assumes "path (mem s) p q xs" "idx_ok s q"
  shows "visit_headers p q s = Ret xs"
proof -
  obtain c off where q: "q = (c, off)" by force
  show ?thesis
  proof (cases "c < nchunks s")
    case True
    then have "filter (\<lambda>c. c < nchunks s) [fst p..<Suc c] = [fst p..<Suc c]"
      by (auto simp: filter_id_conv)
    with visit_path [OF assms(1) [unfolded q] refl order_refl] show ?thesis
      by (simp add: visit_headers_def q visit_end del: upt_Suc)
  next
    case False
    with assms(2) q have "q = (0, 0)" by (simp add: idx_ok_def)
    with assms(1) have "xs = []" by (simp add: path_origin)
    with False \<open>q = (0, 0)\<close> q show ?thesis by (simp add: visit_headers_def)
  qed
qed

lemma path_snoc:
  assumes "path m p (c, off) xs" "m c off = Some (Live sz)" "HeaderSize \<le> sz" "off + align_up sz \<le> ChunkSize"
  shows "path m p (c, off + align_up sz) (xs @ [(c, off)])"
  using assms(1)
proof cases
  case (path_run off')
  with assms(2-) show ?thesis by (auto intro: path.path_run run_snoc)
next
  case (path_next c' off' xs' ys)
  then have "path m p (Suc c', off + align_up sz) (xs' @ (ys @ [(Suc c', off)]))"
    using assms(2-) by (intro path.path_next run_snoc) auto
  with path_next show ?thesis by simp
qed

text \<open>The stack of a thread with its frames, youngest first: saved top and allocations.\<close>

type_synonym frames = "(stack_idx \<times> stack_idx list) list"

definition empty_stack :: stack where
  "empty_stack = \<lparr>nchunks = 0, top_chunk = 0, top_offset = 0, mem = \<lambda>_ _. None\<rparr>"

inductive stack_reach :: "stack \<Rightarrow> frames \<Rightarrow> bool" where
  sr_empty: "stack_reach empty_stack []"
| sr_push: "stack_reach s fs \<Longrightarrow> stack_reach s ((save_top s, []) # fs)"
| sr_create: "stack_reach s ((i, xs) # fs) \<Longrightarrow> HeaderSize \<le> sz \<Longrightarrow> create sz s = Ret (p, s') \<Longrightarrow>
    stack_reach s' ((i, xs @ [p]) # fs)"
| sr_pop: "stack_reach s ((i, xs) # fs) \<Longrightarrow> stack_reach (restore_top i s) fs"

fun frames_ok :: "stack \<Rightarrow> stack_idx \<Rightarrow> frames \<Rightarrow> bool" where
  "frames_ok s tp [] = True"
| "frames_ok s tp ((i, xs) # fs) \<longleftrightarrow> path (mem s) i tp xs \<and> idx_ok s i \<and> frames_ok s i fs"

lemma frames_ok_cong:
  assumes "frames_ok s tp fs" "nchunks s \<le> nchunks s'"
    "\<And>c i. before (c, i) tp \<Longrightarrow> mem s' c i = mem s c i"
  shows "frames_ok s' tp fs"
  using assms
proof (induction fs arbitrary: tp)
  case (Cons f fs)
  obtain i xs where f: "f = (i, xs)" by (cases f)
  from Cons.prems(1) f have p: "path (mem s) i tp xs" and i: "idx_ok s i" and fs: "frames_ok s i fs"
    by auto
  have "before q tp" if "before q i" for q
    using path_le [OF p] that by (auto simp: before_def)
  then have "frames_ok s' i fs" using Cons.IH [OF fs Cons.prems(2)] Cons.prems(3) by blast
  moreover have "path (mem s') i tp xs" by (rule path_cong [OF p]) (rule Cons.prems(3))
  moreover have "idx_ok s' i" using i Cons.prems(2) by (auto simp: idx_ok_def)
  ultimately show ?case by (simp add: f)
qed simp

lemma create_cases:
  assumes "create sz s = Ret (p, s')" "idx_ok s (save_top s)"
  obtains
    (fits) "p = save_top s" "top_offset s + align_up sz \<le> ChunkSize"
      "save_top s' = (top_chunk s, top_offset s + align_up sz)"
      "nchunks s' = max (nchunks s) (Suc (top_chunk s))"
      "mem s' = mem (put_header_at (save_top s) (Live sz) s)"
  | (fresh) "p = (Suc (top_chunk s), 0)" "align_up sz \<le> ChunkSize" "top_chunk s < nchunks s"
      "save_top s' = (Suc (top_chunk s), align_up sz)"
      "nchunks s' = max (nchunks s) (Suc (Suc (top_chunk s)))"
      "mem s' = mem (put_header_at p (Live sz)
        (if HeaderSize \<le> ChunkSize - top_offset s then put_header_at (save_top s) Marker s else s))"
proof (cases "top_offset s + align_up sz \<le> ChunkSize")
  case True
  have z: "nchunks s \<le> top_chunk s \<Longrightarrow> nchunks s = top_chunk s \<and> top_offset s = 0"
    using assms(2) by (auto simp: idx_ok_def save_top_def)
  from True assms(1) z show thesis
    by (intro fits) (auto simp: create_def alloc_def Let_def save_top_def put_header_at_def split: if_splits)
next
  case False
  then have "top_offset s + align_up sz > ChunkSize" by simp
  with assms show thesis
    by (intro fresh)
      (auto simp: create_def alloc_def Let_def save_top_def put_header_at_def idx_ok_def outcome_simps
        max_def split: if_splits)
qed

lemma create_path:
  assumes "create sz s = Ret (p, s')" "idx_ok s (save_top s)" "HeaderSize \<le> sz"
    "path (mem s) i (save_top s) xs"
  shows "path (mem s') i (save_top s') (xs @ [p])"
  using assms(1,2)
proof (cases rule: create_cases)
  case fits
  have "path (mem s') i (save_top s) xs"
    by (rule path_cong [OF assms(4)]) (auto simp: fits(5) put_header_at_def before_def)
  moreover have "mem s' (top_chunk s) (top_offset s) = Some (Live sz)"
    by (simp add: fits(5) put_header_at_def save_top_def)
  ultimately show ?thesis
    using path_snoc [of "mem s'" i "top_chunk s" "top_offset s" xs sz] fits assms(3)
    by (simp add: save_top_def)
next
  case fresh
  have "path (mem s') i (save_top s) xs"
    by (rule path_cong [OF assms(4)]) (auto simp: fresh(1,6) put_header_at_def before_def save_top_def)
  moreover have "closed (mem s' (top_chunk s)) (top_offset s)"
    by (auto simp: closed_def fresh(1,6) put_header_at_def save_top_def)
  moreover have "run (mem s' (Suc (top_chunk s))) (Suc (top_chunk s)) 0 (0 + align_up sz) ([] @ [p])"
    unfolding fresh(1)
    by (rule run_snoc [OF run_nil]) (use assms(3) in \<open>simp_all add: fresh(1,6) put_header_at_def\<close>)
  ultimately show ?thesis
    using path.path_next [of "mem s'" i "top_chunk s" "top_offset s" xs] fresh(2,4)
    by (simp add: save_top_def)
qed

lemma create_idx_ok:
  assumes "create sz s = Ret (p, s')" "idx_ok s (save_top s)"
  shows "idx_ok s' (save_top s')" "nchunks s \<le> nchunks s'"
    "\<And>c i. before (c, i) (save_top s) \<Longrightarrow> mem s' c i = mem s c i"
  using assms
  by (cases rule: create_cases; auto simp: idx_ok_def put_header_at_def save_top_def before_def)+

lemma stack_reach_ok:
  assumes "stack_reach s fs"
  shows "idx_ok s (save_top s) \<and> frames_ok s (save_top s) fs"
  using assms
proof (induction rule: stack_reach.induct)
  case sr_empty
  show ?case by (simp add: empty_stack_def idx_ok_def save_top_def)
next
  case (sr_push s fs)
  then show ?case
    by (cases "save_top s") (auto simp: idx_ok_def intro: path.path_run run_nil)
next
  case (sr_create s i xs fs sz p s')
  then have top: "idx_ok s (save_top s)" and p: "path (mem s) i (save_top s) xs"
    and i: "idx_ok s i" and fs: "frames_ok s i fs" by auto
  note c = create_idx_ok [OF sr_create.hyps(3) top]
  have "before q (save_top s)" if "before q i" for q
    using path_le [OF p] that by (auto simp: before_def)
  then have "frames_ok s' i fs" by (intro frames_ok_cong [OF fs c(2)]) (blast intro: c(3))
  moreover have "idx_ok s' i" using i c(2) by (auto simp: idx_ok_def)
  ultimately show ?case
    using c(1) create_path [OF sr_create.hyps(3) top sr_create.hyps(2) p] by simp
next
  case (sr_pop s i xs fs)
  then have "idx_ok s i" "frames_ok s i fs" by auto
  then show ?case
    using frames_ok_cong [of s i fs "restore_top i s"]
    by (cases i) (simp add: restore_top_def save_top_def idx_ok_def)
qed

text \<open>Tearing down the youngest frame visits exactly its live allocations, in order.\<close>

lemma stack_reach_visit:
  assumes "stack_reach s ((i, xs) # fs)"
  shows "visit_headers i (save_top s) s = Ret xs"
  using stack_reach_ok [OF assms] by (auto intro: visit_headers_path)

text \<open>Every request that fits a chunk is served; the null pointer is for larger ones only.\<close>

lemma alloc_total:
  assumes "idx_ok s (save_top s)" "0 < sz"
  shows "\<exists>r s'. alloc sz s = Ret (r, s') \<and> (r = None \<longleftrightarrow> 1024 < align_up sz)"
proof (cases "align_up sz > ChunkSize")
  case False
  have "top_chunk s < nchunks s" if "top_offset s + align_up sz > ChunkSize"
    using assms(1) that False by (auto simp: idx_ok_def save_top_def)
  with False show ?thesis
    by (auto simp: alloc_def Let_def ChunkSize_def)
qed (auto simp: alloc_def Let_def ChunkSize_def)

end
