(* ===== verification/Registers.thy ===== *)
theory Registers
  imports Merge Freeze Arith StackAlloc
begin

text \<open>
  The state of a thread (\<^verbatim>\<open>vbci/thread.h\<close>, \<^verbatim>\<open>vbci/frame.h\<close>) and its registers
  (\<^verbatim>\<open>vbci/register.h\<close>, \<^verbatim>\<open>vbci/frame.cc\<close>, \<open>Value::load_reference\<close> and \<open>Value::exchange\<close>).

  All registers of a thread are one vector; a frame owns the ones from its \<open>base\<close> on, and the
  arguments under construction lie right behind them. The frame list has the youngest frame at
  its head; \<open>frame\<close> is null when it is empty. \<open>frame_id\<close> is the frame's level. Registers are
  named by their absolute index, so that an alias of two operands is the same index. A
  \<open>raise_target\<close> can be set to any 64 bit pattern and stays in its packed form.

  An object on a frame's stack has an address of \<open>StackAlloc\<close> and an identifier in the heap;
  \<open>at_idx\<close> relates them.

  \<open>vm\<close> holds what does not change during a run: the program, its bytes, the floating point
  environment, the runtime \<open>kont\<close> of the heap operations and the order of header addresses.
  \<open>foreign\<close> is the code outside the program: libffi's type sizes and struct layouts, foreign
  calls, raw memory and callback closures.
\<close>

record frame =
  fr_region :: rid
  fr_func :: nat
  fr_level :: nat
  fr_save :: stack_idx
  fr_base :: nat
  fr_finalize_base :: nat
  fr_finalize_top :: nat
  fr_pc :: nat
  fr_dst :: nat
  fr_raise :: "64 word"

record behavior =
  bh_func :: nat
  bh_closure :: val
  bh_result :: cid
  bh_cowns :: "(cid \<times> bool) list"

record machine =
  hp :: heap
  stk :: stack
  at_idx :: "stack_idx \<Rightarrow> oid option"
  frames :: "frame list"
  locals :: "val list"
  finals :: "oid list"
  args :: nat
  memo :: "val list"
  memo_busy :: "bool list"
  queue :: "behavior list"
  externals :: int
  ffi_buffer :: nat
  extra_params :: "nat \<Rightarrow> nat"

record foreign =
  ffi_size :: "ffi_type \<Rightarrow> nat"
  ffi_struct :: "ffi_type list \<Rightarrow> (nat list \<times> nat) option"
  symbol_address :: "nat \<Rightarrow> 64 word"
  prepare_var :: "nat \<Rightarrow> nat \<Rightarrow> bool"
  ffi_call :: "nat \<Rightarrow> val list \<Rightarrow> heap \<Rightarrow> (val \<times> heap) outcome"
  read_memory :: "vtype \<Rightarrow> 64 word \<Rightarrow> heap \<Rightarrow> val outcome"
  write_memory :: "64 word \<Rightarrow> val \<Rightarrow> heap \<Rightarrow> heap outcome"
  new_callback :: "val \<Rightarrow> nat \<Rightarrow> heap \<Rightarrow> (64 word \<times> heap) outcome"
  callback_code :: "64 word \<Rightarrow> 64 word"
  free_callback :: "64 word \<Rightarrow> heap \<Rightarrow> heap outcome"

record vm =
  prog :: program
  bytes :: "byte list"
  fpu :: fp_env
  fenv :: env
  kont :: conts
  addr :: "oid \<Rightarrow> nat"
  ffi :: foreign

definition on_heap :: "(heap \<Rightarrow> heap outcome) \<Rightarrow> machine \<Rightarrow> machine outcome" where
  "on_heap f m = obind (f (hp m)) (\<lambda>h. Ret (m\<lparr>hp := h\<rparr>))"

subsection \<open>Addressing\<close>

definition cur :: "machine \<Rightarrow> frame outcome" where
  "cur m = (case frames m of [] \<Rightarrow> Stuck | f # fs \<Rightarrow> Ret f)"

definition set_cur :: "(frame \<Rightarrow> frame) \<Rightarrow> machine \<Rightarrow> machine" where
  "set_cur g m = m\<lparr>frames := (case frames m of [] \<Rightarrow> [] | f # fs \<Rightarrow> g f # fs)\<rparr>"

definition func_at :: "vm \<Rightarrow> nat \<Rightarrow> vfunction outcome" where
  "func_at V g = vec_at (funcs (prog V)) g"

text \<open>\<open>while (locals.size() < n) locals.resize(locals.size() * 2)\<close>\<close>

function grow :: "nat \<Rightarrow> val list \<Rightarrow> val list" where
  "grow n L = (if n \<le> length L \<or> L = [] then L else grow n (L @ replicate (length L) InvalidV))"
  by pat_completeness auto
termination by (relation "measure (\<lambda>(n, L). n - length L)") (auto simp: neq_Nil_conv)

declare grow.simps [simp del]

definition reserve :: "nat \<Rightarrow> machine \<Rightarrow> machine" where
  "reserve n m = m\<lparr>locals := grow n (locals m)\<rparr>"

text \<open>\<open>Frame::local\<close>, \<open>Frame::arg\<close> and \<open>Thread::arg\<close>: the absolute index, the vector grown to hold it.\<close>

definition local_at :: "vm \<Rightarrow> nat \<Rightarrow> machine \<Rightarrow> (nat \<times> machine) outcome" where
  "local_at V i m = obind (cur m) (\<lambda>f. obind (func_at V (fr_func f)) (\<lambda>g.
     obind (oassert (i < unat (registers g))) (\<lambda>_.
     Ret (fr_base f + i, reserve (Suc (fr_base f + i)) m))))"

definition frame_end :: "vm \<Rightarrow> frame \<Rightarrow> nat outcome" where
  "frame_end V f = obind (func_at V (fr_func f)) (\<lambda>g. Ret (fr_base f + unat (registers g)))"

definition arg_at :: "vm \<Rightarrow> nat \<Rightarrow> machine \<Rightarrow> (nat \<times> machine) outcome" where
  "arg_at V i m = obind (cur m) (\<lambda>f. obind (frame_end V f) (\<lambda>e. Ret (e + i, reserve (Suc (e + i)) m)))"

definition thread_arg :: "vm \<Rightarrow> nat \<Rightarrow> machine \<Rightarrow> (nat \<times> machine) outcome" where
  "thread_arg V i m = (if frames m = [] then Ret (i, m) else arg_at V i m)"

subsection \<open>Assignment\<close>

definition reg_val :: "nat \<Rightarrow> machine \<Rightarrow> val outcome" where
  "reg_val i m = vec_at (locals m) i"

definition put_reg :: "nat \<Rightarrow> val \<Rightarrow> machine \<Rightarrow> machine" where
  "put_reg i v m = m\<lparr>locals := (locals m)[i := v]\<rparr>"

text \<open>
  \<open>replace_unsafe\<close> with a value whose counts the caller provides: the old value is released
  after the new one is in place.
\<close>

definition assign :: "vm \<Rightarrow> nat \<Rightarrow> val \<Rightarrow> machine \<Rightarrow> machine outcome" where
  "assign V i v m = obind (reg_val i m) (\<lambda>old. on_heap (reg_dec (kont V) old) (put_reg i v m))"

definition assign_borrow :: "vm \<Rightarrow> nat \<Rightarrow> val \<Rightarrow> machine \<Rightarrow> machine outcome" where
  "assign_borrow V i v m = obind (on_heap (reg_inc v) m) (assign V i v)"

text \<open>\<open>ValueImmortal\<close> and \<open>ValueStaticLifetime\<close>: counted nowhere, and asserted to be so.\<close>

definition assign_immortal :: "vm \<Rightarrow> nat \<Rightarrow> val \<Rightarrow> machine \<Rightarrow> machine outcome" where
  "assign_immortal V i v m = obind (location v (hp m)) (\<lambda>l.
     obind (oassert (l = LImmortal)) (\<lambda>_. assign V i v m))"

definition assign_static :: "vm \<Rightarrow> nat \<Rightarrow> val \<Rightarrow> machine \<Rightarrow> machine outcome" where
  "assign_static V i v m = obind (location v (hp m)) (\<lambda>l.
     obind (oassert (is_stack l)) (\<lambda>_. assign V i v m))"

definition take_reg :: "nat \<Rightarrow> machine \<Rightarrow> (val \<times> machine) outcome" where
  "take_reg i m = obind (reg_val i m) (\<lambda>v. Ret (v, put_reg i InvalidV m))"

definition clear_reg :: "vm \<Rightarrow> nat \<Rightarrow> machine \<Rightarrow> machine outcome" where
  "clear_reg V i m = assign V i InvalidV m"

subsection \<open>References\<close>

text \<open>\<open>Value::load_reference\<close>: a read-only reference gives read-only views of mutable values.\<close>

definition load_target :: "val \<Rightarrow> machine \<Rightarrow> val outcome" where
  "load_target r m = (case r of
     RegisterRefV i f ro \<Rightarrow> reg_val i m
   | FieldRefV p i ro \<Rightarrow> load_slot p i (hp m)
   | ArrayRefV p i ro \<Rightarrow> load_slot p i (hp m)
   | CownRefV c ro \<Rightarrow> cown_load c (hp m)
   | _ \<Rightarrow> Raise BadLoadTarget)"

definition load_reference :: "val \<Rightarrow> machine \<Rightarrow> val outcome" where
  "load_reference r m = obind (load_target r m) (\<lambda>v.
     if get_value_type r = VCownRef then Ret v
     else obind (location v (hp m)) (\<lambda>l.
       Ret (if is_readonly r \<and> \<not> is_immortal l \<and> \<not> is_immutable l then set_readonly v else v)))"

definition from_load :: "vm \<Rightarrow> nat \<Rightarrow> val \<Rightarrow> machine \<Rightarrow> machine outcome" where
  "from_load V dst r m = obind (load_reference r m) (\<lambda>v. assign_borrow V dst v m)"

text \<open>\<open>check_var_type_for_register\<close>: the youngest frame that owns the register decides.\<close>

fun owning_frame :: "vm \<Rightarrow> nat \<Rightarrow> frame list \<Rightarrow> frame option outcome" where
  "owning_frame V i [] = Ret None"
| "owning_frame V i (f # fs) = obind (frame_end V f) (\<lambda>e.
     if fr_base f \<le> i \<and> i < e then Ret (Some f) else owning_frame V i fs)"

definition check_var :: "vm \<Rightarrow> frame \<Rightarrow> nat \<Rightarrow> val \<Rightarrow> machine \<Rightarrow> unit outcome" where
  "check_var V f i v m = obind (func_at V (fr_func f)) (\<lambda>g.
     let ps = length (param_types g) in
     if i < ps \<or> ps + length (var_types g) \<le> i then Ret ()
     else let t = var_types g ! (i - ps) in
       if t = DynamicTypeId then Ret () else check_type (prog V) (locals m) v t (hp m))"

definition check_var_type_for_register :: "vm \<Rightarrow> nat \<Rightarrow> val \<Rightarrow> machine \<Rightarrow> unit outcome" where
  "check_var_type_for_register V i v m = obind (owning_frame V i (frames m)) (\<lambda>f.
     case f of None \<Rightarrow> Ret () | Some f \<Rightarrow> check_var V f (i - fr_base f) v m)"

text \<open>
  \<open>Value::exchange\<close> through a register reference to register \<open>i\<close> of the frame at level \<open>f\<close>:
  a value on a younger stack is refused, one in a younger frame's region is dragged.
\<close>

definition settle_at_frame :: "bool \<Rightarrow> vm \<Rightarrow> nat \<Rightarrow> val \<Rightarrow> heap \<Rightarrow> heap outcome" where
  "settle_at_frame mv V f v h = obind (location v h) (\<lambda>l. case l of
     LStack n \<Rightarrow> if n > f then Raise BadStoreTarget else Ret h
   | LRegion r \<Rightarrow> obind (get_region r h) (\<lambda>reg.
       if is_frame_local reg \<and> frame_depth reg > f + 1 then
         obind (frame_region_for_stack (LStack f) h) (\<lambda>t. obind (get_header v) (\<lambda>p.
         obind (drag_allocation mv (kont V) t p None h) (\<lambda>(done, _, h).
           if done then Ret h else Raise BadStoreTarget)))
       else Ret h)
   | _ \<Rightarrow> Ret h)"

definition register_exchange :: "bool \<Rightarrow> vm \<Rightarrow> nat \<Rightarrow> nat \<Rightarrow> val \<Rightarrow> machine \<Rightarrow> (val \<times> machine) outcome" where
  "register_exchange mv V i f v m =
     obind (on_heap (settle_at_frame mv V f v) m) (\<lambda>m.
     obind (check_var_type_for_register V i v m) (\<lambda>_.
     obind (take_reg i m) (\<lambda>(prev, m).
     obind (if mv then assign V i v m else assign_borrow V i v m) (\<lambda>m. Ret (prev, m)))))"

definition reference_exchange :: "bool \<Rightarrow> vm \<Rightarrow> val \<Rightarrow> val \<Rightarrow> machine \<Rightarrow> (val \<times> machine) outcome" where
  "reference_exchange mv V r v m =
     (if is_readonly r then Raise BadStoreTarget
      else if is_readonly v then Raise BadStore
      else let slot = (\<lambda>f. obind (f (hp m)) (\<lambda>(prev, h). Ret (prev, m\<lparr>hp := h\<rparr>))) in
        case r of
          RegisterRefV i f ro \<Rightarrow> register_exchange mv V i f v m
        | FieldRefV p i ro \<Rightarrow> slot (obj_exchange (prog V) (locals m) mv (kont V) p i v)
        | ArrayRefV p i ro \<Rightarrow> slot (array_exchange (prog V) (locals m) mv (kont V) p i v)
        | CownRefV c ro \<Rightarrow> slot (cown_exchange (prog V) (locals m) mv (kont V) c v)
        | _ \<Rightarrow> Raise BadStoreTarget)"

definition from_exchange :: "bool \<Rightarrow> vm \<Rightarrow> nat \<Rightarrow> val \<Rightarrow> val \<Rightarrow> machine \<Rightarrow> machine outcome" where
  "from_exchange mv V dst r v m = obind (reference_exchange mv V r v m) (\<lambda>(prev, m). assign V dst prev m)"

text \<open>
  \<open>from_field_ref\<close> and \<open>from_array_ref\<close>: the reference holds the counts of its source, taken
  over in a move.
\<close>

definition from_field_ref :: "bool \<Rightarrow> vm \<Rightarrow> nat \<Rightarrow> val \<Rightarrow> 64 word \<Rightarrow> machine \<Rightarrow> machine outcome" where
  "from_field_ref mv V dst src fid m = (case src of
     ObjectV p ro \<Rightarrow> obind (field_slot (prog V) p fid (hp m)) (\<lambda>i.
       obind (if mv then Ret m else on_heap (reg_inc src) m) (assign V dst (FieldRefV p i ro)))
   | CownV c ro \<Rightarrow>
       obind (if mv then Ret m else on_heap (field_inc src) m) (assign V dst (CownRefV c ro))
   | _ \<Rightarrow> Raise BadRefTarget)"

definition array_size :: "oid \<Rightarrow> heap \<Rightarrow> nat outcome" where
  "array_size p h = obind (get_obj p h) (\<lambda>b. Ret (length (o_slots b)))"

definition from_array_ref :: "bool \<Rightarrow> vm \<Rightarrow> nat \<Rightarrow> val \<Rightarrow> nat \<Rightarrow> machine \<Rightarrow> machine outcome" where
  "from_array_ref mv V dst src i m = (case src of
     ArrayV p ro \<Rightarrow> obind (array_size p (hp m)) (\<lambda>n.
       if n \<le> i then Raise BadArrayIndex
       else obind (if mv then Ret m else on_heap (reg_inc src) m) (assign V dst (ArrayRefV p i ro)))
   | _ \<Rightarrow> Raise BadRefTarget)"

subsection \<open>Frames\<close>

text \<open>\<open>Frame::push_finalizer\<close>, with the test of the code; the list is written, never read.\<close>

definition push_finalizer :: "vm \<Rightarrow> oid \<Rightarrow> machine \<Rightarrow> machine outcome" where
  "push_finalizer V p m = obind (cur m) (\<lambda>f. obind (get_obj p (hp m)) (\<lambda>b.
     if finalizer (fenv V) (o_type b) = None then Ret m
     else obind (if fr_finalize_base f = fr_finalize_top f then Ret (m\<lparr>finals := finals m @ [p]\<rparr>)
                 else obind (vec_at (finals m) (fr_finalize_top f)) (\<lambda>_.
                   Ret (m\<lparr>finals := (finals m)[fr_finalize_top f := p]\<rparr>))) (\<lambda>m.
       Ret (set_cur (\<lambda>f. f\<lparr>fr_finalize_top := Suc (fr_finalize_top f)\<rparr>) m))))"

text \<open>\<open>Frame::drop\<close>: the registers are indexed unchecked.\<close>

definition drop_local :: "vm \<Rightarrow> nat \<Rightarrow> machine \<Rightarrow> machine outcome" where
  "drop_local V i m = obind (reg_val i m) (\<lambda>v. if is_invalid v then Ret m else clear_reg V i m)"

definition frame_drop :: "vm \<Rightarrow> machine \<Rightarrow> machine outcome" where
  "frame_drop V m = obind (cur m) (\<lambda>f. obind (frame_end V f) (\<lambda>e.
     each (drop_local V) [fr_base f..<e] m))"

text \<open>\<open>Frame::drop_args\<close> and \<open>Thread::drop_args\<close>\<close>

definition frame_drop_args :: "vm \<Rightarrow> machine \<Rightarrow> machine outcome" where
  "frame_drop_args V m = obind (cur m) (\<lambda>f. obind (frame_end V f) (\<lambda>e.
     each (clear_reg V) [e..<e + args m] (m\<lparr>args := 0\<rparr>)))"

definition drop_args :: "vm \<Rightarrow> machine \<Rightarrow> machine outcome" where
  "drop_args V m =
     (if frames m \<noteq> [] then frame_drop_args V m
      else each (clear_reg V) [0..<args m] (m\<lparr>args := 0\<rparr>))"

end
