(* ===== verification/Control.thy ===== *)
theory Control
  imports Registers
begin

text \<open>
  Calls, returns, raises and tail calls of a thread (\<^verbatim>\<open>vbci/thread.cc\<close>, from \<open>pushframe\<close> on).
  A null function pointer is \<open>None\<close>. The errors that the code throws after it dropped the
  arguments are thrown after \<open>drop_args\<close> here; what a throwing operation leaves behind is the
  argument of \<open>unwind_to\<close> and \<open>teardown_all\<close> in the handlers of the callers.
\<close>

subsection \<open>Arguments\<close>

definition fail_args :: "vm \<Rightarrow> error \<Rightarrow> machine \<Rightarrow> 'a outcome" where
  "fail_args V e m = obind (drop_args V m) (\<lambda>_. Raise e)"

text \<open>The arguments against a list of types: whether all of them fit.\<close>

fun args_fit :: "vm \<Rightarrow> nat \<Rightarrow> 32 word list \<Rightarrow> machine \<Rightarrow> (bool \<times> machine) outcome" where
  "args_fit V i [] m = Ret (True, m)"
| "args_fit V i (t # ts) m = obind (thread_arg V i m) (\<lambda>(r, m).
     obind (reg_val r m) (\<lambda>v. obind (type_id (prog V) (locals m) v (hp m)) (\<lambda>s.
     obind (check_subtype (prog V) s t) (\<lambda>ok.
       if ok then args_fit V (Suc i) ts m else Ret (False, m)))))"

definition check_args :: "vm \<Rightarrow> 32 word list \<Rightarrow> machine \<Rightarrow> machine outcome" where
  "check_args V ts m =
     (if args m \<noteq> length ts then fail_args V BadArgs m
      else obind (args_fit V 0 ts m) (\<lambda>(ok, m).
        if ok then Ret (m\<lparr>args := 0\<rparr>) else fail_args V BadType m))"

definition try_check_args :: "vm \<Rightarrow> 32 word list \<Rightarrow> machine \<Rightarrow> (bool \<times> machine) outcome" where
  "try_check_args V ts m =
     (if args m \<noteq> length ts then obind (drop_args V m) (\<lambda>m. Ret (False, m))
      else obind (args_fit V 0 ts m) (\<lambda>(ok, m).
        if ok then Ret (True, m\<lparr>args := 0\<rparr>) else obind (drop_args V m) (\<lambda>m. Ret (False, m))))"

text \<open>The overload for the fields of a class.\<close>

definition check_field_args :: "vm \<Rightarrow> cls \<Rightarrow> machine \<Rightarrow> machine outcome" where
  "check_field_args V c m = obind (cur m) (\<lambda>_. check_args V (map fi_type (c_fields c)) m)"

subsection \<open>Calls\<close>

text \<open>The part of \<open>pushframe\<close> and \<open>try_pushframe\<close> after the checks.\<close>

definition push_checked :: "vm \<Rightarrow> nat \<Rightarrow> nat \<Rightarrow> machine \<Rightarrow> machine outcome" where
  "push_checked V g dst m = obind (func_at V g) (\<lambda>fn.
     obind (case frames m of
         [] \<Rightarrow> Ret (0, 0, 0)
       | f # fs \<Rightarrow> obind (frame_end V f) (\<lambda>e. Ret (Suc (fr_level f), e, fr_finalize_top f))) (\<lambda>(level, base, fin).
     let m = reserve (base + unat (registers fn)) m in
     obind (vec_at (labels fn) 0) (\<lambda>pc.
     obind (new_region RegionRC (Suc level) (hp m)) (\<lambda>(r, h).
     Ret (m\<lparr>hp := h\<lparr>frame_regions := frame_regions h @ [r]\<rparr>,
            frames := \<lparr>fr_region = r, fr_func = g, fr_level = level, fr_save = save_top (stk m),
              fr_base = base, fr_finalize_base = fin, fr_finalize_top = fin, fr_pc = unat pc, fr_dst = dst,
              fr_raise = enc (LStack level)\<rparr> # frames m\<rparr>)))))"

definition pushframe :: "vm \<Rightarrow> nat option \<Rightarrow> nat \<Rightarrow> machine \<Rightarrow> machine outcome" where
  "pushframe V g dst m = (case g of
     None \<Rightarrow> Raise MethodNotFound
   | Some g \<Rightarrow> obind (func_at V g) (\<lambda>fn.
       obind (check_args V (param_types fn) m) (push_checked V g dst)))"

definition store_invalid :: "vm \<Rightarrow> nat \<Rightarrow> machine \<Rightarrow> machine outcome" where
  "store_invalid V dst m = obind (local_at V dst m) (\<lambda>(i, m). assign_immortal V i InvalidV m)"

definition try_pushframe :: "vm \<Rightarrow> nat option \<Rightarrow> nat \<Rightarrow> machine \<Rightarrow> machine outcome" where
  "try_pushframe V g dst m = (case g of
     None \<Rightarrow> obind (drop_args V m) (store_invalid V dst)
   | Some g \<Rightarrow> obind (func_at V g) (\<lambda>fn.
       obind (try_check_args V (param_types fn) m) (\<lambda>(ok, m).
         if ok then push_checked V g dst m else store_invalid V dst m)))"

subsection \<open>Tearing down a frame\<close>

definition finalize_stack :: "vm \<Rightarrow> stack_idx \<Rightarrow> machine \<Rightarrow> machine outcome" where
  "finalize_stack V i m = (case at_idx m i of
     None \<Rightarrow> Stuck
   | Some p \<Rightarrow> on_heap (finalize (fenv V) (kont V) p) m)"

text \<open>The headers of a popped stack are gone.\<close>

definition forget_stack :: "stack_idx list \<Rightarrow> machine \<Rightarrow> machine" where
  "forget_stack is m = (let dead = List.map_filter (at_idx m) is in
     m\<lparr>hp := hp m\<lparr>objs := (\<lambda>p. if p \<in> set dead then None else objs (hp m) p)\<rparr>,
       at_idx := (\<lambda>i. if i \<in> set is then None else at_idx m i)\<rparr>)"

definition teardown :: "vm \<Rightarrow> bool \<Rightarrow> machine \<Rightarrow> machine outcome" where
  "teardown V tail m = obind (frame_drop V m) (\<lambda>m. obind (cur m) (\<lambda>f.
     obind (visit_headers (fr_save f) (save_top (stk m)) (stk m)) (\<lambda>is.
     obind (each (finalize_stack V) is m) (\<lambda>m.
     obind (if tail then Ret m
            else on_heap (\<lambda>h. obind (get_region (fr_region f) h) (\<lambda>reg.
              obind (oassert (is_frame_local reg)) (\<lambda>_. collect_region (kont V) (fr_region f) h))) m) (\<lambda>m.
     Ret (forget_stack is (m\<lparr>stk := restore_top (fr_save f) (stk m)\<rparr>)))))))"

text \<open>\<open>frames.pop_back()\<close>\<close>

definition drop_frame :: "machine \<Rightarrow> machine" where
  "drop_frame m = m\<lparr>hp := hp m\<lparr>frame_regions := butlast (frame_regions (hp m))\<rparr>, frames := tl (frames m)\<rparr>"

definition abandon_frame :: "vm \<Rightarrow> machine \<Rightarrow> machine outcome" where
  "abandon_frame V m = obind (frame_drop_args V m) (\<lambda>m. obind (teardown V False m) (\<lambda>m. Ret (drop_frame m)))"

text \<open>
  The loops that abandon frames: until \<open>stop\<close> holds of the youngest one, with a null \<open>frame\<close>
  dereferenced when none is left (\<open>raise\<close>), or down to a depth (\<open>thread_run\<close>, \<open>teardown_all\<close>).
  Every round pops a frame, so their number is fuel enough.
\<close>

fun abandon_until :: "nat \<Rightarrow> vm \<Rightarrow> (frame \<Rightarrow> bool) \<Rightarrow> machine \<Rightarrow> machine outcome" where
  "abandon_until n V stop m = obind (cur m) (\<lambda>f.
     if stop f then Ret m
     else case n of 0 \<Rightarrow> Stuck | Suc n \<Rightarrow> obind (abandon_frame V m) (abandon_until n V stop))"

declare abandon_until.simps [simp del]

fun abandon_down_to :: "nat \<Rightarrow> vm \<Rightarrow> nat \<Rightarrow> machine \<Rightarrow> machine outcome" where
  "abandon_down_to n V d m =
     (if length (frames m) \<le> d then Ret m
      else case n of 0 \<Rightarrow> Stuck | Suc n \<Rightarrow> obind (abandon_frame V m) (abandon_down_to n V d))"

declare abandon_down_to.simps [simp del]

definition teardown_all :: "vm \<Rightarrow> machine \<Rightarrow> machine outcome" where
  "teardown_all V m = abandon_down_to (length (frames m)) V 0 m"

subsection \<open>Returns and raises\<close>

text \<open>A return value in the dying frame's region moves to the caller's, or to a fresh region.\<close>

definition escape_frame :: "vm \<Rightarrow> val \<Rightarrow> machine \<Rightarrow> machine outcome" where
  "escape_frame V ret m = obind (cur m) (\<lambda>f. obind (location ret (hp m)) (\<lambda>l.
     if l = LStack (fr_level f) then Raise BadStackEscape
     else if l = LRegion (fr_region f) then obind (get_header ret) (\<lambda>p. on_heap (\<lambda>h.
       case tl (frames m) of
         g # gs \<Rightarrow> obind (drag_allocation False (kont V) (fr_region g) p None h) (\<lambda>(done, _, h).
           if done then Ret h else Raise BadStackEscape)
       | [] \<Rightarrow> obind (drag_to_fresh False (kont V) p h) (\<lambda>(nr, h).
           if nr = None then Raise BadStackEscape else Ret h)) m)
     else Ret m))"

definition check_return :: "vm \<Rightarrow> val \<Rightarrow> machine \<Rightarrow> unit outcome" where
  "check_return V ret m = obind (cur m) (\<lambda>f. obind (func_at V (fr_func f)) (\<lambda>fn.
     if is_error ret then Ret () else check_type (prog V) (locals m) ret (return_type fn) (hp m)))"

definition popframe :: "vm \<Rightarrow> val \<Rightarrow> machine \<Rightarrow> machine outcome" where
  "popframe V ret m = obind (cur m) (\<lambda>f.
     obind (frame_drop_args V m) (\<lambda>m.
     obind (escape_frame V ret m) (\<lambda>m.
     obind (check_return V ret m) (\<lambda>_.
     obind (teardown V False m) (\<lambda>m.
     let m = drop_frame m in
       if frames m = [] then assign V 0 ret m
       else obind (local_at V (fr_dst f) m) (\<lambda>(i, m). assign V i ret m))))))"

text \<open>A raised value in a frame that will be torn down: refused on its stack, dragged from its region.\<close>

definition escape_raise :: "vm \<Rightarrow> nat \<Rightarrow> val \<Rightarrow> machine \<Rightarrow> machine outcome" where
  "escape_raise V t ret m = obind (location ret (hp m)) (\<lambda>l. case l of
     LStack n \<Rightarrow> if n > t then Raise BadStackEscape else Ret m
   | LRegion r \<Rightarrow> on_heap (\<lambda>h. obind (get_region r h) (\<lambda>reg.
       if is_frame_local reg \<and> frame_depth reg > t + 1 then
         obind (frame_region_for_stack (LStack t) h) (\<lambda>tr. obind (get_header ret) (\<lambda>p.
         obind (drag_allocation False (kont V) tr p None h) (\<lambda>(done, _, h).
           if done then Ret h else Raise BadStackEscape)))
       else Ret h)) m
   | _ \<Rightarrow> Ret m)"

definition raise_to :: "vm \<Rightarrow> val \<Rightarrow> 64 word \<Rightarrow> machine \<Rightarrow> machine outcome" where
  "raise_to V ret target m = obind (cur m) (\<lambda>f.
     if \<not> raw_is_stack target \<or> target \<ge> enc (LStack (fr_level f)) then Raise BadRaiseTarget
     else obind (raw_stack_index target) (\<lambda>t.
       obind (escape_raise V (unat t) ret m) (\<lambda>m.
       obind (abandon_until (length (frames m)) V (\<lambda>f. enc (LStack (fr_level f)) = target) m)
         (popframe V ret))))"

subsection \<open>Tail calls and jumps\<close>

text \<open>
  The frame is emptied first. \<open>Frame::local\<close> checks the new parameters against the registers of
  the old function.
\<close>

definition tail_arg :: "vm \<Rightarrow> nat \<Rightarrow> bool \<times> machine \<Rightarrow> (bool \<times> machine) outcome" where
  "tail_arg V i = (\<lambda>(esc, m). obind (cur m) (\<lambda>f. obind (arg_at V i m) (\<lambda>(a, m).
     obind (reg_val a m) (\<lambda>v. obind (location v (hp m)) (\<lambda>l.
     obind (local_at V i m) (\<lambda>(d, m'). obind (oassert (length (locals m') = length (locals m))) (\<lambda>_.
     obind (take_reg a m') (\<lambda>(v, m). obind (assign V d v m) (\<lambda>m.
     Ret (esc \<or> l = LStack (fr_level f), m))))))))))"

definition tailcall :: "vm \<Rightarrow> nat option \<Rightarrow> machine \<Rightarrow> machine outcome" where
  "tailcall V g m = (case g of
     None \<Rightarrow> Raise MethodNotFound
   | Some g \<Rightarrow> obind (func_at V g) (\<lambda>fn.
       obind (teardown V True m) (\<lambda>m.
       obind (check_args V (param_types fn) m) (\<lambda>m.
       obind (each (tail_arg V) [0..<length (param_types fn)] (False, m)) (\<lambda>(esc, m).
         if esc then Raise BadStackEscape
         else obind (vec_at (labels fn) 0) (\<lambda>pc.
           Ret (set_cur (\<lambda>f. f\<lparr>fr_func := g, fr_pc := unat pc\<rparr>) m)))))))"

definition branch :: "vm \<Rightarrow> nat \<Rightarrow> machine \<Rightarrow> machine outcome" where
  "branch V l m = obind (cur m) (\<lambda>f. obind (func_at V (fr_func f)) (\<lambda>fn.
     if length (labels fn) \<le> l then Raise BadLabel
     else Ret (set_cur (\<lambda>f. f\<lparr>fr_pc := unat (labels fn ! l)\<rparr>) m)))"

end
