(* ===== verification/Opcodes.thy ===== *)
theory Opcodes
  imports Control
begin

text \<open>
  Decoding (\<open>Op\<close> of \<^verbatim>\<open>include/vbc/format.h\<close>, \<open>Thread::leb\<close> and \<open>Operands\<close> of
  \<^verbatim>\<open>vbci/thread.cc\<close>). The binary and unary operators and the constants, which the interpreter
  handles with one macro each, are grouped; \<open>op_table\<close> has the enumeration's order.

  An operand is read from the instruction stream when \<open>Operands::process\<close> reaches its parameter:
  \<open>Register&\<close> and \<open>const Register&\<close> give the register's index, \<open>Register\<close> moves its value out.
  The C++ operand is a reference into the register vector: growing the vector while one is held
  leaves it dangling, which is \<open>Stuck\<close> here (\<open>local_next\<close>).
\<close>

datatype binop_code =
    BAdd | BSub | BMul | BDiv | BMod | BPow | BAnd | BOr | BXor | BShl | BShr
  | BEq | BNe | BLt | BLe | BGt | BGe | BMin | BMax | BLogBase | BAtan2

datatype unop_code =
    UNeg | UNot | UAbs | UFloat fp_op1 | UIsInf | UIsNaN | UBits | ULen

datatype const_code = KE | KPi | KInf | KNaN

datatype op =
    OConst | OString | OConvert | OSingleton | ONew | OStack | OHeap | ORegion
  | ONewArray | ONewArrayConst | OStackArray | OStackArrayConst
  | OHeapArray | OHeapArrayConst | ORegionArray | ORegionArrayConst
  | OCopy | OMove | ODrop | OFreeze
  | ORegisterRef | OFieldRefMove | OFieldRefCopy
  | OArrayRefMove | OArrayRefCopy | OArrayRefMoveConst | OArrayRefCopyConst
  | OLoad | OStoreMove | OStoreCopy | OLookupDynamic | OLookupFFI
  | OArgMove | OArgCopy | OCallStatic | OCallDynamic | OTryCallDynamic | OFFI
  | OWhenStatic | OWhenDynamic | OTypetest | OTailcallStatic | OTailcallDynamic
  | OReturn | ORaise | OCond | OJump
  | OBin binop_code | OUn unop_code | OPtr | ORead | OPin | OUnpin | OMerge
  | OFFIStruct | OFFILoad | OFFIStore | OGetRaise | OSetRaise | OConstant const_code
  | OMakeCallback | OCodePtrCallback | OFreeCallback | OAddExternal | ORemoveExternal
  | OMemoLoad | OArrayCopy | OArrayFill | OArrayCompare

definition op_table :: "op list" where
  "op_table =
    [OConst, OString, OConvert, OSingleton, ONew, OStack, OHeap, ORegion,
     ONewArray, ONewArrayConst, OStackArray, OStackArrayConst,
     OHeapArray, OHeapArrayConst, ORegionArray, ORegionArrayConst,
     OCopy, OMove, ODrop, OFreeze,
     ORegisterRef, OFieldRefMove, OFieldRefCopy,
     OArrayRefMove, OArrayRefCopy, OArrayRefMoveConst, OArrayRefCopyConst,
     OLoad, OStoreMove, OStoreCopy, OLookupDynamic, OLookupFFI,
     OArgMove, OArgCopy, OCallStatic, OCallDynamic, OTryCallDynamic, OFFI,
     OWhenStatic, OWhenDynamic, OTypetest, OTailcallStatic, OTailcallDynamic,
     OReturn, ORaise, OCond, OJump]
    @ map OBin [BAdd, BSub, BMul, BDiv, BMod, BPow, BAnd, BOr, BXor, BShl, BShr,
         BEq, BNe, BLt, BLe, BGt, BGe, BMin, BMax, BLogBase, BAtan2]
    @ map OUn [UNeg, UNot, UAbs, UFloat FCeil, UFloat FFloor, UFloat FExp, UFloat FLog,
         UFloat FSqrt, UFloat FCbrt, UIsInf, UIsNaN, UFloat FSin, UFloat FCos, UFloat FTan,
         UFloat FAsin, UFloat FAcos, UFloat FAtan, UFloat FSinh, UFloat FCosh, UFloat FTanh,
         UFloat FAsinh, UFloat FAcosh, UFloat FAtanh, UBits, ULen]
    @ [OPtr, ORead, OPin, OUnpin, OMerge, OFFIStruct, OFFILoad, OFFIStore, OGetRaise, OSetRaise]
    @ map OConstant [KE, KPi, KInf, KNaN]
    @ [OMakeCallback, OCodePtrCallback, OFreeCallback, OAddExternal, ORemoveExternal,
       OMemoLoad, OArrayCopy, OArrayFill, OArrayCompare]"

text \<open>The cast of the 64 bit number to the enumeration keeps 32 bits.\<close>

definition op_of :: "64 word \<Rightarrow> op option" where
  "op_of w = (let n = unat (ucast w :: 32 word) in
     if n < length op_table then Some (op_table ! n) else None)"

text \<open>How the log prints an opcode.\<close>

primrec binop_name :: "binop_code \<Rightarrow> string" where
  "binop_name BAdd = ''Add''"
| "binop_name BSub = ''Sub''"
| "binop_name BMul = ''Mul''"
| "binop_name BDiv = ''Div''"
| "binop_name BMod = ''Mod''"
| "binop_name BPow = ''Pow''"
| "binop_name BAnd = ''And''"
| "binop_name BOr = ''Or''"
| "binop_name BXor = ''Xor''"
| "binop_name BShl = ''Shl''"
| "binop_name BShr = ''Shr''"
| "binop_name BEq = ''Eq''"
| "binop_name BNe = ''Ne''"
| "binop_name BLt = ''Lt''"
| "binop_name BLe = ''Le''"
| "binop_name BGt = ''Gt''"
| "binop_name BGe = ''Ge''"
| "binop_name BMin = ''Min''"
| "binop_name BMax = ''Max''"
| "binop_name BLogBase = ''LogBase''"
| "binop_name BAtan2 = ''Atan2''"

primrec float_name :: "fp_op1 \<Rightarrow> string" where
  "float_name FCeil = ''Ceil''"
| "float_name FFloor = ''Floor''"
| "float_name FExp = ''Exp''"
| "float_name FLog = ''Log''"
| "float_name FSqrt = ''Sqrt''"
| "float_name FCbrt = ''Cbrt''"
| "float_name FSin = ''Sin''"
| "float_name FCos = ''Cos''"
| "float_name FTan = ''Tan''"
| "float_name FAsin = ''Asin''"
| "float_name FAcos = ''Acos''"
| "float_name FAtan = ''Atan''"
| "float_name FSinh = ''Sinh''"
| "float_name FCosh = ''Cosh''"
| "float_name FTanh = ''Tanh''"
| "float_name FAsinh = ''Asinh''"
| "float_name FAcosh = ''Acosh''"
| "float_name FAtanh = ''Atanh''"

primrec unop_name :: "unop_code \<Rightarrow> string" where
  "unop_name UNeg = ''Neg''"
| "unop_name UNot = ''Not''"
| "unop_name UAbs = ''Abs''"
| "unop_name UIsInf = ''IsInf''"
| "unop_name UIsNaN = ''IsNaN''"
| "unop_name UBits = ''Bits''"
| "unop_name ULen = ''Len''"
| "unop_name (UFloat f) = float_name f"

primrec const_name :: "const_code \<Rightarrow> string" where
  "const_name KE = ''Const_E''"
| "const_name KPi = ''Const_Pi''"
| "const_name KInf = ''Const_Inf''"
| "const_name KNaN = ''Const_NaN''"

primrec op_name :: "op \<Rightarrow> string" where
  "op_name OConst = ''Const''"
| "op_name OString = ''String''"
| "op_name OConvert = ''Convert''"
| "op_name OSingleton = ''Singleton''"
| "op_name ONew = ''New''"
| "op_name OStack = ''Stack''"
| "op_name OHeap = ''Heap''"
| "op_name ORegion = ''Region''"
| "op_name ONewArray = ''NewArray''"
| "op_name ONewArrayConst = ''NewArrayConst''"
| "op_name OStackArray = ''StackArray''"
| "op_name OStackArrayConst = ''StackArrayConst''"
| "op_name OHeapArray = ''HeapArray''"
| "op_name OHeapArrayConst = ''HeapArrayConst''"
| "op_name ORegionArray = ''RegionArray''"
| "op_name ORegionArrayConst = ''RegionArrayConst''"
| "op_name OCopy = ''Copy''"
| "op_name OMove = ''Move''"
| "op_name ODrop = ''Drop''"
| "op_name OFreeze = ''Freeze''"
| "op_name OPin = ''Pin''"
| "op_name OUnpin = ''Unpin''"
| "op_name OMerge = ''Merge''"
| "op_name OFFIStruct = ''FFIStruct''"
| "op_name OFFILoad = ''FFILoad''"
| "op_name OFFIStore = ''FFIStore''"
| "op_name ORegisterRef = ''RegisterRef''"
| "op_name OFieldRefMove = ''FieldRefMove''"
| "op_name OFieldRefCopy = ''FieldRefCopy''"
| "op_name OArrayRefMove = ''ArrayRefMove''"
| "op_name OArrayRefCopy = ''ArrayRefCopy''"
| "op_name OArrayRefMoveConst = ''ArrayRefMoveConst''"
| "op_name OArrayRefCopyConst = ''ArrayRefCopyConst''"
| "op_name OLoad = ''Load''"
| "op_name OStoreMove = ''StoreMove''"
| "op_name OStoreCopy = ''StoreCopy''"
| "op_name OLookupDynamic = ''LookupDynamic''"
| "op_name OLookupFFI = ''LookupFFI''"
| "op_name OArgMove = ''ArgMove''"
| "op_name OArgCopy = ''ArgCopy''"
| "op_name OCallStatic = ''CallStatic''"
| "op_name OCallDynamic = ''CallDynamic''"
| "op_name OTryCallDynamic = ''TryCallDynamic''"
| "op_name OFFI = ''FFI''"
| "op_name OWhenStatic = ''WhenStatic''"
| "op_name OWhenDynamic = ''WhenDynamic''"
| "op_name OTypetest = ''Typetest''"
| "op_name OTailcallStatic = ''TailcallStatic''"
| "op_name OTailcallDynamic = ''TailcallDynamic''"
| "op_name OReturn = ''Return''"
| "op_name ORaise = ''Raise''"
| "op_name OCond = ''Cond''"
| "op_name OJump = ''Jump''"
| "op_name OPtr = ''Ptr''"
| "op_name ORead = ''Read''"
| "op_name OGetRaise = ''GetRaise''"
| "op_name OSetRaise = ''SetRaise''"
| "op_name OMakeCallback = ''MakeCallback''"
| "op_name OCodePtrCallback = ''CodePtrCallback''"
| "op_name OFreeCallback = ''FreeCallback''"
| "op_name OAddExternal = ''AddExternal''"
| "op_name ORemoveExternal = ''RemoveExternal''"
| "op_name OMemoLoad = ''MemoLoad''"
| "op_name OArrayCopy = ''ArrayCopy''"
| "op_name OArrayFill = ''ArrayFill''"
| "op_name OArrayCompare = ''ArrayCompare''"
| "op_name (OBin b) = binop_name b"
| "op_name (OUn u) = unop_name u"
| "op_name (OConstant k) = const_name k"

subsection \<open>The instruction stream\<close>

definition fetch :: "vm \<Rightarrow> machine \<Rightarrow> (64 word \<times> machine) outcome" where
  "fetch V m = obind (cur m) (\<lambda>f. obind (uleb_get (bytes V) (fr_pc f)) (\<lambda>(w, pc).
     Ret (w, set_cur (\<lambda>f. f\<lparr>fr_pc := pc\<rparr>) m)))"

definition fetch_signed :: "vm \<Rightarrow> machine \<Rightarrow> (64 word \<times> machine) outcome" where
  "fetch_signed V m = obind (cur m) (\<lambda>f. obind (sleb_get (bytes V) (fr_pc f)) (\<lambda>(w, pc).
     Ret (w, set_cur (\<lambda>f. f\<lparr>fr_pc := pc\<rparr>) m)))"

definition fetch_nat :: "vm \<Rightarrow> machine \<Rightarrow> (nat \<times> machine) outcome" where
  "fetch_nat V m = obind (fetch V m) (\<lambda>(w, m). Ret (unat w, m))"

text \<open>A type identifier operand is narrowed to 32 bits where it is used.\<close>

definition fetch_type :: "vm \<Rightarrow> machine \<Rightarrow> (32 word \<times> machine) outcome" where
  "fetch_type V m = obind (fetch V m) (\<lambda>(w, m). Ret (ucast w, m))"

definition fetch_class :: "vm \<Rightarrow> machine \<Rightarrow> (32 word \<times> cls \<times> machine) outcome" where
  "fetch_class V m = obind (fetch_type V m) (\<lambda>(t, m). obind (cls_at (prog V) t) (\<lambda>c. Ret (t, c, m)))"

text \<open>\<open>Program::function\<close>: null when out of range.\<close>

definition function_at :: "vm \<Rightarrow> nat \<Rightarrow> nat option" where
  "function_at V n = (if n < length (funcs (prog V)) then Some n else None)"

subsection \<open>Register operands\<close>

text \<open>The first register operand, and one after it.\<close>

definition local_first :: "vm \<Rightarrow> machine \<Rightarrow> (nat \<times> machine) outcome" where
  "local_first V m = obind (fetch_nat V m) (\<lambda>(i, m). local_at V i m)"

definition same_vector :: "machine \<Rightarrow> machine \<Rightarrow> unit outcome" where
  "same_vector m m' = oassert (length (locals m') = length (locals m))"

definition local_next :: "vm \<Rightarrow> machine \<Rightarrow> (nat \<times> machine) outcome" where
  "local_next V m = obind (local_first V m) (\<lambda>(i, m'). obind (same_vector m m') (\<lambda>_. Ret (i, m')))"

text \<open>A moved operand that comes first, or after others.\<close>

definition move_first :: "vm \<Rightarrow> machine \<Rightarrow> (val \<times> machine) outcome" where
  "move_first V m = obind (local_first V m) (\<lambda>(i, m). take_reg i m)"

definition move_next :: "vm \<Rightarrow> machine \<Rightarrow> (val \<times> machine) outcome" where
  "move_next V m = obind (local_next V m) (\<lambda>(i, m). take_reg i m)"

text \<open>\<open>ArgReg\<close>: the next argument register.\<close>

definition next_arg :: "vm \<Rightarrow> machine \<Rightarrow> (nat \<times> machine) outcome" where
  "next_arg V m = obind (arg_at V (args m) m) (\<lambda>(i, m). Ret (i, m\<lparr>args := Suc (args m)\<rparr>))"

subsection \<open>Operators\<close>

fun run_binop :: "vm \<Rightarrow> binop_code \<Rightarrow> val \<Rightarrow> val \<Rightarrow> val outcome" where
  "run_binop V BAdd a b = op_add (fpu V) a b"
| "run_binop V BSub a b = op_sub (fpu V) a b"
| "run_binop V BMul a b = op_mul (fpu V) a b"
| "run_binop V BDiv a b = op_div (fpu V) a b"
| "run_binop V BMod a b = op_mod (fpu V) a b"
| "run_binop V BPow a b = op_pow (fpu V) a b"
| "run_binop V BAnd a b = op_and a b"
| "run_binop V BOr a b = op_or a b"
| "run_binop V BXor a b = op_xor a b"
| "run_binop V BShl a b = op_shl a b"
| "run_binop V BShr a b = op_shr a b"
| "run_binop V BEq a b = Ret (op_eq a b)"
| "run_binop V BNe a b = Ret (op_ne a b)"
| "run_binop V BLt a b = op_lt a b"
| "run_binop V BLe a b = op_le a b"
| "run_binop V BGt a b = op_gt a b"
| "run_binop V BGe a b = op_ge a b"
| "run_binop V BMin a b = op_min a b"
| "run_binop V BMax a b = op_max a b"
| "run_binop V BLogBase a b = op_logbase (fpu V) a b"
| "run_binop V BAtan2 a b = op_atan2 (fpu V) a b"

definition op_len :: "val \<Rightarrow> heap \<Rightarrow> val outcome" where
  "op_len v h = (case v of
     ArrayV p ro \<Rightarrow> obind (array_size p h) (\<lambda>n. Ret (USizeV (of_nat n)))
   | _ \<Rightarrow> Ret (USizeV 1))"

fun run_unop :: "vm \<Rightarrow> unop_code \<Rightarrow> val \<Rightarrow> heap \<Rightarrow> val outcome" where
  "run_unop V UNeg v h = op_neg v"
| "run_unop V UNot v h = op_not v"
| "run_unop V UAbs v h = op_abs v"
| "run_unop V (UFloat f) v h = op_float (fpu V) f v"
| "run_unop V UIsInf v h = op_isinf v"
| "run_unop V UIsNaN v h = op_isnan v"
| "run_unop V UBits v h = op_bits (fpu V) v"
| "run_unop V ULen v h = op_len v h"

text \<open>The doubles nearest to the constants; infinity; the quiet NaN.\<close>

fun const_value :: "const_code \<Rightarrow> val" where
  "const_value KE = F64V 0x4005BF0A8B145769"
| "const_value KPi = F64V 0x400921FB54442D18"
| "const_value KInf = F64V 0x7FF0000000000000"
| "const_value KNaN = F64V 0x7FF8000000000000"

text \<open>\<open>op_ptr\<close>: the address of the data, of the operand's own copy for a primitive.\<close>

definition op_ptr :: "vm \<Rightarrow> val \<Rightarrow> val outcome" where
  "op_ptr V v = (case v of
     NoneV \<Rightarrow> Ret (PtrV 0 False)
   | FunctionV f \<Rightarrow> Ret (FunctionV f)
   | _ \<Rightarrow> if vtype_code (get_value_type v) \<le> vtype_code VArray then Ret (PtrV (pointer_bits (fpu V) v) False)
          else Raise BadOperand)"

text \<open>The literal of a \<open>Const\<close> instruction.\<close>

definition read_const :: "vm \<Rightarrow> primitive \<Rightarrow> machine \<Rightarrow> (val \<times> machine) outcome" where
  "read_const V t m = (case t of
     PNone \<Rightarrow> Ret (NoneV, m)
   | PBool \<Rightarrow> obind (fetch V m) (\<lambda>(w, m). Ret (BoolV (w \<noteq> 0), m))
   | PI8 \<Rightarrow> obind (fetch_signed V m) (\<lambda>(w, m). Ret (I8V (ucast w), m))
   | PI16 \<Rightarrow> obind (fetch_signed V m) (\<lambda>(w, m). Ret (I16V (ucast w), m))
   | PI32 \<Rightarrow> obind (fetch_signed V m) (\<lambda>(w, m). Ret (I32V (ucast w), m))
   | PI64 \<Rightarrow> obind (fetch_signed V m) (\<lambda>(w, m). Ret (I64V w, m))
   | PU8 \<Rightarrow> obind (fetch V m) (\<lambda>(w, m). Ret (U8V (ucast w), m))
   | PU16 \<Rightarrow> obind (fetch V m) (\<lambda>(w, m). Ret (U16V (ucast w), m))
   | PU32 \<Rightarrow> obind (fetch V m) (\<lambda>(w, m). Ret (U32V (ucast w), m))
   | PU64 \<Rightarrow> obind (fetch V m) (\<lambda>(w, m). Ret (U64V w, m))
   | PILong \<Rightarrow> obind (fetch_signed V m) (\<lambda>(w, m). Ret (ILongV w, m))
   | PISize \<Rightarrow> obind (fetch_signed V m) (\<lambda>(w, m). Ret (ISizeV w, m))
   | PULong \<Rightarrow> obind (fetch V m) (\<lambda>(w, m). Ret (ULongV w, m))
   | PUSize \<Rightarrow> obind (fetch V m) (\<lambda>(w, m). Ret (USizeV w, m))
   | PF32 \<Rightarrow> obind (fetch_signed V m) (\<lambda>(w, m). Ret (F32V (ucast w), m))
   | PF64 \<Rightarrow> obind (fetch_signed V m) (\<lambda>(w, m). Ret (F64V w, m))
   | PPtr \<Rightarrow> Raise BadConversion)"

definition fetch_prim :: "vm \<Rightarrow> machine \<Rightarrow> (primitive option \<times> machine) outcome" where
  "fetch_prim V m = obind (fetch V m) (\<lambda>(w, m). Ret (primitive_of (unat (ucast w :: 8 word)), m))"

definition fetch_region_type :: "vm \<Rightarrow> machine \<Rightarrow> (region_type \<times> machine) outcome" where
  "fetch_region_type V m = obind (fetch V m) (\<lambda>(w, m). Ret (region_type_of (ucast w), m))"

end
