(* ===== verification/Ir.thy ===== *)
theory Ir
  imports Sequent Opcodes
begin

text \<open>
  The language \<^verbatim>\<open>wfIR\<close> of \<^verbatim>\<open>include/vir.h\<close>, which both front ends produce and the passes of
  \<^verbatim>\<open>virc\<close> and the emitter work on. Types are Trieste nodes, so that the proof search of theory
  \<open>Sequent\<close> applies to them; the other productions are datatypes and records with their fields in
  the order of the production. A name is the text of the node's location. The operators and
  constants, one production each, are grouped as their opcodes are.
\<close>

subsection \<open>Types\<close>

datatype ir_label =
    LDyn | LPrim primitive | LClassId string | LTypeId string
  | LArray | LRef | LCown | LUnion | LTuple

type_synonym ir_type = "ir_label node"

definition prim_type :: "primitive \<Rightarrow> ir_type" where "prim_type p = Node (LPrim p) []"
definition dyn_type :: ir_type where "dyn_type = Node LDyn []"
definition array_of :: "ir_type \<Rightarrow> ir_type" where "array_of t = Node LArray [t]"
definition ref_of :: "ir_type \<Rightarrow> ir_type" where "ref_of t = Node LRef [t]"
definition cown_of :: "ir_type \<Rightarrow> ir_type" where "cown_of t = Node LCown [t]"

text \<open>The productions of \<open>wfType\<close>.\<close>

primrec wf_type :: "ir_type \<Rightarrow> bool" where
  "wf_type (Node l ts) = (list_all (\<lambda>b. b) (map wf_type ts) \<and>
     (case l of
        LArray \<Rightarrow> length ts = 1
      | LRef \<Rightarrow> length ts = 1
      | LCown \<Rightarrow> length ts = 1
      | LUnion \<Rightarrow> True
      | LTuple \<Rightarrow> 2 \<le> length ts
      | _ \<Rightarrow> ts = []))"

subsection \<open>Statements\<close>

datatype literal_kind = KNone | KTrue | KFalse | KBin | KOct | KHex | KInt | KChar | KFloat | KHexFloat

record literal =
  lit_kind :: literal_kind
  lit_text :: string

text \<open>An argument: \<open>ArgMove\<close> or \<open>ArgCopy\<close>, and the register.\<close>

datatype ir_arg = IrArg (arg_moves: bool) (arg_src: string)

datatype (plugins only: code size) stmt =
    SSource string
  | SOffset literal
  | SConst string primitive literal
  | SConstStr string bool string
  | SConvert string primitive string
  | SSingleton string string
  | SNew string string "ir_arg list"
  | SStack string string "ir_arg list"
  | SHeap string string string "ir_arg list"
  | SRegion string region_type string "ir_arg list"
  | SNewArray string ir_type string
  | SNewArrayConst string ir_type literal
  | SStackArray string ir_type string
  | SStackArrayConst string ir_type literal
  | SHeapArray string string ir_type string
  | SHeapArrayConst string string ir_type literal
  | SRegionArray string region_type ir_type string
  | SRegionArrayConst string region_type ir_type literal
  | SCopy string string
  | SMove string string
  | SDrop string
  | SFreeze string string
  | SPin string string
  | SUnpin string string
  | SMerge string string string
  | SFFIStruct string ir_type
  | SFFILoad string string string string ir_type
  | SFFIStore string string string string string ir_type
  | SRegisterRef string string
  | SFieldRef string ir_arg string
  | SArrayRef string ir_arg string
  | SArrayRefConst string ir_arg literal
  | SLoad string string
  | SStore string string ir_arg
  | SLookup string string string
  | SCall string string "ir_arg list"
  | SCallDyn string string "ir_arg list"
  | STryCallDyn string string "ir_arg list"
  | SFFI string string "ir_arg list"
  | SWhen string string "ir_arg list" ir_type
  | SWhenDyn string string "ir_arg list" ir_type
  | SGetRaise string
  | SSetRaise string string
  | STypetest string string ir_type
  | SBin binop_code string string string
  | SUn unop_code string string
  | SMakePtr string string
  | SRead string string
  | SConstant const_code string
  | SMakeCallback string string
  | SCodePtrCallback string string
  | SFreeCallback string string
  | SAddExternal string
  | SRemoveExternal string
  | SMemoSlot string string
  | SArrayCopy string "ir_arg list"
  | SArrayFill string "ir_arg list"
  | SArrayCompare string "ir_arg list"

datatype terminator =
    TTailcall string "ir_arg list"
  | TTailcallDyn string "ir_arg list"
  | TReturn string
  | TRaise string ir_type
  | TCond string string string
  | TJump string

subsection \<open>Functions, classes, libraries\<close>

record block =
  blk_name :: string
  blk_body :: "stmt list"
  blk_term :: terminator

record ir_func =
  fn_name :: string
  fn_params :: "(string \<times> ir_type) list"
  fn_type :: ir_type
  fn_vars :: "(string \<times> ir_type) list"
  fn_blocks :: "block list"

record ir_class =
  icls_name :: string
  icls_fields :: "(string \<times> ir_type) list"
  icls_methods :: "(string \<times> string) list"

record ir_symbol =
  isym_name :: string
  isym_lhs :: string
  isym_rhs :: string
  isym_vararg :: bool
  isym_params :: "ir_type list"
  isym_return :: ir_type

record ir_lib =
  lib_path :: string
  lib_symbols :: "ir_symbol list"
  lib_init :: "string option"

datatype toplevel =
    TopPrimitive ir_type "(string \<times> string) list"
  | TopClass ir_class
  | TopType string ir_type
  | TopFunc ir_func
  | TopFuncOnce ir_func
  | TopLib ir_lib
  | TopMemoInit "string list"

type_synonym ir_program = "toplevel list"

subsection \<open>Definitions of a statement\<close>

text \<open>
  The pattern \<open>Def\<close> of \<^verbatim>\<open>virc/passes/patterns.h\<close> and the register it defines; \<open>Source\<close>, \<open>Offset\<close>
  and \<open>Drop\<close> define none.
\<close>

primrec stmt_def :: "stmt \<Rightarrow> string option" where
  "stmt_def (SSource s) = None"
| "stmt_def (SOffset l) = None"
| "stmt_def (SDrop s) = None"
| "stmt_def (SConst d t l) = Some d"
| "stmt_def (SConstStr d raw s) = Some d"
| "stmt_def (SConvert d t s) = Some d"
| "stmt_def (SSingleton d c) = Some d"
| "stmt_def (SNew d c as) = Some d"
| "stmt_def (SStack d c as) = Some d"
| "stmt_def (SHeap d s c as) = Some d"
| "stmt_def (SRegion d r c as) = Some d"
| "stmt_def (SNewArray d t s) = Some d"
| "stmt_def (SNewArrayConst d t l) = Some d"
| "stmt_def (SStackArray d t s) = Some d"
| "stmt_def (SStackArrayConst d t l) = Some d"
| "stmt_def (SHeapArray d h t s) = Some d"
| "stmt_def (SHeapArrayConst d h t l) = Some d"
| "stmt_def (SRegionArray d r t s) = Some d"
| "stmt_def (SRegionArrayConst d r t l) = Some d"
| "stmt_def (SCopy d s) = Some d"
| "stmt_def (SMove d s) = Some d"
| "stmt_def (SFreeze d s) = Some d"
| "stmt_def (SPin d s) = Some d"
| "stmt_def (SUnpin d s) = Some d"
| "stmt_def (SMerge d l r) = Some d"
| "stmt_def (SFFIStruct d t) = Some d"
| "stmt_def (SFFILoad d l r k t) = Some d"
| "stmt_def (SFFIStore d l r k v t) = Some d"
| "stmt_def (SRegisterRef d s) = Some d"
| "stmt_def (SFieldRef d a f) = Some d"
| "stmt_def (SArrayRef d a s) = Some d"
| "stmt_def (SArrayRefConst d a l) = Some d"
| "stmt_def (SLoad d s) = Some d"
| "stmt_def (SStore d s a) = Some d"
| "stmt_def (SLookup d s m) = Some d"
| "stmt_def (SCall d f as) = Some d"
| "stmt_def (SCallDyn d s as) = Some d"
| "stmt_def (STryCallDyn d s as) = Some d"
| "stmt_def (SFFI d s as) = Some d"
| "stmt_def (SWhen d f as c) = Some d"
| "stmt_def (SWhenDyn d s as c) = Some d"
| "stmt_def (SGetRaise d) = Some d"
| "stmt_def (SSetRaise d s) = Some d"
| "stmt_def (STypetest d s t) = Some d"
| "stmt_def (SBin b d l r) = Some d"
| "stmt_def (SUn u d s) = Some d"
| "stmt_def (SMakePtr d s) = Some d"
| "stmt_def (SRead d s) = Some d"
| "stmt_def (SConstant k d) = Some d"
| "stmt_def (SMakeCallback d s) = Some d"
| "stmt_def (SCodePtrCallback d s) = Some d"
| "stmt_def (SFreeCallback d s) = Some d"
| "stmt_def (SAddExternal d) = Some d"
| "stmt_def (SRemoveExternal d) = Some d"
| "stmt_def (SMemoSlot d f) = Some d"
| "stmt_def (SArrayCopy d as) = Some d"
| "stmt_def (SArrayFill d as) = Some d"
| "stmt_def (SArrayCompare d as) = Some d"

text \<open>The labels a terminator may go to, in the order the code visits them.\<close>

primrec term_targets :: "terminator \<Rightarrow> string list" where
  "term_targets (TTailcall f as) = []"
| "term_targets (TTailcallDyn r as) = []"
| "term_targets (TReturn r) = []"
| "term_targets (TRaise r t) = []"
| "term_targets (TCond r l1 l2) = [l1, l2]"
| "term_targets (TJump l) = [l]"

end
