(* ===== verification/TypeIds.thy ===== *)
theory TypeIds
  imports Ir TypeTable
begin

text \<open>
  The identifiers of \<open>Compilation\<close> (\<^verbatim>\<open>virc/model/compilation.cc\<close>, \<^verbatim>\<open>name_table.cc\<close>,
  \<^verbatim>\<open>type_table.h\<close>).

  An identifier map from interned names to consecutive numbers is the list of the names in the
  order they were added (\<open>find_id\<close>, \<open>add_id\<close>); interning is itself such a table, so the names
  stand for their indices. \<open>exec_strings\<close> is the table \<open>ST::exec\<close>, which the emitter writes out.
  A \<open>func_state\<close> without a function is the reserved \<open>@main\<close>.

  \<open>ir_type_id\<close> is \<open>Compilation::type_id\<close>, which numbers complex types by their contents: \<open>comp_types\<close> is \<open>types\<close> and \<open>type_info_ids\<close>
  its inverse. Aliases are followed without a check for cycles, so it has fuel. \<open>types_inv\<close> is the
  invariant (theory \<open>TypeIdLemmas\<close>).
\<close>

subsection \<open>Identifier maps\<close>

fun find_id :: "'a list \<Rightarrow> 'a \<Rightarrow> nat option" where
  "find_id [] x = None"
| "find_id (y # ys) x = (if x = y then Some 0 else map_option Suc (find_id ys x))"

definition add_id :: "'a list \<Rightarrow> 'a \<Rightarrow> 'a list" where
  "add_id xs x = (if find_id xs x = None then xs @ [x] else xs)"

lemma find_id_None [simp]: "find_id xs x = None \<longleftrightarrow> x \<notin> set xs"
  by (induction xs) auto

lemma find_id_absent [simp]: "x \<notin> set xs \<Longrightarrow> find_id xs x = None"
  by simp

lemma find_id_SomeD: "find_id xs x = Some i \<Longrightarrow> i < length xs \<and> xs ! i = x"
  by (induction xs arbitrary: i) (auto split: if_splits)

lemma find_id_append:
  "x \<in> set xs \<Longrightarrow> find_id (xs @ ys) x = find_id xs x"
  "x \<notin> set xs \<Longrightarrow> find_id (xs @ ys) x = map_option ((+) (length xs)) (find_id ys x)"
proof -
  show "x \<in> set xs \<Longrightarrow> find_id (xs @ ys) x = find_id xs x" by (induction xs) auto
  show "x \<notin> set xs \<Longrightarrow> find_id (xs @ ys) x = map_option ((+) (length xs)) (find_id ys x)"
    by (induction xs; cases "find_id ys x"; auto)
qed

lemma find_id_mono: "find_id xs x = Some i \<Longrightarrow> find_id (xs @ ys) x = Some i"
  by (metis find_id_None find_id_append(1) option.distinct(1))

lemma find_id_distinct: "distinct xs \<Longrightarrow> i < length xs \<Longrightarrow> find_id xs (xs ! i) = Some i"
  by (induction xs arbitrary: i) (auto simp: nth_Cons split: nat.splits)

lemma distinct_add_id [simp]: "distinct xs \<Longrightarrow> distinct (add_id xs x)"
  by (simp add: add_id_def)

lemma find_id_add [simp]: "\<exists>i. find_id (add_id xs x) x = Some i"
  by (cases "find_id xs x") (auto simp: add_id_def find_id_append)

subsection \<open>The compilation\<close>

datatype type_kind = KArray | KCown | KRef | KUnion | KTuple

record type_info =
  ti_kind :: type_kind
  ti_elements :: "nat list"

record label_cfg =
  cfg_pred :: "nat list"
  cfg_succ :: "nat list"

record func_state =
  fs_name :: string
  fs_func :: "ir_func option"
  fs_params :: nat
  fs_registers :: "string list"
  fs_labels :: "string list"
  fs_cfg :: "label_cfg list"

record compilation =
  comp_error :: bool
  exec_strings :: "string list"
  typealiases :: "(string \<times> ir_type) list"
  comp_primitives :: "((string \<times> string) list) option list"
  complex_primitives :: "((string \<times> string) list) option list"
  comp_classes :: "ir_class list"
  field_ids :: "string list"
  method_ids :: "string list"
  comp_functions :: "func_state list"
  comp_symbols :: "(string \<times> ir_symbol) list"
  comp_libraries :: "ir_lib list"
  comp_types :: "type_info list"
  type_info_ids :: "type_info \<Rightarrow> nat option"

definition blank_function :: "string \<Rightarrow> func_state" where
  "blank_function n = \<lparr>fs_name = n, fs_func = None, fs_params = 0, fs_registers = [], fs_labels = [], fs_cfg = []\<rparr>"

definition new_compilation :: compilation where
  "new_compilation = \<lparr>comp_error = False, exec_strings = [], typealiases = [],
     comp_primitives = replicate NumPrimitiveClasses None, complex_primitives = [], comp_classes = [],
     field_ids = [], method_ids = [''@final'', ''@callback''], comp_functions = [blank_function ''@main''],
     comp_symbols = [], comp_libraries = [], comp_types = [], type_info_ids = Map.empty\<rparr>"

definition intern :: "string \<Rightarrow> compilation \<Rightarrow> compilation" where
  "intern s c = c\<lparr>exec_strings := add_id (exec_strings c) s\<rparr>"

definition get_label_id :: "func_state \<Rightarrow> string \<Rightarrow> nat option" where
  "get_label_id f = find_id (fs_labels f)"

definition add_label :: "string \<Rightarrow> func_state \<Rightarrow> bool \<times> func_state" where
  "add_label l f = (if get_label_id f l \<noteq> None then (False, f)
     else (True, f\<lparr>fs_labels := fs_labels f @ [l], fs_cfg := fs_cfg f @ [\<lparr>cfg_pred = [], cfg_succ = []\<rparr>]\<rparr>))"

definition get_register_id :: "func_state \<Rightarrow> string \<Rightarrow> nat option" where
  "get_register_id f = find_id (fs_registers f)"

definition add_register :: "string \<Rightarrow> func_state \<Rightarrow> bool \<times> func_state" where
  "add_register r f = (get_register_id f r = None, f\<lparr>fs_registers := add_id (fs_registers f) r\<rparr>)"

definition get_typealias_id :: "compilation \<Rightarrow> string \<Rightarrow> nat option" where
  "get_typealias_id c = find_id (map fst (typealiases c))"

definition get_typealias :: "compilation \<Rightarrow> string \<Rightarrow> ir_type outcome" where
  "get_typealias c n = (case get_typealias_id c n of
     None \<Rightarrow> Stuck | Some i \<Rightarrow> Ret (snd (typealiases c ! i)))"

definition add_typealias :: "string \<Rightarrow> ir_type \<Rightarrow> compilation \<Rightarrow> bool \<times> compilation" where
  "add_typealias n t c = (if get_typealias_id c n \<noteq> None then (False, c)
     else (True, c\<lparr>typealiases := typealiases c @ [(n, t)]\<rparr>))"

definition get_class_id :: "compilation \<Rightarrow> string \<Rightarrow> nat option" where
  "get_class_id c = find_id (map icls_name (comp_classes c))"

definition add_class :: "ir_class \<Rightarrow> compilation \<Rightarrow> bool \<times> compilation" where
  "add_class cl c = (if get_class_id c (icls_name cl) \<noteq> None then (False, c)
     else (True, c\<lparr>comp_classes := comp_classes c @ [cl]\<rparr>))"

definition get_field_id :: "compilation \<Rightarrow> string \<Rightarrow> nat option" where
  "get_field_id c = find_id (field_ids c)"

definition add_field :: "string \<Rightarrow> compilation \<Rightarrow> compilation" where
  "add_field f c = c\<lparr>field_ids := add_id (field_ids c) f\<rparr>"

definition get_method_id :: "compilation \<Rightarrow> string \<Rightarrow> nat option" where
  "get_method_id c = find_id (method_ids c)"

definition add_method :: "string \<Rightarrow> compilation \<Rightarrow> compilation" where
  "add_method m c = c\<lparr>method_ids := add_id (method_ids c) m\<rparr>"

definition func_index :: "compilation \<Rightarrow> string \<Rightarrow> nat option" where
  "func_index c = find_id (map fs_name (comp_functions c))"

definition get_func_id :: "compilation \<Rightarrow> string \<Rightarrow> nat option" where
  "get_func_id c n = (case func_index c n of
     None \<Rightarrow> None
   | Some i \<Rightarrow> if fs_func (comp_functions c ! i) = None then None else Some i)"

definition get_func :: "compilation \<Rightarrow> string \<Rightarrow> func_state outcome" where
  "get_func c n = (case func_index c n of None \<Rightarrow> Stuck | Some i \<Rightarrow> Ret (comp_functions c ! i))"

definition update_func :: "nat \<Rightarrow> func_state \<Rightarrow> compilation \<Rightarrow> compilation" where
  "update_func i f c = c\<lparr>comp_functions := (comp_functions c)[i := f]\<rparr>"

text \<open>The new state's index comes back with the compilation.\<close>

definition add_func :: "ir_func \<Rightarrow> compilation \<Rightarrow> nat \<times> compilation" where
  "add_func f c =
     (let (i, c) = (case func_index c (fn_name f) of
          None \<Rightarrow> (length (comp_functions c), c\<lparr>comp_functions := comp_functions c @ [(blank_function (fn_name f))\<lparr>fs_func := Some f\<rparr>]\<rparr>)
        | Some i \<Rightarrow> (i, update_func i ((comp_functions c ! i)\<lparr>fs_func := Some f\<rparr>) c))
      in (i, update_func i ((comp_functions c ! i)\<lparr>fs_name := fn_name f, fs_params := length (fn_params f)\<rparr>) c))"

definition get_symbol_id :: "compilation \<Rightarrow> string \<Rightarrow> nat option" where
  "get_symbol_id c = find_id (map (isym_name \<circ> snd) (comp_symbols c))"

text \<open>A symbol is kept with the path of the library it stands in, its \<open>parent(Lib)\<close>.\<close>

definition add_symbol :: "string \<Rightarrow> ir_symbol \<Rightarrow> compilation \<Rightarrow> bool \<times> compilation" where
  "add_symbol lp s c = (if get_symbol_id c (isym_name s) \<noteq> None then (False, c)
     else (True, (intern (isym_rhs s) (intern (isym_lhs s) c))\<lparr>comp_symbols := comp_symbols c @ [(lp, s)]\<rparr>))"

definition get_library_id :: "compilation \<Rightarrow> string \<Rightarrow> nat option" where
  "get_library_id c = find_id (map lib_path (comp_libraries c))"

definition add_library :: "ir_lib \<Rightarrow> compilation \<Rightarrow> compilation" where
  "add_library l c = (let c = intern (lib_path l) c in
     if get_library_id c (lib_path l) \<noteq> None then c else c\<lparr>comp_libraries := comp_libraries c @ [l]\<rparr>)"

subsection \<open>Type numbers\<close>

definition DynId :: nat where "DynId = 2 ^ 32 - 1"

definition first_complex :: "compilation \<Rightarrow> nat" where
  "first_complex c = length (comp_classes c) + NumPrimitiveClasses"

definition number_info :: "type_info \<Rightarrow> compilation \<Rightarrow> nat \<times> compilation" where
  "number_info info c = (case type_info_ids c info of
     Some i \<Rightarrow> (i, c)
   | None \<Rightarrow> (let i = length (comp_types c) + first_complex c in
       (i, c\<lparr>type_info_ids := (type_info_ids c)(info \<mapsto> i), comp_types := comp_types c @ [info]\<rparr>)))"

fun map_state :: "('a \<Rightarrow> 's \<Rightarrow> ('b \<times> 's) outcome) \<Rightarrow> 'a list \<Rightarrow> 's \<Rightarrow> ('b list \<times> 's) outcome" where
  "map_state f [] s = Ret ([], s)"
| "map_state f (x # xs) s = obind (f x s) (\<lambda>(y, s). obind (map_state f xs s) (\<lambda>(ys, s). Ret (y # ys, s)))"

definition complex_kind :: "ir_label \<Rightarrow> type_kind option" where
  "complex_kind l = (case l of LArray \<Rightarrow> Some KArray | LCown \<Rightarrow> Some KCown | LRef \<Rightarrow> Some KRef
     | LUnion \<Rightarrow> Some KUnion | LTuple \<Rightarrow> Some KTuple | _ \<Rightarrow> None)"

text \<open>\<open>std::sort\<close> and \<open>std::unique\<close> on the members of a union.\<close>

definition type_elements :: "type_kind \<Rightarrow> nat list \<Rightarrow> nat list" where
  "type_elements k is = (if k = KUnion then remdups_adj (sort is) else is)"

fun ir_type_id :: "nat \<Rightarrow> ir_type \<Rightarrow> compilation \<Rightarrow> (nat \<times> compilation) outcome" where
  "ir_type_id 0 t c = Stuck"
| "ir_type_id (Suc n) t c = (case label t of
     LTypeId x \<Rightarrow> obind (get_typealias c x) (\<lambda>t. ir_type_id n t c)
   | LDyn \<Rightarrow> Ret (DynId, c)
   | LPrim p \<Rightarrow> Ret (primitive_code p, c)
   | LClassId x \<Rightarrow> (case get_class_id c x of None \<Rightarrow> Stuck | Some i \<Rightarrow> Ret (i + NumPrimitiveClasses, c))
   | l \<Rightarrow> (case complex_kind l of
       None \<Rightarrow> Stuck
     | Some k \<Rightarrow>
         if k \<in> {KArray, KCown, KRef} \<and> length (subnodes t) \<noteq> 1 then Stuck
         else obind (map_state (ir_type_id n) (subnodes t) c) (\<lambda>(is, c).
           Ret (number_info \<lparr>ti_kind = k, ti_elements = type_elements k is\<rparr> c))))"

end
