(* ===== verification/TypeIdLemmas.thy ===== *)
theory TypeIdLemmas
  imports TypeIds
begin

text \<open>
  What \<open>ir_type_id\<close> keeps: the table and its inverse agree, every element is numbered before the
  type that has it (\<open>types_inv\<close>), and numbers once given stay (\<open>grows\<close>). \<open>numbered\<close> is the
  specification of the numbering, as a relation; it is a function of the type, and equal numbers
  are given to equal types up to aliases and the order of unions. \<open>known\<close> are the types
  whose aliases unfold, on which the function returns.
\<close>

lemma list_all2_member:
  "list_all2 P xs ys \<Longrightarrow> x \<in> set xs \<Longrightarrow> \<exists>y \<in> set ys. P x y"
  "list_all2 P xs ys \<Longrightarrow> y \<in> set ys \<Longrightarrow> \<exists>x \<in> set xs. P x y"
  by (induction rule: list_all2_induct) auto

definition known_number :: "compilation \<Rightarrow> nat \<Rightarrow> nat \<Rightarrow> bool" where
  "known_number c j i = (i = DynId \<or> i < first_complex c + j)"

definition kind_ok :: "type_info \<Rightarrow> bool" where
  "kind_ok t = (ti_kind t \<in> {KArray, KCown, KRef} \<longrightarrow> length (ti_elements t) = 1)"

definition types_inv :: "compilation \<Rightarrow> bool" where
  "types_inv c = (distinct (comp_types c)
     \<and> (\<forall>info i. type_info_ids c info = Some i \<longleftrightarrow>
          (\<exists>j < length (comp_types c). comp_types c ! j = info \<and> i = first_complex c + j))
     \<and> (\<forall>j < length (comp_types c). kind_ok (comp_types c ! j)
          \<and> (\<forall>i \<in> set (ti_elements (comp_types c ! j)). known_number c j i)))"

definition grows :: "compilation \<Rightarrow> compilation \<Rightarrow> bool" where
  "grows c c' = (c'\<lparr>comp_types := comp_types c, type_info_ids := type_info_ids c\<rparr> = c
     \<and> (\<exists>ts. comp_types c' = comp_types c @ ts) \<and> type_info_ids c \<subseteq>\<^sub>m type_info_ids c')"

lemma grows_refl [simp]: "grows c c"
  by (simp add: grows_def)

lemma growsD:
  assumes "grows c c'"
  shows "typealiases c' = typealiases c" "comp_classes c' = comp_classes c"
    "first_complex c' = first_complex c" "length (comp_types c) \<le> length (comp_types c')"
    "type_info_ids c \<subseteq>\<^sub>m type_info_ids c'"
    "get_typealias c' x = get_typealias c x" "get_class_id c' y = get_class_id c y"
proof -
  have e: "c'\<lparr>comp_types := comp_types c, type_info_ids := type_info_ids c\<rparr> = c" using assms by (simp add: grows_def)
  from arg_cong [OF e, of typealiases] show 1: "typealiases c' = typealiases c" by simp
  from arg_cong [OF e, of comp_classes] show 2: "comp_classes c' = comp_classes c" by simp
  show "first_complex c' = first_complex c" "get_typealias c' x = get_typealias c x" "get_class_id c' y = get_class_id c y"
    by (simp_all add: first_complex_def get_typealias_def get_typealias_id_def get_class_id_def 1 2 cong: option.case_cong)
  show "length (comp_types c) \<le> length (comp_types c')" "type_info_ids c \<subseteq>\<^sub>m type_info_ids c'"
    using assms by (auto simp: grows_def)
qed

lemma grows_trans:
  assumes "grows a b" "grows b c"
  shows "grows a c"
  using assms by (cases a; cases b; cases c) (auto simp: grows_def intro: map_le_trans)

lemma number_info_new:
  assumes "type_info_ids c info = None"
  shows "number_info info c = (length (comp_types c) + first_complex c,
    c\<lparr>type_info_ids := (type_info_ids c)(info \<mapsto> length (comp_types c) + first_complex c), comp_types := comp_types c @ [info]\<rparr>)"
  using assms by (simp add: number_info_def Let_def)

lemma number_info_old: "type_info_ids c info = Some i \<Longrightarrow> number_info info c = (i, c)"
  by (simp add: number_info_def)

lemma number_info_grows: "number_info info c = (i, c') \<Longrightarrow> grows c c'"
  by (cases "type_info_ids c info") (auto simp: number_info_new number_info_old grows_def map_le_def)

lemma map_state_grows:
  assumes "\<And>x s y s'. f x s = Ret (y, s') \<Longrightarrow> grows s s'" "map_state f xs s = Ret (ys, s')"
  shows "grows s s'"
  using assms(2) by (induction xs arbitrary: s ys) (auto simp: outcome_simps intro: grows_trans assms(1))

text \<open>The cases of a call that returns.\<close>

lemma ir_type_id_simps:
  "ir_type_id (Suc n) (Node (LTypeId x) ts) c = obind (get_typealias c x) (\<lambda>t. ir_type_id n t c)"
  "ir_type_id (Suc n) (Node LDyn ts) c = Ret (DynId, c)"
  "ir_type_id (Suc n) (Node (LPrim p) ts) c = Ret (primitive_code p, c)"
  "ir_type_id (Suc n) (Node (LClassId x) ts) c =
     (case get_class_id c x of None \<Rightarrow> Stuck | Some i \<Rightarrow> Ret (i + NumPrimitiveClasses, c))"
  by (simp_all add: complex_kind_def)

lemma ir_type_id_complex:
  "complex_kind l = Some k \<Longrightarrow> ir_type_id (Suc n) (Node l ts) c =
     (if k \<in> {KArray, KCown, KRef} \<and> length ts \<noteq> 1 then Stuck
      else obind (map_state (ir_type_id n) ts c) (\<lambda>(js, c).
        Ret (number_info \<lparr>ti_kind = k, ti_elements = type_elements k js\<rparr> c)))"
  by (cases l) (simp_all add: complex_kind_def)

declare ir_type_id.simps(2) [simp del]

lemma ir_type_id_cases [consumes 1, case_names named dyn prim user complex]:
  assumes "ir_type_id (Suc n) t c = Ret (i, c')"
  obtains x ts d where "t = Node (LTypeId x) ts" "get_typealias c x = Ret d" "ir_type_id n d c = Ret (i, c')"
  | ts where "t = Node LDyn ts" "i = DynId" "c' = c"
  | p ts where "t = Node (LPrim p) ts" "i = primitive_code p" "c' = c"
  | x ts k where "t = Node (LClassId x) ts" "get_class_id c x = Some k" "i = k + NumPrimitiveClasses" "c' = c"
  | l ts k js c1 where "t = Node l ts" "complex_kind l = Some k" "k \<in> {KArray, KCown, KRef} \<longrightarrow> length ts = 1"
      "map_state (ir_type_id n) ts c = Ret (js, c1)"
      "number_info \<lparr>ti_kind = k, ti_elements = type_elements k js\<rparr> c1 = (i, c')"
proof (cases t)
  case (Node l ts)
  consider x where "l = LTypeId x" | "l = LDyn" | p where "l = LPrim p" | x where "l = LClassId x"
    | k where "complex_kind l = Some k" by (cases l) (auto simp: complex_kind_def)
  then show thesis
  proof cases
    case 1
    with assms Node that(1) show thesis by (auto simp: ir_type_id_simps outcome_simps)
  next
    case 2
    with assms Node that(2) show thesis by (auto simp: ir_type_id_simps)
  next
    case 3
    with assms Node that(3) show thesis by (auto simp: ir_type_id_simps)
  next
    case 4
    with assms Node obtain k where "get_class_id c x = Some k" "i = k + NumPrimitiveClasses" "c' = c"
      by (auto simp: ir_type_id_simps split: option.splits)
    with 4 Node show thesis using that(4) by blast
  next
    case 5
    let ?rest = "obind (map_state (ir_type_id n) ts c) (\<lambda>(js, c1).
        Ret (number_info \<lparr>ti_kind = k, ti_elements = type_elements k js\<rparr> c1))"
    have e: "(if k \<in> {KArray, KCown, KRef} \<and> length ts \<noteq> 1 then Stuck else ?rest) = Ret (i, c')"
      using assms Node by (simp only: ir_type_id_complex [OF 5])
    have ok: "\<not> (k \<in> {KArray, KCown, KRef} \<and> length ts \<noteq> 1)"
    proof
      assume "k \<in> {KArray, KCown, KRef} \<and> length ts \<noteq> 1"
      from e [unfolded if_P [OF this]] show False by simp
    qed
    from e [unfolded if_not_P [OF ok]] obtain js c1 where
      "map_state (ir_type_id n) ts c = Ret (js, c1)"
      "number_info \<lparr>ti_kind = k, ti_elements = type_elements k js\<rparr> c1 = (i, c')"
      unfolding obind_eq_Ret by auto
    with that(5) Node 5 ok show thesis by blast
  qed
qed

lemma ir_type_id_grows: "ir_type_id n t c = Ret (i, c') \<Longrightarrow> grows c c'"
proof (induction n arbitrary: t c i c')
  case (Suc n)
  from Suc.prems show ?case
  proof (cases rule: ir_type_id_cases)
    case (complex l ts k js c1)
    from map_state_grows [OF Suc.IH complex(4)] number_info_grows [OF complex(5)]
    show ?thesis by (rule grows_trans)
  qed (use Suc.IH in auto)
qed simp

text \<open>What \<open>number_info\<close> keeps.\<close>

lemma known_number_mono: "known_number c j i \<Longrightarrow> j \<le> k \<Longrightarrow> first_complex c' = first_complex c \<Longrightarrow> known_number c' k i"
  by (auto simp: known_number_def)

lemma number_info_inv:
  assumes inv: "types_inv c" and ok: "kind_ok info" and known: "\<forall>i \<in> set (ti_elements info). known_number c (length (comp_types c)) i"
    and n: "number_info info c = (i, c')"
  shows "types_inv c'" "type_info_ids c' info = Some i" "known_number c' (length (comp_types c')) i"
proof -
  note inv = inv [unfolded types_inv_def]
  have "types_inv c' \<and> type_info_ids c' info = Some i \<and> known_number c' (length (comp_types c')) i"
  proof (cases "type_info_ids c info")
    case (Some j)
    then have "i = j" "c' = c" using n by (simp_all add: number_info_old)
    moreover from Some inv obtain k where "k < length (comp_types c)" "j = first_complex c + k" by blast
    ultimately show ?thesis using assms(1) Some by (simp add: known_number_def)
  next
    case None
    then have fresh: "info \<notin> set (comp_types c)" using inv by (metis in_set_conv_nth option.distinct(1))
    have c': "c' = c\<lparr>type_info_ids := (type_info_ids c)(info \<mapsto> length (comp_types c) + first_complex c), comp_types := comp_types c @ [info]\<rparr>"
      and i: "i = length (comp_types c) + first_complex c" using n number_info_new [OF None] by auto
    have fc: "first_complex c' = first_complex c" by (simp add: c' first_complex_def)
    have 1: "type_info_ids c' x = Some k \<longleftrightarrow>
        (\<exists>j < length (comp_types c'). comp_types c' ! j = x \<and> k = first_complex c' + j)" for x k
      unfolding fc using inv fresh by (auto simp: c' nth_append less_Suc_eq in_set_conv_nth)
    have 2: "kind_ok (comp_types c' ! j) \<and> (\<forall>i \<in> set (ti_elements (comp_types c' ! j)). known_number c' j i)"
      if "j < length (comp_types c')" for j
    proof (cases "j < length (comp_types c)")
      case True
      then have "comp_types c' ! j = comp_types c ! j" by (simp add: c' nth_append)
      with True inv show ?thesis by (auto intro: known_number_mono [OF _ order_refl fc])
    next
      case False
      with that have "j = length (comp_types c)" by (simp add: c')
      then show ?thesis using ok known by (auto simp: c' intro: known_number_mono [OF _ order_refl fc, unfolded c'])
    qed
    have "distinct (comp_types c')" using inv fresh by (simp add: c')
    with 1 2 have "types_inv c'" unfolding types_inv_def by blast
    moreover have "known_number c' (length (comp_types c')) i" using fc by (simp add: known_number_def i c')
    ultimately show ?thesis by (simp add: c' i)
  qed
  then show "types_inv c'" "type_info_ids c' info = Some i" "known_number c' (length (comp_types c')) i" by blast+
qed

subsection \<open>What a number denotes\<close>

inductive numbered :: "compilation \<Rightarrow> nat \<Rightarrow> ir_type \<Rightarrow> bool" for c where
  named: "get_typealias c x = Ret d \<Longrightarrow> numbered c i d \<Longrightarrow> numbered c i (Node (LTypeId x) ts)"
| dyn: "numbered c DynId (Node LDyn ts)"
| prim: "numbered c (primitive_code p) (Node (LPrim p) ts)"
| user: "get_class_id c x = Some k \<Longrightarrow> numbered c (k + NumPrimitiveClasses) (Node (LClassId x) ts)"
| complex: "complex_kind l = Some k \<Longrightarrow> k \<in> {KArray, KCown, KRef} \<longrightarrow> length ts = 1 \<Longrightarrow>
    list_all2 (numbered c) js ts \<Longrightarrow>
    type_info_ids c \<lparr>ti_kind = k, ti_elements = type_elements k js\<rparr> = Some i \<Longrightarrow> numbered c i (Node l ts)"

inductive_simps numbered_simps:
  "numbered c i (Node (LTypeId x) ts)" "numbered c i (Node LDyn ts)" "numbered c i (Node (LPrim p) ts)"
  "numbered c i (Node (LClassId x) ts)"

lemma complex_kind_simps [simp]:
  "complex_kind LDyn = None" "complex_kind (LPrim p) = None" "complex_kind (LClassId x) = None"
  "complex_kind (LTypeId x) = None" "complex_kind LArray = Some KArray" "complex_kind LCown = Some KCown"
  "complex_kind LRef = Some KRef" "complex_kind LUnion = Some KUnion" "complex_kind LTuple = Some KTuple"
  by (simp_all add: complex_kind_def)

lemma numbered_complex:
  assumes "complex_kind l = Some k"
  shows "numbered c i (Node l ts) \<longleftrightarrow> (k \<in> {KArray, KCown, KRef} \<longrightarrow> length ts = 1) \<and>
    (\<exists>js. list_all2 (numbered c) js ts \<and>
      type_info_ids c \<lparr>ti_kind = k, ti_elements = type_elements k js\<rparr> = Some i)"
  using assms by (subst numbered.simps) auto

lemma map_le_Some: "m \<subseteq>\<^sub>m m' \<Longrightarrow> m x = Some y \<Longrightarrow> m' x = Some y"
  by (auto simp: map_le_def dom_def)

lemma numbered_grows: "numbered c i t \<Longrightarrow> grows c c' \<Longrightarrow> numbered c' i t"
proof (induction rule: numbered.induct)
  case (complex l k ts js i)
  from complex.IH have "list_all2 (numbered c') js ts" by (rule list_all2_mono) (use complex.prems in blast)
  then show ?case by (rule numbered.complex [OF complex.hyps(1,2) _ map_le_Some [OF growsD(5) [OF complex.prems] complex.hyps(3)]])
qed (simp_all add: numbered_simps growsD)

lemma numbered_fun: "numbered c i t \<Longrightarrow> numbered c j t \<Longrightarrow> i = j"
proof (induction arbitrary: j rule: numbered.induct)
  case (complex l k ts js i)
  from complex.prems [unfolded numbered_complex [OF complex.hyps(1)]] obtain js' where
    js': "list_all2 (numbered c) js' ts"
    "type_info_ids c \<lparr>ti_kind = k, ti_elements = type_elements k js'\<rparr> = Some j" by blast
  from complex.IH js'(1) have "js = js'"
    by (auto simp: list_all2_conv_all_nth intro!: nth_equalityI)
  with complex.hyps(3) js'(2) show ?case by simp
qed (auto simp: numbered_simps)

lemma map_state_numbered:
  assumes f: "\<And>t c i c'. types_inv c \<Longrightarrow> f t c = Ret (i, c') \<Longrightarrow>
      types_inv c' \<and> grows c c' \<and> numbered c' i t \<and> known_number c' (length (comp_types c')) i"
    and inv: "types_inv c" and r: "map_state f ts c = Ret (js, c')"
  shows "types_inv c' \<and> grows c c' \<and> list_all2 (numbered c') js ts
    \<and> (\<forall>j \<in> set js. known_number c' (length (comp_types c')) j)"
  using inv r
proof (induction ts arbitrary: c js)
  case (Cons t ts)
  from Cons.prems(2) obtain i c1 js' where
    h: "f t c = Ret (i, c1)" "map_state f ts c1 = Ret (js', c')" "js = i # js'" by (auto simp: outcome_simps)
  note 1 = f [OF Cons.prems(1) h(1)]
  from Cons.IH [OF _ h(2)] 1 have
    2: "types_inv c'" "grows c1 c'" "list_all2 (numbered c') js' ts"
      "\<forall>j \<in> set js'. known_number c' (length (comp_types c')) j" by blast+
  have "known_number c' (length (comp_types c')) i"
    using 1 growsD(3,4) [OF 2(2)] by (auto intro: known_number_mono)
  with 1 2 h(3) show ?case by (auto intro: numbered_grows grows_trans)
qed simp

lemma type_elements_set [simp]: "set (type_elements k js) = set js"
  by (simp add: type_elements_def)

lemma kind_ok_elements:
  "k \<in> {KArray, KCown, KRef} \<longrightarrow> length js = 1 \<Longrightarrow> kind_ok \<lparr>ti_kind = k, ti_elements = type_elements k js\<rparr>"
  by (auto simp: kind_ok_def type_elements_def)

text \<open>A call that returns gives the number of the type, and keeps the invariant.\<close>

lemma ir_type_id_numbered:
  assumes "types_inv c" "ir_type_id n t c = Ret (i, c')"
  shows "types_inv c' \<and> grows c c' \<and> numbered c' i t \<and> known_number c' (length (comp_types c')) i"
  using assms
proof (induction n arbitrary: t c i c')
  case (Suc n)
  from Suc.prems(2) show ?case
  proof (cases rule: ir_type_id_cases)
    case (named x ts d)
    with Suc.IH [OF Suc.prems(1) named(3)] show ?thesis by (auto intro: numbered.named simp: growsD)
  next
    case (prim p ts)
    have "primitive_code p < NumPrimitiveClasses" by (cases p) (simp_all add: NumPrimitiveClasses_def)
    with prim Suc.prems(1) show ?thesis by (auto intro: numbered.prim simp: known_number_def first_complex_def)
  next
    case (user x ts k)
    then have "k < length (comp_classes c)" by (auto simp: get_class_id_def dest: find_id_SomeD)
    with user Suc.prems(1) show ?thesis by (auto intro: numbered.user simp: known_number_def first_complex_def)
  next
    case (complex l ts k js c1)
    from map_state_numbered [OF Suc.IH Suc.prems(1) complex(4)]
    have 1: "types_inv c1" "grows c c1" "list_all2 (numbered c1) js ts"
      "\<forall>j \<in> set js. known_number c1 (length (comp_types c1)) j" by blast+
    have "length js = length ts" using 1(3) by (rule list_all2_lengthD)
    then have "kind_ok \<lparr>ti_kind = k, ti_elements = type_elements k js\<rparr>"
      using complex(3) by (intro kind_ok_elements) simp
    from number_info_inv [OF 1(1) this _ complex(5)] 1(4)
    have 2: "types_inv c'" "type_info_ids c' \<lparr>ti_kind = k, ti_elements = type_elements k js\<rparr> = Some i"
      "known_number c' (length (comp_types c')) i" by simp_all
    have g: "grows c1 c'" using complex(5) by (rule number_info_grows)
    from 1(3) have "list_all2 (numbered c') js ts" by (rule list_all2_mono) (rule numbered_grows [OF _ g])
    with complex(2,3) have "numbered c' i t" unfolding complex(1) using 2(2) by (rule numbered.complex)
    with grows_trans [OF 1(2) g] 2 show ?thesis by blast
  qed (use Suc.prems(1) in \<open>auto simp: numbered.dyn known_number_def\<close>)
qed simp

subsection \<open>Termination\<close>

text \<open>The types whose names are declared and whose aliases unfold to the end.\<close>

inductive known :: "compilation \<Rightarrow> ir_type \<Rightarrow> bool" for c where
  "get_typealias c x = Ret d \<Longrightarrow> known c d \<Longrightarrow> known c (Node (LTypeId x) ts)"
| "known c (Node LDyn ts)"
| "known c (Node (LPrim p) ts)"
| "get_class_id c x = Some k \<Longrightarrow> known c (Node (LClassId x) ts)"
| "complex_kind l = Some k \<Longrightarrow> k \<in> {KArray, KCown, KRef} \<longrightarrow> length ts = 1 \<Longrightarrow>
    (\<And>t. t \<in> set ts \<Longrightarrow> known c t) \<Longrightarrow> known c (Node l ts)"

lemma ole_map_state [ole_intros]: "(\<And>x s. ole (f x s) (f' x s)) \<Longrightarrow> ole (map_state f xs s) (map_state f' xs s)"
  by (induction xs arbitrary: s) (auto intro!: ole_intros)

lemma ole_ir_type_id: "n \<le> m \<Longrightarrow> ole (ir_type_id n t c) (ir_type_id m t c)"
proof (induction n arbitrary: m t c)
  case (Suc n)
  then obtain m' where m: "m = Suc m'" "n \<le> m'" by (cases m) auto
  show ?case
  proof (cases t)
    case (Node l ts)
    show ?thesis unfolding Node m(1)
      by (cases l) (auto simp: ir_type_id_simps ir_type_id_complex intro!: ole_intros Suc.IH m(2))
  qed
qed (simp add: ole_intros)

lemmas ir_type_id_mono = oleD [OF ole_ir_type_id]

text \<open>How far a type is unfolded depends on the names in scope only.\<close>

definition same_scope :: "compilation \<Rightarrow> compilation \<Rightarrow> bool" where
  "same_scope c c' = (typealiases c' = typealiases c \<and> comp_classes c' = comp_classes c)"

lemma same_scopeD:
  "same_scope c c' \<Longrightarrow> get_typealias c' x = get_typealias c x" "same_scope c c' \<Longrightarrow> get_class_id c' x = get_class_id c x"
  by (simp_all add: same_scope_def get_typealias_def get_typealias_id_def get_class_id_def cong: option.case_cong)

lemma same_scope_trans: "same_scope a b \<Longrightarrow> same_scope b c \<Longrightarrow> same_scope a c"
  by (simp add: same_scope_def)

lemma grows_scope: "grows c c' \<Longrightarrow> same_scope c c'"
  by (simp add: same_scope_def growsD)

lemma map_state_returns:
  assumes "\<And>t c'. t \<in> set ts \<Longrightarrow> same_scope c c' \<Longrightarrow> \<exists>r. f t c' = Ret r"
    and "\<And>t c' i c''. f t c' = Ret (i, c'') \<Longrightarrow> same_scope c' c''"
  shows "same_scope c c' \<Longrightarrow> \<exists>r. map_state f ts c' = Ret r"
  using assms(1)
proof (induction ts arbitrary: c')
  case (Cons t ts)
  then obtain i c1 where 1: "f t c' = Ret (i, c1)" by (metis list.set_intros(1) surj_pair)
  from same_scope_trans [OF Cons.prems(1) assms(2) [OF 1]] Cons.IH Cons.prems(2)
  obtain r where "map_state f ts c1 = Ret r" by (metis list.set_intros(2))
  with 1 show ?case by (cases r) simp
qed simp

lemma ir_type_id_returns: "known c t \<Longrightarrow> \<exists>n. \<forall>c'. same_scope c c' \<longrightarrow> (\<exists>r. ir_type_id n t c' = Ret r)"
proof (induction rule: known.induct)
  case (1 x d ts)
  then obtain n where "\<forall>c'. same_scope c c' \<longrightarrow> (\<exists>r. ir_type_id n d c' = Ret r)" by blast
  then have "\<forall>c'. same_scope c c' \<longrightarrow> (\<exists>r. ir_type_id (Suc n) (Node (LTypeId x) ts) c' = Ret r)"
    using 1 by (auto simp: ir_type_id_simps same_scopeD)
  then show ?case by blast
next
  case (2 ts)
  then show ?case by (intro exI [of _ "Suc 0"]) (simp add: ir_type_id_simps)
next
  case (3 p ts)
  then show ?case by (intro exI [of _ "Suc 0"]) (simp add: ir_type_id_simps)
next
  case (4 x k ts)
  then show ?case by (intro exI [of _ "Suc 0"]) (simp add: ir_type_id_simps same_scopeD)
next
  case (5 l k ts)
  then obtain N where N: "\<And>t. t \<in> set ts \<Longrightarrow> \<forall>c'. same_scope c c' \<longrightarrow> (\<exists>r. ir_type_id (N t) t c' = Ret r)" by metis
  define n where "n = Max (insert 0 (N ` set ts))"
  have n: "\<exists>r. ir_type_id n t c' = Ret r" if "t \<in> set ts" "same_scope c c'" for t c'
  proof -
    have "N t \<le> n" using that(1) by (simp add: n_def)
    with N that show ?thesis by (meson ir_type_id_mono)
  qed
  have "\<exists>r. ir_type_id (Suc n) (Node l ts) c' = Ret r" if "same_scope c c'" for c'
  proof -
    have "\<exists>r. map_state (ir_type_id n) ts c' = Ret r"
      using map_state_returns [OF n grows_scope [OF ir_type_id_grows] that] by simp
    then obtain js c1 where "map_state (ir_type_id n) ts c' = Ret (js, c1)" by (metis surj_pair)
    moreover have "\<not> (k \<in> {KArray, KCown, KRef} \<and> length ts \<noteq> 1)" using 5(2) by blast
    ultimately show ?thesis by (simp only: ir_type_id_complex [OF 5(1)] if_False obind.simps prod.case) blast
  qed
  then show ?case by blast
qed

end
