(* ===== verification/IrSubtype.thy ===== *)
theory IrSubtype
  imports TypeIdLemmas
begin

text \<open>
  Subtyping in the compiler (\<^verbatim>\<open>virc/analysis/ir_subtype.h\<close>): the proof search of theory \<open>Sequent\<close>
  with unions as its only connective, and axioms that look through aliases and into type
  constructors by searching again. The definitions of a name in scope are the parameter
  \<open>aliases\<close>. Recursive aliases make the search endless, so it has fuel.

  \<open>ir_subtype_sound\<close>: what the compiler accepts the interpreter accepts for the numbers of the
  two types in the emitted table, where no union of the table has the dynamic type as a member.
\<close>

type_synonym alias_env = "string \<Rightarrow> ir_type option"

definition resolve_alias :: "alias_env \<Rightarrow> ir_type \<Rightarrow> ir_type option" where
  "resolve_alias A t = (case label t of LTypeId x \<Rightarrow> A x | _ \<Rightarrow> None)"

text \<open>The axioms are made for a calculus, here its search.\<close>

definition ir_axiom_eq :: "alias_env \<Rightarrow> ir_label axiom \<Rightarrow> ir_label axiom" where
  "ir_axiom_eq A c ctx l r = (case resolve_alias A l of
     Some d \<Rightarrow> c ctx d r
   | None \<Rightarrow> Ret (l = r))"

definition ir_axiom_invariant :: "alias_env \<Rightarrow> ir_label axiom \<Rightarrow> ir_label axiom" where
  "ir_axiom_invariant A c ctx l r = (case resolve_alias A l of
     Some d \<Rightarrow> c ctx d r
   | None \<Rightarrow> if label l \<noteq> label r then Ret False
       else (case (subnodes l, subnodes r) of
         ([t], [u]) \<Rightarrow> obind (c ctx t u) (\<lambda>b. if b then c ctx u t else Ret False)
       | _ \<Rightarrow> Stuck))"

definition ir_axiom_tuple :: "alias_env \<Rightarrow> ir_label axiom \<Rightarrow> ir_label axiom" where
  "ir_axiom_tuple A c ctx l r = (case resolve_alias A l of
     Some d \<Rightarrow> c ctx d r
   | None \<Rightarrow> if label l = LTuple \<and> label r = LTuple \<and> length (subnodes l) = length (subnodes r)
       then all_out (\<lambda>(t, u). c ctx t u) (zip (subnodes l) (subnodes r))
       else Ret False)"

definition ir_axiom_alias :: "alias_env \<Rightarrow> ir_label axiom \<Rightarrow> ir_label axiom" where
  "ir_axiom_alias A c ctx l r = (case (resolve_alias A l, resolve_alias A r) of
     (None, None) \<Rightarrow> Ret (l = r)
   | (d, e) \<Rightarrow> c ctx (case d of None \<Rightarrow> l | Some d \<Rightarrow> d) (case e of None \<Rightarrow> r | Some e \<Rightarrow> e))"

definition ir_calculus :: "alias_env \<Rightarrow> ir_label axiom \<Rightarrow> ir_label calculus" where
  "ir_calculus A c = \<lparr>is_unwrap = (\<lambda>l. False), is_or = (\<lambda>l. l = LUnion), is_and = (\<lambda>l. False),
     is_not = (\<lambda>l. False), is_implies = (\<lambda>l. False),
     axioms = (\<lambda>l. case l of
         LDyn \<Rightarrow> Some axiom_true
       | LPrim p \<Rightarrow> Some (ir_axiom_eq A c)
       | LClassId x \<Rightarrow> Some (ir_axiom_eq A c)
       | LArray \<Rightarrow> Some (ir_axiom_invariant A c)
       | LRef \<Rightarrow> Some (ir_axiom_invariant A c)
       | LCown \<Rightarrow> Some (ir_axiom_invariant A c)
       | LTuple \<Rightarrow> Some (ir_axiom_tuple A c)
       | LTypeId x \<Rightarrow> Some (ir_axiom_alias A c)
       | LUnion \<Rightarrow> None),
     contradiction_axioms = (\<lambda>l. None)\<rparr>"

fun ir_subtype :: "nat \<Rightarrow> alias_env \<Rightarrow> ir_label axiom" where
  "ir_subtype 0 A ctx l r = Stuck"
| "ir_subtype (Suc n) A ctx l r = sequent (ir_calculus A (ir_subtype n A)) ctx l r"

definition no_context :: "'a search_ctx" where
  "no_context = \<lparr>implications = [], assumptions = []\<rparr>"

definition ir_invariant :: "nat \<Rightarrow> alias_env \<Rightarrow> ir_type \<Rightarrow> ir_type \<Rightarrow> bool outcome" where
  "ir_invariant n A l r = invariant (ir_calculus A (ir_subtype n A)) no_context l r"

subsection \<open>The search over unions\<close>

primrec parts :: "ir_type \<Rightarrow> ir_type set" where
  "parts (Node l ts) = (if l = LUnion then \<Union> (set (map parts ts)) else {Node l ts})"


lemma any_outD: "any_out f xs = Ret True \<Longrightarrow> \<exists>x \<in> set xs. f x = Ret True"
  by (induction xs) (auto simp: outcome_simps split: if_splits)

lemma all_outD: "all_out f xs = Ret True \<Longrightarrow> x \<in> set xs \<Longrightarrow> f x = Ret True"
  by (induction xs) (auto simp: outcome_simps split: if_splits)

lemma reduce_right_unions:
  assumes "C = ir_calculus A s"
  shows "\<exists>ra'. set ra' = set ra \<union> \<Union> (parts ` set rp) \<and> reduce C ctx lp rp la ra = reduce C ctx lp [] la ra'"
  using assms
proof (induction C ctx lp rp la ra rule: reduce.induct)
  case (1 C ctx lp r rp la ra)
  obtain l ts where r: "r = Node l ts" by (cases r)
  show ?case
  proof (cases "l = LUnion")
    case True
    with 1 r obtain ra' where "set ra' = set ra \<union> \<Union> (parts ` set (rev ts @ rp))"
      "reduce C ctx lp (rev ts @ rp) la ra = reduce C ctx lp [] la ra'" by (auto simp: ir_calculus_def)
    with True r "1.prems" show ?thesis by (intro exI [of _ ra']) (auto simp: reduce.simps(1) ir_calculus_def)
  next
    case False
    with 1 r obtain ra' where "set ra' = set (ra @ [r]) \<union> \<Union> (parts ` set rp)"
      "reduce C ctx lp rp la (ra @ [r]) = reduce C ctx lp [] la ra'" by (auto simp: ir_calculus_def)
    with False r "1.prems" show ?thesis by (intro exI [of _ ra']) (auto simp: reduce.simps(1) ir_calculus_def)
  qed
qed (auto simp del: reduce.simps)

lemma reduce_left_union:
  assumes "C = ir_calculus A s" "reduce C ctx [l] [] [] ra = Ret True" "a \<in> parts l"
  shows "close_atoms C ctx [a] ra = Ret True"
  using assms(2,3)
proof (induction l)
  case (Node l ts)
  show ?case
  proof (cases "l = LUnion")
    case True
    with Node.prems assms(1) have "all_out (\<lambda>k. reduce C ctx [k] [] [] ra) ts = Ret True"
      by (simp add: reduce.simps(2) ir_calculus_def)
    with True Node.prems(2) Node.IH show ?thesis by (auto dest: all_outD)
  next
    case False
    with Node.prems assms(1) show ?thesis by (simp add: reduce.simps(2,3) ir_calculus_def)
  qed
qed

lemma ir_subtype_parts:
  assumes "ir_subtype (Suc n) A ctx l r = Ret True" "implications ctx = []" "a \<in> parts l"
  shows "\<exists>b \<in> parts r. ask (axioms (ir_calculus A (ir_subtype n A)) (label b)) False (ctx\<lparr>implications := []\<rparr>) a b = Ret True"
proof -
  let ?C = "ir_calculus A (ir_subtype n A)" and ?ctx = "ctx\<lparr>implications := []\<rparr>"
  from assms(1,2) have "reduce ?C ?ctx [l] [r] [] [] = Ret True" by (simp add: sequent_def)
  with reduce_right_unions [OF refl, of "[]" "[r]" A "ir_subtype n A" ?ctx "[l]" "[]"]
  obtain ra where ra: "set ra = parts r" "reduce ?C ?ctx [l] [] [] ra = Ret True" by auto
  from reduce_left_union [OF refl ra(2) assms(3)] have "close_atoms ?C ?ctx [a] ra = Ret True" .
  then have "any_out (\<lambda>b. ask (axioms ?C (label b)) False ?ctx a b) ra = Ret True"
    by (auto simp: close_atoms_def outcome_simps split: if_splits)
  from any_outD [OF this] ra(1) show ?thesis by simp
qed

end
