(* ===== verification/AssignIds.thy ===== *)
theory AssignIds
  imports IrSubtype
begin

text \<open>
  The pass \<^verbatim>\<open>virc/passes/assign_ids.cc\<close>, which gives every name its number and builds the control
  flow edges. Trieste's top-down passes rewrite all children of a node before they descend into
  them: first the top level (\<open>declare_top\<close>), then what is inside each declaration that was kept
  (\<open>declare_inside\<close>), then the pass's epilogue (\<open>post_assign\<close>). An error sets \<open>comp_error\<close> and
  replaces the node.
\<close>

definition flag_error :: "compilation \<Rightarrow> compilation" where
  "flag_error c = c\<lparr>comp_error := True\<rparr>"

text \<open>A handler gives whether the node was kept.\<close>

type_synonym handler = "compilation \<Rightarrow> (bool \<times> compilation) outcome"

definition accept :: "compilation \<Rightarrow> (bool \<times> compilation) outcome" where "accept c = Ret (True, c)"
definition reject :: "compilation \<Rightarrow> (bool \<times> compilation) outcome" where "reject c = Ret (False, flag_error c)"

subsection \<open>The top level\<close>

definition declare_type :: "string \<Rightarrow> ir_type \<Rightarrow> handler" where
  "declare_type x t c = (if get_class_id c x \<noteq> None then reject c
     else case add_typealias x t c of (okay, c) \<Rightarrow> if okay then accept c else reject c)"

definition declare_primitive :: "primitive \<Rightarrow> (string \<times> string) list \<Rightarrow> handler" where
  "declare_primitive p ms c = (if comp_primitives c ! primitive_code p \<noteq> None then reject c
     else accept (c\<lparr>comp_primitives := (comp_primitives c)[primitive_code p := Some ms]\<rparr>))"

text \<open>Where the name is an alias, the handler reads a capture its pattern does not make.\<close>

definition declare_class :: "ir_class \<Rightarrow> handler" where
  "declare_class cl c = (if get_typealias_id c (icls_name cl) \<noteq> None then Stuck
     else case add_class cl c of (okay, c) \<Rightarrow> if okay then accept c else reject c)"

text \<open>Names are added until one is there already.\<close>

fun add_all :: "(string \<Rightarrow> func_state \<Rightarrow> bool \<times> func_state) \<Rightarrow> string list \<Rightarrow> func_state \<Rightarrow> bool \<times> func_state" where
  "add_all add [] f = (True, f)"
| "add_all add (x # xs) f = (case add x f of (okay, f) \<Rightarrow> if okay then add_all add xs f else (False, f))"

definition declare_func :: "ir_func \<Rightarrow> handler" where
  "declare_func f c = (if get_func_id c (fn_name f) \<noteq> None then reject c
     else let (i, c) = add_func f c in
       if fn_blocks f = [] then reject c
       else if i = MainFunctionId \<and> fn_params f \<noteq> [] then reject c
       else if i = MainFunctionId \<and> label (fn_type f) \<noteq> LPrim PNone then reject c
       else (case add_all add_register (map fst (fn_params f)) (comp_functions c ! i) of (okay, s) \<Rightarrow>
         if \<not> okay then reject (update_func i s c)
         else let s = fold (\<lambda>v s. snd (add_register v s)) (map fst (fn_vars f)) s in
           case add_all add_label (map blk_name (fn_blocks f)) s of (okay, s) \<Rightarrow>
             if okay then accept (update_func i s c) else reject (update_func i s c)))"

definition declare_top :: "toplevel \<Rightarrow> handler" where
  "declare_top t c = (case t of
     TopLib l \<Rightarrow> accept (add_library l c)
   | TopType x t \<Rightarrow> declare_type x t c
   | TopPrimitive t ms \<Rightarrow> (case label t of LPrim p \<Rightarrow> declare_primitive p ms c | _ \<Rightarrow> accept c)
   | TopClass cl \<Rightarrow> declare_class cl c
   | TopFunc f \<Rightarrow> declare_func f c
   | TopFuncOnce f \<Rightarrow> accept c
   | TopMemoInit fs \<Rightarrow> accept c)"

fun declare_tops :: "ir_program \<Rightarrow> compilation \<Rightarrow> (ir_program \<times> compilation) outcome" where
  "declare_tops [] c = Ret ([], c)"
| "declare_tops (t # ts) c = obind (declare_top t c) (\<lambda>(okay, c). obind (declare_tops ts c) (\<lambda>(kept, c).
     Ret (if okay then t # kept else kept, c)))"

subsection \<open>Inside the declarations\<close>

text \<open>A second declaration of a foreign symbol has to agree with the first; variadicity is not compared.\<close>

definition compatible :: "nat \<Rightarrow> alias_env \<Rightarrow> ir_symbol \<Rightarrow> ir_symbol \<Rightarrow> bool outcome" where
  "compatible n A e s = (if isym_lhs e \<noteq> isym_lhs s \<or> isym_rhs e \<noteq> isym_rhs s then Ret False
     else obind (ir_invariant n A (isym_return e) (isym_return s)) (\<lambda>b. if \<not> b then Ret False
     else if length (isym_params e) \<noteq> length (isym_params s) then Ret False
     else all_out (\<lambda>(t, u). ir_invariant n A t u) (zip (isym_params e) (isym_params s))))"

definition declare_symbol :: "nat \<Rightarrow> alias_env \<Rightarrow> string \<Rightarrow> ir_symbol \<Rightarrow> compilation \<Rightarrow> compilation outcome" where
  "declare_symbol n A lp s c = (case get_symbol_id c (isym_name s) of
     None \<Rightarrow> Ret (snd (add_symbol lp s c))
   | Some i \<Rightarrow> obind (compatible n A (snd (comp_symbols c ! i)) s) (\<lambda>okay. Ret (if okay then c else flag_error c)))"

definition declare_method :: "string \<times> string \<Rightarrow> compilation \<Rightarrow> compilation" where
  "declare_method = (\<lambda>(m, f) c. let c = add_method m c in if get_func_id c f = None then flag_error c else c)"

definition declare_body :: "ir_func \<Rightarrow> compilation \<Rightarrow> compilation outcome" where
  "declare_body f c = (case func_index c (fn_name f) of
     None \<Rightarrow> Stuck
   | Some i \<Rightarrow> Ret (update_func i
       (fold (\<lambda>d s. snd (add_register d s)) (List.map_filter stmt_def (concat (map blk_body (fn_blocks f))))
         (comp_functions c ! i)) c))"

fun fold_out :: "('a \<Rightarrow> 's \<Rightarrow> 's outcome) \<Rightarrow> 'a list \<Rightarrow> 's \<Rightarrow> 's outcome" where
  "fold_out f [] s = Ret s"
| "fold_out f (x # xs) s = obind (f x s) (fold_out f xs)"

definition declare_inside :: "nat \<Rightarrow> alias_env \<Rightarrow> toplevel \<Rightarrow> compilation \<Rightarrow> compilation outcome" where
  "declare_inside n A t c = (case t of
     TopLib l \<Rightarrow> fold_out (declare_symbol n A (lib_path l)) (lib_symbols l) c
   | TopType x t \<Rightarrow> Ret c
   | TopPrimitive t ms \<Rightarrow> Ret (fold declare_method ms c)
   | TopClass cl \<Rightarrow> Ret (fold declare_method (icls_methods cl) (fold add_field (map fst (icls_fields cl)) c))
   | TopFunc f \<Rightarrow> declare_body f c
   | TopFuncOnce f \<Rightarrow> declare_body f c
   | TopMemoInit fs \<Rightarrow> Ret c)"

subsection \<open>The epilogue\<close>

definition add_edge :: "nat \<Rightarrow> nat \<Rightarrow> func_state \<Rightarrow> func_state" where
  "add_edge p s f = (let g = (fs_cfg f)[p := (fs_cfg f ! p)\<lparr>cfg_succ := cfg_succ (fs_cfg f ! p) @ [s]\<rparr>]
     in f\<lparr>fs_cfg := g[s := (g ! s)\<lparr>cfg_pred := cfg_pred (g ! s) @ [p]\<rparr>]\<rparr>)"

definition block_edges :: "block \<Rightarrow> func_state \<Rightarrow> func_state" where
  "block_edges b f = (case get_label_id f (blk_name b) of
     None \<Rightarrow> f
   | Some p \<Rightarrow> fold (add_edge p) (List.map_filter (get_label_id f) (term_targets (blk_term b))) f)"

definition func_edges :: "ir_func \<Rightarrow> compilation \<Rightarrow> compilation outcome" where
  "func_edges f c = (case func_index c (fn_name f) of
     None \<Rightarrow> Stuck
   | Some i \<Rightarrow> Ret (update_func i (fold block_edges (fn_blocks f) (comp_functions c ! i)) c))"

definition top_edges :: "toplevel \<Rightarrow> compilation \<Rightarrow> compilation outcome" where
  "top_edges t c = (case t of TopFunc f \<Rightarrow> func_edges f c | TopFuncOnce f \<Rightarrow> func_edges f c | _ \<Rightarrow> Ret c)"

text \<open>The type of the tuple an \<open>FFIStruct\<close> gives (\<^verbatim>\<open>virc/support/literals.cc\<close>), and all reserved types.\<close>

definition ffi_struct_result_type :: ir_type where
  "ffi_struct_result_type = Node LTuple [prim_type PUSize, array_of (prim_type PUSize), array_of (prim_type PU8)]"

definition reserved_types :: "ir_type list" where
  "reserved_types = [cown_of (prim_type PNone), array_of (prim_type PU8), array_of (array_of (prim_type PU8)),
     ref_of dyn_type, array_of (prim_type PUSize), ffi_struct_result_type]"

definition post_assign :: "ir_program \<Rightarrow> compilation \<Rightarrow> compilation outcome" where
  "post_assign ts c =
     (let c = (if fs_func (comp_functions c ! MainFunctionId) = None then flag_error c else c)
      in obind (fold_out top_edges ts c) (\<lambda>c.
         fold_out (\<lambda>t c. obind (ir_type_id 3 t c) (\<lambda>(_, c). Ret c)) reserved_types c))"

text \<open>
  \<open>n\<close> bounds the subtype searches. The names in scope are the program's aliases, the first of a
  name; they are the same for every search.
\<close>

definition scope_of :: "ir_program \<Rightarrow> alias_env" where
  "scope_of ts = map_of (List.map_filter (\<lambda>t. case t of TopType x u \<Rightarrow> Some (x, u) | _ \<Rightarrow> None) ts)"

definition assign_ids :: "nat \<Rightarrow> ir_program \<Rightarrow> (ir_program \<times> compilation) outcome" where
  "assign_ids n ts = obind (declare_tops ts new_compilation) (\<lambda>(kept, c).
     obind (fold_out (declare_inside n (scope_of kept)) kept c) (\<lambda>c.
     obind (post_assign kept c) (\<lambda>c. Ret (kept, c))))"

end
