(* ===== verification/Literals.thy ===== *)
theory Literals
  imports Ir
begin

text \<open>
  Literals (\<^verbatim>\<open>virc/support/literals.cc\<close>, \<^verbatim>\<open>literals.h\<close>): escape sequences and numbers. A string
  is its bytes. \<open>std::from_chars\<close> on integers is \<open>chars_value\<close>: the longest prefix of digits, no
  value without a digit or out of range. The conversion of a floating point literal is a parameter.
\<close>

subsection \<open>Escape sequences\<close>

definition byte_char :: "32 word \<Rightarrow> char" where
  "byte_char w = char_of (unat w)"

definition append_utf8 :: "32 word \<Rightarrow> string \<Rightarrow> string option" where
  "append_utf8 cp out =
     (if cp > 0x10FFFF \<or> (cp \<ge> 0xD800 \<and> cp \<le> 0xDFFF) then None
      else if cp < 0x80 then Some (out @ [byte_char cp])
      else if cp < 0x800 then Some (out @ [byte_char (0xC0 OR drop_bit 6 cp), byte_char (0x80 OR (cp AND 0x3F))])
      else if cp < 0x10000 then Some (out @ [byte_char (0xE0 OR drop_bit 12 cp),
        byte_char (0x80 OR (drop_bit 6 cp AND 0x3F)), byte_char (0x80 OR (cp AND 0x3F))])
      else Some (out @ [byte_char (0xF0 OR drop_bit 18 cp), byte_char (0x80 OR (drop_bit 12 cp AND 0x3F)),
        byte_char (0x80 OR (drop_bit 6 cp AND 0x3F)), byte_char (0x80 OR (cp AND 0x3F))]))"

definition digit_value :: "char \<Rightarrow> nat option" where
  "digit_value c = (let n = of_char c :: nat in
     if 48 \<le> n \<and> n \<le> 57 then Some (n - 48)
     else if 97 \<le> n \<and> n \<le> 102 then Some (n - 87)
     else if 65 \<le> n \<and> n \<le> 70 then Some (n - 55)
     else None)"

text \<open>
  \<open>parse_number\<close>'s loop: it leaves its position at the last digit when it has read \<open>max_len\<close>
  digits, and behind the last digit otherwise. \<open>max_len = 0\<close> is no limit.
\<close>

function digits_loop :: "string \<Rightarrow> nat \<Rightarrow> nat \<Rightarrow> nat \<Rightarrow> nat \<Rightarrow> 32 word \<Rightarrow> 32 word \<times> nat \<times> nat" where
  "digits_loop s base max_len i n v =
     (if i < length s then (case digit_value (s ! i) of
        None \<Rightarrow> (v, n, i)
      | Some d \<Rightarrow> if base \<le> d then (v, n, i)
          else let v = v * of_nat base + of_nat d in
            if Suc n = max_len then (v, Suc n, i) else digits_loop s base max_len (Suc i) (Suc n) v)
      else (v, n, i))"
  by pat_completeness auto
termination
  by (relation "measure (\<lambda>(s, b, m, i, n, v). length s - i)") auto

declare digits_loop.simps [simp del]

definition parse_number :: "string \<Rightarrow> nat \<Rightarrow> nat \<Rightarrow> nat \<Rightarrow> bool \<Rightarrow> 32 word \<times> nat" where
  "parse_number s i base max_len exact = (case digits_loop s base max_len i 0 0 of (v, n, i) \<Rightarrow>
     (if n = 0 \<or> (exact \<and> n \<noteq> max_len) then - 1 else v, i))"

definition simple_escape :: "char \<Rightarrow> char option" where
  "simple_escape c = map_of
     [(CHR ''a'', CHR 0x07), (CHR ''b'', CHR 0x08), (CHR ''f'', CHR 0x0C), (CHR ''n'', CHR 0x0A),
      (CHR ''r'', CHR 0x0D), (CHR ''t'', CHR 0x09), (CHR ''v'', CHR 0x0B), (CHR 0x5C, CHR 0x5C),
      (CHR 0x27, CHR 0x27), (CHR 0x22, CHR 0x22), (CHR ''?'', CHR ''?'')] c"

definition numeric_escape :: "string \<Rightarrow> nat \<Rightarrow> (32 word \<times> nat) option" where
  "numeric_escape s i = (let c = s ! i in
     if c \<in> set ''01234567'' then Some (parse_number s i 8 3 False)
     else if c = CHR ''x'' then Some (parse_number s (Suc i) 16 0 False)
     else if c = CHR ''u'' then Some (parse_number s (Suc i) 16 4 True)
     else if c = CHR ''U'' then Some (parse_number s (Suc i) 16 8 True)
     else None)"

definition escape_message :: "char \<Rightarrow> string" where
  "escape_message c = (if c \<in> set ''01234567'' then ''error: invalid octal escape sequence''
     else if c = CHR ''x'' then ''error: invalid hex escape sequence''
     else ''error: invalid unicode escape sequence'')"

text \<open>The result of a bad sequence is a message, which is a string like any other.\<close>

lemma digits_loop_ge: "snd (snd (digits_loop s b m i n v)) \<ge> i"
proof (induction s b m i n v rule: digits_loop.induct)
  case (1 s base max_len i n v)
  then show ?case
    by (subst digits_loop.simps) (auto simp: Let_def split: option.splits dest: Suc_leD)
qed

lemma parse_number_ge: "snd (parse_number s i b m e) \<ge> i"
  using digits_loop_ge [of i s b m 0 0]
  by (cases "digits_loop s b m i 0 0") (auto simp: parse_number_def)

lemma numeric_escape_ge: "numeric_escape s i = Some (v, j) \<Longrightarrow> i \<le> j"
  using parse_number_ge [of i s 8 3 False] parse_number_ge [of "Suc i" s 16 0 False]
    parse_number_ge [of "Suc i" s 16 4 True] parse_number_ge [of "Suc i" s 16 8 True]
  by (auto simp: numeric_escape_def Let_def split: if_splits)

function unescape_loop :: "string \<Rightarrow> nat \<Rightarrow> string \<Rightarrow> string" where
  "unescape_loop s i out =
     (if length s \<le> i then out
      else if s ! i \<noteq> CHR 0x5C then unescape_loop s (Suc i) (out @ [s ! i])
      else if Suc i = length s then ''error: trailing backslash''
      else case simple_escape (s ! Suc i) of
        Some c \<Rightarrow> unescape_loop s (Suc (Suc i)) (out @ [c])
      | None \<Rightarrow> (case numeric_escape s (Suc i) of
          None \<Rightarrow> ''error: unknown escape sequence''
        | Some (v, j) \<Rightarrow> (case append_utf8 v out of
            None \<Rightarrow> escape_message (s ! Suc i)
          | Some out \<Rightarrow> unescape_loop s (Suc j) out)))"
  by pat_completeness auto
termination
  by (relation "measure (\<lambda>(s, i, out). length s - i)") (auto dest: numeric_escape_ge)

declare unescape_loop.simps [simp del]

definition unescape :: "string \<Rightarrow> string" where
  "unescape s = unescape_loop s 0 ''''"

subsection \<open>Numbers\<close>

fun digits_value :: "nat \<Rightarrow> string \<Rightarrow> nat \<Rightarrow> nat" where
  "digits_value base [] v = v"
| "digits_value base (c # cs) v = digits_value base cs (v * base + the (digit_value c))"

definition is_digit :: "nat \<Rightarrow> char \<Rightarrow> bool" where
  "is_digit base c = (case digit_value c of None \<Rightarrow> False | Some d \<Rightarrow> d < base)"

definition fits_range :: "bool \<Rightarrow> nat \<Rightarrow> int \<Rightarrow> bool" where
  "fits_range sg w v = (if sg then - (2 ^ (w - 1)) \<le> v \<and> v < 2 ^ (w - 1) else 0 \<le> v \<and> v < 2 ^ w)"

definition chars_value :: "bool \<Rightarrow> nat \<Rightarrow> nat \<Rightarrow> string \<Rightarrow> int option" where
  "chars_value sg w base s =
     (let minus = sg \<and> s \<noteq> [] \<and> hd s = CHR ''-'';
          ds = takeWhile (is_digit base) (if minus then tl s else s);
          v = (if minus then - int (digits_value base ds 0) else int (digits_value base ds 0))
      in if ds \<noteq> [] \<and> fits_range sg w v then Some v else None)"

definition char_value :: "bool \<Rightarrow> nat \<Rightarrow> string \<Rightarrow> int option" where
  "char_value sg w text = (let s = unescape text in
     if take 6 s = ''error:'' then None
     else if s = [] \<or> 8 < length s then None
     else let v = fold (\<lambda>c v. v * 256 + of_char c) s (0 :: nat) in
       if fits_range sg w (int v) then Some (int v) else None)"

definition number_base :: "literal_kind \<Rightarrow> nat option" where
  "number_base k = (case k of KBin \<Rightarrow> Some 2 | KOct \<Rightarrow> Some 8 | KHex \<Rightarrow> Some 16 | KInt \<Rightarrow> Some 10 | _ \<Rightarrow> None)"

definition int_literal :: "bool \<Rightarrow> nat \<Rightarrow> literal \<Rightarrow> int option" where
  "int_literal sg w l = (if lit_kind l = KChar then char_value sg w (lit_text l)
     else let s = filter (\<lambda>c. c \<noteq> CHR ''_'') (lit_text l) in
       case number_base (lit_kind l) of
         None \<Rightarrow> None
       | Some b \<Rightarrow> chars_value sg w b (if lit_kind l = KInt then s else drop 2 s))"

text \<open>\<open>from_chars_sep_v\<close>: zero where the text has no value.\<close>

definition literal_value :: "bool \<Rightarrow> nat \<Rightarrow> literal \<Rightarrow> int" where
  "literal_value sg w l = (case int_literal sg w l of None \<Rightarrow> 0 | Some v \<Rightarrow> v)"

definition word_literal :: "bool \<Rightarrow> literal \<Rightarrow> 'a::len word" where
  "word_literal sg l = word_of_int (literal_value sg LENGTH('a) l)"

subsection \<open>What they do\<close>

lemma unescape_plain: "CHR 0x5C \<notin> set (drop i s) \<Longrightarrow> unescape_loop s i out = out @ drop i s"
proof (induction s i out rule: unescape_loop.induct)
  case (1 s i out)
  show ?case
  proof (cases "length s \<le> i")
    case True
    then show ?thesis by (simp add: unescape_loop.simps)
  next
    case False
    then have d: "drop i s = s ! i # drop (Suc i) s" by (simp add: Cons_nth_drop_Suc)
    with 1(4) have "s ! i \<noteq> CHR 0x5C" "CHR 0x5C \<notin> set (drop (Suc i) s)" by auto
    with 1(1) False show ?thesis by (subst unescape_loop.simps) (simp add: d)
  qed
qed

text \<open>A reference printer, and reading back what it prints.\<close>

definition digit_char :: "nat \<Rightarrow> char" where
  "digit_char d = (if d < 10 then char_of (48 + d) else char_of (87 + d))"

fun show_base :: "nat \<Rightarrow> nat \<Rightarrow> string" where
  "show_base b n = (if b < 2 \<or> n < b then [digit_char n] else show_base b (n div b) @ [digit_char (n mod b)])"

declare show_base.simps [simp del]

lemma digit_value_char: "d < 16 \<Longrightarrow> digit_value (digit_char d) = Some d"
  by (simp add: digit_value_def digit_char_def Let_def)

lemma digits_value_append: "digits_value b (xs @ ys) v = digits_value b ys (digits_value b xs v)"
  by (induction xs arbitrary: v) simp_all

lemma show_base_digits:
  assumes "2 \<le> b" "b \<le> 16"
  shows "list_all (is_digit b) (show_base b n) \<and> show_base b n \<noteq> [] \<and> digits_value b (show_base b n) 0 = n"
  using assms
proof (induction b n rule: show_base.induct)
  case (1 b n)
  show ?case
  proof (cases "n < b")
    case True
    with 1(2,3) have "digit_value (digit_char n) = Some n" by (intro digit_value_char) simp
    with True 1(2) show ?thesis by (simp add: show_base.simps [of b n] is_digit_def)
  next
    case False
    have "n mod b < b" using 1(2) by simp
    with 1(3) have "digit_value (digit_char (n mod b)) = Some (n mod b)"
      by (intro digit_value_char) (rule less_le_trans)
    with False 1 \<open>n mod b < b\<close> show ?thesis
      by (simp add: show_base.simps [of b n] is_digit_def digits_value_append)
  qed
qed

lemma digit_no_minus: "is_digit b c \<Longrightarrow> c \<noteq> CHR ''-''"
  by (auto simp: is_digit_def digit_value_def split: option.splits)

lemma chars_value_show:
  assumes "2 \<le> b" "b \<le> 16" "fits_range sg w (int n)"
  shows "chars_value sg w b (show_base b n) = Some (int n)"
proof -
  note d = show_base_digits [OF assms(1,2), of n]
  then have tw: "takeWhile (is_digit b) (show_base b n) = show_base b n" by (simp add: list_all_iff takeWhile_eq_all_conv)
  have "hd (show_base b n) \<noteq> CHR ''-''" using d digit_no_minus by (cases "show_base b n") auto
  then show ?thesis using d assms(3) by (simp add: chars_value_def Let_def tw)
qed

lemma chars_value_show_minus:
  assumes "2 \<le> b" "b \<le> 16" "fits_range True w (- int n)"
  shows "chars_value True w b (CHR ''-'' # show_base b n) = Some (- int n)"
proof -
  note d = show_base_digits [OF assms(1,2), of n]
  then have tw: "takeWhile (is_digit b) (show_base b n) = show_base b n" by (simp add: list_all_iff takeWhile_eq_all_conv)
  from d assms(3) show ?thesis by (simp add: chars_value_def Let_def tw)
qed

text \<open>Underscores are ignored wherever they stand.\<close>

lemma int_literal_show:
  assumes "number_base (lit_kind l) = Some b" "fits_range sg w (int n)"
    and "filter (\<lambda>c. c \<noteq> CHR ''_'') (lit_text l) = prefix @ show_base b n"
    and "length prefix = (if lit_kind l = KInt then 0 else 2)"
  shows "literal_value sg w l = int n"
proof -
  have b: "2 \<le> b" "b \<le> 16" and nc: "lit_kind l \<noteq> KChar"
    using assms(1) by (auto simp: number_base_def split: literal_kind.splits)
  have "int_literal sg w l = Some (int n)"
    using assms chars_value_show [OF b assms(2)] nc by (auto simp: int_literal_def Let_def)
  then show ?thesis by (simp add: literal_value_def)
qed

end
