(* ===== verification/ValidateIds.thy ===== *)
theory ValidateIds
  imports AssignIds Literals
begin

text \<open>
  The pass \<^verbatim>\<open>virc/passes/validate_ids.cc\<close>, bottom-up: every name must have been declared, argument
  counts must fit, complex primitive classes get their slots, string literals are interned.
  A class name that is an alias is turned into one (\<open>settle\<close>); the model does so where a type is
  used. \<open>stmt_uses\<close> lists the names in a statement. A check that depends on a name that is unknown
  passes, the name itself being reported.
\<close>

datatype name_use =
    UReg string | UClass string | UType ir_type | UField string
  | UMethod string | UFunc string | USymbol string | ULabel string

definition arg_uses :: "ir_arg list \<Rightarrow> name_use list" where
  "arg_uses as = map (\<lambda>a. UReg (arg_src a)) as"

primrec stmt_uses :: "stmt \<Rightarrow> name_use list" where
  "stmt_uses (SSource s) = []"
| "stmt_uses (SOffset l) = []"
| "stmt_uses (SConst d t l) = [UReg d]"
| "stmt_uses (SConstStr d raw s) = [UReg d]"
| "stmt_uses (SConvert d t s) = [UReg d, UReg s]"
| "stmt_uses (SSingleton d c) = [UReg d, UClass c]"
| "stmt_uses (SNew d c as) = [UReg d, UClass c] @ arg_uses as"
| "stmt_uses (SStack d c as) = [UReg d, UClass c] @ arg_uses as"
| "stmt_uses (SHeap d s c as) = [UReg d, UReg s, UClass c] @ arg_uses as"
| "stmt_uses (SRegion d r c as) = [UReg d, UClass c] @ arg_uses as"
| "stmt_uses (SNewArray d t s) = [UReg d, UType t, UReg s]"
| "stmt_uses (SNewArrayConst d t l) = [UReg d, UType t]"
| "stmt_uses (SStackArray d t s) = [UReg d, UType t, UReg s]"
| "stmt_uses (SStackArrayConst d t l) = [UReg d, UType t]"
| "stmt_uses (SHeapArray d h t s) = [UReg d, UReg h, UType t, UReg s]"
| "stmt_uses (SHeapArrayConst d h t l) = [UReg d, UReg h, UType t]"
| "stmt_uses (SRegionArray d r t s) = [UReg d, UType t, UReg s]"
| "stmt_uses (SRegionArrayConst d r t l) = [UReg d, UType t]"
| "stmt_uses (SCopy d s) = [UReg d, UReg s]"
| "stmt_uses (SMove d s) = [UReg d, UReg s]"
| "stmt_uses (SDrop s) = [UReg s]"
| "stmt_uses (SFreeze d s) = [UReg d, UReg s]"
| "stmt_uses (SPin d s) = [UReg d, UReg s]"
| "stmt_uses (SUnpin d s) = [UReg d, UReg s]"
| "stmt_uses (SMerge d l r) = [UReg d, UReg l, UReg r]"
| "stmt_uses (SFFIStruct d t) = [UReg d, UType t]"
| "stmt_uses (SFFILoad d l r k t) = [UReg d, UReg l, UReg r, UReg k, UType t]"
| "stmt_uses (SFFIStore d l r k v t) = [UReg d, UReg l, UReg r, UReg k, UReg v, UType t]"
| "stmt_uses (SRegisterRef d s) = [UReg d, UReg s]"
| "stmt_uses (SFieldRef d a f) = [UReg d, UReg (arg_src a), UField f]"
| "stmt_uses (SArrayRef d a s) = [UReg d, UReg (arg_src a), UReg s]"
| "stmt_uses (SArrayRefConst d a l) = [UReg d, UReg (arg_src a)]"
| "stmt_uses (SLoad d s) = [UReg d, UReg s]"
| "stmt_uses (SStore d s a) = [UReg d, UReg s, UReg (arg_src a)]"
| "stmt_uses (SLookup d s m) = [UReg d, UReg s, UMethod m]"
| "stmt_uses (SCall d f as) = [UReg d, UFunc f] @ arg_uses as"
| "stmt_uses (SCallDyn d s as) = [UReg d, UReg s] @ arg_uses as"
| "stmt_uses (STryCallDyn d s as) = [UReg d, UReg s] @ arg_uses as"
| "stmt_uses (SFFI d s as) = [UReg d, USymbol s] @ arg_uses as"
| "stmt_uses (SWhen d f as c) = [UReg d, UFunc f] @ arg_uses as @ [UType c]"
| "stmt_uses (SWhenDyn d s as c) = [UReg d, UReg s] @ arg_uses as @ [UType c]"
| "stmt_uses (SGetRaise d) = [UReg d]"
| "stmt_uses (SSetRaise d s) = [UReg d, UReg s]"
| "stmt_uses (STypetest d s t) = [UReg d, UReg s, UType t]"
| "stmt_uses (SBin b d l r) = [UReg d, UReg l, UReg r]"
| "stmt_uses (SUn u d s) = [UReg d, UReg s]"
| "stmt_uses (SMakePtr d s) = [UReg d, UReg s]"
| "stmt_uses (SRead d s) = [UReg d, UReg s]"
| "stmt_uses (SConstant k d) = [UReg d]"
| "stmt_uses (SMakeCallback d s) = [UReg d, UReg s]"
| "stmt_uses (SCodePtrCallback d s) = [UReg d, UReg s]"
| "stmt_uses (SFreeCallback d s) = [UReg d, UReg s]"
| "stmt_uses (SAddExternal d) = [UReg d]"
| "stmt_uses (SRemoveExternal d) = [UReg d]"
| "stmt_uses (SMemoSlot d f) = [UReg d, UFunc f]"
| "stmt_uses (SArrayCopy d as) = [UReg d] @ arg_uses as"
| "stmt_uses (SArrayFill d as) = [UReg d] @ arg_uses as"
| "stmt_uses (SArrayCompare d as) = [UReg d] @ arg_uses as"

primrec term_uses :: "terminator \<Rightarrow> name_use list" where
  "term_uses (TTailcall f as) = [UFunc f] @ arg_uses as"
| "term_uses (TTailcallDyn r as) = [UReg r] @ arg_uses as"
| "term_uses (TReturn r) = [UReg r]"
| "term_uses (TRaise r t) = [UReg r, UType t]"
| "term_uses (TCond r l1 l2) = [UReg r, ULabel l1, ULabel l2]"
| "term_uses (TJump l) = [ULabel l]"

primrec settle :: "compilation \<Rightarrow> ir_type \<Rightarrow> ir_type" where
  "settle c (Node l ts) = Node (case l of
     LClassId x \<Rightarrow> if get_typealias_id c x \<noteq> None then LTypeId x else l
   | _ \<Rightarrow> l) (map (settle c) ts)"

primrec type_declared :: "compilation \<Rightarrow> ir_type \<Rightarrow> bool" where
  "type_declared c (Node l ts) = ((case l of
      LTypeId x \<Rightarrow> get_typealias_id c x \<noteq> None
    | LClassId x \<Rightarrow> get_typealias_id c x \<noteq> None \<or> get_class_id c x \<noteq> None
    | _ \<Rightarrow> True) \<and> list_all (\<lambda>b. b) (map (type_declared c) ts))"

definition class_node :: "string \<Rightarrow> ir_type" where "class_node x = Node (LClassId x) []"

fun declared :: "compilation \<Rightarrow> func_state \<Rightarrow> name_use \<Rightarrow> bool" where
  "declared c f (UReg x) = (get_register_id f x \<noteq> None)"
| "declared c f (UClass x) = type_declared c (class_node x)"
| "declared c f (UType t) = type_declared c t"
| "declared c f (UField x) = (get_field_id c x \<noteq> None)"
| "declared c f (UMethod x) = (get_method_id c x \<noteq> None)"
| "declared c f (UFunc x) = (get_func_id c x \<noteq> None)"
| "declared c f (USymbol x) = (get_symbol_id c x \<noteq> None)"
| "declared c f (ULabel x) = (get_label_id f x \<noteq> None)"

subsection \<open>Argument counts\<close>

definition call_arity :: "compilation \<Rightarrow> string \<Rightarrow> nat \<Rightarrow> bool" where
  "call_arity c f n = (case get_func c f of Ret fs \<Rightarrow> n = fs_params fs | _ \<Rightarrow> True)"

definition ffi_arity :: "compilation \<Rightarrow> string \<Rightarrow> nat \<Rightarrow> bool" where
  "ffi_arity c s n = (case get_symbol_id c s of
     None \<Rightarrow> True
   | Some i \<Rightarrow> let sym = snd (comp_symbols c ! i) in
       length (isym_params sym) \<le> n \<and> (isym_vararg sym \<or> n \<le> length (isym_params sym)))"

definition field_arity :: "compilation \<Rightarrow> string \<Rightarrow> nat \<Rightarrow> bool" where
  "field_arity c x n = (case get_class_id c x of
     None \<Rightarrow> True | Some i \<Rightarrow> n = length (icls_fields (comp_classes c ! i)))"

text \<open>Tail calls, behaviors and calls through a register are not counted.\<close>

definition arity_ok :: "compilation \<Rightarrow> stmt \<Rightarrow> bool" where
  "arity_ok c s = (case s of
     SCall d f as \<Rightarrow> call_arity c f (length as)
   | SFFI d f as \<Rightarrow> ffi_arity c f (length as)
   | SNew d x as \<Rightarrow> field_arity c x (length as)
   | SStack d x as \<Rightarrow> field_arity c x (length as)
   | SHeap d h x as \<Rightarrow> field_arity c x (length as)
   | SRegion d r x as \<Rightarrow> field_arity c x (length as)
   | _ \<Rightarrow> True)"

definition finalizer_ok :: "compilation \<Rightarrow> string \<times> string \<Rightarrow> bool" where
  "finalizer_ok c = (\<lambda>(m, f). get_method_id c m = Some (unat FinalizerMethodId) \<longrightarrow>
     (case get_func_id c f of None \<Rightarrow> True | Some i \<Rightarrow> fs_params (comp_functions c ! i) = 1))"

definition method_ok :: "compilation \<Rightarrow> string \<times> string \<Rightarrow> bool" where
  "method_ok c m = (get_method_id c (fst m) \<noteq> None \<and> get_func_id c (snd m) \<noteq> None \<and> finalizer_ok c m)"

subsection \<open>The pass\<close>

definition block_ok :: "compilation \<Rightarrow> func_state \<Rightarrow> block \<Rightarrow> bool" where
  "block_ok c f b = (get_label_id f (blk_name b) \<noteq> None
     \<and> list_all (\<lambda>s. list_all (declared c f) (stmt_uses s) \<and> arity_ok c s) (blk_body b)
     \<and> list_all (declared c f) (term_uses (blk_term b)))"

definition func_ok :: "compilation \<Rightarrow> ir_func \<Rightarrow> bool" where
  "func_ok c f = (case get_func c (fn_name f) of
     Ret fs \<Rightarrow> list_all (\<lambda>(x, t). get_register_id fs x \<noteq> None \<and> type_declared c t) (fn_params f @ fn_vars f)
       \<and> type_declared c (fn_type f) \<and> list_all (block_ok c fs) (fn_blocks f)
   | _ \<Rightarrow> False)"

definition ir_symbol_ok :: "compilation \<Rightarrow> ir_symbol \<Rightarrow> bool" where
  "ir_symbol_ok c s = (get_symbol_id c (isym_name s) \<noteq> None \<and> list_all (type_declared c) (isym_params s)
     \<and> type_declared c (isym_return s))"

definition top_ok :: "compilation \<Rightarrow> toplevel \<Rightarrow> bool" where
  "top_ok c t = (case t of
     TopLib l \<Rightarrow> list_all (ir_symbol_ok c) (lib_symbols l)
       \<and> (case lib_init l of None \<Rightarrow> True | Some f \<Rightarrow> get_func_id c f \<noteq> None)
   | TopType x u \<Rightarrow> get_typealias_id c x \<noteq> None \<and> type_declared c u
   | TopPrimitive u ms \<Rightarrow> type_declared c u \<and> list_all (method_ok c) ms
   | TopClass cl \<Rightarrow> type_declared c (class_node (icls_name cl))
       \<and> list_all (\<lambda>(f, u). get_field_id c f \<noteq> None \<and> type_declared c u) (icls_fields cl)
       \<and> list_all (method_ok c) (icls_methods cl)
   | TopFunc f \<Rightarrow> func_ok c f
   | TopFuncOnce f \<Rightarrow> func_ok c f
   | TopMemoInit fs \<Rightarrow> list_all (\<lambda>f. get_func_id c f \<noteq> None) fs)"

definition literal_string :: "bool \<Rightarrow> string \<Rightarrow> string" where
  "literal_string raw s = (if raw then s else unescape s)"

definition intern_stmt :: "stmt \<Rightarrow> compilation \<Rightarrow> compilation" where
  "intern_stmt s c = (case s of SConstStr d raw x \<Rightarrow> intern (literal_string raw x) c | _ \<Rightarrow> c)"

definition intern_top :: "toplevel \<Rightarrow> compilation \<Rightarrow> compilation" where
  "intern_top t c = (case t of
     TopFunc f \<Rightarrow> fold intern_stmt (concat (map blk_body (fn_blocks f))) c
   | TopFuncOnce f \<Rightarrow> fold intern_stmt (concat (map blk_body (fn_blocks f))) c
   | _ \<Rightarrow> c)"

text \<open>The slot of a complex primitive class is its type's position among the complex types.\<close>

definition resize :: "nat \<Rightarrow> 'a \<Rightarrow> 'a list \<Rightarrow> 'a list" where
  "resize n x xs = (if length xs < n then xs @ replicate (n - length xs) x else xs)"

definition validate_primitive :: "nat \<Rightarrow> toplevel \<Rightarrow> compilation \<Rightarrow> compilation outcome" where
  "validate_primitive n t c = (case t of
     TopPrimitive u ms \<Rightarrow>
       if label u \<in> {LArray, LRef, LCown} then
         obind (ir_type_id n (settle c u) c) (\<lambda>(i, c). let j = i - first_complex c;
           c = c\<lparr>complex_primitives := resize (Suc j) None (complex_primitives c)\<rparr> in
           Ret (if complex_primitives c ! j \<noteq> None then flag_error c
             else c\<lparr>complex_primitives := (complex_primitives c)[j := Some ms]\<rparr>))
       else Ret c
   | _ \<Rightarrow> Ret c)"

definition settle_aliases :: "compilation \<Rightarrow> compilation" where
  "settle_aliases c = c\<lparr>typealiases := map (\<lambda>(x, t). (x, settle c t)) (typealiases c)\<rparr>"

definition validate_ids :: "nat \<Rightarrow> ir_program \<Rightarrow> compilation \<Rightarrow> compilation outcome" where
  "validate_ids n ts c =
     (let c = (if list_all (top_ok c) ts then c else flag_error c);
          c = fold intern_top ts (settle_aliases c)
      in fold_out (validate_primitive n) ts c)"

end
