(* ===== verification/Loader.thy ===== *)
theory Loader
  imports TypeTable
begin

text \<open>
  Whole VBC files: \<open>put_file\<close> is the sequence of header statements of \<open>VBCEmitter::emit\<close>
  followed by the code, \<open>load\<close> is \<open>Program::load\<close>. A load that logs an error and returns
  false is \<open>Ret None\<close>. The dynamic linker and libffi are parameters (\<open>loader_env\<close>): whether
  a library has a symbol, whether a symbol's signature can be prepared, and the offsets of
  a struct of given field layouts.
\<close>

record vbc_file =
  f_strings :: "byte list list"
  f_prim_methods :: "(64 word \<times> 64 word) list list"
  f_classes :: "vclass list"
  f_complex_prims :: "(64 word \<times> 64 word) list list"
  f_libs :: "(64 word \<times> 64 word) list"
  f_symbols :: "vsymbol list"
  f_functions :: "vfunction list"
  f_complex_types :: "complex_type list"
  f_memo :: "64 word list"
  f_code :: "byte list"

definition put_header :: "vbc_file \<Rightarrow> byte list" where
  "put_header f =
     uleb_put MagicNumber @ uleb_put CurrentVersion @
     put_vec put_str (f_strings f) @
     put_size (length (f_classes f)) @ put_size (length (f_complex_prims f)) @
     concat (map (put_vec put_method) (f_prim_methods f)) @
     concat (map put_class (f_classes f)) @
     concat (map (put_vec put_method) (f_complex_prims f)) @
     put_vec put_lib (f_libs f) @ put_vec put_symbol (f_symbols f) @
     put_vec put_function (f_functions f) @ put_vec put_complex (f_complex_types f) @
     put_vec uleb_put (f_memo f) @ put_size (length (f_code f))"

definition put_file :: "vbc_file \<Rightarrow> byte list" where
  "put_file f = put_header f @ f_code f"

record loader_env =
  has_symbol :: "byte list \<Rightarrow> byte list \<Rightarrow> byte list \<Rightarrow> bool"
  prepare_ok :: "vsymbol \<Rightarrow> bool"
  struct_offsets :: "ffi_type list \<Rightarrow> nat list option"

record loaded =
  l_strings :: "byte list list"
  l_classes :: "vclass list"
  l_libs :: "(64 word \<times> 64 word) list"
  l_symbols :: "vsymbol list"
  l_functions :: "vfunction list"
  l_types :: type_table
  l_memo :: "64 word list"
  l_code :: nat
  l_di :: "nat option"

subsection \<open>Lists of checked readers\<close>

fun get_list_opt :: "'a option reader \<Rightarrow> nat \<Rightarrow> 'a list option reader" where
  "get_list_opt g 0 bs pc = Ret (Some [], pc)"
| "get_list_opt g (Suc n) bs pc =
     obind (g bs pc) (\<lambda>(r, pc1).
       case r of None \<Rightarrow> Ret (None, pc1)
       | Some x \<Rightarrow> obind (get_list_opt g n bs pc1) (\<lambda>(rs, pc2).
           Ret (map_option (\<lambda>xs. x # xs) rs, pc2)))"

locale checked_codec =
  fixes put :: "'a \<Rightarrow> byte list" and get :: "'a option reader" and ok :: "'a \<Rightarrow> bool"
  assumes get_some_at:
    "ok x \<Longrightarrow> drop pc bs = put x @ rest \<Longrightarrow> get bs pc = Ret (Some x, pc + length (put x))"
begin

lemma get_list_opt_at:
  "\<forall>x\<in>set xs. ok x \<Longrightarrow> drop pc bs = concat (map put xs) @ rest \<Longrightarrow>
     get_list_opt get (length xs) bs pc = Ret (Some xs, pc + length (concat (map put xs)))"
proof (induction xs arbitrary: pc)
  case Nil
  then show ?case by simp
next
  case (Cons x xs)
  then have d: "drop pc bs = put x @ concat (map put xs) @ rest" by simp
  have 1: "get bs pc = Ret (Some x, pc + length (put x))"
    using Cons.prems(1) d by (intro get_some_at) auto
  have 2: "get_list_opt get (length xs) bs (pc + length (put x))
      = Ret (Some xs, pc + length (put x) + length (concat (map put xs)))"
    by (rule Cons.IH) (use Cons.prems(1) drop_step [OF d] in auto)
  show ?case by (simp add: 1 2)
qed

end

interpretation function_codec: checked_codec put_function parse_function function_ok
  by unfold_locales (rule parse_function_at)

subsection \<open>Symbols\<close>

text \<open>
  A symbol is looked up as soon as its names are read; a missing one ends the load before
  its signature is read. String and library indices are checked reads.
\<close>

definition load_lib :: "byte list list \<Rightarrow> (64 word \<times> 64 word) reader" where
  "load_lib strings bs pc =
     obind (uleb_get bs pc) (\<lambda>(name, pc).
     obind (vec_at strings (unat name)) (\<lambda>_.
     obind (uleb_get bs pc) (\<lambda>(init_id, pc). Ret ((name, init_id), pc))))"

definition load_symbol ::
  "loader_env \<Rightarrow> byte list list \<Rightarrow> (64 word \<times> 64 word) list \<Rightarrow> vsymbol option reader" where
  "load_symbol E strings libs bs pc =
     obind (uleb_get bs pc) (\<lambda>(lib, pc).
     obind (vec_at libs (unat lib)) (\<lambda>l.
     obind (vec_at strings (unat (fst l))) (\<lambda>lib_name.
     obind (uleb_get bs pc) (\<lambda>(name, pc).
     obind (vec_at strings (unat name)) (\<lambda>name_str.
     obind (uleb_get bs pc) (\<lambda>(version, pc).
     obind (vec_at strings (unat version)) (\<lambda>version_str.
     obind (uleb_get bs pc) (\<lambda>(vararg, pc).
       if \<not> has_symbol E lib_name name_str version_str then Ret (None, pc)
       else
         obind (get_vec get_id bs pc) (\<lambda>(params, pc).
         obind (get_id bs pc) (\<lambda>(ret, pc).
           Ret (Some \<lparr>sym_lib = lib, sym_name = name, sym_version = version,
                      sym_vararg = vararg \<noteq> 0, sym_params = params, sym_ret = ret\<rparr>, pc)))))))))))"

definition lib_ok :: "byte list list \<Rightarrow> 64 word \<times> 64 word \<Rightarrow> bool" where
  "lib_ok strings l \<longleftrightarrow> unat (fst l) < length strings"

definition symbol_ok :: "loader_env \<Rightarrow> byte list list \<Rightarrow> (64 word \<times> 64 word) list \<Rightarrow> vsymbol \<Rightarrow> bool" where
  "symbol_ok E strings libs s \<longleftrightarrow>
     unat (sym_lib s) < length libs \<and> unat (fst (libs ! unat (sym_lib s))) < length strings \<and>
     unat (sym_name s) < length strings \<and> unat (sym_version s) < length strings \<and>
     has_symbol E (strings ! unat (fst (libs ! unat (sym_lib s))))
       (strings ! unat (sym_name s)) (strings ! unat (sym_version s)) \<and>
     length (sym_params s) < 2 ^ 64"

interpretation load_lib_codec: codec put_lib "load_lib strings" "lib_ok strings"
  for strings :: "byte list list"
proof
  fix x :: "64 word \<times> 64 word" and pc bs rest
  obtain i f where x: "x = (i, f)" by (cases x)
  assume "lib_ok strings x" "drop pc bs = put_lib x @ rest"
  then have d: "drop pc bs = uleb_put i @ uleb_put f @ rest" and "unat i < length strings"
    by (simp_all add: x put_lib_def lib_ok_def)
  then show "load_lib strings bs pc = Ret (x, pc + length (put_lib x))"
    by (simp add: load_lib_def uleb_get_at [OF d] uleb_get_at [OF drop_step [OF d]] x put_lib_def)
qed

interpretation load_symbol_codec: checked_codec put_symbol "load_symbol E strings libs" "symbol_ok E strings libs"
  for E :: loader_env and strings :: "byte list list" and libs :: "(64 word \<times> 64 word) list"
proof
  fix s pc bs rest
  assume ok: "symbol_ok E strings libs s" and "drop pc bs = put_symbol s @ rest"
  then have d1: "drop pc bs = uleb_put (sym_lib s) @ uleb_put (sym_name s) @ uleb_put (sym_version s) @
      uleb_put (if sym_vararg s then 1 else 0) @ put_vec put_id (sym_params s) @ put_id (sym_ret s) @ rest"
    by (simp add: put_symbol_def)
  note d2 = drop_step [OF d1] note d3 = drop_step [OF d2] note d4 = drop_step [OF d3]
  note d5 = drop_step [OF d4] note d6 = drop_step [OF d5]
  from id_codec.get_vec_at [OF _ _ d5] id_codec.get_at [OF _ d6] ok
  show "load_symbol E strings libs bs pc = Ret (Some s, pc + length (put_symbol s))"
    by (simp add: load_symbol_def symbol_ok_def uleb_get_at [OF d1] uleb_get_at [OF d2]
        uleb_get_at [OF d3] uleb_get_at [OF d4] put_symbol_def)
qed

subsection \<open>Fixing up classes\<close>

text \<open>\<open>unordered_map::emplace\<close> in a loop: the first entry of a key stays.\<close>

fun emplace_all :: "('k \<times> 'v) list \<Rightarrow> ('k \<times> 'v) list" where
  "emplace_all [] = []"
| "emplace_all (e # es) = e # emplace_all (filter (\<lambda>e'. fst e' \<noteq> fst e) es)"

lemma emplace_all_distinct: "distinct (map fst es) \<Longrightarrow> emplace_all es = es"
proof (induction es)
  case (Cons e es)
  then have "filter (\<lambda>e'. fst e' \<noteq> fst e) es = es" by (intro filter_True) (force simp: image_iff)
  with Cons show ?case by simp
qed simp

fun field_layouts :: "type_table \<Rightarrow> nat \<Rightarrow> (64 word \<times> 32 word) list \<Rightarrow> ffi_type list outcome" where
  "field_layouts P n [] = Ret []"
| "field_layouts P n (f # fs) =
     obind (layout_f n P (snd f)) (\<lambda>rep.
     obind (field_layouts P n fs) (\<lambda>reps. Ret (snd rep # reps)))"

definition calc_size :: "loader_env \<Rightarrow> type_table \<Rightarrow> vclass \<Rightarrow> bool outcome" where
  "calc_size E P c =
     (if cls_fields c = [] then Ret True
      else obind (field_layouts P (layout_fuel P) (cls_fields c)) (\<lambda>reps.
        Ret (struct_offsets E reps \<noteq> None)))"

fun fixup_methods :: "vfunction list \<Rightarrow> (64 word \<times> 64 word) list \<Rightarrow> bool outcome" where
  "fixup_methods functions [] = Ret True"
| "fixup_methods functions (m # ms) =
     obind (vec_at functions (unat (snd m))) (\<lambda>func.
       if fst m = FinalizerMethodId \<and> length (param_types func) \<noteq> 1 then Ret False
       else fixup_methods functions ms)"

definition fixup_class :: "loader_env \<Rightarrow> type_table \<Rightarrow> vfunction list \<Rightarrow> vclass \<Rightarrow> bool outcome" where
  "fixup_class E P functions c =
     obind (fixup_methods functions (emplace_all (cls_methods c))) (\<lambda>ok.
       if \<not> ok then Ret False
       else case calc_size E P c of
         Raise _ \<Rightarrow> Ret False
       | r \<Rightarrow> r)"

text \<open>The \<open>ref_map\<close> entries made while the complex types are parsed: a later one replaces.\<close>

fun ref_entries :: "32 word \<Rightarrow> complex_type list \<Rightarrow> (32 word \<Rightarrow> 32 word option) \<Rightarrow> (32 word \<Rightarrow> 32 word option)" where
  "ref_entries type_id [] m = m"
| "ref_entries type_id (t # ts) m =
     ref_entries (type_id + 1) ts
       (if ct_tag t = TRef then m(hd (ct_children t) \<mapsto> type_id) else m)"

text \<open>The assertions on the six predefined complex types.\<close>

definition predefined_ok :: "32 word \<Rightarrow> complex_type list \<Rightarrow> bool" where
  "predefined_ok m cts \<longleftrightarrow> 6 \<le> length cts \<and>
     cts ! 0 = \<lparr>ct_tag = TCown, ct_children = [of_nat (vtype_code VNone)]\<rparr> \<and>
     cts ! 1 = \<lparr>ct_tag = TArray, ct_children = [of_nat (vtype_code VU8)]\<rparr> \<and>
     cts ! 2 = \<lparr>ct_tag = TArray, ct_children = [m + 1]\<rparr> \<and>
     cts ! 3 = \<lparr>ct_tag = TRef, ct_children = [DynamicTypeId]\<rparr> \<and>
     cts ! 4 = \<lparr>ct_tag = TArray, ct_children = [of_nat (vtype_code VUSize)]\<rparr> \<and>
     cts ! 5 = \<lparr>ct_tag = TTuple, ct_children = [of_nat (vtype_code VUSize), m + 4, m + 1]\<rparr>"

definition relocate :: "nat \<Rightarrow> vfunction \<Rightarrow> vfunction" where
  "relocate pc f = f\<lparr>labels := map (\<lambda>l. l + of_nat pc) (labels f)\<rparr>"

subsection \<open>Loading\<close>

text \<open>
  The load in the code's order. \<open>main\<close> is checked against the type table before the complex
  types are read, so the table it sees has none.
\<close>

definition load_functions ::
  "byte list \<Rightarrow> nat \<Rightarrow> (vfunction list option \<times> nat) outcome" where
  "load_functions bs pc = obind (uleb_get bs pc) (\<lambda>(n, pc).
     if n = 0 then Ret (None, pc) else get_list_opt parse_function (unat n) bs pc)"

definition main_ok :: "32 word \<Rightarrow> vfunction list \<Rightarrow> bool outcome" where
  "main_ok m functions =
     (if param_types (functions ! MainFunctionId) \<noteq> [] then Ret False
      else subtype_f 2 \<lparr>min_complex_type_id = m, complex_types = [], ref_map = Map.empty, typeid_ref_dyn = 0\<rparr>
             (return_type (functions ! MainFunctionId)) (of_nat (primitive_code PNone)))"

definition load :: "loader_env \<Rightarrow> byte list \<Rightarrow> loaded option outcome" where
  "load E bs =
     obind (uleb_get bs 0) (\<lambda>(magic, pc). if magic \<noteq> MagicNumber then Ret None else
     obind (uleb_get bs pc) (\<lambda>(version, pc). if version \<noteq> CurrentVersion then Ret None else
     obind (string_table bs pc) (\<lambda>(strings, pc).
     obind (uleb_get bs pc) (\<lambda>(num_classes, pc).
     obind (uleb_get bs pc) (\<lambda>(num_complex, pc).
     let m = (of_nat NumPrimitiveClasses + ucast num_classes :: 32 word) in
     obind (get_list parse_methods NumPrimitiveClasses bs pc) (\<lambda>(prim_methods, pc).
     obind (get_list parse_class (unat num_classes) bs pc) (\<lambda>(classes, pc).
     obind (get_list parse_methods (unat num_complex) bs pc) (\<lambda>(complex_methods, pc).
     obind (get_vec (load_lib strings) bs pc) (\<lambda>(libs, pc).
     obind (uleb_get bs pc) (\<lambda>(num_symbols, pc).
     obind (get_list_opt (load_symbol E strings libs) (unat num_symbols) bs pc) (\<lambda>(symbols, pc).
     case symbols of None \<Rightarrow> Ret None | Some symbols \<Rightarrow>
     obind (load_functions bs pc) (\<lambda>(functions, pc).
     case functions of None \<Rightarrow> Ret None | Some functions \<Rightarrow>
     obind (main_ok m functions) (\<lambda>ok. if \<not> ok then Ret None else
     obind (get_vec parse_complex_type bs pc) (\<lambda>(cts, pc).
     obind (oassert (predefined_ok m cts)) (\<lambda>_.
     if \<not> list_all (prepare_ok E) symbols then Ret None else
     let types = \<lparr>min_complex_type_id = m, complex_types = cts,
           ref_map = ref_entries m cts Map.empty, typeid_ref_dyn = m + 3\<rparr>;
         all_classes =
           map (\<lambda>ms. \<lparr>cls_debug_info = - 1, cls_fields = [], cls_methods = ms\<rparr>) prim_methods @ classes @
           map (\<lambda>ms. \<lparr>cls_debug_info = - 1, cls_fields = [], cls_methods = ms\<rparr>) complex_methods
     in obind (all_ret (fixup_class E types functions) all_classes) (\<lambda>ok. if \<not> ok then Ret None else
     obind (get_vec uleb_get bs pc) (\<lambda>(memo, pc).
     obind (uleb_get bs pc) (\<lambda>(code_size, pc).
       Ret (Some \<lparr>l_strings = strings, l_classes = all_classes, l_libs = libs, l_symbols = symbols,
                  l_functions = map (relocate pc) functions, l_types = types, l_memo = memo,
                  l_code = pc,
                  l_di = (if pc + unat code_size < length bs then Some (pc + unat code_size) else None)\<rparr>)
     ))))))))))))))))))"

subsection \<open>Loading what was emitted\<close>

definition num_ids :: "vbc_file \<Rightarrow> 32 word" where
  "num_ids f = of_nat NumPrimitiveClasses + of_nat (length (f_classes f))"

definition file_types :: "vbc_file \<Rightarrow> type_table" where
  "file_types f = \<lparr>min_complex_type_id = num_ids f, complex_types = f_complex_types f,
     ref_map = ref_entries (num_ids f) (f_complex_types f) Map.empty, typeid_ref_dyn = num_ids f + 3\<rparr>"

definition bare_class :: "(64 word \<times> 64 word) list \<Rightarrow> vclass" where
  "bare_class ms = \<lparr>cls_debug_info = - 1, cls_fields = [], cls_methods = ms\<rparr>"

definition file_classes :: "vbc_file \<Rightarrow> vclass list" where
  "file_classes f = map bare_class (f_prim_methods f) @ f_classes f @ map bare_class (f_complex_prims f)"

text \<open>What the encoding itself needs: every table fits its count.\<close>

definition sizes_ok :: "vbc_file \<Rightarrow> bool" where
  "sizes_ok f \<longleftrightarrow>
     length (f_strings f) < 2 ^ 64 \<and> (\<forall>s\<in>set (f_strings f). length s < 2 ^ 64) \<and>
     length (f_prim_methods f) = NumPrimitiveClasses \<and>
     (\<forall>ms\<in>set (f_prim_methods f). length ms < 2 ^ 64) \<and>
     length (f_classes f) < 2 ^ 64 \<and> list_all class_ok (f_classes f) \<and>
     length (f_complex_prims f) < 2 ^ 64 \<and> (\<forall>ms\<in>set (f_complex_prims f). length ms < 2 ^ 64) \<and>
     length (f_libs f) < 2 ^ 64 \<and> length (f_symbols f) < 2 ^ 64 \<and>
     length (f_functions f) < 2 ^ 64 \<and> list_all function_ok (f_functions f) \<and>
     length (f_complex_types f) < 2 ^ 64 \<and> list_all complex_ok (f_complex_types f) \<and>
     length (f_memo f) < 2 ^ 64 \<and> length (f_code f) < 2 ^ 64"

text \<open>What the loader checks.\<close>

definition loadable :: "loader_env \<Rightarrow> vbc_file \<Rightarrow> bool" where
  "loadable E f \<longleftrightarrow> sizes_ok f \<and>
     list_all (lib_ok (f_strings f)) (f_libs f) \<and>
     list_all (symbol_ok E (f_strings f) (f_libs f)) (f_symbols f) \<and>
     list_all (prepare_ok E) (f_symbols f) \<and>
     f_functions f \<noteq> [] \<and> main_ok (num_ids f) (f_functions f) = Ret True \<and>
     predefined_ok (num_ids f) (f_complex_types f) \<and>
     all_ret (fixup_class E (file_types f) (f_functions f)) (file_classes f) = Ret True"

definition loaded_of :: "vbc_file \<Rightarrow> byte list \<Rightarrow> loaded" where
  "loaded_of f debug =
     \<lparr>l_strings = f_strings f, l_classes = file_classes f, l_libs = f_libs f, l_symbols = f_symbols f,
      l_functions = map (relocate (length (put_header f))) (f_functions f), l_types = file_types f,
      l_memo = f_memo f, l_code = length (put_header f),
      l_di = (if debug = [] then None else Some (length (put_file f)))\<rparr>"

lemma load_functions_at:
  assumes "list_all function_ok fs" "fs \<noteq> []" "length fs < 2 ^ 64" "drop pc bs = put_vec put_function fs @ rest"
  shows "load_functions bs pc = Ret (Some fs, pc + length (put_vec put_function fs))"
proof -
  from assms(4) have d: "drop pc bs = uleb_put (of_nat (length fs)) @ concat (map put_function fs) @ rest"
    by (simp add: put_vec_def put_size_def)
  have "(of_nat (length fs) :: 64 word) \<noteq> 0"
    using assms(2,3) by (metis length_0_conv unat_0 unat_of_size)
  with function_codec.get_list_opt_at [OF _ drop_step [OF d]] assms(1,3) uleb_get_at [OF d]
  show ?thesis by (simp add: load_functions_def unat_of_size list_all_iff put_vec_def put_size_def)
qed

text \<open>The fifteen header entities, read one after the other.\<close>

lemma load_steps:
  assumes ok: "loadable E f"
  defines "bs \<equiv> \<lambda>debug. put_file f @ debug"
  obtains p2 p3 p4 p5 p6 p7 p8 p9 p10 p11 p12 p13 p14 p15 where
    "uleb_get (bs debug) 0 = Ret (MagicNumber, p2)"
    "uleb_get (bs debug) p2 = Ret (CurrentVersion, p3)"
    "string_table (bs debug) p3 = Ret (f_strings f, p4)"
    "uleb_get (bs debug) p4 = Ret (of_nat (length (f_classes f)), p5)"
    "uleb_get (bs debug) p5 = Ret (of_nat (length (f_complex_prims f)), p6)"
    "get_list parse_methods NumPrimitiveClasses (bs debug) p6 = Ret (f_prim_methods f, p7)"
    "get_list parse_class (length (f_classes f)) (bs debug) p7 = Ret (f_classes f, p8)"
    "get_list parse_methods (length (f_complex_prims f)) (bs debug) p8 = Ret (f_complex_prims f, p9)"
    "get_vec (load_lib (f_strings f)) (bs debug) p9 = Ret (f_libs f, p10)"
    "uleb_get (bs debug) p10 = Ret (of_nat (length (f_symbols f)), p11)"
    "get_list_opt (load_symbol E (f_strings f) (f_libs f)) (length (f_symbols f)) (bs debug) p11 = Ret (Some (f_symbols f), p12)"
    "load_functions (bs debug) p12 = Ret (Some (f_functions f), p13)"
    "get_vec parse_complex_type (bs debug) p13 = Ret (f_complex_types f, p14)"
    "get_vec uleb_get (bs debug) p14 = Ret (f_memo f, p15)"
    "uleb_get (bs debug) p15 = Ret (of_nat (length (f_code f)), (length (put_header f)))"
proof -
  let ?bs = "bs debug"
  note ok = ok [unfolded loadable_def sizes_ok_def list_all_iff]
  have d1: "drop 0 ?bs = uleb_put MagicNumber @ uleb_put CurrentVersion @ put_vec put_str (f_strings f) @ uleb_put (of_nat (length (f_classes f))) @ uleb_put (of_nat (length (f_complex_prims f))) @ concat (map (put_vec put_method) (f_prim_methods f)) @ concat (map put_class (f_classes f)) @ concat (map (put_vec put_method) (f_complex_prims f)) @ put_vec put_lib (f_libs f) @ uleb_put (of_nat (length (f_symbols f))) @ concat (map put_symbol (f_symbols f)) @ put_vec put_function (f_functions f) @ put_vec put_complex (f_complex_types f) @ put_vec uleb_put (f_memo f) @ uleb_put (of_nat (length (f_code f))) @ f_code f @ debug"
    by (simp add: bs_def put_file_def put_header_def put_size_def put_vec_def [of put_symbol])
  obtain p2 where e2: "p2 = 0 + length (uleb_put MagicNumber)" by simp
  note d2 = drop_step [OF d1, folded e2]
  obtain p3 where e3: "p3 = p2 + length (uleb_put CurrentVersion)" by simp
  note d3 = drop_step [OF d2, folded e3]
  obtain p4 where e4: "p4 = p3 + length (put_vec put_str (f_strings f))" by simp
  note d4 = drop_step [OF d3, folded e4]
  obtain p5 where e5: "p5 = p4 + length (uleb_put (of_nat (length (f_classes f))))" by simp
  note d5 = drop_step [OF d4, folded e5]
  obtain p6 where e6: "p6 = p5 + length (uleb_put (of_nat (length (f_complex_prims f))))" by simp
  note d6 = drop_step [OF d5, folded e6]
  obtain p7 where e7: "p7 = p6 + length (concat (map (put_vec put_method) (f_prim_methods f)))" by simp
  note d7 = drop_step [OF d6, folded e7]
  obtain p8 where e8: "p8 = p7 + length (concat (map put_class (f_classes f)))" by simp
  note d8 = drop_step [OF d7, folded e8]
  obtain p9 where e9: "p9 = p8 + length (concat (map (put_vec put_method) (f_complex_prims f)))" by simp
  note d9 = drop_step [OF d8, folded e9]
  obtain p10 where e10: "p10 = p9 + length (put_vec put_lib (f_libs f))" by simp
  note d10 = drop_step [OF d9, folded e10]
  obtain p11 where e11: "p11 = p10 + length (uleb_put (of_nat (length (f_symbols f))))" by simp
  note d11 = drop_step [OF d10, folded e11]
  obtain p12 where e12: "p12 = p11 + length (concat (map put_symbol (f_symbols f)))" by simp
  note d12 = drop_step [OF d11, folded e12]
  obtain p13 where e13: "p13 = p12 + length (put_vec put_function (f_functions f))" by simp
  note d13 = drop_step [OF d12, folded e13]
  obtain p14 where e14: "p14 = p13 + length (put_vec put_complex (f_complex_types f))" by simp
  note d14 = drop_step [OF d13, folded e14]
  obtain p15 where e15: "p15 = p14 + length (put_vec uleb_put (f_memo f))" by simp
  note d15 = drop_step [OF d14, folded e15]
  have e16: "length (put_header f) = p15 + length (uleb_put (of_nat (length (f_code f))))"
    by (simp add: e2 e3 e4 e5 e6 e7 e8 e9 e10 e11 e12 e13 e14 e15 put_header_def put_size_def put_vec_def [of put_symbol])
  note d16 = drop_step [OF d15, folded e16]
  have n: "NumPrimitiveClasses = length (f_prim_methods f)" using ok by simp
  have g1: "uleb_get ?bs 0 = Ret (MagicNumber, p2)" using uleb_get_at [OF d1] e2 by simp
  have g2: "uleb_get ?bs p2 = Ret (CurrentVersion, p3)" using uleb_get_at [OF d2] unfolding e3 .
  have g3: "string_table ?bs p3 = Ret (f_strings f, p4)"
    unfolding string_table_def e4 by (rule str_codec.get_vec_at [OF _ _ d3]) (use ok in auto)
  have g4: "uleb_get ?bs p4 = Ret (of_nat (length (f_classes f)), p5)" using uleb_get_at [OF d4] unfolding e5 .
  have g5: "uleb_get ?bs p5 = Ret (of_nat (length (f_complex_prims f)), p6)" using uleb_get_at [OF d5] unfolding e6 .
  have g6: "get_list parse_methods NumPrimitiveClasses ?bs p6 = Ret (f_prim_methods f, p7)"
    unfolding n e7 by (rule methods_codec.get_list_at [OF _ d6]) (use ok in auto)
  have g7: "get_list parse_class (length (f_classes f)) ?bs p7 = Ret (f_classes f, p8)"
    unfolding e8 by (rule class_codec.get_list_at [OF _ d7]) (use ok in auto)
  have g8: "get_list parse_methods (length (f_complex_prims f)) ?bs p8 = Ret (f_complex_prims f, p9)"
    unfolding e9 by (rule methods_codec.get_list_at [OF _ d8]) (use ok in auto)
  have g9: "get_vec (load_lib (f_strings f)) ?bs p9 = Ret (f_libs f, p10)"
    unfolding e10 by (rule load_lib_codec.get_vec_at [OF _ _ d9]) (use ok in auto)
  have g10: "uleb_get ?bs p10 = Ret (of_nat (length (f_symbols f)), p11)" using uleb_get_at [OF d10] unfolding e11 .
  have g11: "get_list_opt (load_symbol E (f_strings f) (f_libs f)) (length (f_symbols f)) ?bs p11 = Ret (Some (f_symbols f), p12)"
    unfolding e12 by (rule load_symbol_codec.get_list_opt_at [OF _ d11]) (use ok in auto)
  have g12: "load_functions ?bs p12 = Ret (Some (f_functions f), p13)"
    unfolding e13 by (rule load_functions_at [OF _ _ _ d12]) (use ok in \<open>auto simp: list_all_iff\<close>)
  have g13: "get_vec parse_complex_type ?bs p13 = Ret (f_complex_types f, p14)"
    unfolding e14 by (rule complex_codec.get_vec_at [OF _ _ d13]) (use ok in auto)
  have g14: "get_vec uleb_get ?bs p14 = Ret (f_memo f, p15)"
    unfolding e15 by (rule u64_codec.get_vec_at [OF _ _ d14]) (use ok in auto)
  have g15: "uleb_get ?bs p15 = Ret (of_nat (length (f_code f)), length (put_header f))"
    using uleb_get_at [OF d15] unfolding e16 .
  show thesis by (rule that [OF g1 g2 g3 g4 g5 g6 g7 g8 g9 g10 g11 g12 g13 g14 g15])
qed

lemma ucast_of_nat: "ucast (of_nat n :: 64 word) = (of_nat n :: 32 word)"
  by transfer (simp add: take_bit_of_nat)

lemma load_put_file:
  assumes "loadable E f"
  shows "load E (put_file f @ debug) = Ret (Some (loaded_of f debug))"
proof -
  note ok = assms [unfolded loadable_def sizes_ok_def]
  have m: "of_nat NumPrimitiveClasses + ucast (of_nat (length (f_classes f)) :: 64 word) = num_ids f"
    by (simp add: num_ids_def ucast_of_nat)
  show ?thesis
    by (rule load_steps [OF assms, of debug])
      (use ok in \<open>simp add: load_def m unat_of_size Let_def loaded_of_def file_types_def
        file_classes_def bare_class_def [abs_def] put_file_def\<close>)
qed

end
