(* ===== verification/TypeAgree.thy ===== *)
theory TypeAgree
  imports IrSubtype Loader
begin

text \<open>
  The emitted type table (the types section of \<^verbatim>\<open>virc/vbc/emitter.cc\<close>) as the interpreter sees
  it: \<open>table_of\<close> is what the loader makes of it. The numbering's invariant gives the interpreter's
  well-formedness \<open>types_ok\<close>, and the compiler's subtyping gives the interpreter's.
\<close>

fun kind_tag :: "type_kind \<Rightarrow> type_tag" where
  "kind_tag KArray = TArray"
| "kind_tag KCown = TCown"
| "kind_tag KRef = TRef"
| "kind_tag KUnion = TUnion"
| "kind_tag KTuple = TTuple"

definition emit_type :: "type_info \<Rightarrow> complex_type" where
  "emit_type t = \<lparr>ct_tag = kind_tag (ti_kind t), ct_children = map of_nat (ti_elements t)\<rparr>"

definition table_of :: "compilation \<Rightarrow> type_table" where
  "table_of c = (let m = of_nat (first_complex c); cts = map emit_type (comp_types c) in
     \<lparr>min_complex_type_id = m, complex_types = cts, ref_map = ref_entries m cts Map.empty, typeid_ref_dyn = m + 3\<rparr>)"

text \<open>The numbers fit in 32 bits, below the dynamic type's.\<close>

definition numbers_fit :: "compilation \<Rightarrow> bool" where
  "numbers_fit c = (first_complex c + length (comp_types c) < DynId
     \<and> list_all (\<lambda>t. length (ti_elements t) < 2 ^ 64) (comp_types c))"

lemma table_of_simps [simp]:
  "min_complex_type_id (table_of c) = of_nat (first_complex c)"
  "complex_types (table_of c) = map emit_type (comp_types c)"
  by (simp_all add: table_of_def Let_def)

lemma emit_type_ok: "kind_ok t \<Longrightarrow> length (ti_elements t) < 2 ^ 64 \<Longrightarrow> complex_ok (emit_type t)"
  by (cases "ti_kind t") (simp_all add: emit_type_def complex_ok_def kind_ok_def)

lemma of_nat_DynId: "(of_nat DynId :: 32 word) = DynamicTypeId"
  by (simp add: DynId_def DynamicTypeId_def)

lemma unat_number: "i < DynId \<Longrightarrow> unat (of_nat i :: 32 word) = i"
  by (simp add: DynId_def unat_of_nat take_bit_nat_eq_self)

lemma first_fits: "numbers_fit c \<Longrightarrow> j \<le> length (comp_types c) \<Longrightarrow> first_complex c + j < DynId"
  by (simp add: numbers_fit_def)

lemma number_neq_Dyn: "i < DynId \<Longrightarrow> (of_nat i :: 32 word) \<noteq> DynamicTypeId"
proof
  assume "i < DynId" "(of_nat i :: 32 word) = DynamicTypeId"
  then have "unat (of_nat DynId :: 32 word) = i" using unat_number [of i] by (simp add: of_nat_DynId)
  with \<open>i < DynId\<close> show False by (simp add: DynId_def unat_of_nat take_bit_nat_eq_self)
qed

lemma rank_complex:
  assumes fit: "numbers_fit c" and "j < length (comp_types c)"
  shows "rank (table_of c) (of_nat (first_complex c + j)) = Suc j"
proof -
  have l: "first_complex c + j < DynId" "first_complex c < DynId"
    using first_fits [OF fit, of j] first_fits [OF fit, of 0] assms by simp_all
  have "is_complex (table_of c) (of_nat (first_complex c + j))"
    using l unat_number by (simp add: is_complex_def word_le_nat_alt del: of_nat_add)
  moreover have "of_nat (first_complex c + j) - of_nat (first_complex c) = (of_nat j :: 32 word)" by simp
  moreover have "unat (of_nat j :: 32 word) = j" using l by (intro unat_number) simp
  ultimately show ?thesis using number_neq_Dyn [OF l(1)] by (simp add: rank_def del: of_nat_add)
qed

lemma rank_simple: "numbers_fit c \<Longrightarrow> i < first_complex c \<Longrightarrow> rank (table_of c) (of_nat i) = 0"
  using first_fits [of c 0] unat_number [of i] unat_number [of "first_complex c"]
  by (simp add: rank_def is_complex_def word_le_nat_alt)

lemma rank_known:
  assumes fit: "numbers_fit c" and "known_number c j i" "j \<le> length (comp_types c)"
  shows "rank (table_of c) (of_nat i) \<le> j" "id_ok (table_of c) (of_nat i)"
proof -
  have "rank (table_of c) (of_nat i) \<le> j"
  proof (cases "i = DynId")
    case True
    then show ?thesis by (simp add: of_nat_DynId rank_def)
  next
    case False
    show ?thesis
    proof (cases "i < first_complex c")
      case True
      then show ?thesis by (simp add: rank_simple [OF fit])
    next
      case below: False
      define k where "k = i - first_complex c"
      have "i = first_complex c + k" "k < j" using below False assms(2) by (auto simp: k_def known_number_def)
      with assms(3) rank_complex [OF fit, of k] show ?thesis by simp
    qed
  qed
  with assms(3) show "rank (table_of c) (of_nat i) \<le> j" "id_ok (table_of c) (of_nat i)"
    by (simp_all add: id_ok_def)
qed

lemma types_ok_table:
  assumes fit: "numbers_fit c" and inv: "types_inv c"
  shows "types_ok (table_of c)"
proof -
  have l: "first_complex c < DynId" using first_fits [OF fit, of 0] by simp
  have "complex_ok (emit_type (comp_types c ! j)) \<and>
      (\<forall>i \<in> set (ct_children (emit_type (comp_types c ! j))). id_ok (table_of c) i \<and> rank (table_of c) i \<le> j)"
    if j: "j < length (comp_types c)" for j
  proof
    have t: "kind_ok (comp_types c ! j)" "\<forall>i \<in> set (ti_elements (comp_types c ! j)). known_number c j i"
      using inv j by (simp_all add: types_inv_def)
    show "complex_ok (emit_type (comp_types c ! j))"
      using t(1) fit j by (intro emit_type_ok) (simp_all add: numbers_fit_def list_all_length)
    show "\<forall>i \<in> set (ct_children (emit_type (comp_types c ! j))). id_ok (table_of c) i \<and> rank (table_of c) i \<le> j"
      using t(2) j by (auto simp: emit_type_def rank_known [OF fit])
  qed
  moreover have "NumPrimitiveClasses \<le> first_complex c" by (simp add: first_complex_def)
  moreover have "first_complex c + length (comp_types c) < 2 ^ 32" using fit by (simp add: numbers_fit_def DynId_def)
  ultimately show ?thesis using unat_number [OF l] by (simp add: types_ok_def)
qed

lemma number_in_table:
  assumes fit: "numbers_fit c" and inv: "types_inv c" and i: "type_info_ids c info = Some i"
  shows "tag (table_of c) (of_nat i) = Some (kind_tag (ti_kind info))"
    "children (table_of c) (of_nat i) = map of_nat (ti_elements info)"
    "id_ok (table_of c) (of_nat i)" "i < DynId" "0 < rank (table_of c) (of_nat i)"
proof -
  from inv i obtain j where j: "j < length (comp_types c)" "comp_types c ! j = info" "i = first_complex c + j"
    by (auto simp: types_inv_def)
  note r = rank_complex [OF fit j(1)]
  show "tag (table_of c) (of_nat i) = Some (kind_tag (ti_kind info))"
    "children (table_of c) (of_nat i) = map of_nat (ti_elements info)"
    using j r by (simp_all add: tag_def children_def emit_type_def del: of_nat_add)
  show "id_ok (table_of c) (of_nat i)" "0 < rank (table_of c) (of_nat i)"
    using j r by (simp_all add: id_ok_def del: of_nat_add)
  show "i < DynId" using first_fits [OF fit, of j] j by simp
qed

subsection \<open>Unions in the interpreter's subtyping\<close>

definition no_dyn_members :: "type_table \<Rightarrow> bool" where
  "no_dyn_members P = (\<forall>u. id_ok P u \<and> tag P u = Some TUnion \<longrightarrow> DynamicTypeId \<notin> set (children P u))"

lemma subtype_member:
  assumes P: "types_ok P" "no_dyn_members P"
    and "id_ok P j" "tag P j = Some TUnion" "e \<in> set (children P j)" "id_ok P x" "x \<noteq> DynamicTypeId" "subtype P x e"
  shows "subtype P x j"
  using assms(3-)
proof (induction "rank P x" arbitrary: x j e rule: less_induct)
  case less
  have tag_rank: "0 < rank P u" if "tag P u = Some t" for u t using that by (auto simp: tag_def split: if_splits)
  note e_ok = child_ok [OF P(1) less.prems(1) tag_rank [OF less.prems(2)] less.prems(3)]
  have e: "e \<noteq> DynamicTypeId" using P(2) less.prems(1-3) by (auto simp: no_dyn_members_def)
  show ?case
  proof (cases "x = j \<or> j = DynamicTypeId")
    case False
    note goal = subtype_unequal [OF P(1) less.prems(4,1,5)]
    show ?thesis
    proof (cases "tag P x = Some TUnion")
      case True
      have "subtype P d j" if d: "d \<in> set (children P x)" for d
      proof -
        note d_ok = child_ok [OF P(1) less.prems(4) tag_rank [OF True] d]
        have d_dyn: "d \<noteq> DynamicTypeId" using P(2) less.prems(4) True d by (auto simp: no_dyn_members_def)
        have "subtype P d e"
        proof (cases "x = e")
          case same: True
          from less.hyps [OF d_ok(2) less.prems(4) True d d_ok(1) d_dyn subtype_self] same show ?thesis by simp
        next
          case False
          with subtype_unequal [OF P(1) less.prems(4) e_ok(1) less.prems(5) e False] less.prems(6) True d
          show ?thesis by simp
        qed
        from less.hyps [OF d_ok(2) less.prems(1-3) d_ok(1) d_dyn this] show ?thesis .
      qed
      with False True goal show ?thesis by simp
    next
      case no: False
      with False goal less.prems show ?thesis by auto
    qed
  qed auto
qed

subsection \<open>The compiler's subtyping in the emitted table\<close>

definition no_dyn_unions :: "compilation \<Rightarrow> bool" where
  "no_dyn_unions c = list_all (\<lambda>t. ti_kind t = KUnion \<longrightarrow> DynId \<notin> set (ti_elements t)) (comp_types c)"

definition alias_of :: "compilation \<Rightarrow> alias_env" where
  "alias_of c x = (case get_typealias c x of Ret d \<Rightarrow> Some d | _ \<Rightarrow> None)"

definition table_ok :: "compilation \<Rightarrow> bool" where
  "table_ok c = (types_inv c \<and> numbers_fit c \<and> no_dyn_unions c)"

lemma number_info_mem: "types_inv c \<Longrightarrow> type_info_ids c info = Some i \<Longrightarrow> info \<in> set (comp_types c)"
  by (auto simp: types_inv_def)

lemma union_members:
  assumes "table_ok c" "numbered c i (Node LUnion ts)"
  obtains js where "list_all2 (numbered c) js ts" "set (children (table_of c) (of_nat i)) = of_nat ` set js"
    "tag (table_of c) (of_nat i) = Some TUnion" "id_ok (table_of c) (of_nat i)" "i < DynId" "DynId \<notin> set js"
proof -
  from assms(2) obtain js where js: "list_all2 (numbered c) js ts"
    "type_info_ids c \<lparr>ti_kind = KUnion, ti_elements = type_elements KUnion js\<rparr> = Some i"
    by (auto simp: numbered_complex)
  have ok: "types_inv c" "numbers_fit c" using assms(1) by (simp_all add: table_ok_def)
  note t = number_in_table [OF ok(2,1) js(2)]
  from number_info_mem [OF ok(1) js(2)] assms(1) have "DynId \<notin> set js"
    by (auto simp: table_ok_def no_dyn_unions_def list_all_iff)
  with js(1) t show thesis by (intro that [of js]) auto
qed

lemma numbered_known:
  assumes "table_ok c" "numbered c i t"
  shows "known_number c (length (comp_types c)) i"
  using assms(2)
proof (induction rule: numbered.induct)
  case (prim p ts)
  have "primitive_code p < NumPrimitiveClasses" by (cases p) (simp_all add: NumPrimitiveClasses_def)
  then show ?case by (simp add: known_number_def first_complex_def)
next
  case (user x k ts)
  then have "k < length (comp_classes c)" by (auto simp: get_class_id_def dest: find_id_SomeD)
  then show ?case by (simp add: known_number_def first_complex_def)
next
  case (complex l k ts js i)
  from assms(1) complex.hyps(3) obtain j where "j < length (comp_types c)" "i = first_complex c + j"
    unfolding table_ok_def types_inv_def by blast
  then show ?case by (simp add: known_number_def)
qed (simp_all add: known_number_def)

lemma numbered_id:
  assumes "table_ok c" "numbered c i t"
  shows "id_ok (table_of c) (of_nat i)" "(of_nat i :: 32 word) = DynamicTypeId \<longleftrightarrow> i = DynId"
proof -
  have fit: "numbers_fit c" using assms(1) by (simp add: table_ok_def)
  note k = numbered_known [OF assms]
  show "id_ok (table_of c) (of_nat i)" using rank_known(2) [OF fit k] by simp
  from k first_fits [OF fit, of "length (comp_types c)"] have "i = DynId \<or> i < DynId" by (auto simp: known_number_def)
  then show "(of_nat i :: 32 word) = DynamicTypeId \<longleftrightarrow> i = DynId" using number_neq_Dyn by (auto simp: of_nat_DynId)
qed

lemma table_ok_simps:
  assumes "table_ok c"
  shows "types_ok (table_of c)"
  using assms types_ok_table by (simp add: table_ok_def)

lemma union_left:
  assumes ok: "table_ok c" and "numbered c i l" and y: "id_ok (table_of c) y"
    and "\<And>a ia. a \<in> parts l \<Longrightarrow> numbered c ia a \<Longrightarrow> subtype (table_of c) (of_nat ia) y"
  shows "subtype (table_of c) (of_nat i) y"
  using assms(2,4)
proof (induction l arbitrary: i rule: node.induct)
  case (Node l ts)
  show ?case
  proof (cases "l = LUnion")
    case True
    with union_members [OF ok] Node.prems(1) obtain js where js: "list_all2 (numbered c) js ts"
      "set (children (table_of c) (of_nat i)) = of_nat ` set js"
      "tag (table_of c) (of_nat i) = Some TUnion" "id_ok (table_of c) (of_nat i)" "i < DynId" by metis
    have m: "subtype (table_of c) (of_nat k) y" if k: "k \<in> set js" for k
    proof -
      from list_all2_member(1) [OF js(1) k] obtain t where t: "t \<in> set ts" "numbered c k t" by blast
      then show ?thesis using Node.prems(2) True by (intro Node.IH [OF t]) auto
    qed
    show ?thesis
    proof (cases "y = DynamicTypeId \<or> of_nat i = y")
      case False
      with subtype_unequal [OF table_ok_simps [OF ok] js(4) y number_neq_Dyn [OF js(5)]] js(2,3) m
      show ?thesis by auto
    qed auto
  next
    case False
    then show ?thesis using Node.prems by simp
  qed
qed

lemma part_not_dyn:
  assumes ok: "table_ok c" and "numbered c j r" "b \<in> parts r" "numbered c jb b" "r \<noteq> b"
  shows "jb \<noteq> DynId"
  using assms(2-)
proof (induction r arbitrary: j rule: node.induct)
  case (Node l ts)
  then have l: "l = LUnion" by (auto split: if_splits)
  from union_members [OF ok] Node.prems(1) l obtain js where js: "list_all2 (numbered c) js ts" "DynId \<notin> set js" by metis
  from Node.prems(2) l obtain t where t: "t \<in> set ts" "b \<in> parts t" by auto
  from list_all2_member(2) [OF js(1) t(1)] obtain k where k: "k \<in> set js" "numbered c k t" by blast
  show ?case
  proof (cases "t = b")
    case True
    then have "k = jb" using k(2) Node.prems(3) by (auto intro: numbered_fun)
    then show ?thesis using k(1) js(2) by auto
  qed (rule Node.IH [OF t(1) k(2) t(2) Node.prems(3)])
qed

lemma no_dyn_members_table:
  assumes ok: "table_ok c"
  shows "no_dyn_members (table_of c)"
  unfolding no_dyn_members_def
proof (intro allI impI, elim conjE)
  fix u assume u: "id_ok (table_of c) u" "tag (table_of c) u = Some TUnion"
  define k where "k = rank (table_of c) u - 1"
  have k: "k < length (comp_types c)" "kind_tag (ti_kind (comp_types c ! k)) = TUnion"
    using u by (auto simp: tag_def id_ok_def k_def emit_type_def rank_def split: if_splits)
  then have "ti_kind (comp_types c ! k) = KUnion" by (cases "ti_kind (comp_types c ! k)") simp_all
  with k(1) ok have d: "DynId \<notin> set (ti_elements (comp_types c ! k))"
    by (simp add: table_ok_def no_dyn_unions_def list_all_length)
  have "i < DynId" if "i \<in> set (ti_elements (comp_types c ! k))" for i
  proof -
    have "known_number c k i" using ok k(1) that by (auto simp: table_ok_def types_inv_def)
    moreover have "first_complex c + k < DynId" using ok k(1) first_fits [of c k] by (simp add: table_ok_def)
    ultimately show ?thesis using d that by (auto simp: known_number_def)
  qed
  moreover have "children (table_of c) u = map of_nat (ti_elements (comp_types c ! k))"
    using k(1) by (simp add: children_def k_def emit_type_def)
  ultimately show "DynamicTypeId \<notin> set (children (table_of c) u)"
    using number_neq_Dyn by (metis imageE list.set_map)
qed

lemma union_right:
  assumes ok: "table_ok c" and "numbered c j r" "b \<in> parts r" "numbered c jb b"
    and x: "id_ok (table_of c) x" and "subtype (table_of c) x (of_nat jb)"
  shows "subtype (table_of c) x (of_nat j)"
proof (cases "r = b \<or> x = DynamicTypeId")
  case True
  then show ?thesis
  proof
    assume "r = b"
    then show ?thesis using assms(2,4,6) numbered_fun by blast
  next
    assume d: "x = DynamicTypeId"
    then have "jb = DynId" using assms(6) numbered_id(2) [OF ok assms(4)] by (simp add: Dyn_subtype)
    with part_not_dyn [OF ok assms(2-4)] have "r = b" by blast
    then show ?thesis using assms(2,4,6) numbered_fun by blast
  qed
next
  case False
  from assms(2,3) show ?thesis
  proof (induction r arbitrary: j rule: node.induct)
    case (Node l ts)
    show ?case
    proof (cases "l = LUnion")
      case True
      with union_members [OF ok] Node.prems(1) obtain js where js: "list_all2 (numbered c) js ts"
        "set (children (table_of c) (of_nat j)) = of_nat ` set js"
        "tag (table_of c) (of_nat j) = Some TUnion" "id_ok (table_of c) (of_nat j)" by metis
      from Node.prems(2) True obtain t where t: "t \<in> set ts" "b \<in> parts t" by auto
      from list_all2_member(2) [OF js(1) t(1)] obtain k where k: "k \<in> set js" "numbered c k t" by blast
      from subtype_member [OF table_ok_simps [OF ok] no_dyn_members_table [OF ok] js(4,3) _ x _ Node.IH [OF t(1) k(2) t(2)]]
      show ?thesis using k(1) js(2) False by auto
    next
      case no: False
      with Node.prems(2) have "b = Node l ts" by simp
      with Node.prems(1) assms(4,6) numbered_fun show ?thesis by blast
    qed
  qed
qed

lemma parts_numbered: "numbered c j r \<Longrightarrow> b \<in> parts r \<Longrightarrow> \<exists>jb. numbered c jb b"
proof (induction r arbitrary: j rule: node.induct)
  case (Node l ts)
  show ?case
  proof (cases "l = LUnion")
    case True
    with Node.prems obtain js t where js: "list_all2 (numbered c) js ts" and t: "t \<in> set ts" "b \<in> parts t"
      by (auto simp: numbered_complex)
    from list_all2_member(2) [OF js t(1)] Node.IH t show ?thesis by blast
  qed (use Node.prems in auto)
qed

lemma complex_number:
  assumes "table_ok c" "numbered c i (Node l ts)" "complex_kind l = Some k"
  obtains js where "list_all2 (numbered c) js ts"
    "tag (table_of c) (of_nat i) = Some (kind_tag k)"
    "children (table_of c) (of_nat i) = map of_nat (type_elements k js)"
    "id_ok (table_of c) (of_nat i)" "(of_nat i :: 32 word) \<noteq> DynamicTypeId"
proof -
  from assms(2,3) obtain js where js: "list_all2 (numbered c) js ts"
    "type_info_ids c \<lparr>ti_kind = k, ti_elements = type_elements k js\<rparr> = Some i"
    by (auto simp: numbered_complex)
  have ok: "types_inv c" "numbers_fit c" using assms(1) by (simp_all add: table_ok_def)
  note t = number_in_table [OF ok(2,1) js(2)]
  with js(1) number_neq_Dyn [OF t(4)] show thesis by (intro that) simp_all
qed

lemma invariant_subtype:
  assumes ok: "table_ok c" and k: "complex_kind l = Some k" "k \<in> {KArray, KCown, KRef}"
    and i: "numbered c i (Node l [t])" and j: "numbered c j (Node l [u])"
    and sub: "\<And>a b. numbered c a t \<Longrightarrow> numbered c b u \<Longrightarrow>
      subtype (table_of c) (of_nat a) (of_nat b) \<and> subtype (table_of c) (of_nat b) (of_nat a)"
  shows "subtype (table_of c) (of_nat i) (of_nat j)"
proof (cases "(of_nat i :: 32 word) = of_nat j")
  case False
  from complex_number [OF ok i k(1)] obtain js where 1: "list_all2 (numbered c) js [t]"
    "tag (table_of c) (of_nat i) = Some (kind_tag k)" "children (table_of c) (of_nat i) = map of_nat (type_elements k js)"
    "id_ok (table_of c) (of_nat i)" "(of_nat i :: 32 word) \<noteq> DynamicTypeId" .
  from complex_number [OF ok j k(1)] obtain js' where 2: "list_all2 (numbered c) js' [u]"
    "tag (table_of c) (of_nat j) = Some (kind_tag k)" "children (table_of c) (of_nat j) = map of_nat (type_elements k js')"
    "id_ok (table_of c) (of_nat j)" "(of_nat j :: 32 word) \<noteq> DynamicTypeId" .
  from 1(1) 2(1) obtain a b where ab: "js = [a]" "js' = [b]" "numbered c a t" "numbered c b u"
    by (auto simp: list_all2_Cons2)
  from sub [OF ab(3,4)] subtype_unequal [OF table_ok_simps [OF ok] 1(4) 2(4) 1(5) 2(5) False] 1 2 ab k(2)
  show ?thesis by (auto simp: type_elements_def)
qed auto

lemma tuple_subtype:
  assumes ok: "table_ok c" and i: "numbered c i (Node LTuple ts)" and j: "numbered c j (Node LTuple us)"
    and sub: "list_all2 (\<lambda>t u. \<forall>a b. numbered c a t \<and> numbered c b u \<longrightarrow> subtype (table_of c) (of_nat a) (of_nat b)) ts us"
  shows "subtype (table_of c) (of_nat i) (of_nat j)"
proof (cases "(of_nat i :: 32 word) = of_nat j")
  case False
  have k: "complex_kind LTuple = Some KTuple" by simp
  from complex_number [OF ok i k] obtain js where 1: "list_all2 (numbered c) js ts"
    "tag (table_of c) (of_nat i) = Some (kind_tag KTuple)" "children (table_of c) (of_nat i) = map of_nat (type_elements KTuple js)"
    "id_ok (table_of c) (of_nat i)" "(of_nat i :: 32 word) \<noteq> DynamicTypeId" .
  from complex_number [OF ok j k] obtain js' where 2: "list_all2 (numbered c) js' us"
    "tag (table_of c) (of_nat j) = Some (kind_tag KTuple)" "children (table_of c) (of_nat j) = map of_nat (type_elements KTuple js')"
    "id_ok (table_of c) (of_nat j)" "(of_nat j :: 32 word) \<noteq> DynamicTypeId" .
  from 1(1) 2(1) sub have "list_all2 (subtype (table_of c)) (map of_nat js) (map of_nat js')"
    by (simp add: list_all2_conv_all_nth)
  with subtype_unequal [OF table_ok_simps [OF ok] 1(4) 2(4) 1(5) 2(5) False] 1(2,3) 2(2,3)
  show ?thesis by (simp add: type_elements_def)
qed auto

lemma all_out_zip: "all_out (\<lambda>(t, u). f t u) (zip ts us) = Ret True \<Longrightarrow> length ts = length us \<Longrightarrow>
    list_all2 (\<lambda>t u. f t u = Ret True) ts us"
  by (induction ts us rule: list_induct2') (auto simp: outcome_simps split: if_splits)

lemma resolve_number:
  "resolve_alias (alias_of c) t = Some d \<Longrightarrow> numbered c i t \<Longrightarrow> numbered c i d"
  by (cases t) (auto simp: resolve_alias_def alias_of_def numbered_simps split: ir_label.splits outcome.splits)

text \<open>An axiom that accepts two atoms, from the search it calls.\<close>

lemma ir_axiom_sound:
  assumes ok: "table_ok c"
    and IH: "\<And>t u i j. s ctx t u = Ret True \<Longrightarrow> numbered c i t \<Longrightarrow> numbered c j u \<Longrightarrow>
      subtype (table_of c) (of_nat i) (of_nat j)"
    and a: "ask (axioms (ir_calculus (alias_of c) s) (label r)) False ctx l r = Ret True"
    and i: "numbered c i l" and j: "numbered c j r"
  shows "subtype (table_of c) (of_nat i) (of_nat j)"
proof (cases r)
  case (Node lb us)
  have same: "subtype (table_of c) (of_nat i) (of_nat j)" if "l = r" using i j that numbered_fun by force
  consider (named) x where "lb = LTypeId x" | (dyn) "lb = LDyn"
    | (eq) "axioms (ir_calculus (alias_of c) s) lb = Some (ir_axiom_eq (alias_of c) s)"
    | (inv) k where "axioms (ir_calculus (alias_of c) s) lb = Some (ir_axiom_invariant (alias_of c) s)"
      "complex_kind lb = Some k" "k \<in> {KArray, KCown, KRef}"
    | (tuple) "lb = LTuple" | (union) "lb = LUnion" by (cases lb) (auto simp: ir_calculus_def)
  then show ?thesis
  proof cases
    case named
    with a Node have e: "ir_axiom_alias (alias_of c) s ctx l r = Ret True" by (simp add: ir_calculus_def ask_def)
    show ?thesis
    proof (cases "resolve_alias (alias_of c) l = None \<and> resolve_alias (alias_of c) r = None")
      case True
      with e same show ?thesis by (simp add: ir_axiom_alias_def)
    next
      case False
      let ?l = "case resolve_alias (alias_of c) l of None \<Rightarrow> l | Some d \<Rightarrow> d"
      let ?r = "case resolve_alias (alias_of c) r of None \<Rightarrow> r | Some d \<Rightarrow> d"
      have "s ctx ?l ?r = Ret True" using e False by (auto simp: ir_axiom_alias_def split: option.splits)
      moreover have "numbered c i ?l" "numbered c j ?r"
        using i j by (auto split: option.splits dest: resolve_number)
      ultimately show ?thesis by (rule IH)
    qed
  next
    case dyn
    then have "j = DynId" using j Node by (auto simp: numbered_simps)
    then show ?thesis by (simp add: of_nat_DynId)
  next
    case eq
    with a Node have "ir_axiom_eq (alias_of c) s ctx l r = Ret True" by (simp add: ask_def)
    then show ?thesis using same IH i j
      by (auto simp: ir_axiom_eq_def split: option.splits dest: resolve_number)
  next
    case inv
    with a Node have e: "ir_axiom_invariant (alias_of c) s ctx l r = Ret True" by (simp add: ask_def)
    show ?thesis
    proof (cases "resolve_alias (alias_of c) l")
      case (Some d)
      with e IH i j show ?thesis by (auto simp: ir_axiom_invariant_def dest: resolve_number)
    next
      case None
      from e None Node obtain t u where tu: "l = Node lb [t]" "us = [u]" "s ctx t u = Ret True" "s ctx u t = Ret True"
        by (cases l) (auto simp: ir_axiom_invariant_def outcome_simps split: if_splits list.splits)
      show ?thesis
        by (rule invariant_subtype [OF ok inv(2,3) i [unfolded tu(1)] j [unfolded Node tu(2)]])
          (use IH tu(3,4) in blast)
    qed
  next
    case tuple
    with a Node have e: "ir_axiom_tuple (alias_of c) s ctx l r = Ret True" by (simp add: ir_calculus_def ask_def)
    show ?thesis
    proof (cases "resolve_alias (alias_of c) l")
      case (Some d)
      with e IH i j show ?thesis by (auto simp: ir_axiom_tuple_def dest: resolve_number)
    next
      case None
      with e Node tuple obtain ts where ts: "l = Node LTuple ts" "length ts = length us"
        "all_out (\<lambda>(t, u). s ctx t u) (zip ts us) = Ret True"
        by (cases l) (auto simp: ir_axiom_tuple_def split: if_splits)
      from all_out_zip [OF ts(3,2)] have
        "list_all2 (\<lambda>t u. \<forall>a b. numbered c a t \<and> numbered c b u \<longrightarrow> subtype (table_of c) (of_nat a) (of_nat b)) ts us"
        by (rule list_all2_mono) (use IH in blast)
      with i j ts(1) Node tuple show ?thesis by (auto intro: tuple_subtype [OF ok])
    qed
  next
    case union
    with a Node show ?thesis by (simp add: ir_calculus_def ask_def)
  qed
qed

lemma ir_subtype_sound:
  assumes ok: "table_ok c"
  shows "ir_subtype n (alias_of c) ctx l r = Ret True \<Longrightarrow> implications ctx = [] \<Longrightarrow> numbered c i l \<Longrightarrow> numbered c j r \<Longrightarrow>
    subtype (table_of c) (of_nat i) (of_nat j)"
proof (induction n arbitrary: ctx l r i j)
  case (Suc n)
  show ?case
  proof (rule union_left [OF ok Suc.prems(3) numbered_id(1) [OF ok Suc.prems(4)]])
    fix a ia assume a: "a \<in> parts l" "numbered c ia a"
    from ir_subtype_parts [OF Suc.prems(1,2) a(1)] obtain b where b: "b \<in> parts r"
      "ask (axioms (ir_calculus (alias_of c) (ir_subtype n (alias_of c))) (label b)) False (ctx\<lparr>implications := []\<rparr>) a b = Ret True"
      by blast
    obtain jb where jb: "numbered c jb b" using parts_numbered [OF Suc.prems(4) b(1)] by blast
    have "subtype (table_of c) (of_nat ia) (of_nat jb)"
      by (rule ir_axiom_sound [OF ok _ b(2) a(2) jb]) (use Suc.IH in auto)
    then show "subtype (table_of c) (of_nat ia) (of_nat j)"
      by (rule union_right [OF ok Suc.prems(4) b(1) jb numbered_id(1) [OF ok a(2)]])
  qed
qed simp

end
