(* ===== verification/Emit.thy ===== *)
theory Emit
  imports ValidateIds TypeAgree
begin

text \<open>
  The emitter (\<^verbatim>\<open>virc/vbc/emitter.cc\<close>): from validated IR to the records of theory \<open>Loader\<close>, whose
  writers put them into a file. A statement becomes a list of instructions, an opcode with its
  operands; \<open>put_instr\<close> writes one. Reading an absent \<open>std::optional\<close> is \<open>Stuck\<close>. Numbering
  a type may add it to the type table, which is emitted last, so the compilation is threaded
  through in the order of the code. Debug information, whose offsets go into the header, is a
  parameter, and so is the conversion of floating point literals.
\<close>

record emit_env =
  alias_fuel :: nat
  float_bits :: "literal \<Rightarrow> 32 word \<times> 64 word"
  memo_funcs :: "string list"
  class_di :: "nat \<Rightarrow> 64 word"
  func_di :: "nat \<Rightarrow> 64 word"

subsection \<open>Instructions\<close>

datatype operand = OpU "64 word" | OpS8 "8 word" | OpS16 "16 word" | OpS32 "32 word" | OpS64 "64 word"

type_synonym instr = "op \<times> operand list"

primrec put_operand :: "operand \<Rightarrow> byte list" where
  "put_operand (OpU w) = uleb_put w"
| "put_operand (OpS8 w) = sleb_put_narrow w"
| "put_operand (OpS16 w) = sleb_put_narrow w"
| "put_operand (OpS32 w) = sleb_put32 w"
| "put_operand (OpS64 w) = sleb_put64 w"

definition op_code :: "op \<Rightarrow> 64 word" where
  "op_code op = (case find_id op_table op of None \<Rightarrow> 0 | Some i \<Rightarrow> of_nat i)"

definition put_instr :: "instr \<Rightarrow> byte list" where
  "put_instr = (\<lambda>(op, os). uleb_put (op_code op) @ concat (map put_operand os))"

type_synonym emission = "(instr list \<times> compilation) outcome"

definition id_word :: "nat option \<Rightarrow> 64 word" where
  "id_word i = (case i of None \<Rightarrow> 0 | Some i \<Rightarrow> of_nat i)"

definition with_id :: "nat option \<Rightarrow> (64 word \<Rightarrow> 'a outcome) \<Rightarrow> 'a outcome" where
  "with_id i k = (case i of None \<Rightarrow> Stuck | Some i \<Rightarrow> k (of_nat i))"

definition with_reg :: "func_state \<Rightarrow> string \<Rightarrow> (64 word \<Rightarrow> 'a outcome) \<Rightarrow> 'a outcome" where
  "with_reg F x = with_id (get_register_id F x)"

definition with_type :: "emit_env \<Rightarrow> ir_type \<Rightarrow> compilation \<Rightarrow> (64 word \<Rightarrow> compilation \<Rightarrow> 'a outcome) \<Rightarrow> 'a outcome" where
  "with_type E t c k = obind (ir_type_id (alias_fuel E) (settle c t) c) (\<lambda>(i, c). k (of_nat i) c)"

fun with_args :: "func_state \<Rightarrow> ir_arg list \<Rightarrow> (instr list \<Rightarrow> 'a outcome) \<Rightarrow> 'a outcome" where
  "with_args F [] k = k []"
| "with_args F (a # as) k = with_reg F (arg_src a) (\<lambda>r.
     with_args F as (\<lambda>is. k ((if arg_moves a then OArgMove else OArgCopy, [OpU r]) # is)))"

definition memo_slot :: "emit_env \<Rightarrow> string \<Rightarrow> nat option" where
  "memo_slot E f = map_of (rev (zip (memo_funcs E) [0..<length (memo_funcs E)])) f"

text \<open>The literal of a \<open>Const\<close>; the float types are written as the signed integer with their bits.\<close>

definition const_operands :: "(literal \<Rightarrow> 32 word \<times> 64 word) \<Rightarrow> primitive \<Rightarrow> literal \<Rightarrow> operand list" where
  "const_operands fbs t l = (case t of
     PNone \<Rightarrow> []
   | PBool \<Rightarrow> [OpU (if lit_kind l = KTrue then 1 else 0)]
   | PI8 \<Rightarrow> [OpS8 (word_literal True l)]
   | PU8 \<Rightarrow> [OpU (ucast (word_literal False l :: 8 word))]
   | PI16 \<Rightarrow> [OpS16 (word_literal True l)]
   | PU16 \<Rightarrow> [OpU (ucast (word_literal False l :: 16 word))]
   | PI32 \<Rightarrow> [OpS32 (word_literal True l)]
   | PU32 \<Rightarrow> [OpU (ucast (word_literal False l :: 32 word))]
   | PF32 \<Rightarrow> [OpS32 (fst (fbs l))]
   | PF64 \<Rightarrow> [OpS64 (snd (fbs l))]
   | _ \<Rightarrow> if t \<in> {PI64, PILong, PISize} then [OpS64 (word_literal True l)] else [OpU (word_literal False l)])"

subsection \<open>Statements\<close>

primrec emit_stmt :: "emit_env \<Rightarrow> func_state \<Rightarrow> stmt \<Rightarrow> compilation \<Rightarrow> emission" where
  "emit_stmt E F (SSource s) c =
     Ret ([], c)"
| "emit_stmt E F (SOffset l) c =
     Ret ([], c)"
| "emit_stmt E F (SConst d t l) c =
     with_reg F d (\<lambda>d. Ret ([(OConst, OpU d # OpU (of_nat (primitive_code t)) # const_operands (float_bits E) t l)], c))"
| "emit_stmt E F (SConstStr d raw s) c =
     with_reg F d (\<lambda>d. let x = literal_string raw s; c = intern x c in Ret ([(OString, [OpU d, OpU (id_word (find_id (exec_strings c) x))])], c))"
| "emit_stmt E F (SConvert d t s) c =
     with_reg F d (\<lambda>d. with_reg F s (\<lambda>s. Ret ([(OConvert, [OpU d, OpU (of_nat (primitive_code t)), OpU s])], c)))"
| "emit_stmt E F (SSingleton d x) c =
     with_reg F d (\<lambda>d. with_type E (class_node x) c (\<lambda>t c. Ret ([(OSingleton, [OpU d, OpU t])], c)))"
| "emit_stmt E F (SNew d x as) c =
     with_args F as (\<lambda>as. with_reg F d (\<lambda>d. with_type E (class_node x) c (\<lambda>t c. Ret (as @ [(ONew, [OpU d, OpU t])], c))))"
| "emit_stmt E F (SStack d x as) c =
     with_args F as (\<lambda>as. with_reg F d (\<lambda>d. with_type E (class_node x) c (\<lambda>t c. Ret (as @ [(OStack, [OpU d, OpU t])], c))))"
| "emit_stmt E F (SHeap d s x as) c =
     with_args F as (\<lambda>as. with_reg F d (\<lambda>d. with_reg F s (\<lambda>s. with_type E (class_node x) c (\<lambda>t c. Ret (as @ [(OHeap, [OpU d, OpU s, OpU t])], c)))))"
| "emit_stmt E F (SRegion d r x as) c =
     with_args F as (\<lambda>as. with_reg F d (\<lambda>d. with_type E (class_node x) c (\<lambda>t c. Ret (as @ [(ORegion, [OpU d, OpU (ucast (region_code r)), OpU t])], c))))"
| "emit_stmt E F (SNewArray d t s) c =
     with_reg F d (\<lambda>d. with_reg F s (\<lambda>s. with_type E t c (\<lambda>t c. Ret ([(ONewArray, [OpU d, OpU s, OpU t])], c))))"
| "emit_stmt E F (SNewArrayConst d t l) c =
     with_reg F d (\<lambda>d. with_type E t c (\<lambda>t c. Ret ([(ONewArrayConst, [OpU d, OpU t, OpU (word_literal False l)])], c)))"
| "emit_stmt E F (SStackArray d t s) c =
     with_reg F d (\<lambda>d. with_reg F s (\<lambda>s. with_type E t c (\<lambda>t c. Ret ([(OStackArray, [OpU d, OpU s, OpU t])], c))))"
| "emit_stmt E F (SStackArrayConst d t l) c =
     with_reg F d (\<lambda>d. with_type E t c (\<lambda>t c. Ret ([(OStackArrayConst, [OpU d, OpU t, OpU (word_literal False l)])], c)))"
| "emit_stmt E F (SHeapArray d h t s) c =
     with_reg F d (\<lambda>d. with_reg F h (\<lambda>h. with_reg F s (\<lambda>s. with_type E t c (\<lambda>t c. Ret ([(OHeapArray, [OpU d, OpU h, OpU s, OpU t])], c)))))"
| "emit_stmt E F (SHeapArrayConst d h t l) c =
     with_reg F d (\<lambda>d. with_reg F h (\<lambda>h. with_type E t c (\<lambda>t c. Ret ([(OHeapArrayConst, [OpU d, OpU h, OpU t, OpU (word_literal False l)])], c))))"
| "emit_stmt E F (SRegionArray d r t s) c =
     with_reg F d (\<lambda>d. with_reg F s (\<lambda>s. with_type E t c (\<lambda>t c. Ret ([(ORegionArray, [OpU d, OpU (ucast (region_code r)), OpU s, OpU t])], c))))"
| "emit_stmt E F (SRegionArrayConst d r t l) c =
     with_reg F d (\<lambda>d. with_type E t c (\<lambda>t c. Ret ([(ORegionArrayConst, [OpU d, OpU (ucast (region_code r)), OpU t, OpU (word_literal False l)])], c)))"
| "emit_stmt E F (SCopy d s) c =
     with_reg F d (\<lambda>d. with_reg F s (\<lambda>s. Ret ([(OCopy, [OpU d, OpU s])], c)))"
| "emit_stmt E F (SMove d s) c =
     with_reg F d (\<lambda>d. with_reg F s (\<lambda>s. Ret ([(OMove, [OpU d, OpU s])], c)))"
| "emit_stmt E F (SDrop d) c =
     with_reg F d (\<lambda>d. Ret ([(ODrop, [OpU d])], c))"
| "emit_stmt E F (SFreeze d s) c =
     with_reg F d (\<lambda>d. with_reg F s (\<lambda>s. Ret ([(OFreeze, [OpU d, OpU s])], c)))"
| "emit_stmt E F (SPin d s) c =
     with_reg F d (\<lambda>d. with_reg F s (\<lambda>s. Ret ([(OPin, [OpU d, OpU s])], c)))"
| "emit_stmt E F (SUnpin d s) c =
     with_reg F d (\<lambda>d. with_reg F s (\<lambda>s. Ret ([(OUnpin, [OpU d, OpU s])], c)))"
| "emit_stmt E F (SMerge d l r) c =
     with_reg F d (\<lambda>d. with_reg F l (\<lambda>l. with_reg F r (\<lambda>r. Ret ([(OMerge, [OpU d, OpU l, OpU r])], c))))"
| "emit_stmt E F (SFFIStruct d t) c =
     with_reg F d (\<lambda>d. with_type E t c (\<lambda>t c. Ret ([(OFFIStruct, [OpU d, OpU t])], c)))"
| "emit_stmt E F (SFFILoad d l r k t) c =
     with_reg F d (\<lambda>d. with_reg F l (\<lambda>l. with_reg F r (\<lambda>r. with_reg F k (\<lambda>k. with_type E t c (\<lambda>t c. Ret ([(OFFILoad, [OpU d, OpU l, OpU r, OpU k, OpU t])], c))))))"
| "emit_stmt E F (SFFIStore d l r k v t) c =
     with_reg F d (\<lambda>d. with_reg F l (\<lambda>l. with_reg F r (\<lambda>r. with_reg F k (\<lambda>k. with_reg F v (\<lambda>v. with_type E t c (\<lambda>t c. Ret ([(OFFIStore, [OpU d, OpU l, OpU r, OpU k, OpU v, OpU t])], c)))))))"
| "emit_stmt E F (SRegisterRef d s) c =
     with_reg F d (\<lambda>d. with_reg F s (\<lambda>s. Ret ([(ORegisterRef, [OpU d, OpU s])], c)))"
| "emit_stmt E F (SFieldRef d a f) c =
     with_reg F d (\<lambda>d. with_reg F (arg_src a) (\<lambda>s. with_id (get_field_id c f) (\<lambda>f. Ret ([(if arg_moves a then OFieldRefMove else OFieldRefCopy, [OpU d, OpU s, OpU f])], c))))"
| "emit_stmt E F (SArrayRef d a s) c =
     with_reg F d (\<lambda>d. with_reg F (arg_src a) (\<lambda>r. with_reg F s (\<lambda>s. Ret ([(if arg_moves a then OArrayRefMove else OArrayRefCopy, [OpU d, OpU r, OpU s])], c))))"
| "emit_stmt E F (SArrayRefConst d a l) c =
     with_reg F d (\<lambda>d. with_reg F (arg_src a) (\<lambda>r. Ret ([(if arg_moves a then OArrayRefMoveConst else OArrayRefCopyConst, [OpU d, OpU r, OpU (word_literal False l)])], c)))"
| "emit_stmt E F (SLoad d s) c =
     with_reg F d (\<lambda>d. with_reg F s (\<lambda>s. Ret ([(OLoad, [OpU d, OpU s])], c)))"
| "emit_stmt E F (SStore d s a) c =
     with_reg F d (\<lambda>d. with_reg F s (\<lambda>s. with_reg F (arg_src a) (\<lambda>r. Ret ([(if arg_moves a then OStoreMove else OStoreCopy, [OpU d, OpU s, OpU r])], c))))"
| "emit_stmt E F (SLookup d s m) c =
     with_reg F d (\<lambda>d. with_reg F s (\<lambda>s. with_id (get_method_id c m) (\<lambda>m. Ret ([(OLookupDynamic, [OpU d, OpU s, OpU m])], c))))"
| "emit_stmt E F (SCall d f as) c =
     with_args F as (\<lambda>as. with_reg F d (\<lambda>d. with_id (get_func_id c f) (\<lambda>f. Ret (as @ [(OCallStatic, [OpU d, OpU f])], c))))"
| "emit_stmt E F (SCallDyn d s as) c =
     with_args F as (\<lambda>as. with_reg F d (\<lambda>d. with_reg F s (\<lambda>s. Ret (as @ [(OCallDynamic, [OpU d, OpU s])], c))))"
| "emit_stmt E F (STryCallDyn d s as) c =
     with_args F as (\<lambda>as. with_reg F d (\<lambda>d. with_reg F s (\<lambda>s. Ret (as @ [(OTryCallDynamic, [OpU d, OpU s])], c))))"
| "emit_stmt E F (SFFI d s as) c =
     with_args F as (\<lambda>as. with_reg F d (\<lambda>d. with_id (get_symbol_id c s) (\<lambda>s. Ret (as @ [(OFFI, [OpU d, OpU s])], c))))"
| "emit_stmt E F (SWhen d f as t) c =
     with_args F as (\<lambda>as. with_reg F d (\<lambda>d. with_type E t c (\<lambda>t c. with_id (get_func_id c f) (\<lambda>f. Ret (as @ [(OWhenStatic, [OpU d, OpU t, OpU f])], c)))))"
| "emit_stmt E F (SWhenDyn d s as t) c =
     with_args F as (\<lambda>as. with_reg F d (\<lambda>d. with_type E t c (\<lambda>t c. with_reg F s (\<lambda>s. Ret (as @ [(OWhenDynamic, [OpU d, OpU t, OpU s])], c)))))"
| "emit_stmt E F (SGetRaise d) c =
     with_reg F d (\<lambda>d. Ret ([(OGetRaise, [OpU d])], c))"
| "emit_stmt E F (SSetRaise d s) c =
     with_reg F d (\<lambda>d. with_reg F s (\<lambda>s. Ret ([(OSetRaise, [OpU d, OpU s])], c)))"
| "emit_stmt E F (STypetest d s t) c =
     with_reg F d (\<lambda>d. with_reg F s (\<lambda>s. with_type E t c (\<lambda>t c. Ret ([(OTypetest, [OpU d, OpU s, OpU t])], c))))"
| "emit_stmt E F (SBin b d l r) c =
     with_reg F d (\<lambda>d. with_reg F l (\<lambda>l. with_reg F r (\<lambda>r. Ret ([(OBin b, [OpU d, OpU l, OpU r])], c))))"
| "emit_stmt E F (SUn u d s) c =
     with_reg F d (\<lambda>d. with_reg F s (\<lambda>s. Ret ([(OUn u, [OpU d, OpU s])], c)))"
| "emit_stmt E F (SMakePtr d s) c =
     with_reg F d (\<lambda>d. with_reg F s (\<lambda>s. Ret ([(OPtr, [OpU d, OpU s])], c)))"
| "emit_stmt E F (SRead d s) c =
     with_reg F d (\<lambda>d. with_reg F s (\<lambda>s. Ret ([(ORead, [OpU d, OpU s])], c)))"
| "emit_stmt E F (SConstant k d) c =
     with_reg F d (\<lambda>d. Ret ([(OConstant k, [OpU d])], c))"
| "emit_stmt E F (SMakeCallback d s) c =
     with_reg F d (\<lambda>d. with_reg F s (\<lambda>s. Ret ([(OMakeCallback, [OpU d, OpU s])], c)))"
| "emit_stmt E F (SCodePtrCallback d s) c =
     with_reg F d (\<lambda>d. with_reg F s (\<lambda>s. Ret ([(OCodePtrCallback, [OpU d, OpU s])], c)))"
| "emit_stmt E F (SFreeCallback d s) c =
     with_reg F d (\<lambda>d. with_reg F s (\<lambda>s. Ret ([(OFreeCallback, [OpU d, OpU s])], c)))"
| "emit_stmt E F (SAddExternal d) c =
     with_reg F d (\<lambda>d. Ret ([(OAddExternal, [OpU d])], c))"
| "emit_stmt E F (SRemoveExternal d) c =
     with_reg F d (\<lambda>d. Ret ([(ORemoveExternal, [OpU d])], c))"
| "emit_stmt E F (SMemoSlot d f) c =
     with_reg F d (\<lambda>d. with_id (memo_slot E f) (\<lambda>i. Ret ([(OMemoLoad, [OpU d, OpU i])], c)))"
| "emit_stmt E F (SArrayCopy d as) c =
     with_args F as (\<lambda>as. with_reg F d (\<lambda>d. Ret (as @ [(OArrayCopy, [OpU d])], c)))"
| "emit_stmt E F (SArrayFill d as) c =
     with_args F as (\<lambda>as. with_reg F d (\<lambda>d. Ret (as @ [(OArrayFill, [OpU d])], c)))"
| "emit_stmt E F (SArrayCompare d as) c =
     with_args F as (\<lambda>as. with_reg F d (\<lambda>d. Ret (as @ [(OArrayCompare, [OpU d])], c)))"

definition with_label :: "func_state \<Rightarrow> string \<Rightarrow> (64 word \<Rightarrow> 'a outcome) \<Rightarrow> 'a outcome" where
  "with_label F x = with_id (get_label_id F x)"

text \<open>The type of a \<open>Raise\<close> is not emitted.\<close>

primrec emit_term :: "func_state \<Rightarrow> terminator \<Rightarrow> compilation \<Rightarrow> emission" where
  "emit_term F (TTailcall f as) c = with_args F as (\<lambda>as. with_id (get_func_id c f) (\<lambda>f. Ret (as @ [(OTailcallStatic, [OpU f])], c)))"
| "emit_term F (TTailcallDyn r as) c = with_args F as (\<lambda>as. with_reg F r (\<lambda>r. Ret (as @ [(OTailcallDynamic, [OpU r])], c)))"
| "emit_term F (TReturn r) c = with_reg F r (\<lambda>r. Ret ([(OReturn, [OpU r])], c))"
| "emit_term F (TRaise r t) c = with_reg F r (\<lambda>r. Ret ([(ORaise, [OpU r])], c))"
| "emit_term F (TCond r l1 l2) c = with_label F l1 (\<lambda>t. with_label F l2 (\<lambda>f. with_reg F r (\<lambda>r.
     Ret ([(OCond, [OpU r, OpU t, OpU f])], c))))"
| "emit_term F (TJump l) c = with_label F l (\<lambda>l. Ret ([(OJump, [OpU l])], c))"

subsection \<open>Functions\<close>

definition block_instrs :: "emit_env \<Rightarrow> func_state \<Rightarrow> block \<Rightarrow> compilation \<Rightarrow> emission" where
  "block_instrs E F b c = obind (map_state (emit_stmt E F) (blk_body b) c) (\<lambda>(iss, c).
     obind (emit_term F (blk_term b) c) (\<lambda>(ts, c). Ret (concat iss @ ts, c)))"

definition put_instrs :: "instr list \<Rightarrow> byte list" where
  "put_instrs ins = concat (map put_instr ins)"

text \<open>The header gets the position of each label in the code written so far.\<close>

fun emit_blocks :: "emit_env \<Rightarrow> func_state \<Rightarrow> block list \<Rightarrow> byte list \<Rightarrow> compilation \<Rightarrow>
    ((64 word list \<times> byte list) \<times> compilation) outcome" where
  "emit_blocks E F [] code c = Ret (([], code), c)"
| "emit_blocks E F (b # bs) code c = obind (block_instrs E F b c) (\<lambda>(ins, c).
     obind (emit_blocks E F bs (code @ put_instrs ins) c) (\<lambda>((pcs, code'), c).
       Ret ((of_nat (length code) # pcs, code'), c)))"

definition emit_type_id :: "emit_env \<Rightarrow> ir_type \<Rightarrow> compilation \<Rightarrow> (32 word \<times> compilation) outcome" where
  "emit_type_id E t c = with_type E t c (\<lambda>i c. Ret (ucast i, c))"

definition emit_function :: "emit_env \<Rightarrow> nat \<Rightarrow> func_state \<Rightarrow> byte list \<Rightarrow> compilation \<Rightarrow>
    ((vfunction \<times> byte list) \<times> compilation) outcome" where
  "emit_function E k F code c = (case fs_func F of
     None \<Rightarrow> Stuck
   | Some f \<Rightarrow> obind (map_state (emit_type_id E) (map snd (fn_params f)) c) (\<lambda>(params, c).
       obind (emit_type_id E (fn_type f) c) (\<lambda>(ret, c).
       obind (map_state (emit_type_id E) (map snd (fn_vars f)) c) (\<lambda>(vars, c).
       obind (emit_blocks E F (fn_blocks f) code c) (\<lambda>((pcs, code), c).
         Ret ((\<lparr>registers = of_nat (length (fs_registers F)), debug_info = func_di E k, param_types = params,
           return_type = ret, var_types = vars, labels = pcs\<rparr>, code), c))))))"

fun emit_functions :: "emit_env \<Rightarrow> nat \<Rightarrow> func_state list \<Rightarrow> byte list \<Rightarrow> compilation \<Rightarrow>
    ((vfunction list \<times> byte list) \<times> compilation) outcome" where
  "emit_functions E k [] code c = Ret (([], code), c)"
| "emit_functions E k (F # Fs) code c = obind (emit_function E k F code c) (\<lambda>((f, code), c).
     obind (emit_functions E (Suc k) Fs code c) (\<lambda>((fs, code), c). Ret ((f # fs, code), c)))"

subsection \<open>The file\<close>

definition emit_method :: "compilation \<Rightarrow> string \<times> string \<Rightarrow> (64 word \<times> 64 word) outcome" where
  "emit_method c = (\<lambda>(m, f). with_id (get_method_id c m) (\<lambda>i. with_id (get_func_id c f) (\<lambda>j. Ret (i, j))))"

fun map_out :: "('a \<Rightarrow> 'b outcome) \<Rightarrow> 'a list \<Rightarrow> 'b list outcome" where
  "map_out f [] = Ret []"
| "map_out f (x # xs) = obind (f x) (\<lambda>y. obind (map_out f xs) (\<lambda>ys. Ret (y # ys)))"

definition emit_slot :: "compilation \<Rightarrow> (string \<times> string) list option \<Rightarrow> (64 word \<times> 64 word) list outcome" where
  "emit_slot c p = (case p of None \<Rightarrow> Ret [] | Some ms \<Rightarrow> map_out (emit_method c) ms)"

definition emit_field :: "emit_env \<Rightarrow> string \<times> ir_type \<Rightarrow> compilation \<Rightarrow> ((64 word \<times> 32 word) \<times> compilation) outcome" where
  "emit_field E = (\<lambda>(f, t) c. with_id (get_field_id c f) (\<lambda>i. obind (emit_type_id E t c) (\<lambda>(t, c). Ret ((i, t), c))))"

definition emit_class :: "emit_env \<Rightarrow> nat \<times> ir_class \<Rightarrow> compilation \<Rightarrow> (vclass \<times> compilation) outcome" where
  "emit_class E = (\<lambda>(k, cl) c. obind (map_state (emit_field E) (icls_fields cl) c) (\<lambda>(fs, c).
     obind (map_out (emit_method c) (icls_methods cl)) (\<lambda>ms.
       Ret (\<lparr>cls_debug_info = class_di E k, cls_fields = fs, cls_methods = ms\<rparr>, c))))"

definition emit_lib :: "ir_lib \<Rightarrow> compilation \<Rightarrow> ((64 word \<times> 64 word) \<times> compilation) outcome" where
  "emit_lib l c = (let c = intern (lib_path l) c; name = id_word (find_id (exec_strings c) (lib_path l)) in
     case lib_init l of
       None \<Rightarrow> Ret ((name, 0), c)
     | Some f \<Rightarrow> with_id (get_func_id c f) (\<lambda>i. Ret ((name, i + 1), c)))"

definition emit_symbol :: "emit_env \<Rightarrow> string \<times> ir_symbol \<Rightarrow> compilation \<Rightarrow> (vsymbol \<times> compilation) outcome" where
  "emit_symbol E = (\<lambda>(lp, s) c. let c = intern lp c in with_id (get_library_id c lp) (\<lambda>lib.
     let c = intern (isym_rhs s) (intern (isym_lhs s) c);
         name = id_word (find_id (exec_strings c) (isym_lhs s)); version = id_word (find_id (exec_strings c) (isym_rhs s)) in
     obind (map_state (emit_type_id E) (isym_params s) c) (\<lambda>(params, c).
     obind (emit_type_id E (isym_return s) c) (\<lambda>(ret, c).
       Ret (\<lparr>sym_lib = lib, sym_name = name, sym_version = version, sym_vararg = isym_vararg s,
             sym_params = params, sym_ret = ret\<rparr>, c)))))"

definition string_bytes :: "string \<Rightarrow> byte list" where
  "string_bytes s = map of_char s"

text \<open>The strings are written before anything else; the types after everything that may add one.\<close>

definition emit_file :: "emit_env \<Rightarrow> compilation \<Rightarrow> vbc_file outcome" where
  "emit_file E c = (let strings = map string_bytes (exec_strings c) in
     obind (map_out (emit_slot c) (comp_primitives c)) (\<lambda>prims.
     obind (map_state (emit_class E) (zip [0..<length (comp_classes c)] (comp_classes c)) c) (\<lambda>(classes, c).
     obind (map_out (emit_slot c) (complex_primitives c)) (\<lambda>complex.
     obind (map_state emit_lib (comp_libraries c) c) (\<lambda>(libs, c).
     obind (map_state (emit_symbol E) (comp_symbols c) c) (\<lambda>(syms, c).
     obind (emit_functions E 0 (comp_functions c) [] c) (\<lambda>((fs, code), c).
     obind (map_out (\<lambda>f. with_id (get_func_id c f) Ret) (memo_funcs E)) (\<lambda>memo.
       Ret \<lparr>f_strings = strings, f_prim_methods = prims, f_classes = classes, f_complex_prims = complex,
         f_libs = libs, f_symbols = syms, f_functions = fs, f_complex_types = map emit_type (comp_types c),
         f_memo = memo, f_code = code\<rparr>))))))))"

end
