(* ===== verification/Instructions.thy ===== *)
theory Instructions
  imports Opcodes
begin

text \<open>
  The instructions of \<open>Thread::step\<close> (\<^verbatim>\<open>vbci/thread.cc\<close>), one definition per opcode, in the
  order of the code, up to the ones that call foreign code (theory \<open>Foreign\<close>) or schedule
  behaviors (theory \<open>Interpreter\<close>). Operands are fetched in the order of the handler's
  parameters. \<open>with_dst\<close> is the pattern of most of them: the destination comes first.
\<close>

definition with_dst :: "vm \<Rightarrow> (nat \<Rightarrow> machine \<Rightarrow> machine outcome) \<Rightarrow> machine \<Rightarrow> machine outcome" where
  "with_dst V f m = obind (local_first V m) (\<lambda>(d, m). f d m)"

text \<open>A borrowed operand's value when the handler runs.\<close>

definition with_src :: "vm \<Rightarrow> (val \<Rightarrow> machine \<Rightarrow> machine outcome) \<Rightarrow> machine \<Rightarrow> machine outcome" where
  "with_src V f m = obind (local_next V m) (\<lambda>(s, m). obind (reg_val s m) (\<lambda>v. f v m))"

subsection \<open>Constants\<close>

definition i_const :: "vm \<Rightarrow> machine \<Rightarrow> machine outcome" where
  "i_const V = with_dst V (\<lambda>d m. obind (fetch_prim V m) (\<lambda>(t, m). case t of
     None \<Rightarrow> Raise BadConversion
   | Some t \<Rightarrow> obind (read_const V t m) (\<lambda>(v, m). assign_immortal V d v m)))"

definition get_string_array :: "vm \<Rightarrow> nat \<Rightarrow> val outcome" where
  "get_string_array V i = (if i < length (string_arrays (prog V))
     then Ret (ArrayV (string_arrays (prog V) ! i) False) else Raise UnknownString)"

definition i_string :: "vm \<Rightarrow> machine \<Rightarrow> machine outcome" where
  "i_string V = with_dst V (\<lambda>d m. obind (fetch_nat V m) (\<lambda>(i, m).
     obind (get_string_array V i) (\<lambda>v. assign_immortal V d v m)))"

definition i_convert :: "vm \<Rightarrow> machine \<Rightarrow> machine outcome" where
  "i_convert V = with_dst V (\<lambda>d m. obind (fetch_prim V m) (\<lambda>(t, m). with_src V (\<lambda>v m.
     case t of None \<Rightarrow> Raise BadConversion
     | Some t \<Rightarrow> obind (convert (fpu V) v (value_type t)) (\<lambda>w. assign_immortal V d w m)) m))"

definition i_singleton :: "vm \<Rightarrow> machine \<Rightarrow> machine outcome" where
  "i_singleton V = with_dst V (\<lambda>d m. obind (fetch_class V m) (\<lambda>(t, c, m). case c_singleton c of
     None \<Rightarrow> Stuck | Some p \<Rightarrow> assign_immortal V d (ObjectV p False) m))"

subsection \<open>Objects\<close>

text \<open>\<open>Object::init\<close> with the argument registers, which it empties.\<close>

definition take_args :: "vm \<Rightarrow> nat \<Rightarrow> machine \<Rightarrow> (val list \<times> machine) outcome" where
  "take_args V n m = obind (cur m) (\<lambda>f. obind (frame_end V f) (\<lambda>e.
     let m = reserve (e + n) m in
     Ret (take n (drop e (locals m)), m\<lparr>locals := take e (locals m) @ replicate n InvalidV @ drop (e + n) (locals m)\<rparr>)))"

definition init_object :: "vm \<Rightarrow> oid \<Rightarrow> cls \<Rightarrow> machine \<Rightarrow> machine outcome" where
  "init_object V p c m = obind (take_args V (length (c_fields c)) m) (\<lambda>(vs, m').
     on_heap (obj_init (prog V) (kont V) (locals m) p c vs) m')"

definition no_singleton :: "cls \<Rightarrow> unit outcome" where
  "no_singleton c = oassert (c_singleton c = None)"

text \<open>\<open>region->object(cls)->init(frame, cls)\<close>\<close>

definition object_in :: "vm \<Rightarrow> nat \<Rightarrow> rid \<Rightarrow> 32 word \<Rightarrow> cls \<Rightarrow> machine \<Rightarrow> machine outcome" where
  "object_in V d r t c m = obind (region_object (prog V) r t (hp m)) (\<lambda>(p, h).
     obind (init_object V p c (m\<lparr>hp := h\<rparr>)) (assign V d (ObjectV p False)))"

definition i_new :: "vm \<Rightarrow> machine \<Rightarrow> machine outcome" where
  "i_new V = with_dst V (\<lambda>d m. obind (fetch_class V m) (\<lambda>(t, c, m). obind (no_singleton c) (\<lambda>_.
     obind (check_field_args V c m) (\<lambda>m. obind (cur m) (\<lambda>f. object_in V d (fr_region f) t c m)))))"

text \<open>Memory on the frame's stack for a header of the given size.\<close>

definition alloc_on_stack :: "nat \<Rightarrow> 32 word \<Rightarrow> bool \<Rightarrow> (vtype \<times> val) list \<Rightarrow> machine \<Rightarrow> (oid \<times> machine) outcome" where
  "alloc_on_stack sz t arr slots m = obind (cur m) (\<lambda>f. obind (create sz (stk m)) (\<lambda>(i, s).
     let (p, h) = stack_header (LStack (fr_level f)) t arr slots (hp m) in
     Ret (p, m\<lparr>hp := h, stk := s, at_idx := (at_idx m)(i \<mapsto> p)\<rparr>)))"

definition i_stack :: "vm \<Rightarrow> machine \<Rightarrow> machine outcome" where
  "i_stack V = with_dst V (\<lambda>d m. obind (fetch_class V m) (\<lambda>(t, c, m). obind (no_singleton c) (\<lambda>_.
     obind (check_field_args V c m) (\<lambda>m.
     obind (alloc_on_stack (c_size c) t False (fresh_fields c) m) (\<lambda>(p, m).
     obind (init_object V p c m) (\<lambda>m.
     obind (push_finalizer V p m) (assign V d (ObjectV p False))))))))"

definition i_heap :: "vm \<Rightarrow> machine \<Rightarrow> machine outcome" where
  "i_heap V = with_dst V (\<lambda>d m. obind (local_next V m) (\<lambda>(s, m). obind (fetch_class V m) (\<lambda>(t, c, m).
     obind (no_singleton c) (\<lambda>_. obind (reg_val s m) (\<lambda>v. obind (region_of v (hp m)) (\<lambda>r.
     obind (check_field_args V c m) (object_in V d r t c)))))))"

definition i_region :: "vm \<Rightarrow> machine \<Rightarrow> machine outcome" where
  "i_region V = with_dst V (\<lambda>d m. obind (fetch_region_type V m) (\<lambda>(rt, m). obind (fetch_class V m) (\<lambda>(t, c, m).
     obind (no_singleton c) (\<lambda>_. obind (check_field_args V c m) (\<lambda>m.
     obind (new_region rt 0 (hp m)) (\<lambda>(r, h). object_in V d r t c (m\<lparr>hp := h\<rparr>)))))))"

subsection \<open>Arrays\<close>

definition array_in :: "vm \<Rightarrow> nat \<Rightarrow> rid \<Rightarrow> 32 word \<Rightarrow> nat \<Rightarrow> machine \<Rightarrow> machine outcome" where
  "array_in V d r t n m = obind (region_array (prog V) r t n (hp m)) (\<lambda>(p, h).
     assign V d (ArrayV p False) (m\<lparr>hp := h\<rparr>))"

definition ArrayHeaderSize :: nat where "ArrayHeaderSize = 32"

text \<open>\<open>Stack::array\<close>; the size computation is in \<open>size_t\<close>.\<close>

definition stack_array :: "vm \<Rightarrow> nat \<Rightarrow> 32 word \<Rightarrow> nat \<Rightarrow> machine \<Rightarrow> machine outcome" where
  "stack_array V d t n m = obind (unarray (types (prog V)) t) (\<lambda>e. obind (layout_of (prog V) e) (\<lambda>rep.
     obind (fresh_elements (prog V) t n) (\<lambda>slots.
     let sz = (ArrayHeaderSize + n * ffi_size (ffi V) (snd rep)) mod 2 ^ 64 in
     obind (alloc_on_stack sz t True slots m) (\<lambda>(p, m). assign V d (ArrayV p False) m))))"

text \<open>The operands \<open>size, type_id\<close>: the size register is read when the handler runs.\<close>

definition size_and_type :: "vm \<Rightarrow> machine \<Rightarrow> (nat \<times> 32 word \<times> machine) outcome" where
  "size_and_type V m = obind (local_next V m) (\<lambda>(s, m). obind (fetch_type V m) (\<lambda>(t, m). Ret (s, t, m)))"

definition read_size :: "nat \<Rightarrow> machine \<Rightarrow> nat outcome" where
  "read_size s m = obind (reg_val s m) (\<lambda>v. obind (get_size v) (\<lambda>w. Ret (unat w)))"

definition type_and_const :: "vm \<Rightarrow> machine \<Rightarrow> (32 word \<times> nat \<times> machine) outcome" where
  "type_and_const V m = obind (fetch_type V m) (\<lambda>(t, m). obind (fetch_nat V m) (\<lambda>(n, m). Ret (t, n, m)))"

definition i_new_array :: "vm \<Rightarrow> machine \<Rightarrow> machine outcome" where
  "i_new_array V = with_dst V (\<lambda>d m. obind (size_and_type V m) (\<lambda>(s, t, m). obind (cur m) (\<lambda>f.
     obind (read_size s m) (\<lambda>n. array_in V d (fr_region f) t n m))))"

definition i_new_array_const :: "vm \<Rightarrow> machine \<Rightarrow> machine outcome" where
  "i_new_array_const V = with_dst V (\<lambda>d m. obind (type_and_const V m) (\<lambda>(t, n, m). obind (cur m) (\<lambda>f.
     array_in V d (fr_region f) t n m)))"

definition i_stack_array :: "vm \<Rightarrow> machine \<Rightarrow> machine outcome" where
  "i_stack_array V = with_dst V (\<lambda>d m. obind (size_and_type V m) (\<lambda>(s, t, m).
     obind (read_size s m) (\<lambda>n. stack_array V d t n m)))"

definition i_stack_array_const :: "vm \<Rightarrow> machine \<Rightarrow> machine outcome" where
  "i_stack_array_const V = with_dst V (\<lambda>d m. obind (type_and_const V m) (\<lambda>(t, n, m). stack_array V d t n m))"

definition i_heap_array :: "vm \<Rightarrow> machine \<Rightarrow> machine outcome" where
  "i_heap_array V = with_dst V (\<lambda>d m. obind (local_next V m) (\<lambda>(a, m). obind (size_and_type V m) (\<lambda>(s, t, m).
     obind (reg_val a m) (\<lambda>v. obind (region_of v (hp m)) (\<lambda>r. obind (read_size s m) (\<lambda>n. array_in V d r t n m))))))"

definition i_heap_array_const :: "vm \<Rightarrow> machine \<Rightarrow> machine outcome" where
  "i_heap_array_const V = with_dst V (\<lambda>d m. obind (local_next V m) (\<lambda>(s, m). obind (type_and_const V m) (\<lambda>(t, n, m).
     obind (reg_val s m) (\<lambda>v. obind (region_of v (hp m)) (\<lambda>r. array_in V d r t n m)))))"

definition i_region_array :: "vm \<Rightarrow> machine \<Rightarrow> machine outcome" where
  "i_region_array V = with_dst V (\<lambda>d m. obind (fetch_region_type V m) (\<lambda>(rt, m). obind (size_and_type V m) (\<lambda>(s, t, m).
     obind (new_region rt 0 (hp m)) (\<lambda>(r, h). obind (read_size s m) (\<lambda>n. array_in V d r t n (m\<lparr>hp := h\<rparr>))))))"

definition i_region_array_const :: "vm \<Rightarrow> machine \<Rightarrow> machine outcome" where
  "i_region_array_const V = with_dst V (\<lambda>d m. obind (fetch_region_type V m) (\<lambda>(rt, m).
     obind (type_and_const V m) (\<lambda>(t, n, m). obind (new_region rt 0 (hp m)) (\<lambda>(r, h).
     array_in V d r t n (m\<lparr>hp := h\<rparr>)))))"

subsection \<open>Registers and references\<close>

definition i_copy :: "vm \<Rightarrow> machine \<Rightarrow> machine outcome" where
  "i_copy V = with_dst V (\<lambda>d. with_src V (assign_borrow V d))"

definition i_move :: "vm \<Rightarrow> machine \<Rightarrow> machine outcome" where
  "i_move V = with_dst V (\<lambda>d m. obind (move_next V m) (\<lambda>(v, m). assign V d v m))"

text \<open>The moved operand dies with the handler's parameter.\<close>

definition i_drop :: "vm \<Rightarrow> machine \<Rightarrow> machine outcome" where
  "i_drop V m = obind (move_first V m) (\<lambda>(v, m). on_heap (reg_dec (kont V) v) m)"

definition i_freeze :: "vm \<Rightarrow> machine \<Rightarrow> machine outcome" where
  "i_freeze V = with_dst V (\<lambda>d. with_src V (\<lambda>v m.
     if is_readonly v then Raise BadFreeze
     else obind (case header_of v of
         None \<Rightarrow> Ret m
       | Some p \<Rightarrow> obind (freeze (addr V) (kont V) p (hp m)) (\<lambda>(done, h).
           if done then Ret (m\<lparr>hp := h\<rparr>) else Raise BadFreeze)) (assign_borrow V d v)))"

definition i_register_ref :: "vm \<Rightarrow> machine \<Rightarrow> machine outcome" where
  "i_register_ref V = with_dst V (\<lambda>d m. obind (fetch_nat V m) (\<lambda>(i, m). obind (cur m) (\<lambda>f.
     obind (func_at V (fr_func f)) (\<lambda>fn. let ps = length (param_types fn) in
       if i < ps \<or> ps + length (var_types fn) \<le> i then Raise BadRefTarget
       else assign_static V d (RegisterRefV (fr_base f + i) (fr_level f) False) m))))"

definition i_field_ref_move :: "vm \<Rightarrow> machine \<Rightarrow> machine outcome" where
  "i_field_ref_move V = with_dst V (\<lambda>d m. obind (move_next V m) (\<lambda>(v, m). obind (fetch V m) (\<lambda>(fid, m).
     from_field_ref True V d v fid m)))"

definition i_field_ref_copy :: "vm \<Rightarrow> machine \<Rightarrow> machine outcome" where
  "i_field_ref_copy V = with_dst V (\<lambda>d m. obind (local_next V m) (\<lambda>(s, m). obind (fetch V m) (\<lambda>(fid, m).
     obind (reg_val s m) (\<lambda>v. from_field_ref False V d v fid m))))"

definition i_array_ref_move :: "vm \<Rightarrow> machine \<Rightarrow> machine outcome" where
  "i_array_ref_move V = with_dst V (\<lambda>d m. obind (move_next V m) (\<lambda>(v, m). obind (local_next V m) (\<lambda>(s, m).
     obind (read_size s m) (\<lambda>i. from_array_ref True V d v i m))))"

definition i_array_ref_copy :: "vm \<Rightarrow> machine \<Rightarrow> machine outcome" where
  "i_array_ref_copy V = with_dst V (\<lambda>d m. obind (local_next V m) (\<lambda>(a, m). obind (local_next V m) (\<lambda>(s, m).
     obind (read_size s m) (\<lambda>i. obind (reg_val a m) (\<lambda>v. from_array_ref False V d v i m)))))"

definition i_array_ref_move_const :: "vm \<Rightarrow> machine \<Rightarrow> machine outcome" where
  "i_array_ref_move_const V = with_dst V (\<lambda>d m. obind (move_next V m) (\<lambda>(v, m). obind (fetch_nat V m) (\<lambda>(i, m).
     from_array_ref True V d v i m)))"

definition i_array_ref_copy_const :: "vm \<Rightarrow> machine \<Rightarrow> machine outcome" where
  "i_array_ref_copy_const V = with_dst V (\<lambda>d m. obind (local_next V m) (\<lambda>(a, m). obind (fetch_nat V m) (\<lambda>(i, m).
     obind (reg_val a m) (\<lambda>v. from_array_ref False V d v i m))))"

definition i_load :: "vm \<Rightarrow> machine \<Rightarrow> machine outcome" where
  "i_load V = with_dst V (\<lambda>d. with_src V (from_load V d))"

definition i_store_move :: "vm \<Rightarrow> machine \<Rightarrow> machine outcome" where
  "i_store_move V = with_dst V (\<lambda>d m. obind (local_next V m) (\<lambda>(r, m). obind (move_next V m) (\<lambda>(v, m).
     obind (reg_val r m) (\<lambda>rv. from_exchange True V d rv v m))))"

definition i_store_copy :: "vm \<Rightarrow> machine \<Rightarrow> machine outcome" where
  "i_store_copy V = with_dst V (\<lambda>d m. obind (local_next V m) (\<lambda>(r, m). with_src V (\<lambda>v m.
     obind (reg_val r m) (\<lambda>rv. from_exchange False V d rv v m)) m))"

definition i_lookup_dynamic :: "vm \<Rightarrow> machine \<Rightarrow> machine outcome" where
  "i_lookup_dynamic V = with_dst V (\<lambda>d m. obind (local_next V m) (\<lambda>(s, m). obind (fetch V m) (\<lambda>(w, m).
     obind (reg_val s m) (\<lambda>v. obind (method_of (prog V) (locals m) v w (hp m)) (\<lambda>f.
     assign_immortal V d (case f of None \<Rightarrow> InvalidV | Some g \<Rightarrow> FunctionV g) m)))))"

definition i_lookup_ffi :: "vm \<Rightarrow> machine \<Rightarrow> machine outcome" where
  "i_lookup_ffi V = with_dst V (\<lambda>d m. obind (fetch_nat V m) (\<lambda>(i, m).
     if length (symbols (prog V)) \<le> i then Raise UnknownFFI
     else assign_immortal V d (PtrV (symbol_address (ffi V) i) False) m))"

subsection \<open>Arguments, calls and control\<close>

definition i_arg_move :: "vm \<Rightarrow> machine \<Rightarrow> machine outcome" where
  "i_arg_move V m = obind (move_first V m) (\<lambda>(v, m). obind (next_arg V m) (\<lambda>(a, m). assign V a v m))"

text \<open>The source is a reference into the vector that the argument may make grow.\<close>

definition i_arg_copy :: "vm \<Rightarrow> machine \<Rightarrow> machine outcome" where
  "i_arg_copy V m = obind (local_first V m) (\<lambda>(s, m). obind (next_arg V m) (\<lambda>(a, m').
     obind (same_vector m m') (\<lambda>_. obind (reg_val s m') (\<lambda>v. assign_borrow V a v m'))))"

definition i_call_static :: "vm \<Rightarrow> machine \<Rightarrow> machine outcome" where
  "i_call_static V m = obind (fetch_nat V m) (\<lambda>(d, m). obind (fetch_nat V m) (\<lambda>(g, m).
     pushframe V (function_at V g) d m))"

definition i_call_dynamic :: "vm \<Rightarrow> machine \<Rightarrow> machine outcome" where
  "i_call_dynamic V m = obind (fetch_nat V m) (\<lambda>(d, m). obind (local_first V m) (\<lambda>(s, m).
     obind (reg_val s m) (\<lambda>v. pushframe V (function_of v) d m)))"

definition i_try_call_dynamic :: "vm \<Rightarrow> machine \<Rightarrow> machine outcome" where
  "i_try_call_dynamic V m = obind (fetch_nat V m) (\<lambda>(d, m). obind (local_first V m) (\<lambda>(s, m).
     obind (reg_val s m) (\<lambda>v. try_pushframe V (function_of v) d m)))"

definition i_typetest :: "vm \<Rightarrow> machine \<Rightarrow> machine outcome" where
  "i_typetest V = with_dst V (\<lambda>d m. obind (local_next V m) (\<lambda>(s, m). obind (fetch_type V m) (\<lambda>(t, m).
     obind (reg_val s m) (\<lambda>v. obind (type_id (prog V) (locals m) v (hp m)) (\<lambda>s.
     obind (check_subtype (prog V) s t) (\<lambda>b. assign_immortal V d (BoolV b) m))))))"

definition i_tailcall_static :: "vm \<Rightarrow> machine \<Rightarrow> machine outcome" where
  "i_tailcall_static V m = obind (fetch_nat V m) (\<lambda>(g, m). tailcall V (function_at V g) m)"

definition i_tailcall_dynamic :: "vm \<Rightarrow> machine \<Rightarrow> machine outcome" where
  "i_tailcall_dynamic V m = obind (local_first V m) (\<lambda>(s, m). obind (reg_val s m) (\<lambda>v.
     tailcall V (function_of v) m))"

definition i_return :: "vm \<Rightarrow> machine \<Rightarrow> machine outcome" where
  "i_return V m = obind (move_first V m) (\<lambda>(v, m). popframe V v m)"

definition i_raise :: "vm \<Rightarrow> machine \<Rightarrow> machine outcome" where
  "i_raise V m = obind (move_first V m) (\<lambda>(v, m). obind (cur m) (\<lambda>f. raise_to V v (fr_raise f) m))"

definition i_cond :: "vm \<Rightarrow> machine \<Rightarrow> machine outcome" where
  "i_cond V m = obind (local_first V m) (\<lambda>(s, m). obind (fetch_nat V m) (\<lambda>(t, m). obind (fetch_nat V m) (\<lambda>(e, m).
     obind (reg_val s m) (\<lambda>v. obind (get_bool v) (\<lambda>b. branch V (if b then t else e) m)))))"

definition i_jump :: "vm \<Rightarrow> machine \<Rightarrow> machine outcome" where
  "i_jump V m = obind (fetch_nat V m) (\<lambda>(l, m). branch V l m)"

subsection \<open>Operators\<close>

definition i_bin :: "vm \<Rightarrow> binop_code \<Rightarrow> machine \<Rightarrow> machine outcome" where
  "i_bin V b = with_dst V (\<lambda>d m. obind (local_next V m) (\<lambda>(l, m). obind (local_next V m) (\<lambda>(r, m).
     obind (reg_val l m) (\<lambda>x. obind (reg_val r m) (\<lambda>y. obind (run_binop V b x y) (\<lambda>v.
     assign_immortal V d v m))))))"

definition i_un :: "vm \<Rightarrow> unop_code \<Rightarrow> machine \<Rightarrow> machine outcome" where
  "i_un V u = with_dst V (\<lambda>d. with_src V (\<lambda>v m. obind (run_unop V u v (hp m)) (\<lambda>w. assign_immortal V d w m)))"

definition i_read :: "vm \<Rightarrow> machine \<Rightarrow> machine outcome" where
  "i_read V = with_dst V (\<lambda>d. with_src V (\<lambda>v m. obind (op_read v) (\<lambda>w. assign_borrow V d w m)))"

definition i_ptr :: "vm \<Rightarrow> machine \<Rightarrow> machine outcome" where
  "i_ptr V = with_dst V (\<lambda>d. with_src V (\<lambda>v m. obind (op_ptr V v) (\<lambda>w. assign_immortal V d w m)))"

definition i_get_raise :: "vm \<Rightarrow> machine \<Rightarrow> machine outcome" where
  "i_get_raise V = with_dst V (\<lambda>d m. obind (cur m) (\<lambda>f. assign_immortal V d (U64V (fr_raise f)) m))"

text \<open>The source is read after the destination is written.\<close>

definition i_set_raise :: "vm \<Rightarrow> machine \<Rightarrow> machine outcome" where
  "i_set_raise V = with_dst V (\<lambda>d m. obind (local_next V m) (\<lambda>(s, m). obind (cur m) (\<lambda>f.
     obind (assign_immortal V d (U64V (fr_raise f)) m) (\<lambda>m. obind (reg_val s m) (\<lambda>v.
     obind (get_u64 v) (\<lambda>w. Ret (set_cur (\<lambda>f. f\<lparr>fr_raise := w\<rparr>) m)))))))"

definition i_constant :: "vm \<Rightarrow> const_code \<Rightarrow> machine \<Rightarrow> machine outcome" where
  "i_constant V k = with_dst V (\<lambda>d m. assign_immortal V d (const_value k) m)"

subsection \<open>Heap services\<close>

definition i_pin :: "vm \<Rightarrow> machine \<Rightarrow> machine outcome" where
  "i_pin V = with_dst V (\<lambda>d. with_src V (\<lambda>v m. obind (on_heap (pin (kont V) v) m) (assign_immortal V d NoneV)))"

definition i_unpin :: "vm \<Rightarrow> machine \<Rightarrow> machine outcome" where
  "i_unpin V = with_dst V (\<lambda>d. with_src V (\<lambda>v m. obind (on_heap (unpin (kont V) v) m) (assign_immortal V d NoneV)))"

definition i_merge :: "vm \<Rightarrow> machine \<Rightarrow> machine outcome" where
  "i_merge V = with_dst V (\<lambda>d m. obind (local_next V m) (\<lambda>(a, m). obind (local_next V m) (\<lambda>(b, m).
     obind (reg_val a m) (\<lambda>x. obind (reg_val b m) (\<lambda>y.
     obind (on_heap (merge (kont V) x y) m) (assign_immortal V d NoneV))))))"

definition arg_val :: "vm \<Rightarrow> nat \<Rightarrow> machine \<Rightarrow> (val \<times> machine) outcome" where
  "arg_val V i m = obind (arg_at V i m) (\<lambda>(a, m'). obind (same_vector m m') (\<lambda>_. obind (reg_val a m') (\<lambda>v. Ret (v, m'))))"

definition i_array_copy :: "vm \<Rightarrow> machine \<Rightarrow> machine outcome" where
  "i_array_copy V = with_dst V (\<lambda>d m.
     obind (arg_val V 0 m) (\<lambda>(x, m). obind (arg_val V 1 m) (\<lambda>(xo, m). obind (arg_val V 2 m) (\<lambda>(y, m).
     obind (arg_val V 3 m) (\<lambda>(yo, m). obind (arg_val V 4 m) (\<lambda>(n, m).
     obind (get_array x) (\<lambda>x. obind (get_array y) (\<lambda>y. obind (get_size xo) (\<lambda>xo. obind (get_size yo) (\<lambda>yo.
     obind (get_size n) (\<lambda>n.
     obind (on_heap (bulk_copy (prog V) (locals m) (kont V) x (unat xo) y (unat yo) (unat n)) m) (\<lambda>m.
     obind (drop_args V m) (assign_immortal V d NoneV)))))))))))))"

definition i_array_fill :: "vm \<Rightarrow> machine \<Rightarrow> machine outcome" where
  "i_array_fill V = with_dst V (\<lambda>d m.
     obind (arg_val V 0 m) (\<lambda>(x, m). obind (arg_val V 1 m) (\<lambda>(off, m). obind (arg_val V 2 m) (\<lambda>(n, m).
     obind (arg_val V 3 m) (\<lambda>(v, m).
     obind (get_array x) (\<lambda>x. obind (get_size off) (\<lambda>off. obind (get_size n) (\<lambda>n.
     obind (on_heap (bulk_fill (prog V) (locals m) (kont V) x (unat off) (unat n) v) m) (\<lambda>m.
     obind (drop_args V m) (assign_immortal V d NoneV))))))))))"

definition i_array_compare :: "vm \<Rightarrow> machine \<Rightarrow> machine outcome" where
  "i_array_compare V = with_dst V (\<lambda>d m.
     obind (arg_val V 0 m) (\<lambda>(x, m). obind (arg_val V 1 m) (\<lambda>(xo, m). obind (arg_val V 2 m) (\<lambda>(y, m).
     obind (arg_val V 3 m) (\<lambda>(yo, m). obind (arg_val V 4 m) (\<lambda>(n, m).
     obind (get_array x) (\<lambda>x. obind (get_array y) (\<lambda>y. obind (get_size xo) (\<lambda>xo. obind (get_size yo) (\<lambda>yo.
     obind (get_size n) (\<lambda>n.
     obind (bulk_compare x (unat xo) y (unat yo) (unat n) (hp m)) (\<lambda>r.
     obind (drop_args V m) (assign_immortal V d (I64V (word_of_int r)))))))))))))))"

end
