(* ===== verification/Foreign.thy ===== *)
theory Foreign
  imports Instructions
begin

text \<open>
  The instructions that reach foreign code (\<^verbatim>\<open>vbci/thread.cc\<close>, \<open>Symbol::call\<close> of
  \<^verbatim>\<open>vbci/dynlib.cc\<close>): the checks the interpreter makes around libffi, which is a parameter.
\<close>

subsection \<open>Calls\<close>

definition ffi_ptr_compatible :: "val \<Rightarrow> bool" where
  "ffi_ptr_compatible v \<longleftrightarrow> get_value_type v \<in> {VNone, VPtr, VObject, VArray}"

definition param_ok :: "vm \<Rightarrow> 32 word \<Rightarrow> val \<Rightarrow> machine \<Rightarrow> bool outcome" where
  "param_ok V t v m =
     (if t = of_nat (vtype_code VPtr) then Ret (ffi_ptr_compatible v)
      else obind (type_id (prog V) (locals m) v (hp m)) (\<lambda>s. check_subtype (prog V) s t))"

fun params_ok :: "vm \<Rightarrow> nat \<Rightarrow> 32 word list \<Rightarrow> machine \<Rightarrow> bool outcome" where
  "params_ok V a [] m = Ret True"
| "params_ok V a (t # ts) m = obind (reg_val a m) (\<lambda>v. obind (param_ok V t v m) (\<lambda>ok.
     if ok then params_ok V (Suc a) ts m else Ret False))"

text \<open>An argument is passed by the layout of its parameter, or of its own type when variadic.\<close>

definition marshal :: "val \<Rightarrow> vtype \<Rightarrow> unit outcome" where
  "marshal v vt = (case vt of
     VObject \<Rightarrow> obind (get_object v) (\<lambda>_. Ret ())
   | VArray \<Rightarrow> obind (get_array v) (\<lambda>_. Ret ())
   | _ \<Rightarrow> Ret ())"

definition marshal_arg :: "vm \<Rightarrow> machine \<Rightarrow> 32 word option \<times> val \<Rightarrow> unit \<Rightarrow> unit outcome" where
  "marshal_arg V m = (\<lambda>(t, v) _. obind (case t of
       Some t \<Rightarrow> Ret t | None \<Rightarrow> type_id (prog V) (locals m) v (hp m)) (\<lambda>t.
     obind (layout_of (prog V) t) (\<lambda>rep. marshal v (fst rep))))"

text \<open>
  \<open>Symbol::call\<close>. Preparing a variadic call compares the size of the whole address buffer, which
  is the thread's and never shrinks, with the number of parameter types, which is the symbol's and
  shrinks only after a call.
\<close>

definition symbol_call :: "vm \<Rightarrow> nat \<Rightarrow> vsymbol \<Rightarrow> val list \<Rightarrow> machine \<Rightarrow> (val \<times> machine) outcome" where
  "symbol_call V i y vs m =
     (if symbol_address (ffi V) i = 0 then Raise UnknownFFI
      else if sym_vararg y \<and> (ffi_buffer m \<noteq> length (sym_params y) + extra_params m i \<or>
        \<not> prepare_var (ffi V) i (ffi_buffer m)) then Raise BadArgs
      else obind (ffi_call (ffi V) i vs (hp m)) (\<lambda>(r, h).
        Ret (r, m\<lparr>hp := h, extra_params := if sym_vararg y then (extra_params m)(i := 0) else extra_params m\<rparr>)))"

definition i_ffi :: "vm \<Rightarrow> machine \<Rightarrow> machine outcome" where
  "i_ffi V = with_dst V (\<lambda>d m. obind (fetch_nat V m) (\<lambda>(i, m).
     if length (symbols (prog V)) \<le> i then Raise UnknownFFI
     else let y = symbols (prog V) ! i; ps = sym_params y; n = args m in
       if n < length ps \<or> \<not> sym_vararg y \<and> length ps < n then fail_args V BadArgs m
       else obind (cur m) (\<lambda>f. obind (frame_end V f) (\<lambda>e. obind (params_ok V e ps m) (\<lambda>ok.
         if \<not> ok then fail_args V BadType m
         else let vs = take n (drop e (locals m));
                  m = m\<lparr>args := 0, ffi_buffer := max (ffi_buffer m) n,
                    extra_params := (extra_params m)(i := extra_params m i + (n - length ps))\<rparr> in
           obind (each (marshal_arg V m) (zip (map Some ps @ replicate (n - length ps) None) vs) ()) (\<lambda>_.
           obind (symbol_call V i y vs m) (\<lambda>(r, m).
           obind (if is_error r then Ret () else check_type (prog V) (locals m) r (sym_ret y) (hp m)) (\<lambda>_.
           obind (assign V d r m) (\<lambda>m. each (clear_reg V) [e..<e + n] m)))))))))"

subsection \<open>Struct layouts and raw memory\<close>

definition typeid_predefined :: "vm \<Rightarrow> 32 word \<Rightarrow> 32 word" where
  "typeid_predefined V k = min_complex_type_id (types (prog V)) + k"

text \<open>\<open>None\<close> when the type has no place in a C struct.\<close>

definition struct_leaf :: "vm \<Rightarrow> 32 word \<Rightarrow> (vtype \<times> ffi_type) option outcome" where
  "struct_leaf V t = (let P = types (prog V) in
     if t = DynamicTypeId then Ret None
     else obind (is_tuple P t) (\<lambda>tup. obind (is_ref P t) (\<lambda>ref. obind (is_union P t) (\<lambda>un.
       if tup \<or> ref \<or> un then Ret None
       else obind (layout_of (prog V) t) (\<lambda>rep.
         Ret (if vtype_code VBool \<le> vtype_code (fst rep) \<and> vtype_code (fst rep) \<le> vtype_code VCown
              then Some rep else None))))))"

fun struct_leaves :: "vm \<Rightarrow> 32 word list \<Rightarrow> (vtype \<times> ffi_type) list option outcome" where
  "struct_leaves V [] = Ret (Some [])"
| "struct_leaves V (t # ts) = obind (is_tuple (types (prog V)) t) (\<lambda>tup.
     if tup then Ret None
     else obind (struct_leaf V t) (\<lambda>rep. case rep of
       None \<Rightarrow> Ret None
     | Some rep \<Rightarrow> obind (struct_leaves V ts) (\<lambda>reps. Ret (map_option (Cons rep) reps))))"

definition struct_members :: "vm \<Rightarrow> 32 word \<Rightarrow> (vtype \<times> ffi_type) list option outcome" where
  "struct_members V t = obind (is_tuple (types (prog V)) t) (\<lambda>tup.
     if tup then obind (complex_type_at (types (prog V)) t) (\<lambda>c.
       if ct_children c = [] then Ret None else struct_leaves V (ct_children c))
     else obind (struct_leaf V t) (\<lambda>rep. Ret (map_option (\<lambda>r. [r]) rep)))"

text \<open>A store into a fresh array from a temporary register.\<close>

definition put_slot :: "vm \<Rightarrow> oid \<Rightarrow> nat \<times> val \<Rightarrow> machine \<Rightarrow> machine outcome" where
  "put_slot V p = (\<lambda>(i, v) m. obind (array_exchange (prog V) (locals m) False (kont V) p i v (hp m)) (\<lambda>(_, h).
     Ret (m\<lparr>hp := h\<rparr>)))"

definition fresh_array :: "vm \<Rightarrow> rid \<Rightarrow> 32 word \<Rightarrow> nat \<Rightarrow> machine \<Rightarrow> (oid \<times> machine) outcome" where
  "fresh_array V r t n m = obind (region_array (prog V) r t n (hp m)) (\<lambda>(p, h). Ret (p, m\<lparr>hp := h\<rparr>))"

definition kind_value :: "vtype \<Rightarrow> val" where
  "kind_value k = U8V (of_nat (vtype_code k))"

definition i_ffi_struct :: "vm \<Rightarrow> machine \<Rightarrow> machine outcome" where
  "i_ffi_struct V = with_dst V (\<lambda>d m. obind (fetch_type V m) (\<lambda>(t, m). obind (cur m) (\<lambda>f.
     obind (struct_members V t) (\<lambda>members. case members of
       None \<Rightarrow> Raise BadType
     | Some reps \<Rightarrow> (case ffi_struct (ffi V) (map snd reps) of
         None \<Rightarrow> Raise BadType
       | Some (offs, sz) \<Rightarrow> let n = length reps; r = fr_region f in
           obind (fresh_array V r (typeid_predefined V 4) n m) (\<lambda>(oa, m).
           obind (fresh_array V r (typeid_predefined V 1) n m) (\<lambda>(ka, m).
           obind (fresh_array V r (typeid_predefined V 5) 3 m) (\<lambda>(ta, m).
           obind (each (\<lambda>i m. obind (put_slot V oa (i, USizeV (of_nat (offs ! i))) m)
             (put_slot V ka (i, kind_value (fst (reps ! i))))) [0..<n] m) (\<lambda>m.
           obind (put_slot V ta (0, USizeV (of_nat sz)) m) (\<lambda>m.
           obind (put_slot V ta (1, ArrayV oa False) m) (\<lambda>m.
           obind (put_slot V ta (2, ArrayV ka False) m) (\<lambda>m.
           obind (freeze (addr V) (kont V) ta (hp m)) (\<lambda>(done, h).
             if \<not> done then Raise BadType
             else obind (assign V d (ArrayV ta False) (m\<lparr>hp := h\<rparr>)) (\<lambda>m.
               obind (on_heap (reg_dec (kont V) (ArrayV ka False)) m)
                 (on_heap (reg_dec (kont V) (ArrayV oa False)))))))))))))))))"

definition expected_kind :: "vm \<Rightarrow> 32 word \<Rightarrow> vtype outcome" where
  "expected_kind V t = obind (struct_leaf V t) (\<lambda>rep. case rep of None \<Rightarrow> Raise BadType | Some r \<Rightarrow> Ret (fst r))"

text \<open>The kind tag a register holds, against the one the instruction expects.\<close>

definition agreed_kind :: "vm \<Rightarrow> val \<Rightarrow> 32 word \<Rightarrow> vtype outcome" where
  "agreed_kind V k t = obind (get_u8 k) (\<lambda>w. obind (expected_kind V t) (\<lambda>e.
     if unat w = vtype_code e then Ret e else Raise BadType))"

definition field_addr :: "val \<Rightarrow> val \<Rightarrow> 64 word outcome" where
  "field_addr base off = obind (get_ptr base) (\<lambda>p.
     if p = 0 then Raise BadOperand else obind (get_size off) (\<lambda>o'. Ret (p + o')))"

definition i_ffi_load :: "vm \<Rightarrow> machine \<Rightarrow> machine outcome" where
  "i_ffi_load V = with_dst V (\<lambda>d m. obind (local_next V m) (\<lambda>(b, m). obind (local_next V m) (\<lambda>(off, m).
     obind (local_next V m) (\<lambda>(k, m). obind (fetch_type V m) (\<lambda>(t, m).
     obind (reg_val k m) (\<lambda>kv. obind (agreed_kind V kv t) (\<lambda>vt.
     obind (reg_val b m) (\<lambda>bv. obind (reg_val off m) (\<lambda>ov. obind (field_addr bv ov) (\<lambda>a.
     obind (read_memory (ffi V) vt a (hp m)) (\<lambda>v.
     obind (if is_header v \<or> is_cown_value v then check_type (prog V) (locals m) v t (hp m) else Ret ()) (\<lambda>_.
     assign_borrow V d v m))))))))))))"

definition i_ffi_store :: "vm \<Rightarrow> machine \<Rightarrow> machine outcome" where
  "i_ffi_store V = with_dst V (\<lambda>d m. obind (local_next V m) (\<lambda>(b, m). obind (local_next V m) (\<lambda>(off, m).
     obind (local_next V m) (\<lambda>(k, m). obind (local_next V m) (\<lambda>(s, m). obind (fetch_type V m) (\<lambda>(t, m).
     obind (reg_val k m) (\<lambda>kv. obind (agreed_kind V kv t) (\<lambda>vt.
     obind (reg_val s m) (\<lambda>v. obind (check_type (prog V) (locals m) v t (hp m)) (\<lambda>_.
     obind (reg_val b m) (\<lambda>bv. obind (reg_val off m) (\<lambda>ov. obind (field_addr bv ov) (\<lambda>a.
     obind (to_addr vt v) (\<lambda>w. obind (on_heap (write_memory (ffi V) a w) m) (assign_immortal V d NoneV)))))))))))))))"

subsection \<open>Callbacks and external event sources\<close>

definition i_make_callback :: "vm \<Rightarrow> machine \<Rightarrow> machine outcome" where
  "i_make_callback V = with_dst V (\<lambda>d. with_src V (\<lambda>v m.
     obind (method_of (prog V) (locals m) v CallbackMethodId (hp m)) (\<lambda>f. case f of
       None \<Rightarrow> Raise MethodNotFound
     | Some g \<Rightarrow> obind (new_callback (ffi V) v g (hp m)) (\<lambda>(p, h).
         assign V d (PtrV p False) (m\<lparr>hp := h\<rparr>)))))"

definition closure_of :: "val \<Rightarrow> 64 word outcome" where
  "closure_of v = obind (get_ptr v) (\<lambda>p. if p = 0 then Raise BadOperand else Ret p)"

definition i_code_ptr_callback :: "vm \<Rightarrow> machine \<Rightarrow> machine outcome" where
  "i_code_ptr_callback V = with_dst V (\<lambda>d. with_src V (\<lambda>v m. obind (closure_of v) (\<lambda>p.
     assign V d (PtrV (callback_code (ffi V) p) False) m)))"

definition i_free_callback :: "vm \<Rightarrow> machine \<Rightarrow> machine outcome" where
  "i_free_callback V = with_dst V (\<lambda>d. with_src V (\<lambda>v m. obind (closure_of v) (\<lambda>p.
     obind (on_heap (free_callback (ffi V) p) m) (assign_immortal V d NoneV))))"

definition i_add_external :: "vm \<Rightarrow> machine \<Rightarrow> machine outcome" where
  "i_add_external V = with_dst V (\<lambda>d m. assign_immortal V d NoneV (m\<lparr>externals := externals m + 1\<rparr>))"

definition i_remove_external :: "vm \<Rightarrow> machine \<Rightarrow> machine outcome" where
  "i_remove_external V = with_dst V (\<lambda>d m. assign_immortal V d NoneV (m\<lparr>externals := externals m - 1\<rparr>))"

end
