(* ===== verification/Interpreter.thy ===== *)
theory Interpreter
  imports Foreign
begin

text \<open>
  The interpreter (\<^verbatim>\<open>vbci/thread.cc\<close>): queueing a behavior, memo slots (\<^verbatim>\<open>vbci/program.cc\<close>), the
  dispatch of \<open>Thread::step\<close>, \<open>thread_run\<close> and what a behavior does before and after it runs.

  A \<open>MemoLoad\<close> runs a function inside an instruction: \<open>step\<close> takes that run as a parameter, and
  \<open>steps\<close>, the loop of \<open>thread_run\<close> with fuel, closes the knot. A run is \<open>Stuck\<close> when the fuel is
  used up; \<open>steps_more\<close> says that more fuel does not change a result.

  A behavior's requests and its body are the record \<open>behavior\<close>; scheduling appends it to the
  thread's \<open>queue\<close>.
\<close>

subsection \<open>Queueing a behavior\<close>

text \<open>
  The closure argument. The message of a refused one reads its region, which a header on a
  stack does not have.
\<close>

definition check_closure :: "vm \<Rightarrow> val \<Rightarrow> 32 word \<Rightarrow> machine \<Rightarrow> machine outcome" where
  "check_closure V v t m = obind (type_id (prog V) (locals m) v (hp m)) (\<lambda>s. obind (check_subtype (prog V) s t) (\<lambda>ok.
     if \<not> ok then Raise BadArgs
     else obind (is_sendable (kont V) v (hp m)) (\<lambda>(ok, h).
       if ok then Ret (m\<lparr>hp := h\<rparr>)
       else obind (get_header v) (\<lambda>p. obind (location_of p h) (\<lambda>l.
         if is_region l then Raise BadStackEscape else Stuck)))))"

definition check_cown_arg :: "vm \<Rightarrow> (nat \<times> 32 word) \<Rightarrow> machine \<Rightarrow> machine outcome" where
  "check_cown_arg V = (\<lambda>(a, t) m. obind (reg_val a m) (\<lambda>v. obind (get_cown v) (\<lambda>c.
     obind (cown_content_type (prog V) c (hp m)) (\<lambda>ct.
     obind (check_subtype (prog V) (ref_type (types (prog V)) ct) t) (\<lambda>ok.
       if ok then Ret m else Raise BadArgs)))))"

definition take_cown :: "nat \<Rightarrow> (cid \<times> bool) list \<times> machine \<Rightarrow> ((cid \<times> bool) list \<times> machine) outcome" where
  "take_cown a = (\<lambda>(cs, m). obind (take_reg a m) (\<lambda>(v, m). obind (get_cown v) (\<lambda>c.
     Ret (cs @ [(c, is_readonly v)], m))))"

text \<open>The captured closure's region belongs to the behavior, without a cown, until it runs.\<close>

definition capture_closure :: "vm \<Rightarrow> nat \<Rightarrow> machine \<Rightarrow> (val \<times> machine) outcome" where
  "capture_closure V a m = obind (reg_val a m) (\<lambda>v. obind (location v (hp m)) (\<lambda>l.
     let region = (case (header_of v, l) of (Some p, LRegion r) \<Rightarrow> Some (p, r) | _ \<Rightarrow> None) in
     obind (case region of
         None \<Rightarrow> Ret m
       | Some (p, r) \<Rightarrow> on_heap (\<lambda>h. obind (get_region r h) (\<lambda>reg.
           if has_owner reg then Ret h else set_cown_owner r None p h)) m) (\<lambda>m.
     obind (take_reg a m) (\<lambda>(v, m).
     obind (case region of
         None \<Rightarrow> Ret m
       | Some (p, r) \<Rightarrow> on_heap (\<lambda>h. obind (get_region r h) (\<lambda>reg.
           if is_frame_local reg then Ret h else stack_dec' (kont V) r 1 h)) m) (\<lambda>m. Ret (v, m))))))"

definition queue_behavior :: "vm \<Rightarrow> nat \<Rightarrow> 32 word \<Rightarrow> nat option \<Rightarrow> machine \<Rightarrow> machine outcome" where
  "queue_behavior V d t g m = (case g of
     None \<Rightarrow> Stuck
   | Some g \<Rightarrow> obind (func_at V g) (\<lambda>fn. let ps = param_types fn in
       if length ps \<noteq> args m then Raise BadArgs
       else obind (cur m) (\<lambda>f. obind (frame_end V f) (\<lambda>e. let n = args m in
         obind (if n = 0 then Ret False else obind (reg_val e m) (\<lambda>v. Ret (\<not> is_cown_value v))) (\<lambda>closure.
         let first = (if closure then 1 else 0) in
         obind (if closure then obind (reg_val e m) (\<lambda>v. check_closure V v (hd ps) m) else Ret m) (\<lambda>m.
         obind (each (check_cown_arg V) (drop first (zip [e..<e + n] ps)) m) (\<lambda>m.
         let m = m\<lparr>args := 0\<rparr> in
         obind (uncown (types (prog V)) t) (\<lambda>content. obind (check_subtype (prog V) (return_type fn) content) (\<lambda>ok.
         if \<not> ok then Raise BadType
         else obind (new_cown (types (prog V)) t (hp m)) (\<lambda>(c, h).
         obind (assign V d (CownV c False) (m\<lparr>hp := h\<rparr>)) (\<lambda>m.
         obind (each take_cown [e + first..<e + n] ([], m)) (\<lambda>(cs, m).
         obind (if closure then capture_closure V e m else Ret (InvalidV, m)) (\<lambda>(v, m).
         Ret (m\<lparr>queue := queue m @ [\<lparr>bh_func = g, bh_closure = v, bh_result = c, bh_cowns = cs\<rparr>]\<rparr>))))))))))))))"

definition i_when_static :: "vm \<Rightarrow> machine \<Rightarrow> machine outcome" where
  "i_when_static V = with_dst V (\<lambda>d m. obind (fetch_type V m) (\<lambda>(t, m). obind (fetch_nat V m) (\<lambda>(g, m).
     queue_behavior V d t (function_at V g) m)))"

definition i_when_dynamic :: "vm \<Rightarrow> machine \<Rightarrow> machine outcome" where
  "i_when_dynamic V = with_dst V (\<lambda>d m. obind (fetch_type V m) (\<lambda>(t, m). obind (local_next V m) (\<lambda>(s, m).
     obind (reg_val s m) (\<lambda>v. queue_behavior V d t (function_of v) m))))"

subsection \<open>Memo slots\<close>

type_synonym runner = "nat option \<Rightarrow> machine \<Rightarrow> (val \<times> machine) outcome"

definition run_sync :: "runner \<Rightarrow> nat option \<Rightarrow> machine \<Rightarrow> (val \<times> machine) outcome" where
  "run_sync R g m = obind (oassert (args m = 0)) (\<lambda>_. R g m)"

definition init_memo_slot :: "vm \<Rightarrow> runner \<Rightarrow> nat \<Rightarrow> machine \<Rightarrow> machine outcome" where
  "init_memo_slot V R i m = obind (vec_at (memo m) i) (\<lambda>v.
     if \<not> is_invalid v then Ret m
     else obind (vec_at (memo_busy m) i) (\<lambda>busy. obind (oassert (\<not> busy)) (\<lambda>_.
       obind (vec_at (memo_funcs (prog V)) i) (\<lambda>g. obind (func_at V g) (\<lambda>_.
       obind (run_sync R (Some g) (m\<lparr>memo_busy := (memo_busy m)[i := True]\<rparr>)) (\<lambda>(v, m).
       obind (case header_of v of
           None \<Rightarrow> Ret m
         | Some p \<Rightarrow> obind (freeze (addr V) (kont V) p (hp m)) (\<lambda>(_, h). Ret (m\<lparr>hp := h\<rparr>))) (\<lambda>m.
       Ret (m\<lparr>memo := (memo m)[i := v], memo_busy := (memo_busy m)[i := False]\<rparr>))))))))"

text \<open>The destination is held as a reference across the run.\<close>

definition i_memo_load :: "vm \<Rightarrow> runner \<Rightarrow> machine \<Rightarrow> machine outcome" where
  "i_memo_load V R = with_dst V (\<lambda>d m. obind (fetch_nat V m) (\<lambda>(i, m).
     obind (init_memo_slot V R i m) (\<lambda>m'. obind (same_vector m m') (\<lambda>_.
     obind (vec_at (memo m') i) (\<lambda>v. assign_borrow V d v m')))))"

subsection \<open>The step\<close>

fun exec :: "vm \<Rightarrow> runner \<Rightarrow> op \<Rightarrow> machine \<Rightarrow> machine outcome" where
  "exec V R OConst = i_const V"
| "exec V R OString = i_string V"
| "exec V R OConvert = i_convert V"
| "exec V R OSingleton = i_singleton V"
| "exec V R ONew = i_new V"
| "exec V R OStack = i_stack V"
| "exec V R OHeap = i_heap V"
| "exec V R ORegion = i_region V"
| "exec V R ONewArray = i_new_array V"
| "exec V R ONewArrayConst = i_new_array_const V"
| "exec V R OStackArray = i_stack_array V"
| "exec V R OStackArrayConst = i_stack_array_const V"
| "exec V R OHeapArray = i_heap_array V"
| "exec V R OHeapArrayConst = i_heap_array_const V"
| "exec V R ORegionArray = i_region_array V"
| "exec V R ORegionArrayConst = i_region_array_const V"
| "exec V R OCopy = i_copy V"
| "exec V R OMove = i_move V"
| "exec V R ODrop = i_drop V"
| "exec V R OFreeze = i_freeze V"
| "exec V R ORegisterRef = i_register_ref V"
| "exec V R OFieldRefMove = i_field_ref_move V"
| "exec V R OFieldRefCopy = i_field_ref_copy V"
| "exec V R OArrayRefMove = i_array_ref_move V"
| "exec V R OArrayRefCopy = i_array_ref_copy V"
| "exec V R OArrayRefMoveConst = i_array_ref_move_const V"
| "exec V R OArrayRefCopyConst = i_array_ref_copy_const V"
| "exec V R OLoad = i_load V"
| "exec V R OStoreMove = i_store_move V"
| "exec V R OStoreCopy = i_store_copy V"
| "exec V R OLookupDynamic = i_lookup_dynamic V"
| "exec V R OLookupFFI = i_lookup_ffi V"
| "exec V R OArgMove = i_arg_move V"
| "exec V R OArgCopy = i_arg_copy V"
| "exec V R OCallStatic = i_call_static V"
| "exec V R OCallDynamic = i_call_dynamic V"
| "exec V R OTryCallDynamic = i_try_call_dynamic V"
| "exec V R OFFI = i_ffi V"
| "exec V R OWhenStatic = i_when_static V"
| "exec V R OWhenDynamic = i_when_dynamic V"
| "exec V R OTypetest = i_typetest V"
| "exec V R OTailcallStatic = i_tailcall_static V"
| "exec V R OTailcallDynamic = i_tailcall_dynamic V"
| "exec V R OReturn = i_return V"
| "exec V R ORaise = i_raise V"
| "exec V R OCond = i_cond V"
| "exec V R OJump = i_jump V"
| "exec V R (OBin b) = i_bin V b"
| "exec V R (OUn u) = i_un V u"
| "exec V R OPtr = i_ptr V"
| "exec V R ORead = i_read V"
| "exec V R OPin = i_pin V"
| "exec V R OUnpin = i_unpin V"
| "exec V R OMerge = i_merge V"
| "exec V R OFFIStruct = i_ffi_struct V"
| "exec V R OFFILoad = i_ffi_load V"
| "exec V R OFFIStore = i_ffi_store V"
| "exec V R OGetRaise = i_get_raise V"
| "exec V R OSetRaise = i_set_raise V"
| "exec V R (OConstant k) = i_constant V k"
| "exec V R OMakeCallback = i_make_callback V"
| "exec V R OCodePtrCallback = i_code_ptr_callback V"
| "exec V R OFreeCallback = i_free_callback V"
| "exec V R OAddExternal = i_add_external V"
| "exec V R ORemoveExternal = i_remove_external V"
| "exec V R OMemoLoad = i_memo_load V R"
| "exec V R OArrayCopy = i_array_copy V"
| "exec V R OArrayFill = i_array_fill V"
| "exec V R OArrayCompare = i_array_compare V"

definition step :: "vm \<Rightarrow> runner \<Rightarrow> machine \<Rightarrow> machine outcome" where
  "step V R m = obind (fetch V m) (\<lambda>(w, m). case op_of w of
     None \<Rightarrow> Raise UnknownOpcode
   | Some op \<Rightarrow> exec V R op m)"

subsection \<open>Runs\<close>

text \<open>\<open>thread_run\<close> around its loop \<open>S\<close>: the caller's register 0 carries the result.\<close>

definition run_with :: "(nat \<Rightarrow> machine \<Rightarrow> machine outcome) \<Rightarrow> vm \<Rightarrow> runner" where
  "run_with S V g m =
     obind (if frames m = [] then Ret (None, m)
            else obind (local_at V 0 m) (\<lambda>(i, m). obind (take_reg i m) (\<lambda>(v, m). Ret (Some v, m)))) (\<lambda>(saved, m).
     obind (pushframe V g 0 m) (\<lambda>m'.
     obind (S (length (frames m)) m') (\<lambda>m.
     case saved of
       None \<Rightarrow> take_reg 0 m
     | Some v \<Rightarrow> obind (local_at V 0 m) (\<lambda>(i, m). obind (take_reg i m) (\<lambda>(res, m).
         obind (assign V i v m) (\<lambda>m. Ret (res, m)))))))"

fun steps :: "nat \<Rightarrow> vm \<Rightarrow> nat \<Rightarrow> machine \<Rightarrow> machine outcome" where
  "steps 0 V d m = (if length (frames m) = d then Ret m else Stuck)"
| "steps (Suc n) V d m =
     (if length (frames m) = d then Ret m
      else obind (step V (run_with (steps n V) V) m) (steps n V d))"

definition thread_run :: "nat \<Rightarrow> vm \<Rightarrow> runner" where
  "thread_run n V = run_with (steps n V) V"

text \<open>The handler of \<open>thread_run\<close>, on what the throwing step left.\<close>

definition unwind_run :: "vm \<Rightarrow> nat \<Rightarrow> val option \<Rightarrow> machine \<Rightarrow> machine outcome" where
  "unwind_run V d saved m = obind (drop_args V m) (\<lambda>m.
     obind (abandon_down_to (length (frames m)) V d m) (\<lambda>m.
     case saved of
       None \<Rightarrow> Ret m
     | Some v \<Rightarrow> obind (local_at V 0 m) (\<lambda>(i, m). assign V i v m)))"

subsection \<open>Behaviors\<close>

definition place_arg :: "vm \<Rightarrow> val \<Rightarrow> machine \<Rightarrow> machine outcome" where
  "place_arg V v m = assign V (args m) v (m\<lparr>args := Suc (args m)\<rparr>)"

definition open_closure :: "vm \<Rightarrow> val \<Rightarrow> heap \<Rightarrow> heap outcome" where
  "open_closure V v h = (case header_of v of
     None \<Rightarrow> Ret h
   | Some p \<Rightarrow> obind (location_of p h) (\<lambda>l. case l of
       LRegion r \<Rightarrow> obind (get_region r h) (\<lambda>reg.
         if has_cown_owner reg then obind (stack_inc r 1 h) (clear_cown_owner (kont V) r) else Ret h)
     | _ \<Rightarrow> Ret h))"

definition place_cown :: "vm \<Rightarrow> cid \<times> bool \<Rightarrow> machine \<Rightarrow> machine outcome" where
  "place_cown V = (\<lambda>(c, ro) m. obind (if ro then Ret m else on_heap (cown_inc c) m) (place_arg V (CownRefV c ro)))"

definition begin_behavior :: "vm \<Rightarrow> behavior \<Rightarrow> machine \<Rightarrow> machine outcome" where
  "begin_behavior V b m = obind (oassert (frames m = [] \<and> args m = 0)) (\<lambda>_.
     obind (if is_invalid (bh_closure b) then Ret m
            else obind (on_heap (open_closure V (bh_closure b)) m) (place_arg V (bh_closure b))) (\<lambda>m.
     each (place_cown V) (bh_cowns b) m))"

text \<open>The result, moved into the result cown; what it held before is released.\<close>

definition complete_behavior :: "vm \<Rightarrow> behavior \<Rightarrow> val \<Rightarrow> machine \<Rightarrow> machine outcome" where
  "complete_behavior V b v m = on_heap (\<lambda>h.
     obind (cown_exchange (prog V) (locals m) True (kont V) (bh_result b) v h) (\<lambda>(prev, h).
     reg_dec (kont V) prev h)) m"

text \<open>The handler of a behavior that threw \<open>e\<close>: all frames go, the error is the result.\<close>

definition fail_behavior :: "vm \<Rightarrow> behavior \<Rightarrow> val \<Rightarrow> machine \<Rightarrow> machine outcome" where
  "fail_behavior V b e m = obind (teardown_all V m) (complete_behavior V b e)"

definition run_behavior :: "nat \<Rightarrow> vm \<Rightarrow> behavior \<Rightarrow> machine \<Rightarrow> machine outcome" where
  "run_behavior n V b m = obind (begin_behavior V b m) (\<lambda>m.
     obind (thread_run n V (Some (bh_func b)) m) (\<lambda>(v, m). complete_behavior V b v m))"

text \<open>
  \<open>Thread::Thread\<close>, and the first behavior of a program: \<open>run_async\<close> schedules a function
  without arguments and gives the cown of its result.
\<close>

definition new_thread :: "heap \<Rightarrow> machine" where
  "new_thread h = \<lparr>hp = h, stk = empty_stack, at_idx = Map.empty, frames = [], locals = replicate 1024 InvalidV,
     finals = [], args = 0, memo = [], memo_busy = [], queue = [], externals = 0, ffi_buffer = 0,
     extra_params = \<lambda>_. 0\<rparr>"

definition run_async :: "vm \<Rightarrow> 32 word \<Rightarrow> nat \<Rightarrow> machine \<Rightarrow> (val \<times> machine) outcome" where
  "run_async V t g m = obind (func_at V g) (\<lambda>fn. obind (new_cown (types (prog V)) t (hp m)) (\<lambda>(c, h).
     obind (cown_content_type (prog V) c h) (\<lambda>ct. obind (check_subtype (prog V) (return_type fn) ct) (\<lambda>ok.
       if \<not> ok then Raise BadType
       else Ret (CownV c False, m\<lparr>hp := h,
         queue := queue m @ [\<lparr>bh_func = g, bh_closure = InvalidV, bh_result = c, bh_cowns = []\<rparr>]\<rparr>)))))"

end
