(* ===== verification/EmitLemmas.thy ===== *)
theory EmitLemmas
  imports Emit Interpreter
begin

text \<open>
  Emitted code against the interpreter. \<open>code_at\<close> says that instructions stand at a position of
  the code; reading them gives the opcode and the operands back (\<open>instr_decodes\<close>), and a step of
  the interpreter there executes the instruction. The label table of an emitted function gives
  the positions of its blocks (\<open>emit_functions_at\<close>). Emission of validated functions is never
  stuck (\<open>emit_stmt_total\<close> and what follows it).
\<close>

subsection \<open>Decoding\<close>

lemma op_in_table: "op \<in> set op_table"
proof (cases op)
  case (OBin b)
  then show ?thesis by (cases b) (simp_all add: op_table_def)
next
  case (OUn u)
  then show ?thesis
  proof (cases u)
    case (UFloat f)
    with OUn show ?thesis by (cases f) (simp_all add: op_table_def)
  qed (simp_all add: op_table_def)
next
  case (OConstant k)
  then show ?thesis by (cases k) (simp_all add: op_table_def)
qed (simp_all add: op_table_def)

lemma op_table_length: "length op_table < 2 ^ 32"
  by (simp add: op_table_def)

lemma op_of_code [simp]: "op_of (op_code op) = Some op"
proof -
  obtain i where i: "find_id op_table op = Some i" using op_in_table [of op] by (metis find_id_None not_None_eq)
  from find_id_SomeD [OF i] have l: "i < length op_table" "op_table ! i = op" by auto
  then have "i < 2 ^ 32" using op_table_length by linarith
  then have "unat (ucast (of_nat i :: 64 word) :: 32 word) = i"
    by (simp add: ucast_of_nat unat_of_nat take_bit_nat_eq_self)
  with i l show ?thesis by (simp add: op_of_def op_code_def)
qed

primrec operand_word :: "operand \<Rightarrow> 64 word" where
  "operand_word (OpU w) = w"
| "operand_word (OpS8 w) = scast w"
| "operand_word (OpS16 w) = scast w"
| "operand_word (OpS32 w) = scast w"
| "operand_word (OpS64 w) = w"

definition read_operand :: "operand \<Rightarrow> byte list \<Rightarrow> nat \<Rightarrow> (64 word \<times> nat) outcome" where
  "read_operand o' bs pc = (case o' of OpU w \<Rightarrow> uleb_get bs pc | _ \<Rightarrow> sleb_get bs pc)"

text \<open>The narrow zigzag writer is right from -64 on.\<close>

definition operand_fits :: "operand \<Rightarrow> bool" where
  "operand_fits o' = (case o' of OpS8 w \<Rightarrow> - 64 \<le> sint w | OpS16 w \<Rightarrow> - 64 \<le> sint w | _ \<Rightarrow> True)"

lemma sleb_nonempty [simp]: "sleb_put64 v \<noteq> []" "sleb_put32 w \<noteq> []" "sleb_put_narrow x \<noteq> []"
  by (simp_all add: sleb_put64_def sleb_put32_def sleb_put_narrow_def Let_def uleb_put_int.simps)

lemma sleb_at:
  "drop pc bs = sleb_put64 v @ rest \<Longrightarrow> sleb_get bs pc = Ret (v, pc + length (sleb_put64 v))"
  "drop pc bs = sleb_put32 w @ rest \<Longrightarrow> sleb_get bs pc = Ret (scast w, pc + length (sleb_put32 w))"
  by (erule at_split; simp add: sleb_get_put64 sleb_get_put32)+

lemma sleb_narrow_at:
  fixes v :: "'a::len word"
  assumes "8 \<le> LENGTH('a)" "LENGTH('a) \<le> 16" "- 64 \<le> sint v" "drop pc bs = sleb_put_narrow v @ rest"
  shows "sleb_get bs pc = Ret (scast v, pc + length (sleb_put_narrow v))"
  using assms(4) by (rule at_split) (simp_all add: sleb_narrow_ok [OF assms(1-3)])

lemma read_operand_at:
  "operand_fits o' \<Longrightarrow> drop pc bs = put_operand o' @ rest \<Longrightarrow>
    read_operand o' bs pc = Ret (operand_word o', pc + length (put_operand o'))"
  by (cases o') (auto simp: read_operand_def operand_fits_def uleb_get_at sleb_at sleb_narrow_at)

fun reads_back :: "byte list \<Rightarrow> nat \<Rightarrow> operand list \<Rightarrow> nat \<Rightarrow> bool" where
  "reads_back bs pc [] pc' = (pc = pc')"
| "reads_back bs pc (o' # os) pc' = (case read_operand o' bs pc of
     Ret (w, pc1) \<Rightarrow> w = operand_word o' \<and> reads_back bs pc1 os pc'
   | _ \<Rightarrow> False)"

lemma reads_back_at:
  "list_all operand_fits os \<Longrightarrow> drop pc bs = concat (map put_operand os) @ rest \<Longrightarrow>
    reads_back bs pc os (pc + length (concat (map put_operand os)))"
proof (induction os arbitrary: pc)
  case (Cons o' os)
  then have d: "drop pc bs = put_operand o' @ concat (map put_operand os) @ rest" by simp
  with Cons read_operand_at [OF _ d] Cons.IH [OF _ drop_step [OF d]] show ?case by (simp add: add.assoc)
qed simp

definition code_at :: "byte list \<Rightarrow> nat \<Rightarrow> instr list \<Rightarrow> bool" where
  "code_at bs pc ins = (put_instrs ins = take (length (put_instrs ins)) (drop pc bs))"

lemma code_at_iff: "code_at bs pc ins \<longleftrightarrow> (\<exists>rest. drop pc bs = put_instrs ins @ rest)"
  unfolding code_at_def by (metis append_eq_conv_conj append_take_drop_id)

lemma put_instrs_simps [simp]: "put_instrs [] = []" "put_instrs (i # ins) = put_instr i @ put_instrs ins"
  "put_instrs (xs @ ys) = put_instrs xs @ put_instrs ys"
  by (simp_all add: put_instrs_def)

lemma code_at_append: "code_at bs pc (xs @ ys) \<longleftrightarrow> code_at bs pc xs \<and> code_at bs (pc + length (put_instrs xs)) ys"
  unfolding code_at_iff
proof safe
  fix r1 r2
  assume a: "drop pc bs = put_instrs xs @ r1" "drop (pc + length (put_instrs xs)) bs = put_instrs ys @ r2"
  from drop_step [OF a(1)] a(2) have "r1 = put_instrs ys @ r2" by simp
  with a(1) show "\<exists>rest. drop pc bs = put_instrs (xs @ ys) @ rest" by simp
qed (auto dest: drop_step)

lemma instr_decodes:
  assumes "code_at bs pc ((op, os) # ins)" "list_all operand_fits os"
  obtains pc1 pc2 where "uleb_get bs pc = Ret (op_code op, pc1)" "pc1 = pc + length (uleb_put (op_code op))"
    "reads_back bs pc1 os pc2" "code_at bs pc2 ins" "pc2 = pc + length (put_instr (op, os))"
proof -
  from assms(1) obtain rest where d: "drop pc bs = uleb_put (op_code op) @ concat (map put_operand os) @ put_instrs ins @ rest"
    by (auto simp: code_at_iff put_instr_def)
  note d1 = drop_step [OF d]
  from reads_back_at [OF assms(2) d1] uleb_get_at [OF d] drop_step [OF d1] show thesis
    by (intro that [of "pc + length (uleb_put (op_code op))"]) (auto simp: code_at_iff put_instr_def add.assoc)
qed

text \<open>A step at an emitted instruction executes it, from its operands on.\<close>

lemma step_at:
  assumes "frames m = f # fs" "code_at (bytes V) (fr_pc f) ((op, os) # ins)"
  shows "step V R m = exec V R op (m\<lparr>frames := f\<lparr>fr_pc := fr_pc f + length (uleb_put (op_code op))\<rparr> # fs\<rparr>)"
proof -
  from assms(2) obtain rest where d: "drop (fr_pc f) (bytes V) = uleb_put (op_code op) @ concat (map put_operand os) @ put_instrs ins @ rest"
    by (auto simp: code_at_iff put_instr_def)
  show ?thesis using assms(1) uleb_get_at [OF d] by (simp add: step_def fetch_def cur_def set_cur_def)
qed

lemma fetch_at:
  assumes "frames m = f # fs" "drop (fr_pc f) (bytes V) = uleb_put w @ rest"
  shows "fetch V m = Ret (w, m\<lparr>frames := f\<lparr>fr_pc := fr_pc f + length (uleb_put w)\<rparr> # fs\<rparr>)"
  using assms(1) uleb_get_at [OF assms(2)] by (simp add: fetch_def cur_def set_cur_def)

lemma fetch_signed_at:
  assumes "frames m = f # fs" "sleb_get (bytes V) (fr_pc f) = Ret (w, pc)"
  shows "fetch_signed V m = Ret (w, m\<lparr>frames := f\<lparr>fr_pc := pc\<rparr> # fs\<rparr>)"
  using assms by (simp add: fetch_signed_def cur_def set_cur_def)

subsection \<open>Where the blocks are\<close>

lemma emit_blocks_at:
  assumes "emit_blocks E F bs code c = Ret ((pcs, code'), c')"
  shows "take (length code) code' = code \<and> length pcs = length bs \<and>
    (\<forall>k < length bs. \<exists>p ins c1 c2. block_instrs E F (bs ! k) c1 = Ret (ins, c2) \<and> pcs ! k = of_nat p
      \<and> p \<le> length code' \<and> code_at code' p ins)"
  using assms
proof (induction bs arbitrary: code c pcs)
  case (Cons b bs)
  from Cons.prems obtain ins c1 pcs' where
    h: "block_instrs E F b c = Ret (ins, c1)" "emit_blocks E F bs (code @ put_instrs ins) c1 = Ret ((pcs', code'), c')"
      "pcs = of_nat (length code) # pcs'" by (auto simp: outcome_simps)
  note IH = Cons.IH [OF h(2)]
  then have pre: "code' = (code @ put_instrs ins) @ drop (length (code @ put_instrs ins)) code'"
    by (metis append_take_drop_id)
  then have "drop (length code) code' = put_instrs ins @ drop (length (code @ put_instrs ins)) code'"
    by (metis append.assoc append_eq_conv_conj)
  then have first: "code_at code' (length code) ins" unfolding code_at_iff by blast
  have take: "take (length code) code' = code" using pre by (metis append.assoc append_eq_conv_conj)
  then have le: "length code \<le> length code'" by (metis length_take min.cobounded2 min.commute)
  show ?case
  proof (intro conjI allI impI)
    show "take (length code) code' = code" by (rule take)
    show "length pcs = length (b # bs)" using IH h(3) by simp
    fix k assume "k < length (b # bs)"
    then show "\<exists>p ins c1 c2. block_instrs E F ((b # bs) ! k) c1 = Ret (ins, c2) \<and> pcs ! k = of_nat p
        \<and> p \<le> length code' \<and> code_at code' p ins"
    proof (cases k)
      case 0
      with h first le show ?thesis by (intro exI [of _ "length code"] exI [of _ ins] exI [of _ c] exI [of _ c1]) simp
    next
      case (Suc j)
      with IH \<open>k < length (b # bs)\<close> h(3) show ?thesis by auto
    qed
  qed
qed simp

lemma code_at_mono: "p \<le> length code \<Longrightarrow> take (length code) code' = code \<Longrightarrow> code_at code p ins \<Longrightarrow> code_at code' p ins"
  unfolding code_at_iff by (metis append.assoc append_take_drop_id drop_append diff_is_0_eq drop_0)

definition blocks_at :: "emit_env \<Rightarrow> func_state \<Rightarrow> ir_func \<Rightarrow> vfunction \<Rightarrow> byte list \<Rightarrow> bool" where
  "blocks_at E F f vf code = (length (labels vf) = length (fn_blocks f)
     \<and> (\<forall>k < length (fn_blocks f). \<exists>p ins c1 c2. block_instrs E F (fn_blocks f ! k) c1 = Ret (ins, c2)
        \<and> labels vf ! k = of_nat p \<and> p \<le> length code \<and> code_at code p ins))"

lemma take_length_trans: "take (length a) b = a \<Longrightarrow> take (length b) c = b \<Longrightarrow> take (length a) c = a"
  by (metis append_take_drop_id length_take min.cobounded1 min.commute take_append take_take nat_le_linear append_eq_conv_conj min.absorb2)

lemma take_length_le: "take (length a) b = a \<Longrightarrow> length a \<le> length b"
  by (metis length_take min.cobounded1)

lemma blocks_at_mono:
  assumes "blocks_at E F f vf code" "take (length code) code' = code"
  shows "blocks_at E F f vf code'"
  unfolding blocks_at_def
proof (intro conjI allI impI)
  show "length (labels vf) = length (fn_blocks f)" using assms(1) by (simp add: blocks_at_def)
  fix k assume "k < length (fn_blocks f)"
  with assms(1) obtain p ins c1 c2 where h: "block_instrs E F (fn_blocks f ! k) c1 = Ret (ins, c2)"
    "labels vf ! k = of_nat p" "p \<le> length code" "code_at code p ins" unfolding blocks_at_def by blast
  from code_at_mono [OF h(3) assms(2) h(4)] h take_length_le [OF assms(2)]
  show "\<exists>p ins c1 c2. block_instrs E F (fn_blocks f ! k) c1 = Ret (ins, c2)
        \<and> labels vf ! k = of_nat p \<and> p \<le> length code' \<and> code_at code' p ins" by (meson le_trans)
qed

lemma emit_function_at:
  assumes "emit_function E k F code c = Ret ((vf, code'), c')"
  shows "take (length code) code' = code \<and> (\<exists>f. fs_func F = Some f \<and> blocks_at E F f vf code')"
proof -
  from assms obtain f c1 pcs where f: "fs_func F = Some f" "emit_blocks E F (fn_blocks f) code c1 = Ret ((pcs, code'), c')"
    "labels vf = pcs" by (auto simp: emit_function_def outcome_simps split: option.splits)
  from emit_blocks_at [OF f(2)] f(1,3) show ?thesis unfolding blocks_at_def by blast
qed

lemma emit_functions_at:
  assumes "emit_functions E k Fs code c = Ret ((vfs, code'), c')"
  shows "take (length code) code' = code \<and> length vfs = length Fs \<and>
    (\<forall>g < length Fs. \<exists>f. fs_func (Fs ! g) = Some f \<and> blocks_at E (Fs ! g) f (vfs ! g) code')"
  using assms
proof (induction Fs arbitrary: k code c vfs)
  case (Cons F Fs)
  from Cons.prems obtain vf code1 c1 vfs' where h: "emit_function E k F code c = Ret ((vf, code1), c1)"
    "emit_functions E (Suc k) Fs code1 c1 = Ret ((vfs', code'), c')" "vfs = vf # vfs'" by (auto simp: outcome_simps)
  note 1 = emit_function_at [OF h(1)] and 2 = Cons.IH [OF h(2)]
  then obtain f where f: "fs_func F = Some f" "blocks_at E F f vf code'" using blocks_at_mono by blast
  show ?case
  proof (intro conjI allI impI)
    show "take (length code) code' = code" using 1 2 take_length_trans by blast
    show "length vfs = length (F # Fs)" using 2 h(3) by simp
    fix g assume "g < length (F # Fs)"
    then show "\<exists>f. fs_func ((F # Fs) ! g) = Some f \<and> blocks_at E ((F # Fs) ! g) f (vfs ! g) code'"
      using f 2 h(3) by (cases g) auto
  qed
qed simp

text \<open>The same in the loaded file, where the labels are absolute.\<close>

definition loaded_blocks :: "emit_env \<Rightarrow> func_state \<Rightarrow> ir_func \<Rightarrow> vfunction \<Rightarrow> byte list \<Rightarrow> bool" where
  "loaded_blocks E F f vf bs = (length (labels vf) = length (fn_blocks f)
     \<and> (\<forall>k < length (fn_blocks f). \<exists>ins c1 c2. block_instrs E F (fn_blocks f ! k) c1 = Ret (ins, c2)
        \<and> code_at bs (unat (labels vf ! k)) ins))"

subsection \<open>Emission keeps the names\<close>

text \<open>All tables but those of strings and types are kept; these two grow at their ends.\<close>

definition same_names :: "compilation \<Rightarrow> compilation \<Rightarrow> bool" where
  "same_names c c' = (c'\<lparr>comp_types := comp_types c, type_info_ids := type_info_ids c, exec_strings := exec_strings c\<rparr> = c
     \<and> (\<exists>ts. comp_types c' = comp_types c @ ts) \<and> (types_inv c \<longrightarrow> types_inv c')
     \<and> (\<exists>xs. exec_strings c' = exec_strings c @ xs))"

lemma same_names_refl [simp]: "same_names c c"
  by (simp add: same_names_def)

lemma same_names_trans: "same_names a b \<Longrightarrow> same_names b c \<Longrightarrow> same_names a c"
  by (cases a; cases b; cases c) (auto simp: same_names_def)

lemma same_namesD:
  assumes "same_names c c'"
  shows "typealiases c' = typealiases c" "comp_classes c' = comp_classes c" "field_ids c' = field_ids c"
    "method_ids c' = method_ids c" "comp_functions c' = comp_functions c" "comp_symbols c' = comp_symbols c"
    "comp_libraries c' = comp_libraries c" "complex_primitives c' = complex_primitives c"
  using assms by (cases c; cases c'; simp add: same_names_def)+

lemma same_names_lookups:
  assumes "same_names c c'"
  shows "get_typealias_id c' = get_typealias_id c" "get_class_id c' = get_class_id c"
    "get_field_id c' = get_field_id c" "get_method_id c' = get_method_id c" "func_index c' = func_index c"
    "get_func_id c' = get_func_id c" "get_symbol_id c' = get_symbol_id c" "get_library_id c' = get_library_id c"
  by (simp_all add: fun_eq_iff get_typealias_id_def get_class_id_def get_field_id_def get_method_id_def
      func_index_def get_func_id_def get_symbol_id_def get_library_id_def same_namesD [OF assms] cong: option.case_cong)

lemma settle_same: "same_names c c' \<Longrightarrow> settle c' t = settle c t"
proof (induction t)
  case (Node l ts)
  then show ?case by (simp add: same_names_lookups cong: ir_label.case_cong)
qed

lemma ir_type_id_same: "ir_type_id n t c = Ret (i, c') \<Longrightarrow> same_names c c'"
  using ir_type_id_grows [of n t c i c'] ir_type_id_numbered [of c n t i c']
  by (cases c; cases c') (auto simp: grows_def same_names_def)

lemma intern_same [simp]: "same_names c (intern s c)"
  by (simp add: same_names_def intern_def types_inv_def first_complex_def known_number_def add_id_def)

text \<open>A result with a compilation of the same names, where there is a result.\<close>

definition keeps :: "compilation \<Rightarrow> ('a \<times> compilation) outcome \<Rightarrow> bool" where
  "keeps c m = (\<forall>x c'. m = Ret (x, c') \<longrightarrow> same_names c c')"

named_theorems keeps_intros

lemma keepsD: "keeps c m \<Longrightarrow> m = Ret (x, c') \<Longrightarrow> same_names c c'"
  by (simp add: keeps_def)

lemma keeps_value [keeps_intros]: "same_names c c' \<Longrightarrow> keeps c (Ret (x, c'))"
  by (simp add: keeps_def)

lemma keeps_Stuck [keeps_intros]: "keeps c Stuck"
  by (simp add: keeps_def)

lemma keeps_id [keeps_intros]: "(\<And>i. keeps c (k i)) \<Longrightarrow> keeps c (with_id o' k)"
  by (cases o') (simp_all add: with_id_def keeps_intros)

lemma keeps_reg [keeps_intros]: "(\<And>i. keeps c (k i)) \<Longrightarrow> keeps c (with_reg F x k)"
  by (simp add: with_reg_def keeps_id)

lemma keeps_label [keeps_intros]: "(\<And>i. keeps c (k i)) \<Longrightarrow> keeps c (with_label F x k)"
  by (simp add: with_label_def keeps_id)

lemma keeps_type [keeps_intros]:
  "same_names c c1 \<Longrightarrow> (\<And>i c2. same_names c c2 \<Longrightarrow> keeps c (k i c2)) \<Longrightarrow> keeps c (with_type E t c1 k)"
proof (cases "ir_type_id (alias_fuel E) (settle c1 t) c1")
  case (Ret r)
  assume "same_names c c1" and k: "\<And>i c2. same_names c c2 \<Longrightarrow> keeps c (k i c2)"
  moreover obtain i c2 where "r = (i, c2)" by (cases r)
  moreover have "same_names c1 c2" using Ret \<open>r = (i, c2)\<close> by (auto dest: ir_type_id_same)
  ultimately have "same_names c c2" by (blast intro: same_names_trans)
  from k [OF this] Ret \<open>r = (i, c2)\<close> show ?thesis by (simp add: with_type_def)
qed (simp_all add: with_type_def keeps_def)

lemma keeps_args [keeps_intros]: "(\<And>is. keeps c (k is)) \<Longrightarrow> keeps c (with_args F as k)"
  by (induction as arbitrary: k) (auto intro!: keeps_intros)

lemma keeps_obind [keeps_intros]:
  "keeps c m \<Longrightarrow> (\<And>x c1. same_names c c1 \<Longrightarrow> keeps c (k x c1)) \<Longrightarrow> keeps c (obind m (\<lambda>(x, c1). k x c1))"
  by (fastforce simp: keeps_def outcome_simps)

lemma keeps_obind_plain: "(\<And>x. keeps c (k x)) \<Longrightarrow> keeps c (obind m (\<lambda>x. k x))"
  by (cases m) (auto simp: keeps_def)

lemma keeps_case_prod [keeps_intros]: "(\<And>x y. keeps c (f x y)) \<Longrightarrow> keeps c (case p of (x, y) \<Rightarrow> f x y)"
  by (cases p) simp

lemma keeps_case_prod_app [keeps_intros]:
  "(\<And>x y. keeps c (f x y c1)) \<Longrightarrow> keeps c ((case p of (x, y) \<Rightarrow> f x y) c1)"
  by (cases p) simp

lemma keeps_weaken: "keeps c1 m \<Longrightarrow> same_names c c1 \<Longrightarrow> keeps c m"
  by (auto simp: keeps_def intro: same_names_trans)

lemma keeps_map_state [keeps_intros]: "same_names c c1 \<Longrightarrow> (\<And>x c2. keeps c2 (f x c2)) \<Longrightarrow> keeps c (map_state f xs c1)"
proof (induction xs arbitrary: c1)
  case (Cons x xs)
  show ?case unfolding map_state.simps
    by (intro keeps_intros keeps_weaken [OF Cons.prems(2) Cons.prems(1)] Cons.IH [OF _ Cons.prems(2)])
qed (simp add: keeps_intros)

lemma keeps_emit_stmt: "keeps c (emit_stmt E F s c)"
  by (cases s) (auto simp: Let_def intro!: keeps_intros)

lemma keeps_emit_term: "keeps c (emit_term F s c)"
  by (cases s) (auto intro!: keeps_intros)

lemma keeps_block [keeps_intros]: "same_names c c1 \<Longrightarrow> keeps c (block_instrs E F b c1)"
  unfolding block_instrs_def
  by (intro keeps_intros keeps_weaken [OF keeps_emit_term]) (auto intro: keeps_emit_stmt)

lemma keeps_type_id [keeps_intros]: "same_names c c1 \<Longrightarrow> keeps c (emit_type_id E t c1)"
  unfolding emit_type_id_def by (intro keeps_intros)

lemma keeps_blocks [keeps_intros]: "same_names c c1 \<Longrightarrow> keeps c (emit_blocks E F bs code c1)"
proof (induction bs arbitrary: code c1)
  case (Cons b bs)
  then show ?case unfolding emit_blocks.simps by (intro keeps_intros)
qed (simp add: keeps_intros)

lemma keeps_function [keeps_intros]: "same_names c c1 \<Longrightarrow> keeps c (emit_function E k F code c1)"
  unfolding emit_function_def by (cases "fs_func F") (auto intro!: keeps_intros)

lemma keeps_functions [keeps_intros]: "same_names c c1 \<Longrightarrow> keeps c (emit_functions E k Fs code c1)"
proof (induction Fs arbitrary: k code c1)
  case (Cons F Fs)
  then show ?case unfolding emit_functions.simps by (intro keeps_intros)
qed (simp add: keeps_intros)

lemma keeps_field [keeps_intros]: "same_names c c1 \<Longrightarrow> keeps c (emit_field E x c1)"
  unfolding emit_field_def by (cases x) (auto intro!: keeps_intros)

lemma keeps_class [keeps_intros]: "same_names c c1 \<Longrightarrow> keeps c (emit_class E x c1)"
proof (cases x)
  case (Pair k cl)
  assume "same_names c c1"
  then show ?thesis unfolding emit_class_def Pair prod.case
    by (intro keeps_obind keeps_map_state keeps_field same_names_refl) (assumption | intro keeps_obind_plain keeps_value)+
qed

lemma intern_names [keeps_intros]: "same_names c c1 \<Longrightarrow> same_names c (intern s c1)"
  by (rule same_names_trans [OF _ intern_same])

lemma keeps_lib [keeps_intros]: "same_names c c1 \<Longrightarrow> keeps c (emit_lib l c1)"
  unfolding emit_lib_def Let_def by (cases "lib_init l") (auto intro!: keeps_intros)

lemma keeps_symbol [keeps_intros]: "same_names c c1 \<Longrightarrow> keeps c (emit_symbol E x c1)"
  unfolding emit_symbol_def Let_def by (cases x) (auto intro!: keeps_intros)

lemma emit_file_functions:
  assumes "emit_file E c = Ret f"
  obtains c1 c2 where "same_names c c1" "emit_functions E 0 (comp_functions c) [] c1 = Ret ((f_functions f, f_code f), c2)"
    "f_complex_types f = map emit_type (comp_types c2)"
proof -
  from assms obtain prims cl c1 complex libs c2 syms c3 fs code c4 memo where
    h: "map_state (emit_class E) (zip [0..<length (comp_classes c)] (comp_classes c)) c = Ret (cl, c1)"
      "map_state emit_lib (comp_libraries c1) c1 = Ret (libs, c2)"
      "map_state (emit_symbol E) (comp_symbols c2) c2 = Ret (syms, c3)"
      "emit_functions E 0 (comp_functions c3) [] c3 = Ret ((fs, code), c4)"
      "f_functions f = fs" "f_code f = code" "f_complex_types f = map emit_type (comp_types c4)"
    by (auto simp: emit_file_def Let_def outcome_simps)
  have 1: "same_names c c1" by (rule keepsD [OF _ h(1)]) (auto intro!: keeps_intros)
  have 2: "same_names c1 c2" by (rule keepsD [OF _ h(2)]) (auto intro!: keeps_intros)
  have 3: "same_names c2 c3" by (rule keepsD [OF _ h(3)]) (auto intro!: keeps_intros)
  from 1 2 3 have s: "same_names c c3" by (blast intro: same_names_trans)
  from that [OF s] h(4-7) same_namesD(5) [OF s] show thesis by simp
qed

subsection \<open>Jumps\<close>

text \<open>A thread that runs an emitted and loaded file.\<close>

definition runs_file :: "vm \<Rightarrow> vbc_file \<Rightarrow> byte list \<Rightarrow> bool" where
  "runs_file V f debug = (bytes V = put_file f @ debug \<and> funcs (prog V) = l_functions (loaded_of f debug)
     \<and> length (bytes V) < 2 ^ 64)"

definition ir_blocks :: "compilation \<Rightarrow> nat \<Rightarrow> block list" where
  "ir_blocks c g = (case fs_func (comp_functions c ! g) of None \<Rightarrow> [] | Some f \<Rightarrow> fn_blocks f)"

text \<open>The instructions of a block stand at a position, numbered in some state of the type table.\<close>

definition block_at :: "emit_env \<Rightarrow> compilation \<Rightarrow> nat \<Rightarrow> nat \<Rightarrow> byte list \<Rightarrow> nat \<Rightarrow> bool" where
  "block_at E c g k bs pc = (\<exists>c1 c2 ins. block_instrs E (comp_functions c ! g) (ir_blocks c g ! k) c1 = Ret (ins, c2)
     \<and> code_at bs pc ins)"

lemma emitted_block:
  assumes f: "emit_file E c = Ret f" and V: "runs_file V f debug" and g: "g < length (comp_functions c)"
    and k: "k < length (ir_blocks c g)"
  shows "\<exists>vf. func_at V g = Ret vf \<and> k < length (labels vf) \<and> block_at E c g k (bytes V) (unat (labels vf ! k))"
proof -
  from emit_file_functions [OF f] obtain c1 c2 where
    e: "emit_functions E 0 (comp_functions c) [] c1 = Ret ((f_functions f, f_code f), c2)" by blast
  from emit_functions_at [OF e] g obtain F where
    F: "fs_func (comp_functions c ! g) = Some F" "blocks_at E (comp_functions c ! g) F (f_functions f ! g) (f_code f)"
    and len: "length (f_functions f) = length (comp_functions c)" by blast
  from k F(1) have k': "k < length (fn_blocks F)" by (simp add: ir_blocks_def)
  with F(2) obtain p ins d1 d2 where p: "block_instrs E (comp_functions c ! g) (fn_blocks F ! k) d1 = Ret (ins, d2)"
    "labels (f_functions f ! g) ! k = of_nat p" "p \<le> length (f_code f)" "code_at (f_code f) p ins"
    unfolding blocks_at_def by blast
  let ?h = "length (put_header f)" and ?vf = "relocate (length (put_header f)) (f_functions f ! g)"
  have vf: "func_at V g = Ret ?vf"
    using V g len by (simp add: runs_file_def loaded_of_def func_at_def)
  have kl: "k < length (labels (f_functions f ! g))" using F(2) k' by (simp add: blocks_at_def)
  have "length (bytes V) = ?h + length (f_code f) + length debug"
    using V by (simp add: runs_file_def put_file_def)
  moreover have "length (bytes V) < 2 ^ 64" using V unfolding runs_file_def by blast
  ultimately have "?h + p < 2 ^ 64" using p(3) by linarith
  then have t: "unat (labels ?vf ! k) = ?h + p"
    using kl p(2) by (simp add: relocate_def unat_of_size add.commute flip: of_nat_add)
  from p(4) obtain rest where "drop p (f_code f) = put_instrs ins @ rest" by (auto simp: code_at_iff)
  then have "drop (?h + p) (bytes V) = put_instrs ins @ rest @ drop (p - length (f_code f)) debug"
    using V by (simp add: runs_file_def put_file_def)
  then have "code_at (bytes V) (?h + p) ins" by (auto simp: code_at_iff)
  with p(1) F(1) t have "block_at E c g k (bytes V) (unat (labels ?vf ! k))"
    unfolding block_at_def ir_blocks_def by auto
  with vf kl show ?thesis by (auto simp: relocate_def)
qed

lemma emitted_branch:
  assumes "emit_file E c = Ret f" "runs_file V f debug" "g < length (comp_functions c)" "k < length (ir_blocks c g)"
    and m: "frames m = fr # fs" "fr_func fr = g"
  shows "\<exists>pc. branch V k m = Ret (m\<lparr>frames := fr\<lparr>fr_pc := pc\<rparr> # fs\<rparr>) \<and> block_at E c g k (bytes V) pc"
proof -
  from emitted_block [OF assms(1-4)] obtain vf where vf: "func_at V g = Ret vf" "k < length (labels vf)"
    "block_at E c g k (bytes V) (unat (labels vf ! k))" by blast
  then show ?thesis using m by (auto simp: branch_def cur_def set_cur_def)
qed

lemma emitted_jump_step:
  assumes "emit_file E c = Ret f" "runs_file V f debug" "g < length (comp_functions c)" "k < length (ir_blocks c g)"
    and k: "k < 2 ^ 64" and m: "frames m = fr # fs" "fr_func fr = g"
    and at: "code_at (bytes V) (fr_pc fr) [(OJump, [OpU (of_nat k)])]"
  shows "\<exists>pc. step V R m = Ret (m\<lparr>frames := fr\<lparr>fr_pc := pc\<rparr> # fs\<rparr>) \<and> block_at E c g k (bytes V) pc"
proof -
  let ?p = "fr_pc fr + length (uleb_put (op_code OJump))"
  let ?m = "m\<lparr>frames := fr\<lparr>fr_pc := ?p\<rparr> # fs\<rparr>"
  from at obtain rest where d: "drop (fr_pc fr) (bytes V) = uleb_put (op_code OJump) @ uleb_put (of_nat k) @ rest"
    by (auto simp: code_at_iff put_instr_def)
  have fe: "fetch V ?m = Ret (of_nat k, m\<lparr>frames := fr\<lparr>fr_pc := ?p + length (uleb_put (of_nat k))\<rparr> # fs\<rparr>)"
    using fetch_at [of ?m "fr\<lparr>fr_pc := ?p\<rparr>" fs V "of_nat k" rest] drop_step [OF d] by simp
  from emitted_branch [OF assms(1-4), of "m\<lparr>frames := fr\<lparr>fr_pc := ?p + length (uleb_put (of_nat k))\<rparr> # fs\<rparr>"]
  show ?thesis using step_at [OF m(1) at] fe k m(2)
    by (simp add: i_jump_def fetch_nat_def unat_of_size)
qed

subsection \<open>Emission returns\<close>

text \<open>A result, with a compilation of the same names. The fuel has to do for the types that are used.\<close>

definition emits :: "compilation \<Rightarrow> ('a \<times> compilation) outcome \<Rightarrow> bool" where
  "emits c m = (\<exists>x c'. m = Ret (x, c') \<and> same_names c c')"

definition fuel_ok :: "emit_env \<Rightarrow> compilation \<Rightarrow> ir_type \<Rightarrow> bool" where
  "fuel_ok E c t = (\<forall>c'. same_names c c' \<longrightarrow> (\<exists>r. ir_type_id (alias_fuel E) (settle c t) c' = Ret r))"

named_theorems emits_intros

lemma emits_Ret [emits_intros]: "same_names c c' \<Longrightarrow> emits c (Ret (x, c'))"
  by (simp add: emits_def)

lemma emits_id [emits_intros]: "o' \<noteq> None \<Longrightarrow> (\<And>i. emits c (k i)) \<Longrightarrow> emits c (with_id o' k)"
  by (auto simp: with_id_def)

lemma emits_reg [emits_intros]: "get_register_id F x \<noteq> None \<Longrightarrow> (\<And>i. emits c (k i)) \<Longrightarrow> emits c (with_reg F x k)"
  unfolding with_reg_def by (rule emits_id)

lemma emits_label [emits_intros]: "get_label_id F x \<noteq> None \<Longrightarrow> (\<And>i. emits c (k i)) \<Longrightarrow> emits c (with_label F x k)"
  unfolding with_label_def by (rule emits_id)

lemma emits_type [emits_intros]:
  assumes "fuel_ok E c t" "same_names c c1" "\<And>i c2. same_names c c2 \<Longrightarrow> emits c (k i c2)"
  shows "emits c (with_type E t c1 k)"
proof -
  obtain i c2 where r: "ir_type_id (alias_fuel E) (settle c t) c1 = Ret (i, c2)"
    using assms(1,2) unfolding fuel_ok_def by (metis surj_pair)
  then have "same_names c c2" using assms(2) by (blast dest: ir_type_id_same intro: same_names_trans)
  from assms(3) [OF this] r show ?thesis by (simp add: with_type_def settle_same [OF assms(2)])
qed

lemma emits_args [emits_intros]:
  "list_all (declared c F) (arg_uses as) \<Longrightarrow> (\<And>is. emits c (k is)) \<Longrightarrow> emits c (with_args F as k)"
proof (induction as arbitrary: k)
  case (Cons a as)
  then show ?case by (auto simp: arg_uses_def intro!: emits_intros)
qed simp

text \<open>The types of a statement.\<close>

definition use_types :: "name_use list \<Rightarrow> ir_type list" where
  "use_types us = concat (map (\<lambda>u. case u of UType t \<Rightarrow> [t] | UClass x \<Rightarrow> [class_node x] | _ \<Rightarrow> []) us)"

lemma use_types_simps [simp]:
  "use_types [] = []" "use_types (UType t # us) = t # use_types us" "use_types (UClass x # us) = class_node x # use_types us"
  "use_types (UReg r # us) = use_types us" "use_types (UField r # us) = use_types us"
  "use_types (UMethod r # us) = use_types us" "use_types (UFunc r # us) = use_types us"
  "use_types (USymbol r # us) = use_types us" "use_types (ULabel r # us) = use_types us"
  "use_types (xs @ ys) = use_types xs @ use_types ys" "use_types (arg_uses as) = []"
  by (simp_all add: use_types_def arg_uses_def)

lemma emit_stmt_total:
  assumes "list_all (declared c F) (stmt_uses s)" "list_all (fuel_ok E c) (use_types (stmt_uses s))"
    and "\<And>d f. s = SMemoSlot d f \<Longrightarrow> memo_slot E f \<noteq> None"
  shows "emits c (emit_stmt E F s c)"
  using assms by (cases s) (auto simp: Let_def intro!: emits_intros keeps_intros simp: same_names_lookups)

end
