(* ===== verification/EmitTotal.thy ===== *)
theory EmitTotal
  imports EmitLemmas
begin

text \<open>
  From the passes to the emitter: what \<open>assign_ids\<close> and \<open>validate_ids\<close> establish is what the
  emitter needs to find a number for every name. \<open>funcs_inv\<close> is the invariant of the function
  table: distinct names, and every function in it comes from the program.
\<close>

subsection \<open>Blocks and functions\<close>

definition block_types :: "block \<Rightarrow> ir_type list" where
  "block_types b = concat (map (use_types \<circ> stmt_uses) (blk_body b))"

definition func_types :: "ir_func \<Rightarrow> ir_type list" where
  "func_types f = map snd (fn_params f) @ [fn_type f] @ map snd (fn_vars f) @ concat (map block_types (fn_blocks f))"

definition block_slots :: "block \<Rightarrow> string list" where
  "block_slots b = List.map_filter (\<lambda>s. case s of SMemoSlot d f \<Rightarrow> Some f | _ \<Rightarrow> None) (blk_body b)"

lemma emits_obind: "emits c m \<Longrightarrow> (\<And>x c1. same_names c c1 \<Longrightarrow> emits c (k x c1)) \<Longrightarrow> emits c (obind m (\<lambda>(x, c1). k x c1))"
  by (auto simp: emits_def)

lemma emits_case_prod: "(\<And>x y. emits c (f x y)) \<Longrightarrow> emits c (case p of (x, y) \<Rightarrow> f x y)"
  by (cases p) simp

lemma emits_case_prod_app: "(\<And>x y. emits c (f x y c1)) \<Longrightarrow> emits c ((case p of (x, y) \<Rightarrow> f x y) c1)"
  by (cases p) simp

lemma emits_weaken: "emits c1 m \<Longrightarrow> same_names c c1 \<Longrightarrow> emits c m"
  by (auto simp: emits_def intro: same_names_trans)

lemma emits_map_state:
  assumes "same_names c c1" "\<And>x c2. x \<in> set xs \<Longrightarrow> same_names c c2 \<Longrightarrow> emits c (f x c2)"
  shows "emits c (map_state f xs c1)"
  using assms
proof (induction xs arbitrary: c1)
  case (Cons x xs)
  show ?case unfolding map_state.simps
    by (intro emits_obind Cons.IH emits_Ret Cons.prems) auto
qed (simp add: emits_Ret)

lemma declared_same: "same_names c c' \<Longrightarrow> declared c' F = declared c F"
proof
  fix u assume s: "same_names c c'"
  have t: "type_declared c' t = type_declared c t" for t
  proof (induction t)
    case (Node l ts)
    then show ?case by (simp add: same_names_lookups [OF s] list_all_iff cong: ir_label.case_cong)
  qed
  show "declared c' F u = declared c F u" by (cases u) (simp_all add: same_names_lookups [OF s] t)
qed

lemma fuel_ok_same: "same_names c c' \<Longrightarrow> fuel_ok E c t \<Longrightarrow> fuel_ok E c' t"
  unfolding fuel_ok_def by (metis same_names_trans settle_same)

lemma emits_stmt_at:
  assumes "list_all (declared c F) (stmt_uses s)" "list_all (fuel_ok E c) (use_types (stmt_uses s))"
    "\<And>d f. s = SMemoSlot d f \<Longrightarrow> memo_slot E f \<noteq> None" and c1: "same_names c c1"
  shows "emits c (emit_stmt E F s c1)"
proof (rule emits_weaken [OF emit_stmt_total c1])
  show "list_all (declared c1 F) (stmt_uses s)" using assms(1) declared_same [OF c1] by simp
  show "list_all (fuel_ok E c1) (use_types (stmt_uses s))" using assms(2) fuel_ok_same [OF c1] by (auto simp: list_all_iff)
qed (rule assms(3))

lemma emits_term_at:
  assumes "list_all (declared c F) (term_uses t)" "same_names c c1"
  shows "emits c (emit_term F t c1)"
  using assms(1) by (cases t) (auto intro!: emits_intros assms(2) simp: same_names_lookups [OF assms(2)])

lemma memo_slot_present: "f \<in> set (memo_funcs E) \<Longrightarrow> memo_slot E f \<noteq> None"
proof -
  assume "f \<in> set (memo_funcs E)"
  then have "f \<in> fst ` set (rev (zip (memo_funcs E) [0..<length (memo_funcs E)]))"
    by (simp flip: set_map)
  then show ?thesis by (simp add: memo_slot_def map_of_eq_None_iff del: set_rev)
qed

definition emittable :: "emit_env \<Rightarrow> compilation \<Rightarrow> ir_func \<Rightarrow> bool" where
  "emittable E c f = (list_all (fuel_ok E c) (func_types f)
     \<and> list_all (\<lambda>s. s \<in> set (memo_funcs E)) (concat (map block_slots (fn_blocks f))))"

lemma emits_block:
  assumes b: "block_ok c F b" and t: "list_all (fuel_ok E c) (block_types b)"
    and m: "list_all (\<lambda>s. s \<in> set (memo_funcs E)) (block_slots b)" and c1: "same_names c c1"
  shows "emits c (block_instrs E F b c1)"
  unfolding block_instrs_def
proof (intro emits_obind emits_map_state c1 emits_Ret)
  fix s c2 assume s: "s \<in> set (blk_body b)" "same_names c c2"
  show "emits c (emit_stmt E F s c2)"
  proof (rule emits_stmt_at [OF _ _ _ s(2)])
    show "list_all (declared c F) (stmt_uses s)" using b s(1) by (simp add: block_ok_def list_all_iff)
    show "list_all (fuel_ok E c) (use_types (stmt_uses s))" using t s(1) by (auto simp: block_types_def list_all_iff)
    fix d f assume "s = SMemoSlot d f"
    with m s(1) have "f \<in> set (memo_funcs E)" by (force simp: block_slots_def list_all_iff List.map_filter_def)
    then show "memo_slot E f \<noteq> None" by (rule memo_slot_present)
  qed
next
  fix iss c2 assume "same_names c c2"
  then show "emits c (emit_term F (blk_term b) c2)" using b by (intro emits_term_at) (simp_all add: block_ok_def)
qed

lemma emits_blocks:
  assumes "list_all (block_ok c F) bs" "list_all (fuel_ok E c) (concat (map block_types bs))"
    "list_all (\<lambda>s. s \<in> set (memo_funcs E)) (concat (map block_slots bs))" "same_names c c1"
  shows "emits c (emit_blocks E F bs code c1)"
  using assms
proof (induction bs arbitrary: code c1)
  case (Cons b bs)
  show ?case unfolding emit_blocks.simps
    by (intro emits_obind emits_block emits_case_prod_app emits_Ret Cons.IH) (use Cons.prems in simp_all)
qed (simp add: emits_Ret)

lemma emits_type_id: "fuel_ok E c t \<Longrightarrow> same_names c c1 \<Longrightarrow> emits c (emit_type_id E t c1)"
  unfolding emit_type_id_def by (intro emits_intros)

lemma emits_function:
  assumes "fs_func F = Some f" "list_all (block_ok c F) (fn_blocks f)" "emittable E c f" "same_names c c1"
  shows "emits c (emit_function E k F code c1)"
proof -
  have "list_all (fuel_ok E c) (concat (map block_types (fn_blocks f)))" "fuel_ok E c (fn_type f)"
    "\<And>t. t \<in> set (map snd (fn_params f)) \<Longrightarrow> fuel_ok E c t" "\<And>t. t \<in> set (map snd (fn_vars f)) \<Longrightarrow> fuel_ok E c t"
    "list_all (\<lambda>s. s \<in> set (memo_funcs E)) (concat (map block_slots (fn_blocks f)))"
    using assms(3) by (auto simp: emittable_def func_types_def list_all_iff)
  note h = this
  show ?thesis unfolding emit_function_def assms(1) option.case
    by (intro emits_obind emits_map_state emits_type_id emits_blocks emits_case_prod_app emits_Ret assms(2,4) h)
qed

lemma emits_functions:
  assumes "\<forall>F \<in> set Fs. \<exists>f. fs_func F = Some f \<and> list_all (block_ok c F) (fn_blocks f) \<and> emittable E c f" "same_names c c1"
  shows "emits c (emit_functions E k Fs code c1)"
  using assms
proof (induction Fs arbitrary: k code c1)
  case (Cons F Fs)
  then obtain f where f: "fs_func F = Some f" "list_all (block_ok c F) (fn_blocks f)" "emittable E c f" by auto
  show ?case unfolding emit_functions.simps
    by (intro emits_obind emits_function [OF f] emits_case_prod_app emits_Ret Cons.IH) (use Cons.prems in simp_all)
qed (simp add: emits_Ret)

subsection \<open>The function table\<close>

definition func_entry :: "ir_program \<Rightarrow> nat \<Rightarrow> func_state \<Rightarrow> bool" where
  "func_entry ts i F = (case fs_func F of None \<Rightarrow> i = MainFunctionId
     | Some f \<Rightarrow> fs_name F = fn_name f \<and> TopFunc f \<in> set ts)"

definition funcs_inv :: "ir_program \<Rightarrow> compilation \<Rightarrow> bool" where
  "funcs_inv ts c = (comp_functions c \<noteq> [] \<and> distinct (map fs_name (comp_functions c))
     \<and> (\<forall>i < length (comp_functions c). func_entry ts i (comp_functions c ! i)))"

lemma funcs_inv_new: "funcs_inv ts new_compilation"
  by (simp add: funcs_inv_def func_entry_def new_compilation_def blank_function_def MainFunctionId_def)

lemma funcs_inv_cong: "comp_functions c' = comp_functions c \<Longrightarrow> funcs_inv ts c' = funcs_inv ts c"
  by (simp add: funcs_inv_def)

lemma func_entry_simps [simp]:
  "fs_func F = Some f \<Longrightarrow> func_entry ts i F \<longleftrightarrow> fs_name F = fn_name f \<and> TopFunc f \<in> set ts"
  by (simp add: func_entry_def)

definition same_func :: "func_state \<Rightarrow> func_state \<Rightarrow> bool" where
  "same_func F G = (fs_name G = fs_name F \<and> fs_func G = fs_func F \<and> fs_params G = fs_params F)"

lemma same_func_refl [simp]: "same_func F F"
  by (simp add: same_func_def)

lemma same_func_trans: "same_func F G \<Longrightarrow> same_func G H \<Longrightarrow> same_func F H"
  by (simp add: same_func_def)

lemma func_entry_same: "same_func F G \<Longrightarrow> func_entry ts i F \<Longrightarrow> func_entry ts i G"
  by (cases "fs_func F") (simp_all add: func_entry_def same_func_def)

lemma add_same [simp]: "same_func F (snd (add_register x F))" "same_func F (snd (add_label x F))"
  by (simp_all add: same_func_def add_register_def add_label_def)

lemma add_all_same: "(\<And>x F. same_func F (snd (add x F))) \<Longrightarrow> same_func F (snd (add_all add xs F))"
proof (induction xs arbitrary: F)
  case (Cons x xs)
  show ?case
  proof (cases "add x F")
    case (Pair okay G)
    with Cons.prems [of F x] have "same_func F G" by simp
    with Cons.IH [of G] Cons.prems Pair show ?thesis by (auto intro: same_func_trans)
  qed
qed simp

lemma fold_same: "(\<And>x F. same_func F (g x F)) \<Longrightarrow> same_func F (fold g xs F)"
  by (induction xs arbitrary: F) (auto intro: same_func_trans)

lemma update_func_inv:
  assumes "funcs_inv ts c" "same_func (comp_functions c ! i) F"
  shows "funcs_inv ts (update_func i F c)"
proof (cases "i < length (comp_functions c)")
  case True
  have n: "map fs_name ((comp_functions c)[i := F]) = map fs_name (comp_functions c)"
    using True assms(2) by (metis list_update_id map_update same_func_def nth_map length_map)
  have e: "func_entry ts i F" using assms True func_entry_same by (simp add: funcs_inv_def)
  show ?thesis using assms True e unfolding funcs_inv_def update_func_def by (auto simp: n nth_list_update)
next
  case False
  then have "update_func i F c = c" by (cases c) (simp add: update_func_def linorder_not_less list_update_beyond)
  with assms show ?thesis by simp
qed

lemma add_func_inv:
  assumes inv: "funcs_inv ts c" and f: "TopFunc f \<in> set ts" and fresh: "get_func_id c (fn_name f) = None"
    and r: "add_func f c = (i, c')"
  shows "funcs_inv ts c' \<and> i < length (comp_functions c') \<and> comp_error c' = comp_error c"
proof (cases "func_index c (fn_name f)")
  case None
  then have "fn_name f \<notin> set (map fs_name (comp_functions c))" by (simp add: func_index_def)
  with None inv r f show ?thesis
    by (auto simp: add_func_def Let_def update_func_def blank_function_def funcs_inv_def nth_append less_Suc_eq)
next
  case (Some j)
  then have j: "j < length (comp_functions c)" "fs_name (comp_functions c ! j) = fn_name f"
    unfolding func_index_def by (auto dest: find_id_SomeD)
  have "fs_func (comp_functions c ! j) = None" using fresh Some by (auto simp: get_func_id_def split: if_splits)
  have n: "map fs_name ((comp_functions c)[j := (comp_functions c ! j)\<lparr>fs_func := Some f, fs_name := fn_name f, fs_params := length (fn_params f)\<rparr>])
      = map fs_name (comp_functions c)"
    using j by (auto intro!: nth_equalityI simp: nth_list_update)
  have c': "i = j" "c' = c\<lparr>comp_functions := (comp_functions c)[j := (comp_functions c ! j)\<lparr>fs_func := Some f, fs_name := fn_name f, fs_params := length (fn_params f)\<rparr>]\<rparr>"
    using r Some j by (auto simp: add_func_def Let_def update_func_def)
  show ?thesis using inv f j unfolding c' funcs_inv_def by (auto simp: n nth_list_update)
qed

lemma update_func_error [simp]: "comp_error (update_func i F c) = comp_error c"
  by (simp add: update_func_def)

lemma flag_error_simps [simp]: "comp_functions (flag_error c) = comp_functions c" "comp_error (flag_error c)"
  by (simp_all add: flag_error_def)

lemma add_func_error: "add_func f c = (i, c') \<Longrightarrow> comp_error c' = comp_error c"
  by (auto simp: add_func_def Let_def split: option.splits prod.splits)

lemma declare_func_error:
  assumes "declare_func f c = Ret (b, c')"
  shows "(comp_error c \<longrightarrow> comp_error c') \<and> (\<not> b \<longrightarrow> comp_error c')"
proof -
  obtain i c1 where a: "add_func f c = (i, c1)" by (cases "add_func f c")
  obtain b1 s1 where s1: "add_all add_register (map fst (fn_params f)) (comp_functions c1 ! i) = (b1, s1)" by fastforce
  obtain b3 s3 where s3: "add_all add_label (map blk_name (fn_blocks f)) (fold (\<lambda>v s. snd (add_register v s)) (map fst (fn_vars f)) s1) = (b3, s3)"
    by fastforce
  from assms a s1 s3 add_func_error [OF a] show ?thesis
    by (auto simp: declare_func_def reject_def accept_def Let_def split: if_splits)
qed

lemma declare_func_inv:
  assumes inv: "funcs_inv ts c" and f: "TopFunc f \<in> set ts" and r: "declare_func f c = Ret (b, c')"
  shows "funcs_inv ts c'"
proof (cases "get_func_id c (fn_name f)")
  case (Some i)
  with r inv show ?thesis by (auto simp: declare_func_def reject_def funcs_inv_cong [of "flag_error c" c])
next
  case None
  obtain i c1 where a: "add_func f c = (i, c1)" by (cases "add_func f c")
  note 1 = add_func_inv [OF inv f None a]
  obtain b1 s1 where s1: "add_all add_register (map fst (fn_params f)) (comp_functions c1 ! i) = (b1, s1)" by fastforce
  define s2 where "s2 = fold (\<lambda>v s. snd (add_register v s)) (map fst (fn_vars f)) s1"
  obtain b3 s3 where s3: "add_all add_label (map blk_name (fn_blocks f)) s2 = (b3, s3)" by fastforce
  have same1: "same_func (comp_functions c1 ! i) s1" using add_all_same [of add_register] s1 by (metis add_same(1) snd_conv)
  have "same_func s1 s2" unfolding s2_def by (rule fold_same) simp
  moreover have "same_func s2 s3" using add_all_same [of add_label] s3 by (metis add_same(2) snd_conv)
  ultimately have same3: "same_func (comp_functions c1 ! i) s3" using same1 by (blast intro: same_func_trans)
  have u: "funcs_inv ts (update_func i s1 c1)" "funcs_inv ts (update_func i s3 c1)"
    using 1 same1 same3 by (blast intro: update_func_inv)+
  have fi: "funcs_inv ts (flag_error d) = funcs_inv ts d" for d by (rule funcs_inv_cong) simp
  from r None a 1 u show ?thesis
    by (auto simp: declare_func_def reject_def accept_def Let_def s1 s3 s2_def [symmetric] fi split: if_splits)
qed

text \<open>The passes accept the table's invariant, and errors stay.\<close>

definition step_ok :: "ir_program \<Rightarrow> compilation \<Rightarrow> compilation \<Rightarrow> bool" where
  "step_ok ts c c' = ((funcs_inv ts c \<longrightarrow> funcs_inv ts c') \<and> (comp_error c \<longrightarrow> comp_error c'))"

lemma step_ok_refl [simp]: "step_ok ts c c"
  by (simp add: step_ok_def)

lemma step_ok_trans: "step_ok ts a b \<Longrightarrow> step_ok ts b c \<Longrightarrow> step_ok ts a c"
  by (simp add: step_ok_def)

lemma step_ok_same_funcs:
  "comp_functions c' = comp_functions c \<Longrightarrow> (comp_error c \<Longrightarrow> comp_error c') \<Longrightarrow> step_ok ts c c'"
  using funcs_inv_cong [of c' c] by (simp add: step_ok_def)

lemma step_ok_fail [simp]: "step_ok ts c (flag_error c)"
  by (rule step_ok_same_funcs) simp_all

lemma step_ok_update: "same_func (comp_functions c ! i) F \<Longrightarrow> step_ok ts c (update_func i F c)"
  by (auto simp: step_ok_def intro: update_func_inv)

lemma add_lib_funcs [simp]: "comp_functions (add_library l c) = comp_functions c" "comp_error (add_library l c) = comp_error c"
  by (simp_all add: add_library_def intern_def Let_def)

lemma declare_top_ok:
  assumes "t \<in> set ts" "declare_top t c = Ret (b, c')"
  shows "step_ok ts c c' \<and> (\<not> b \<longrightarrow> comp_error c')"
proof (cases t)
  case (TopPrimitive u ms)
  with assms(2) show ?thesis
    by (auto simp: declare_top_def declare_primitive_def accept_def reject_def intro!: step_ok_same_funcs
        split: ir_label.splits if_splits)
next
  case (TopClass cl)
  with assms(2) show ?thesis
    by (auto simp: declare_top_def declare_class_def add_class_def accept_def reject_def intro!: step_ok_same_funcs split: if_splits)
next
  case (TopType x u)
  with assms(2) show ?thesis
    by (auto simp: declare_top_def declare_type_def add_typealias_def accept_def reject_def intro!: step_ok_same_funcs split: if_splits)
next
  case (TopFunc f)
  with assms declare_func_inv [of ts c f b c'] show ?thesis
    using declare_func_error [of f c b c'] by (auto simp: declare_top_def step_ok_def)
qed (use assms(2) in \<open>auto simp: declare_top_def accept_def intro!: step_ok_same_funcs\<close>)

lemma declare_tops_ok:
  assumes "set us \<subseteq> set ts" "declare_tops us c = Ret (kept, c')"
  shows "step_ok ts c c' \<and> (kept = us \<or> comp_error c')"
  using assms
proof (induction us arbitrary: c kept)
  case (Cons u us)
  then obtain b c1 kept' where h: "declare_top u c = Ret (b, c1)" "declare_tops us c1 = Ret (kept', c')"
    "kept = (if b then u # kept' else kept')" by (auto simp: outcome_simps)
  from declare_top_ok [OF _ h(1), of ts] Cons.IH [OF _ h(2)] Cons.prems(1) h(3)
  show ?case by (auto simp: step_ok_def)
qed simp

lemma fold_out_rel:
  assumes "\<And>s. R s s" "\<And>a b c. R a b \<Longrightarrow> R b c \<Longrightarrow> R a c" "\<And>x s s'. f x s = Ret s' \<Longrightarrow> R s s'" "fold_out f xs s = Ret s'"
  shows "R s s'"
  using assms(4)
proof (induction xs arbitrary: s)
  case (Cons x xs)
  then obtain s1 where "f x s = Ret s1" "fold_out f xs s1 = Ret s'" by (auto simp: outcome_simps)
  with assms(2,3) Cons.IH show ?case by blast
qed (simp add: assms(1))

lemma fold_out_ok: "(\<And>x s s'. f x s = Ret s' \<Longrightarrow> step_ok ts s s') \<Longrightarrow> fold_out f xs s = Ret s' \<Longrightarrow> step_ok ts s s'"
  by (rule fold_out_rel [OF step_ok_refl step_ok_trans])

lemma fold_ok: "(\<And>x s. step_ok ts s (f x s)) \<Longrightarrow> step_ok ts s (fold f xs s)"
  by (induction xs arbitrary: s) (auto intro: step_ok_trans)

lemma declare_symbol_ok: "declare_symbol n A lp s c = Ret c' \<Longrightarrow> step_ok ts c c'"
  by (auto simp: declare_symbol_def add_symbol_def intern_def outcome_simps intro!: step_ok_same_funcs
      split: option.splits if_splits)

lemma declare_method_ok: "step_ok ts c (declare_method m c)"
  by (cases m) (auto simp: declare_method_def add_method_def Let_def intro!: step_ok_same_funcs)

lemma add_field_ok: "step_ok ts c (add_field f c)"
  by (rule step_ok_same_funcs) (simp_all add: add_field_def)

lemma declare_body_ok: "declare_body f c = Ret c' \<Longrightarrow> step_ok ts c c'"
  unfolding declare_body_def by (auto split: option.splits intro!: step_ok_update fold_same)

lemma declare_inside_ok:
  assumes "declare_inside n A t c = Ret c'"
  shows "step_ok ts c c'"
proof (cases t)
  case (TopLib l)
  with assms show ?thesis by (auto simp: declare_inside_def intro: fold_out_ok declare_symbol_ok)
next
  case (TopPrimitive u ms)
  with assms show ?thesis by (auto simp: declare_inside_def intro!: fold_ok declare_method_ok)
next
  case (TopClass cl)
  with assms have c': "c' = fold declare_method (icls_methods cl) (fold add_field (map fst (icls_fields cl)) c)"
    by (simp add: declare_inside_def)
  show ?thesis unfolding c' by (rule step_ok_trans; rule fold_ok; rule declare_method_ok add_field_ok)
qed (use assms declare_body_ok in \<open>auto simp: declare_inside_def\<close>)

lemma block_edges_same: "same_func F (block_edges b F)"
  by (auto simp: block_edges_def add_edge_def Let_def same_func_def split: option.splits intro!: fold_same [unfolded same_func_def])

lemma func_edges_ok: "func_edges f c = Ret c' \<Longrightarrow> step_ok ts c c'"
  unfolding func_edges_def by (auto split: option.splits intro!: step_ok_update fold_same block_edges_same)

lemma top_edges_ok: "top_edges t c = Ret c' \<Longrightarrow> step_ok ts c c'"
  by (cases t) (auto simp: top_edges_def dest: func_edges_ok)

lemma type_id_ok: "ir_type_id n t c = Ret (i, c') \<Longrightarrow> step_ok ts c c'"
proof -
  assume "ir_type_id n t c = Ret (i, c')"
  then have "grows c c'" by (rule ir_type_id_grows)
  then have "comp_functions c' = comp_functions c \<and> comp_error c' = comp_error c"
    by (cases c; cases c') (auto simp: grows_def)
  then show ?thesis by (intro step_ok_same_funcs) simp_all
qed

lemma reserve_ok:
  "fold_out (\<lambda>t c. obind (ir_type_id 3 t c) (\<lambda>(_, c). Ret c)) us c = Ret c' \<Longrightarrow> step_ok ts c c'"
  by (rule fold_out_ok) (auto simp: outcome_simps intro: type_id_ok)

text \<open>The epilogue adds no function.\<close>

definition same_defs :: "compilation \<Rightarrow> compilation \<Rightarrow> bool" where
  "same_defs c c' = (map fs_func (comp_functions c') = map fs_func (comp_functions c))"

lemma update_same_defs: "same_func (comp_functions c ! i) F \<Longrightarrow> same_defs c (update_func i F c)"
  by (cases "i < length (comp_functions c)")
    (auto simp: same_defs_def update_func_def same_func_def list_update_beyond linorder_not_less
      intro!: nth_equalityI simp: nth_list_update)

lemma same_defs_refl [simp]: "same_defs c c"
  by (simp add: same_defs_def)

lemma top_edges_defs: "top_edges t c = Ret c' \<Longrightarrow> same_defs c c'"
  by (cases t) (auto simp: top_edges_def func_edges_def split: option.splits
      intro!: update_same_defs fold_same block_edges_same)

lemma reserve_defs: "obind (ir_type_id 3 t c) (\<lambda>(_, c). Ret c) = Ret c' \<Longrightarrow> same_defs c c'"
  by (auto simp: outcome_simps same_defs_def dest!: ir_type_id_same same_namesD(5))

lemma same_defs_rel: "same_defs c c" "same_defs a b \<Longrightarrow> same_defs b d \<Longrightarrow> same_defs a d"
  by (simp_all add: same_defs_def)

lemma main_present:
  assumes "funcs_inv ts c" "\<not> comp_error c" "fs_func (comp_functions c ! MainFunctionId) = None \<longrightarrow> comp_error c"
  shows "\<forall>F \<in> set (comp_functions c). \<exists>f. fs_func F = Some f \<and> TopFunc f \<in> set ts \<and> get_func c (fn_name f) = Ret F"
proof
  fix F assume "F \<in> set (comp_functions c)"
  then obtain i where i: "i < length (comp_functions c)" "comp_functions c ! i = F" by (auto simp: in_set_conv_nth)
  have e: "func_entry ts i F" using assms(1) i by (auto simp: funcs_inv_def)
  obtain f where f: "fs_func F = Some f" using e assms(2,3) i by (cases "fs_func F") (auto simp: func_entry_def)
  have "find_id (map fs_name (comp_functions c)) (map fs_name (comp_functions c) ! i) = Some i"
    using assms(1) i by (intro find_id_distinct) (simp_all add: funcs_inv_def)
  then have "get_func c (fn_name f) = Ret F" using i e f by (simp add: get_func_def func_index_def)
  with e f show "\<exists>f. fs_func F = Some f \<and> TopFunc f \<in> set ts \<and> get_func c (fn_name f) = Ret F" by simp
qed

text \<open>After the pass, without an error, every function has its state under its name.\<close>

lemma assign_ids_funcs:
  assumes r: "assign_ids n ts = Ret (kept, c)" and e: "\<not> comp_error c"
  shows "kept = ts" "\<forall>F \<in> set (comp_functions c). \<exists>f. fs_func F = Some f \<and> TopFunc f \<in> set ts \<and> get_func c (fn_name f) = Ret F"
proof -
  from r obtain c1 c2 where h: "declare_tops ts new_compilation = Ret (kept, c1)"
    "fold_out (declare_inside n (scope_of kept)) kept c1 = Ret c2" "post_assign kept c2 = Ret c"
    by (auto simp: assign_ids_def outcome_simps)
  note 1 = declare_tops_ok [OF subset_refl h(1)]
  have 2: "step_ok ts c1 c2" by (rule fold_out_ok [OF _ h(2)]) (rule declare_inside_ok)
  define c3 where "c3 = (if fs_func (comp_functions c2 ! MainFunctionId) = None then flag_error c2 else c2)"
  from h(3) obtain c4 where c4: "fold_out top_edges kept c3 = Ret c4"
    "fold_out (\<lambda>t c. obind (ir_type_id 3 t c) (\<lambda>(_, c). Ret c)) reserved_types c4 = Ret c"
    by (auto simp: post_assign_def c3_def outcome_simps)
  have 3: "step_ok ts c2 c3" by (simp add: c3_def)
  have 4: "step_ok ts c3 c4" by (rule fold_out_ok [OF _ c4(1)]) (rule top_edges_ok)
  have 5: "step_ok ts c4 c" by (rule reserve_ok [OF c4(2)])
  have inv: "funcs_inv ts c" using 1 2 3 4 5 funcs_inv_new unfolding step_ok_def by blast
  show "kept = ts" using 1 2 3 4 5 e unfolding step_ok_def by blast
  have "\<not> comp_error c3" using 4 5 e unfolding step_ok_def by blast
  then have m: "fs_func (comp_functions c3 ! MainFunctionId) \<noteq> None" by (auto simp: c3_def split: if_splits)
  have "same_defs c3 c4" by (rule fold_out_rel [OF same_defs_rel top_edges_defs c4(1)])
  moreover have "same_defs c4 c" by (rule fold_out_rel [OF same_defs_rel reserve_defs c4(2)])
  ultimately have d: "map fs_func (comp_functions c) = map fs_func (comp_functions c3)" by (simp add: same_defs_def)
  have "MainFunctionId < length (comp_functions c)" using inv by (simp add: funcs_inv_def MainFunctionId_def)
  then have "fs_func (comp_functions c ! MainFunctionId) \<noteq> None" using m d by (metis length_map nth_map)
  with main_present [OF inv e] show "\<forall>F \<in> set (comp_functions c). \<exists>f. fs_func F = Some f \<and> TopFunc f \<in> set ts \<and> get_func c (fn_name f) = Ret F"
    by blast
qed

subsection \<open>After validation\<close>

text \<open>What validation may change: strings, types, complex primitive slots, and class names in alias
  bodies.\<close>

definition validated_from :: "compilation \<Rightarrow> compilation \<Rightarrow> bool" where
  "validated_from c c' = (map fst (typealiases c') = map fst (typealiases c) \<and> comp_classes c' = comp_classes c
     \<and> field_ids c' = field_ids c \<and> method_ids c' = method_ids c \<and> comp_functions c' = comp_functions c
     \<and> comp_symbols c' = comp_symbols c \<and> (comp_error c \<longrightarrow> comp_error c'))"

lemma validated_from_refl [simp]: "validated_from c c"
  by (simp add: validated_from_def)

lemma validated_from_trans: "validated_from a b \<Longrightarrow> validated_from b c \<Longrightarrow> validated_from a c"
  by (simp add: validated_from_def)

lemma validated_intern: "validated_from c (intern s c)"
  by (simp add: validated_from_def intern_def)

lemma validated_intern_top: "validated_from c (intern_top t c)"
proof -
  have "validated_from c (intern_stmt s c)" for s c by (cases s) (simp_all add: intern_stmt_def validated_intern)
  then have "validated_from c (fold intern_stmt ss c)" for ss c
    by (induction ss arbitrary: c) (auto intro: validated_from_trans)
  then show ?thesis by (cases t) (simp_all add: intern_top_def)
qed

lemma validated_fold: "validated_from c (fold intern_top ts c)"
  by (induction ts arbitrary: c) (auto intro: validated_from_trans validated_intern_top)

lemma validated_primitive: "validate_primitive n t c = Ret c' \<Longrightarrow> validated_from c c'"
proof (cases t)
  case (TopPrimitive u ms)
  assume r: "validate_primitive n t c = Ret c'"
  show ?thesis
  proof (cases "label u \<in> {LArray, LRef, LCown}")
    case True
    with r TopPrimitive obtain i c1 where i: "ir_type_id n (settle c u) c = Ret (i, c1)"
      "c' = (let j = i - first_complex c1; c = c1\<lparr>complex_primitives := resize (Suc j) None (complex_primitives c1)\<rparr> in
           if complex_primitives c ! j \<noteq> None then flag_error c
             else c\<lparr>complex_primitives := (complex_primitives c)[j := Some ms]\<rparr>)"
      unfolding validate_primitive_def by (auto simp: outcome_simps Let_def)
    have "validated_from c c1" using ir_type_id_grows [OF i(1)]
      by (cases c; cases c1) (auto simp: grows_def validated_from_def)
    moreover have "validated_from c1 c'" by (auto simp: i(2) Let_def validated_from_def flag_error_def)
    ultimately show ?thesis by (rule validated_from_trans)
  qed (use r TopPrimitive in \<open>auto simp: validate_primitive_def\<close>)
qed (auto simp: validate_primitive_def)

lemma validate_idsD:
  assumes "validate_ids n ts c = Ret c'" "\<not> comp_error c'"
  shows "validated_from c c'" "list_all (top_ok c) ts"
proof -
  define c1 where "c1 = (if list_all (top_ok c) ts then c else flag_error c)"
  from assms(1) have h: "fold_out (validate_primitive n) ts (fold intern_top ts (settle_aliases c1)) = Ret c'"
    by (simp add: validate_ids_def c1_def Let_def)
  have "validated_from (fold intern_top ts (settle_aliases c1)) c'"
    by (rule fold_out_rel [OF validated_from_refl validated_from_trans validated_primitive h])
  moreover have "validated_from c1 (settle_aliases c1)"
    by (simp add: validated_from_def settle_aliases_def comp_def case_prod_beta)
  ultimately have v: "validated_from c1 c'" using validated_fold validated_from_trans by blast
  show ok: "list_all (top_ok c) ts"
  proof (rule ccontr)
    assume "\<not> list_all (top_ok c) ts"
    then have "comp_error c1" by (simp add: c1_def)
    with v assms(2) show False by (simp add: validated_from_def)
  qed
  from v ok show "validated_from c c'" by (simp add: c1_def)
qed

lemma validated_declared:
  assumes "validated_from c c'"
  shows "declared c' F u = declared c F u"
proof -
  have l: "get_typealias_id c' = get_typealias_id c" "get_class_id c' = get_class_id c"
    "get_field_id c' = get_field_id c" "get_method_id c' = get_method_id c"
    "get_func_id c' = get_func_id c" "get_symbol_id c' = get_symbol_id c"
    using assms by (simp_all add: fun_eq_iff get_typealias_id_def get_class_id_def get_field_id_def get_method_id_def
      func_index_def get_func_id_def get_symbol_id_def validated_from_def cong: option.case_cong)
  have t: "type_declared c' t = type_declared c t" for t
  proof (induction t)
    case (Node l ts)
    then show ?case by (simp add: l list_all_iff cong: ir_label.case_cong)
  qed
  show ?thesis by (cases u) (simp_all add: l t)
qed

lemma validated_arity: "validated_from c c' \<Longrightarrow> arity_ok c' s = arity_ok c s"
  by (cases s) (simp_all add: arity_ok_def call_arity_def ffi_arity_def field_arity_def get_func_def func_index_def
      get_symbol_id_def get_class_id_def validated_from_def cong: option.case_cong)

lemma emitted_functions_at:
  assumes a: "assign_ids n ts = Ret (kept, c)" and v: "validate_ids m kept c = Ret c'" and e: "\<not> comp_error c'"
    and E: "\<forall>f. TopFunc f \<in> set ts \<longrightarrow> emittable E c' f" and c1: "same_names c' c1"
  shows "emits c' (emit_functions E k (comp_functions c') code c1)"
proof -
  note val = validate_idsD [OF v e]
  have ec: "\<not> comp_error c" using val(1) e by (auto simp: validated_from_def)
  note fn = assign_ids_funcs [OF a ec]
  have "\<exists>f. fs_func F = Some f \<and> list_all (block_ok c' F) (fn_blocks f) \<and> emittable E c' f"
    if "F \<in> set (comp_functions c')" for F
  proof -
    have "F \<in> set (comp_functions c)" using that val(1) by (simp add: validated_from_def)
    with fn(2) obtain f where f: "fs_func F = Some f" "TopFunc f \<in> set ts" "get_func c (fn_name f) = Ret F" by blast
    from f(2) fn(1) val(2) have "top_ok c (TopFunc f)" by (auto simp: list_all_iff)
    with f(3) have b: "list_all (block_ok c F) (fn_blocks f)" by (simp add: top_ok_def func_ok_def)
    have "block_ok c F b \<Longrightarrow> block_ok c' F b" for b
      using validated_declared [OF val(1)] validated_arity [OF val(1)] by (auto simp: block_ok_def list_all_iff)
    with b have "list_all (block_ok c' F) (fn_blocks f)" by (auto simp: list_all_iff)
    with f E show ?thesis by blast
  qed
  then show ?thesis using c1 by (intro emits_functions) auto
qed

end
