(* ===== verification/EmitConst.thy ===== *)
theory EmitConst
  imports EmitTotal
begin

text \<open>
  Constants through the whole toolchain: what the interpreter puts into a register at an emitted
  \<open>Const\<close>; and the types reserved at the start of the table, which the loader checks.
\<close>

definition const_val :: "(literal \<Rightarrow> 32 word \<times> 64 word) \<Rightarrow> primitive \<Rightarrow> literal \<Rightarrow> val" where
  "const_val fb t l = (case t of
     PNone \<Rightarrow> NoneV
   | PBool \<Rightarrow> BoolV (lit_kind l = KTrue)
   | PI8 \<Rightarrow> I8V (word_literal True l)
   | PI16 \<Rightarrow> I16V (word_literal True l)
   | PI32 \<Rightarrow> I32V (word_literal True l)
   | PI64 \<Rightarrow> I64V (word_literal True l)
   | PU8 \<Rightarrow> U8V (word_literal False l)
   | PU16 \<Rightarrow> U16V (word_literal False l)
   | PU32 \<Rightarrow> U32V (word_literal False l)
   | PU64 \<Rightarrow> U64V (word_literal False l)
   | PILong \<Rightarrow> ILongV (word_literal True l)
   | PISize \<Rightarrow> ISizeV (word_literal True l)
   | PULong \<Rightarrow> ULongV (word_literal False l)
   | PUSize \<Rightarrow> USizeV (word_literal False l)
   | PF32 \<Rightarrow> F32V (fst (fb l))
   | PF64 \<Rightarrow> F64V (snd (fb l))
   | PPtr \<Rightarrow> InvalidV)"

lemma reserve_frames [simp]: "frames (reserve n m) = frames m" "(reserve n m)\<lparr>frames := x\<rparr> = reserve n (m\<lparr>frames := x\<rparr>)"
  by (simp_all add: reserve_def)

lemma ucast_scast_down:
  "(ucast (scast (w :: 8 word) :: 64 word) :: 8 word) = w" "(ucast (scast (x :: 16 word) :: 64 word) :: 16 word) = x"
  "(ucast (scast (y :: 32 word) :: 64 word) :: 32 word) = y"
  by (rule bit_word_eqI; auto simp: bit_simps)+

lemma ucast_ucast_down:
  "(ucast (ucast (w :: 8 word) :: 64 word) :: 8 word) = w" "(ucast (ucast (x :: 16 word) :: 64 word) :: 16 word) = x"
  "(ucast (ucast (y :: 32 word) :: 64 word) :: 32 word) = y"
  by (rule bit_word_eqI; auto simp: bit_simps)+

text \<open>The next operand of the current frame.\<close>

definition at_pc :: "machine \<Rightarrow> nat \<Rightarrow> machine" where
  "at_pc m pc = set_cur (\<lambda>f. f\<lparr>fr_pc := pc\<rparr>) m"

lemma fetch_pc:
  assumes "frames m \<noteq> []" "uleb_get (bytes V) (fr_pc (hd (frames m))) = Ret (w, pc)"
  shows "fetch V m = Ret (w, at_pc m pc)"
  using assms by (cases "frames m") (simp_all add: fetch_def cur_def at_pc_def)

lemma fetch_signed_pc:
  assumes "frames m \<noteq> []" "sleb_get (bytes V) (fr_pc (hd (frames m))) = Ret (w, pc)"
  shows "fetch_signed V m = Ret (w, at_pc m pc)"
  using assms by (cases "frames m") (simp_all add: fetch_signed_def cur_def at_pc_def)

lemma at_pc_simps [simp]:
  "frames m \<noteq> [] \<Longrightarrow> fr_pc (hd (frames (at_pc m pc))) = pc" "frames (at_pc m pc) = [] \<longleftrightarrow> frames m = []"
  "at_pc (at_pc m pc) pc' = at_pc m pc'" "at_pc (reserve n m) pc = reserve n (at_pc m pc)"
  by (auto simp: at_pc_def set_cur_def split: list.splits)

lemma at_pc_same: "frames m \<noteq> [] \<Longrightarrow> at_pc m (fr_pc (hd (frames m))) = m"
  by (cases "frames m") (auto simp: at_pc_def set_cur_def)

lemma read_const_at:
  assumes m: "frames m \<noteq> []" and r: "reads_back (bytes V) (fr_pc (hd (frames m))) (const_operands fb t l) pc"
    and t: "t \<noteq> PPtr"
  shows "read_const V t m = Ret (const_val fb t l, at_pc m pc)"
proof -
  let ?p = "fr_pc (hd (frames m))"
  have one: "read_operand o' (bytes V) ?p = Ret (operand_word o', pc)" if "const_operands fb t l = [o']" for o'
    using r that by (cases "read_operand o' (bytes V) ?p") auto
  note reads = fetch_pc [OF m, of V] fetch_signed_pc [OF m, of V]
  show ?thesis
  proof (cases "t = PNone")
    case True
    then have "pc = ?p" using r by (simp add: const_operands_def)
    with True show ?thesis by (simp add: read_const_def const_val_def at_pc_same [OF m])
  next
    case False
    with t one reads show ?thesis
      by (cases t) (simp_all add: const_operands_def read_const_def const_val_def read_operand_def
          ucast_scast_down ucast_ucast_down)
  qed
qed

lemma local_at_pc:
  "local_at V i (at_pc m pc) = obind (local_at V i m) (\<lambda>(d, m'). Ret (d, at_pc m' pc))"
  by (cases "frames m"; cases "func_at V (fr_func (hd (frames m)))";
      cases "\<exists>g. func_at V (fr_func (hd (frames m))) = Ret g \<and> i < unat (registers g)")
    (auto simp: local_at_def cur_def at_pc_def set_cur_def reserve_def oassert_def)

lemma local_at_reserve: "local_at V i m = Ret (d, m') \<Longrightarrow> m' = reserve (Suc d) m \<and> frames m \<noteq> []"
  by (cases "frames m") (auto simp: local_at_def cur_def outcome_simps)

lemma reads_back_OpU:
  assumes "reads_back xs p (OpU w # os) q"
  shows "\<exists>p'. uleb_get xs p = Ret (w, p') \<and> reads_back xs p' os q"
  using assms by (cases "uleb_get xs p") (auto simp: read_operand_def)

text \<open>A step at an emitted constant.\<close>

lemma emitted_const_step:
  assumes m: "frames m = fr # fs" and i: "i < 2 ^ 64" and l: "local_at V i m = Ret (d, m')" and t: "t \<noteq> PPtr"
    and at: "code_at (bytes V) (fr_pc fr) ((OConst, OpU (of_nat i) # OpU (of_nat (primitive_code t)) # const_operands fb t l') # ins)"
    and fits: "list_all operand_fits (const_operands fb t l')"
  shows "\<exists>pc. step V R m = assign_immortal V d (const_val fb t l') (at_pc m' pc) \<and> code_at (bytes V) pc ins"
proof -
  let ?os = "OpU (of_nat i) # OpU (of_nat (primitive_code t)) # const_operands fb t l'"
  have "list_all operand_fits ?os" using fits by (simp add: operand_fits_def)
  from instr_decodes [OF at this] obtain p1 p4 where p: "uleb_get (bytes V) (fr_pc fr) = Ret (op_code OConst, p1)"
    "reads_back (bytes V) p1 ?os p4" "code_at (bytes V) p4 ins" by blast
  obtain p2 where p2: "uleb_get (bytes V) p1 = Ret (of_nat i, p2)"
    "reads_back (bytes V) p2 (OpU (of_nat (primitive_code t)) # const_operands fb t l') p4"
    using reads_back_OpU [OF p(2)] by blast
  obtain p3 where p3: "uleb_get (bytes V) p2 = Ret (of_nat (primitive_code t), p3)"
    "reads_back (bytes V) p3 (const_operands fb t l') p4"
    using reads_back_OpU [OF p2(2)] by blast
  have ne: "frames m \<noteq> []" using m by simp
  have m': "m' = reserve (Suc d) m" using local_at_reserve [OF l] by simp
  have f1: "fetch V m = Ret (op_code OConst, at_pc m p1)" using p(1) m by (intro fetch_pc) simp_all
  have f2: "fetch V (at_pc m p1) = Ret (of_nat i, at_pc m p2)"
    using fetch_pc [of "at_pc m p1" V "of_nat i" p2] p2(1) ne by simp
  have l2: "local_at V i (at_pc m p2) = Ret (d, at_pc m' p2)" by (simp add: local_at_pc l)
  have f3: "fetch V (at_pc m' p2) = Ret (of_nat (primitive_code t), at_pc m' p3)"
    using fetch_pc [of "at_pc m' p2" V "of_nat (primitive_code t)" p3] p3(1) ne by (simp add: m')
  have c: "primitive_of (unat (ucast (of_nat (primitive_code t) :: 64 word) :: 8 word)) = Some t"
    by (cases t) (simp_all add: primitive_of_def NumPrimitiveClasses_def primitives_def)
  have k: "read_const V t (at_pc m' p3) = Ret (const_val fb t l', at_pc m' p4)"
    using read_const_at [of "at_pc m' p3" V fb t l' p4] p3(2) t ne by (simp add: m')
  have "step V R m = assign_immortal V d (const_val fb t l') (at_pc m' p4)"
    using i by (simp add: step_def f1 i_const_def with_dst_def local_first_def fetch_nat_def f2 unat_of_size l2
        fetch_prim_def f3 c k)
  with p(3) show ?thesis by blast
qed

subsection \<open>The reserved types\<close>

text \<open>No type is numbered before the epilogue.\<close>

definition no_types :: "compilation \<Rightarrow> bool" where
  "no_types c = (comp_types c = [] \<and> type_info_ids c = Map.empty)"

named_theorems no_types_intros

lemma no_types_cong: "comp_types c' = comp_types c \<Longrightarrow> type_info_ids c' = type_info_ids c \<Longrightarrow> no_types c' = no_types c"
  by (simp add: no_types_def)

lemma no_types_simps [simp]:
  "no_types new_compilation" "no_types (flag_error c) = no_types c" "no_types (intern s c) = no_types c"
  "no_types (update_func i F c) = no_types c" "no_types (add_field x c) = no_types c" "no_types (add_method y c) = no_types c"
  by (simp_all add: no_types_def new_compilation_def flag_error_def intern_def update_func_def add_field_def add_method_def)

lemma declare_top_no_types: "declare_top t c = Ret (b, c') \<Longrightarrow> no_types c \<Longrightarrow> no_types c'"
  by (cases t)
    (auto simp: declare_top_def declare_type_def declare_primitive_def declare_class_def declare_func_def accept_def reject_def
      add_library_def add_typealias_def add_class_def add_func_def Let_def no_types_def intern_def flag_error_def update_func_def
      split: if_splits ir_label.splits option.splits prod.splits)

lemma declare_tops_no_types: "declare_tops ts c = Ret (kept, c') \<Longrightarrow> no_types c \<Longrightarrow> no_types c'"
  by (induction ts arbitrary: c kept) (auto simp: outcome_simps dest!: declare_top_no_types)

lemma fold_out_preserves: "(\<And>x c c'. f x c = Ret c' \<Longrightarrow> P c \<Longrightarrow> P c') \<Longrightarrow> fold_out f xs c = Ret c' \<Longrightarrow> P c \<Longrightarrow> P c'"
  by (induction xs arbitrary: c) (auto simp: outcome_simps)

lemma fold_preserves: "(\<And>x c. P c \<Longrightarrow> P (f x c)) \<Longrightarrow> P c \<Longrightarrow> P (fold f xs c)"
  by (induction xs arbitrary: c) auto

lemma declare_inside_no_types:
  assumes "declare_inside n A t c = Ret c'" "no_types c"
  shows "no_types c'"
proof -
  have s: "no_types c2" if "declare_symbol n A lp s c1 = Ret c2" "no_types c1" for lp s c1 c2
    using that by (auto simp: declare_symbol_def add_symbol_def outcome_simps no_types_def intern_def flag_error_def
        split: option.splits if_splits)
  have m: "no_types (declare_method mf c1)" if "no_types c1" for mf c1
    using that by (cases mf) (simp add: declare_method_def Let_def)
  show ?thesis
  proof (cases t)
    case (TopLib l)
    with assms show ?thesis by (auto simp: declare_inside_def intro: fold_out_preserves [where P = no_types] s)
  next
    case (TopPrimitive u ms)
    with assms show ?thesis by (auto simp: declare_inside_def intro!: fold_preserves [where P = no_types] m)
  next
    case (TopClass cl)
    with assms show ?thesis by (auto simp: declare_inside_def intro!: fold_preserves [where P = no_types] m)
  qed (use assms in \<open>auto simp: declare_inside_def declare_body_def split: option.splits\<close>)
qed

lemma top_edges_no_types: "top_edges t c = Ret c' \<Longrightarrow> no_types c \<Longrightarrow> no_types c'"
  by (auto simp: top_edges_def func_edges_def split: toplevel.splits option.splits)

definition reserved_infos :: "nat \<Rightarrow> type_info list" where
  "reserved_infos m = [\<lparr>ti_kind = KCown, ti_elements = [primitive_code PNone]\<rparr>,
     \<lparr>ti_kind = KArray, ti_elements = [primitive_code PU8]\<rparr>, \<lparr>ti_kind = KArray, ti_elements = [m + 1]\<rparr>,
     \<lparr>ti_kind = KRef, ti_elements = [DynId]\<rparr>, \<lparr>ti_kind = KArray, ti_elements = [primitive_code PUSize]\<rparr>,
     \<lparr>ti_kind = KTuple, ti_elements = [primitive_code PUSize, m + 4, m + 1]\<rparr>]"

lemma ir_type_id_kinds:
  "ir_type_id (Suc n) (Node LArray [t]) c = obind (ir_type_id n t c) (\<lambda>(i, c). Ret (number_info \<lparr>ti_kind = KArray, ti_elements = [i]\<rparr> c))"
  "ir_type_id (Suc n) (Node LCown [t]) c = obind (ir_type_id n t c) (\<lambda>(i, c). Ret (number_info \<lparr>ti_kind = KCown, ti_elements = [i]\<rparr> c))"
  "ir_type_id (Suc n) (Node LRef [t]) c = obind (ir_type_id n t c) (\<lambda>(i, c). Ret (number_info \<lparr>ti_kind = KRef, ti_elements = [i]\<rparr> c))"
  "ir_type_id (Suc n) (Node LTuple ts) c = obind (map_state (ir_type_id n) ts c) (\<lambda>(is, c). Ret (number_info \<lparr>ti_kind = KTuple, ti_elements = is\<rparr> c))"
  by (cases "ir_type_id n t c"; auto simp: ir_type_id_complex complex_kind_def type_elements_def)
    (cases "ir_type_id n t c"; auto simp: ir_type_id_complex complex_kind_def type_elements_def)+

lemma reserve_types:
  assumes "no_types c" "fold_out (\<lambda>t c. obind (ir_type_id 3 t c) (\<lambda>(_, c). Ret c)) reserved_types c = Ret c'"
  shows "comp_types c' = reserved_infos (first_complex c) \<and> comp_classes c' = comp_classes c \<and> types_inv c'"
proof -
  have "types_inv c" using assms(1) by (simp add: no_types_def types_inv_def)
  then have "types_inv c'"
    using assms(2) by (intro fold_out_preserves [where P = types_inv, OF _ assms(2)])
      (auto simp: outcome_simps dest: ir_type_id_numbered)
  with assms show ?thesis
    by (auto simp: no_types_def reserved_types_def numeral_3_eq_3 Let_def ir_type_id_simps ir_type_id_kinds cown_of_def array_of_def ref_of_def prim_type_def dyn_type_def
        ffi_struct_result_type_def complex_kind_def number_info_def type_elements_def reserved_infos_def first_complex_def
        NumPrimitiveClasses_def)
qed

lemma assign_ids_types:
  assumes "assign_ids n ts = Ret (kept, c)"
  shows "comp_types c = reserved_infos (first_complex c) \<and> types_inv c"
proof -
  from assms obtain c1 c2 c3 where h: "declare_tops ts new_compilation = Ret (kept, c1)"
    "fold_out (declare_inside n (scope_of kept)) kept c1 = Ret c2"
    "fold_out top_edges kept (if fs_func (comp_functions c2 ! MainFunctionId) = None then flag_error c2 else c2) = Ret c3"
    "fold_out (\<lambda>t c. obind (ir_type_id 3 t c) (\<lambda>(_, c). Ret c)) reserved_types c3 = Ret c"
    by (auto simp: assign_ids_def post_assign_def outcome_simps)
  have "no_types c1" using declare_tops_no_types [OF h(1)] by simp
  then have "no_types c2" by (intro fold_out_preserves [where P = no_types, OF declare_inside_no_types h(2)])
  then have "no_types c3" by (intro fold_out_preserves [where P = no_types, OF _ h(3)]) (auto intro: top_edges_no_types)
  from reserve_types [OF this h(4)] show ?thesis by (simp add: first_complex_def)
qed

lemma predefined_reserved:
  assumes "first_complex c + length (comp_types c) < 2 ^ 32" "comp_types c = reserved_infos (first_complex c) @ us"
  shows "predefined_ok (of_nat (first_complex c)) (map emit_type (comp_types c))"
  using assms(2) by (simp add: predefined_ok_def reserved_infos_def emit_type_def of_nat_DynId nth_append)

text \<open>An emitted file's types as the loader finds them.\<close>

lemma emitted_types:
  assumes e: "emit_file E c = Ret f" and i: "types_inv c"
  obtains c' ts where "same_names c c'" "comp_types c' = comp_types c @ ts" "types_inv c'"
    "f_complex_types f = map emit_type (comp_types c')" "length (f_classes f) = length (comp_classes c)"
proof -
  from emit_file_functions [OF e] obtain c1 c2 where h: "same_names c c1"
    "emit_functions E 0 (comp_functions c) [] c1 = Ret ((f_functions f, f_code f), c2)"
    "f_complex_types f = map emit_type (comp_types c2)" by blast
  have "same_names c1 c2" by (rule keepsD [OF _ h(2)]) (auto intro!: keeps_intros)
  with h(1) have s: "same_names c c2" by (blast intro: same_names_trans)
  have l: "map_state g xs c3 = Ret (ys, c4) \<Longrightarrow> length ys = length xs" for g :: "nat \<times> ir_class \<Rightarrow> compilation \<Rightarrow> (vclass \<times> compilation) outcome" and xs c3 ys c4
    by (induction xs arbitrary: c3 ys) (auto simp: outcome_simps)
  from e have "length (f_classes f) = length (comp_classes c)"
    by (auto simp: emit_file_def Let_def outcome_simps dest!: l)
  moreover from s i obtain ts where "comp_types c2 = comp_types c @ ts" "types_inv c2" by (auto simp: same_names_def)
  ultimately show thesis using that [OF s] h(3) by blast
qed

text \<open>The type table of a compilation that came from another: longer at its end.\<close>

definition types_grow :: "compilation \<Rightarrow> compilation \<Rightarrow> bool" where
  "types_grow c c' = (comp_classes c' = comp_classes c \<and> (\<exists>ts. comp_types c' = comp_types c @ ts) \<and> (types_inv c \<longrightarrow> types_inv c'))"

lemma types_grow_refl [simp]: "types_grow c c"
  by (simp add: types_grow_def)

lemma types_grow_trans: "types_grow a b \<Longrightarrow> types_grow b c \<Longrightarrow> types_grow a c"
  by (auto simp: types_grow_def)

lemma types_inv_cong:
  "comp_types c' = comp_types c \<Longrightarrow> type_info_ids c' = type_info_ids c \<Longrightarrow> comp_classes c' = comp_classes c \<Longrightarrow>
    types_inv c' = types_inv c"
  by (simp add: types_inv_def known_number_def first_complex_def)

lemma types_grow_same:
  "comp_types c' = comp_types c \<Longrightarrow> type_info_ids c' = type_info_ids c \<Longrightarrow> comp_classes c' = comp_classes c \<Longrightarrow> types_grow c c'"
  by (simp add: types_grow_def types_inv_cong [of c' c])

lemma same_names_types: "same_names c c' \<Longrightarrow> types_grow c c'"
  using same_namesD(2) [of c c'] by (simp add: types_grow_def same_names_def)

lemma types_grow_primitives [simp]:
  "types_grow c (c1\<lparr>complex_primitives := ps\<rparr>) = types_grow c c1" "types_grow c (c1\<lparr>comp_error := e\<rparr>) = types_grow c c1"
  "types_grow c (c1\<lparr>exec_strings := xs\<rparr>) = types_grow c c1"
  by (simp_all add: types_grow_def types_inv_cong [of "c1\<lparr>complex_primitives := ps\<rparr>" c1] types_inv_cong [of "c1\<lparr>comp_error := e\<rparr>" c1]
      types_inv_cong [of "c1\<lparr>exec_strings := xs\<rparr>" c1])

lemma fold_out_types: "(\<And>x c c'. f x c = Ret c' \<Longrightarrow> types_grow c c') \<Longrightarrow> fold_out f xs c = Ret c' \<Longrightarrow> types_grow c c'"
  by (induction xs arbitrary: c) (auto simp: outcome_simps, blast intro: types_grow_trans)

lemma intern_tops_types: "types_grow c (fold intern_top ts c)"
proof -
  have s: "types_grow c1 (fold intern_stmt ss c1)" for ss c1
    by (rule fold_preserves [where P = "types_grow c1"])
      (auto simp: intern_stmt_def intern_def split: stmt.splits)
  have "types_grow c1 (intern_top t c1)" for t c1
    by (cases t) (simp_all add: intern_top_def s)
  then show ?thesis by (intro fold_preserves [where P = "types_grow c"]) (auto intro: types_grow_trans)
qed

lemma validate_primitive_types: "validate_primitive n t c = Ret c' \<Longrightarrow> types_grow c c'"
  by (auto simp: validate_primitive_def outcome_simps flag_error_def Let_def split: toplevel.splits if_splits
      dest!: ir_type_id_same same_names_types)

lemma validate_ids_types:
  assumes "validate_ids n ts c = Ret c'"
  shows "types_grow c c'"
proof -
  define c1 where "c1 = (if list_all (top_ok c) ts then c else flag_error c)"
  have "types_grow c (settle_aliases c1)" by (rule types_grow_same) (simp_all add: c1_def flag_error_def settle_aliases_def)
  moreover have "types_grow (settle_aliases c1) (fold intern_top ts (settle_aliases c1))" by (rule intern_tops_types)
  moreover have "types_grow (fold intern_top ts (settle_aliases c1)) c'"
    by (rule fold_out_types [OF validate_primitive_types]) (use assms in \<open>simp_all add: validate_ids_def Let_def c1_def\<close>)
  ultimately show ?thesis by (blast intro: types_grow_trans)
qed

lemma emitted_predefined:
  assumes a: "assign_ids n ts = Ret (kept, c)" and c': "types_grow c c'" and e: "emit_file E c' = Ret f"
    and l: "NumPrimitiveClasses + length (f_classes f) + length (f_complex_types f) < 2 ^ 32"
  shows "predefined_ok (num_ids f) (f_complex_types f)"
proof -
  from assign_ids_types [OF a] c' obtain us where u: "comp_types c' = reserved_infos (first_complex c) @ us" "types_inv c'"
    "first_complex c' = first_complex c" by (auto simp: types_grow_def first_complex_def)
  from emitted_types [OF e u(2)] obtain c2 vs where v: "same_names c' c2" "comp_types c2 = comp_types c' @ vs"
    "f_complex_types f = map emit_type (comp_types c2)" "length (f_classes f) = length (comp_classes c')" by blast
  have m: "first_complex c2 = NumPrimitiveClasses + length (f_classes f)" "first_complex c2 = first_complex c"
    using same_namesD(2) [OF v(1)] v(4) u(3) by (simp_all add: first_complex_def)
  have "of_nat (first_complex c2) = num_ids f" by (simp add: m(1) num_ids_def)
  moreover have "first_complex c2 + length (comp_types c2) < 2 ^ 32" using l by (simp only: m(1) v(3) length_map)
  moreover have "comp_types c2 = reserved_infos (first_complex c2) @ us @ vs" by (simp only: u(1) v(2) m(2) append_assoc)
  ultimately show ?thesis using predefined_reserved [of c2 "us @ vs"] by (simp only: v(3))
qed

lemma emitted_types_ok:
  assumes a: "assign_ids n ts = Ret (kept, c)" and c': "types_grow c c'" and e: "emit_file E c' = Ret f"
    and l: "NumPrimitiveClasses + length (f_classes f) + length (f_complex_types f) < 2 ^ 32 - 1"
    and s: "\<forall>t \<in> set (f_complex_types f). length (ct_children t) < 2 ^ 64"
  shows "types_ok (file_types f)"
proof -
  have "types_inv c'" using assign_ids_types [OF a] c' by (simp add: types_grow_def)
  from emitted_types [OF e this] obtain c2 vs where v: "same_names c' c2" "types_inv c2"
    "f_complex_types f = map emit_type (comp_types c2)" "length (f_classes f) = length (comp_classes c')" by blast
  have m: "first_complex c2 = NumPrimitiveClasses + length (f_classes f)"
    using same_namesD(2) [OF v(1)] v(4) by (simp add: first_complex_def)
  then have "of_nat (first_complex c2) = num_ids f" by (simp add: num_ids_def)
  then have "file_types f = table_of c2" by (simp add: file_types_def table_of_def Let_def v(3))
  moreover have "numbers_fit c2" using l s v(3) m by (auto simp: numbers_fit_def DynId_def list_all_iff emit_type_def)
  ultimately show ?thesis using types_ok_table v(2) by simp
qed

end
