(* ===== verification/EmitFile.thy ===== *)
theory EmitFile
  imports EmitConst
begin

text \<open>
  The whole file: a program that \<open>assign_ids\<close> and \<open>validate_ids\<close> took without an error is
  written by \<open>emit_file\<close>. \<open>tables_inv\<close> says that the entries of the other tables come from the
  program, as \<open>funcs_inv\<close> does of the functions.
\<close>

definition tables_inv :: "ir_program \<Rightarrow> compilation \<Rightarrow> bool" where
  "tables_inv ts c = (length (comp_primitives c) = NumPrimitiveClasses
     \<and> (\<forall>cl \<in> set (comp_classes c). TopClass cl \<in> set ts)
     \<and> (\<forall>ms. Some ms \<in> set (comp_primitives c) \<or> Some ms \<in> set (complex_primitives c) \<longrightarrow> (\<exists>u. TopPrimitive u ms \<in> set ts))
     \<and> (\<forall>l \<in> set (comp_libraries c). TopLib l \<in> set ts)
     \<and> (\<forall>(lp, s) \<in> set (comp_symbols c). get_library_id c lp \<noteq> None \<and> (\<exists>l. TopLib l \<in> set ts \<and> s \<in> set (lib_symbols l))))"

definition libs_known :: "ir_program \<Rightarrow> compilation \<Rightarrow> bool" where
  "libs_known ts c = (\<forall>l. TopLib l \<in> set ts \<longrightarrow> get_library_id c (lib_path l) \<noteq> None)"

definition same_tables :: "compilation \<Rightarrow> compilation \<Rightarrow> bool" where
  "same_tables c c' = (comp_classes c' = comp_classes c \<and> comp_primitives c' = comp_primitives c
     \<and> complex_primitives c' = complex_primitives c \<and> comp_libraries c' = comp_libraries c \<and> comp_symbols c' = comp_symbols c)"

lemma tables_inv_cong: "same_tables c c' \<Longrightarrow> tables_inv ts c' = tables_inv ts c"
  by (simp add: same_tables_def tables_inv_def get_library_id_def)

lemma libs_known_cong: "comp_libraries c' = comp_libraries c \<Longrightarrow> libs_known ts c' = libs_known ts c"
  by (simp add: libs_known_def get_library_id_def)

lemma same_tables_simps [simp]:
  "same_tables c c" "same_tables c (flag_error c1) = same_tables c c1" "same_tables c (intern x c1) = same_tables c c1"
  "same_tables c (update_func i F c1) = same_tables c c1" "same_tables c (add_field x c1) = same_tables c c1"
  "same_tables c (add_method x c1) = same_tables c c1"
  by (simp_all add: same_tables_def flag_error_def intern_def update_func_def add_field_def add_method_def)

lemma same_tables_trans: "same_tables a b \<Longrightarrow> same_tables b c \<Longrightarrow> same_tables a c"
  by (simp add: same_tables_def)

lemma declare_func_tables: "declare_func f c = Ret (b, c') \<Longrightarrow> same_tables c c'"
  by (auto simp: declare_func_def reject_def accept_def Let_def add_func_def same_tables_def flag_error_def update_func_def
      split: if_splits prod.splits option.splits)

lemma declare_top_tables:
  assumes r: "declare_top t c = Ret (b, c')" and t: "t \<in> set ts" and i: "tables_inv ts c"
  shows "tables_inv ts c'" "libs_known us c \<Longrightarrow> libs_known (t # us) c'"
proof -
  have "tables_inv ts c' \<and> (libs_known us c \<longrightarrow> libs_known (t # us) c')"
  proof (cases t)
    case (TopLib l)
    then have c': "c' = add_library l c" using r by (simp add: declare_top_def accept_def)
    have g: "get_library_id c x \<noteq> None \<Longrightarrow> get_library_id c' x \<noteq> None" for x
      by (auto simp: c' add_library_def get_library_id_def intern_def Let_def split: if_splits)
    have "get_library_id c' (lib_path l) \<noteq> None"
      by (auto simp: c' add_library_def get_library_id_def intern_def Let_def)
    moreover have "set (comp_libraries c') \<subseteq> insert l (set (comp_libraries c))" "comp_symbols c' = comp_symbols c"
      "comp_classes c' = comp_classes c" "comp_primitives c' = comp_primitives c" "complex_primitives c' = complex_primitives c"
      by (auto simp: c' add_library_def intern_def Let_def)
    ultimately show ?thesis using i t g TopLib unfolding tables_inv_def libs_known_def by (auto split: prod.splits)
  next
    case (TopPrimitive u ms)
    have "set (comp_primitives c') \<subseteq> insert (Some ms) (set (comp_primitives c))"
      "length (comp_primitives c') = length (comp_primitives c)" "comp_symbols c' = comp_symbols c"
      "comp_classes c' = comp_classes c" "comp_libraries c' = comp_libraries c" "complex_primitives c' = complex_primitives c"
      using r TopPrimitive set_update_subset_insert by (auto simp: declare_top_def declare_primitive_def accept_def reject_def flag_error_def
          split: ir_label.splits if_splits) (fastforce dest: set_update_subset_insert [THEN subsetD])
    with i t TopPrimitive show ?thesis
      by (auto simp: tables_inv_def libs_known_def get_library_id_def dest!: subsetD)
  next
    case (TopClass cl)
    have "set (comp_classes c') \<subseteq> insert cl (set (comp_classes c))" "comp_symbols c' = comp_symbols c"
      "comp_primitives c' = comp_primitives c" "comp_libraries c' = comp_libraries c" "complex_primitives c' = complex_primitives c"
      using r TopClass by (auto simp: declare_top_def declare_class_def add_class_def accept_def reject_def flag_error_def split: if_splits)
    with i t TopClass show ?thesis
      by (auto simp: tables_inv_def libs_known_def get_library_id_def dest!: subsetD)
  next
    case (TopType x u)
    then have "same_tables c c'" using r
      by (auto simp: declare_top_def declare_type_def add_typealias_def accept_def reject_def same_tables_def flag_error_def split: if_splits)
    with TopType i show ?thesis using tables_inv_cong [of c c' ts] libs_known_cong [of c' c us]
      by (auto simp: same_tables_def libs_known_def)
  next
    case (TopFunc f)
    then have "same_tables c c'" using r by (simp add: declare_top_def declare_func_tables)
    with TopFunc i show ?thesis using tables_inv_cong [of c c' ts] libs_known_cong [of c' c us]
      by (auto simp: same_tables_def libs_known_def)
  qed (use r i in \<open>auto simp: declare_top_def accept_def libs_known_def\<close>)
  then show "tables_inv ts c'" "libs_known us c \<Longrightarrow> libs_known (t # us) c'" by blast+
qed

lemma libs_known_set: "set us = set vs \<Longrightarrow> libs_known us c = libs_known vs c"
  by (simp add: libs_known_def)

lemma declare_tops_tables:
  assumes "declare_tops us c = Ret (kept, c')" "set us \<subseteq> set ts" "tables_inv ts c" "libs_known vs c"
  shows "tables_inv ts c' \<and> libs_known (us @ vs) c'"
  using assms
proof (induction us arbitrary: c kept vs)
  case (Cons u us)
  then obtain b c1 kept' where h: "declare_top u c = Ret (b, c1)" "declare_tops us c1 = Ret (kept', c')"
    by (auto simp: outcome_simps)
  note 1 = declare_top_tables [OF h(1) _ Cons.prems(3)]
  have "tables_inv ts c1" "libs_known (u # vs) c1" using 1 Cons.prems(2,4) by auto
  from Cons.IH [OF h(2) _ this] Cons.prems(2) show ?case
    using libs_known_set [of "us @ u # vs" "(u # us) @ vs" c'] by auto
qed simp

text \<open>The rest of the pass only adds symbols.\<close>

definition tables_step :: "ir_program \<Rightarrow> compilation \<Rightarrow> compilation \<Rightarrow> bool" where
  "tables_step ts c c' = (comp_libraries c' = comp_libraries c \<and> (libs_known ts c \<and> tables_inv ts c \<longrightarrow> tables_inv ts c'))"

lemma tables_step_trans: "tables_step ts a b \<Longrightarrow> tables_step ts b c \<Longrightarrow> tables_step ts a c"
  using libs_known_cong [of b a ts] by (simp add: tables_step_def)

lemma tables_step_same: "same_tables c c' \<Longrightarrow> tables_step ts c c'"
  using tables_inv_cong [of c c' ts] by (simp add: tables_step_def same_tables_def)

lemma tables_step_refl [simp]: "tables_step ts c c"
  by (simp add: tables_step_def)

lemma declare_symbol_tables:
  assumes r: "declare_symbol n A (lib_path l) s c = Ret c'" and l: "TopLib l \<in> set ts" and s: "s \<in> set (lib_symbols l)"
  shows "tables_step ts c c'"
proof (cases "get_symbol_id c (isym_name s)")
  case None
  with r have "comp_symbols c' = comp_symbols c @ [(lib_path l, s)]" "comp_libraries c' = comp_libraries c"
    "comp_classes c' = comp_classes c" "comp_primitives c' = comp_primitives c" "complex_primitives c' = complex_primitives c"
    by (auto simp: declare_symbol_def add_symbol_def intern_def)
  with l s show ?thesis by (auto simp: tables_step_def tables_inv_def libs_known_def get_library_id_def)
next
  case (Some i)
  with r show ?thesis by (auto simp: declare_symbol_def outcome_simps intro!: tables_step_same)
qed

lemma declare_inside_tables:
  assumes r: "declare_inside n A t c = Ret c'" and t: "t \<in> set ts"
  shows "tables_step ts c c'"
proof -
  have m: "same_tables c (fold declare_method ms c)" for ms c
    by (rule fold_preserves [where P = "same_tables c"])
      (auto simp: declare_method_def Let_def intro: same_tables_trans)
  have f: "same_tables c (fold add_field xs c)" for xs c
    by (rule fold_preserves [where P = "same_tables c"]) simp_all
  show ?thesis
  proof (cases t)
    case (TopLib l)
    with r have "fold_out (declare_symbol n A (lib_path l)) (lib_symbols l) c = Ret c'" by (simp add: declare_inside_def)
    moreover have "fold_out (declare_symbol n A (lib_path l)) ss c1 = Ret c2 \<Longrightarrow> set ss \<subseteq> set (lib_symbols l) \<Longrightarrow> tables_step ts c1 c2"
      for ss c1 c2
      using t TopLib by (induction ss arbitrary: c1) (auto simp: outcome_simps intro: tables_step_trans declare_symbol_tables)
    ultimately show ?thesis by blast
  next
    case (TopPrimitive u ms)
    with r m show ?thesis by (auto simp: declare_inside_def intro!: tables_step_same)
  next
    case (TopClass cl)
    with r have "c' = fold declare_method (icls_methods cl) (fold add_field (map fst (icls_fields cl)) c)"
      by (simp add: declare_inside_def)
    then have "same_tables c c'" using m f same_tables_trans by blast
    then show ?thesis by (rule tables_step_same)
  qed (use r in \<open>auto simp: declare_inside_def declare_body_def intro!: tables_step_same split: option.splits\<close>)
qed

lemma same_names_tables: "same_names c c' \<Longrightarrow> same_tables c c'"
  by (cases c; cases c') (simp add: same_names_def same_tables_def)

lemma fold_out_same_tables:
  "(\<And>x c c'. f x c = Ret c' \<Longrightarrow> same_tables c c') \<Longrightarrow> fold_out f xs c = Ret c' \<Longrightarrow> same_tables c c'"
  by (induction xs arbitrary: c) (auto simp: outcome_simps, blast intro: same_tables_trans)

lemma post_assign_tables: "post_assign ts c = Ret c' \<Longrightarrow> same_tables c c'"
proof -
  assume r: "post_assign ts c = Ret c'"
  define c1 where "c1 = (if fs_func (comp_functions c ! MainFunctionId) = None then flag_error c else c)"
  from r obtain c2 where h: "fold_out top_edges ts c1 = Ret c2"
    "fold_out (\<lambda>t c. obind (ir_type_id 3 t c) (\<lambda>(_, c). Ret c)) reserved_types c2 = Ret c'"
    by (auto simp: post_assign_def c1_def outcome_simps)
  have "same_tables c c1" by (simp add: c1_def)
  moreover have "same_tables c1 c2"
    by (rule fold_out_same_tables [OF _ h(1)])
      (auto simp: top_edges_def func_edges_def split: toplevel.splits option.splits)
  moreover have "same_tables c2 c'"
    by (rule fold_out_same_tables [OF _ h(2)]) (auto simp: outcome_simps dest!: ir_type_id_same same_names_tables)
  ultimately show ?thesis by (blast intro: same_tables_trans)
qed

lemma assign_ids_tables:
  assumes "assign_ids n ts = Ret (kept, c)" "\<not> comp_error c"
  shows "tables_inv ts c"
proof -
  from assms(1) obtain c1 c2 where h: "declare_tops ts new_compilation = Ret (kept, c1)"
    "fold_out (declare_inside n (scope_of kept)) kept c1 = Ret c2" "post_assign kept c2 = Ret c"
    by (auto simp: assign_ids_def outcome_simps)
  have new: "tables_inv ts new_compilation" by (simp add: tables_inv_def new_compilation_def)
  have k: "kept = ts" using assign_ids_funcs(1) [OF assms] .
  from declare_tops_tables [OF h(1) subset_refl new, of "[]"] have 1: "tables_inv ts c1" "libs_known ts c1"
    by (simp_all add: libs_known_def)
  have "fold_out (declare_inside n (scope_of kept)) us c3 = Ret c4 \<Longrightarrow> set us \<subseteq> set ts \<Longrightarrow> tables_step ts c3 c4" for us c3 c4
    by (induction us arbitrary: c3) (auto simp: outcome_simps intro: tables_step_trans declare_inside_tables)
  with h(2) k have "tables_step ts c1 c2" by blast
  with 1 have "tables_inv ts c2" by (simp add: tables_step_def)
  with tables_inv_cong [OF post_assign_tables [OF h(3)]] show ?thesis by simp
qed

lemma validate_primitive_tables:
  assumes r: "validate_primitive n t c = Ret c'" and t: "t \<in> set ts" and i: "tables_inv ts c"
  shows "tables_inv ts c'"
proof (cases "\<exists>u ms. t = TopPrimitive u ms \<and> label u \<in> {LArray, LRef, LCown}")
  case True
  then obtain u ms where u: "t = TopPrimitive u ms" "label u \<in> {LArray, LRef, LCown}" by blast
  with r obtain k c1 where k: "ir_type_id n (settle c u) c = Ret (k, c1)"
    "c' = (let j = k - first_complex c1; c = c1\<lparr>complex_primitives := resize (Suc j) None (complex_primitives c1)\<rparr> in
         if complex_primitives c ! j \<noteq> None then flag_error c
           else c\<lparr>complex_primitives := (complex_primitives c)[j := Some ms]\<rparr>)"
    unfolding validate_primitive_def by (auto simp: outcome_simps Let_def)
  have s: "same_tables c c1" using same_names_tables [OF ir_type_id_same [OF k(1)]] .
  have "set (complex_primitives c') \<subseteq> insert None (insert (Some ms) (set (complex_primitives c1)))"
    by (auto simp: k(2) Let_def flag_error_def resize_def dest!: set_update_subset_insert [THEN subsetD] split: if_splits)
  moreover have "comp_classes c' = comp_classes c1" "comp_primitives c' = comp_primitives c1"
    "comp_libraries c' = comp_libraries c1" "comp_symbols c' = comp_symbols c1"
    by (auto simp: k(2) Let_def flag_error_def)
  ultimately show ?thesis using tables_inv_cong [OF s, of ts] i t u(1)
    by (auto simp: tables_inv_def get_library_id_def dest!: subsetD)
next
  case False
  with r i show ?thesis by (auto simp: validate_primitive_def split: toplevel.splits if_splits)
qed

lemma validate_ids_tables:
  assumes "validate_ids n ts c = Ret c'" "tables_inv ts c"
  shows "tables_inv ts c'"
proof -
  define c1 where "c1 = settle_aliases (if list_all (top_ok c) ts then c else flag_error c)"
  have "same_tables c2 (intern_stmt s c2)" for s c2 by (cases s) (simp_all add: intern_stmt_def)
  then have "same_tables c2 (fold intern_stmt ss c2)" for ss c2
    by (induction ss arbitrary: c2) (auto, blast intro: same_tables_trans)
  then have "same_tables c2 (intern_top t c2)" for t c2 by (cases t) (simp_all add: intern_top_def)
  then have "same_tables c1 (fold intern_top us c1)" for us
    by (intro fold_preserves [where P = "same_tables c1"]) (auto intro: same_tables_trans)
  moreover have "same_tables c c1" by (simp add: c1_def settle_aliases_def same_tables_def flag_error_def)
  ultimately have "tables_inv ts (fold intern_top ts c1)" using tables_inv_cong assms(2) same_tables_trans by blast
  moreover have "fold_out (validate_primitive n) us c2 = Ret c3 \<Longrightarrow> set us \<subseteq> set ts \<Longrightarrow> tables_inv ts c2 \<Longrightarrow> tables_inv ts c3"
    for us c2 c3
    by (induction us arbitrary: c2) (auto simp: outcome_simps dest!: validate_primitive_tables)
  ultimately show ?thesis using assms(1) by (auto simp: validate_ids_def c1_def Let_def)
qed

subsection \<open>Emission\<close>

lemma map_out_total: "(\<And>x. x \<in> set xs \<Longrightarrow> \<exists>y. f x = Ret y) \<Longrightarrow> \<exists>ys. map_out f xs = Ret ys"
  by (induction xs) fastforce+

lemma emit_methods_total:
  assumes "list_all (method_ok c) ms" "same_names c c1"
  shows "\<exists>ys. map_out (emit_method c1) ms = Ret ys"
proof (rule map_out_total)
  fix m assume "m \<in> set ms"
  with assms(1) have "method_ok c m" by (simp add: list_all_iff)
  then show "\<exists>y. emit_method c1 m = Ret y"
    by (cases m) (auto simp: emit_method_def method_ok_def with_id_def same_names_lookups [OF assms(2)] simp del: find_id_None)
qed

lemma emit_slots_total:
  assumes "\<And>ms. Some ms \<in> set ps \<Longrightarrow> list_all (method_ok c) ms" "same_names c c1"
  shows "\<exists>ys. map_out (emit_slot c1) ps = Ret ys"
proof (rule map_out_total)
  fix p assume "p \<in> set ps"
  with assms emit_methods_total [of c _ c1] show "\<exists>y. emit_slot c1 p = Ret y" by (cases p) (auto simp: emit_slot_def)
qed

lemma emits_class:
  assumes "list_all (\<lambda>(f, u). get_field_id c f \<noteq> None \<and> fuel_ok E c u) (icls_fields cl)"
    "list_all (method_ok c) (icls_methods cl)" "same_names c c1"
  shows "emits c (emit_class E (k, cl) c1)"
  unfolding emit_class_def prod.case
proof (intro emits_obind emits_map_state assms(3))
  fix x c2 assume x: "x \<in> set (icls_fields cl)" and c2: "same_names c c2"
  obtain f t where [simp]: "x = (f, t)" by (cases x)
  have "get_field_id c2 f \<noteq> None" "fuel_ok E c t" using assms(1) x by (auto simp: list_all_iff same_names_lookups [OF c2])
  then show "emits c (emit_field E x c2)" unfolding emit_field_def
    by (auto intro!: emits_id emits_obind emits_type_id emits_Ret c2)
next
  fix fs c2 assume c2: "same_names c c2"
  from emit_methods_total [OF assms(2) c2] obtain ys where "map_out (emit_method c2) (icls_methods cl) = Ret ys" by blast
  then show "emits c (obind (map_out (emit_method c2) (icls_methods cl))
      (\<lambda>ms. Ret (\<lparr>cls_debug_info = class_di E k, cls_fields = fs, cls_methods = ms\<rparr>, c2)))"
    by (simp add: emits_Ret c2)
qed

lemma emits_lib:
  assumes "case lib_init l of None \<Rightarrow> True | Some f \<Rightarrow> get_func_id c f \<noteq> None" "same_names c c1"
  shows "emits c (emit_lib l c1)"
proof -
  have s: "same_names c (intern (lib_path l) c1)" by (rule same_names_trans [OF assms(2) intern_same])
  show ?thesis unfolding emit_lib_def Let_def
    using assms(1) by (cases "lib_init l") (auto intro!: emits_Ret emits_id s simp: same_names_lookups [OF s])
qed

lemma emits_symbol:
  assumes "get_library_id c lp \<noteq> None" "list_all (fuel_ok E c) (isym_return s # isym_params s)" "same_names c c1"
  shows "emits c (emit_symbol E (lp, s) c1)"
proof -
  have s: "same_names c (intern x c2)" if "same_names c c2" for x c2 by (rule same_names_trans [OF that intern_same])
  have l: "get_library_id (intern lp c1) lp \<noteq> None" using assms(1) by (simp only: same_names_lookups [OF s [OF assms(3)]] not_False_eq_True)
  have t: "\<And>t. t \<in> set (isym_params s) \<Longrightarrow> fuel_ok E c t" "fuel_ok E c (isym_return s)"
    using assms(2) by (simp_all add: list_all_iff)
  show ?thesis unfolding emit_symbol_def Let_def prod.case
    by (intro emits_id l emits_obind emits_map_state emits_type_id s t assms(3) emits_Ret)
qed

text \<open>The types and memo functions of a program that are in reach of the emitter's fuel.\<close>

definition top_types :: "toplevel \<Rightarrow> ir_type list" where
  "top_types t = (case t of
     TopFunc f \<Rightarrow> func_types f
   | TopClass cl \<Rightarrow> map snd (icls_fields cl)
   | TopLib l \<Rightarrow> concat (map (\<lambda>s. isym_return s # isym_params s) (lib_symbols l))
   | _ \<Rightarrow> [])"

definition memos_ok :: "emit_env \<Rightarrow> ir_program \<Rightarrow> compilation \<Rightarrow> bool" where
  "memos_ok E ts c = (list_all (\<lambda>f. get_func_id c f \<noteq> None) (memo_funcs E)
     \<and> (\<forall>f. TopFunc f \<in> set ts \<longrightarrow> list_all (\<lambda>s. s \<in> set (memo_funcs E)) (concat (map block_slots (fn_blocks f)))))"

text \<open>What the emitter needs of a declaration, from its check.\<close>

definition ready :: "compilation \<Rightarrow> toplevel \<Rightarrow> bool" where
  "ready c t = (case t of
     TopClass cl \<Rightarrow> list_all (\<lambda>(f, u). get_field_id c f \<noteq> None) (icls_fields cl) \<and> list_all (method_ok c) (icls_methods cl)
   | TopPrimitive u ms \<Rightarrow> list_all (method_ok c) ms
   | TopLib l \<Rightarrow> (case lib_init l of None \<Rightarrow> True | Some f \<Rightarrow> get_func_id c f \<noteq> None)
   | _ \<Rightarrow> True)"

lemma top_ok_ready:
  assumes "top_ok c t" "validated_from c c'"
  shows "ready c' t"
proof -
  have l: "get_field_id c' = get_field_id c" "get_method_id c' = get_method_id c" "get_func_id c' = get_func_id c"
    "comp_functions c' = comp_functions c"
    using assms(2) by (simp_all add: fun_eq_iff get_field_id_def get_method_id_def get_func_id_def func_index_def
        validated_from_def cong: option.case_cong)
  have "method_ok c' x = method_ok c x" for x
    by (cases x) (simp add: method_ok_def finalizer_ok_def l cong: option.case_cong)
  with assms(1) show ?thesis
    by (auto simp: ready_def top_ok_def l list_all_iff split: toplevel.splits option.splits)
qed

text \<open>A compilation with its program: every entry of the tables is ready, and its types are in reach.\<close>

definition file_ready :: "emit_env \<Rightarrow> ir_program \<Rightarrow> compilation \<Rightarrow> bool" where
  "file_ready E ts c = (tables_inv ts c \<and> list_all (ready c) ts \<and> list_all (\<lambda>t. list_all (fuel_ok E c) (top_types t)) ts)"

lemma file_readyD:
  assumes "file_ready E ts c"
  shows "Some ms \<in> set (comp_primitives c) \<or> Some ms \<in> set (complex_primitives c) \<Longrightarrow> list_all (method_ok c) ms"
    "cl \<in> set (comp_classes c) \<Longrightarrow> list_all (\<lambda>(f, u). get_field_id c f \<noteq> None \<and> fuel_ok E c u) (icls_fields cl)
       \<and> list_all (method_ok c) (icls_methods cl)"
    "l \<in> set (comp_libraries c) \<Longrightarrow> (case lib_init l of None \<Rightarrow> True | Some f \<Rightarrow> get_func_id c f \<noteq> None)"
    "(lp, s) \<in> set (comp_symbols c) \<Longrightarrow> get_library_id c lp \<noteq> None \<and> list_all (fuel_ok E c) (isym_return s # isym_params s)"
proof -
  note r = assms [unfolded file_ready_def tables_inv_def list_all_iff [of _ ts]]
  show "list_all (method_ok c) ms" if p: "Some ms \<in> set (comp_primitives c) \<or> Some ms \<in> set (complex_primitives c)"
  proof -
    obtain u where "TopPrimitive u ms \<in> set ts" using r p by meson
    with r have "ready c (TopPrimitive u ms)" by blast
    then show ?thesis by (simp add: ready_def)
  qed
  show "list_all (\<lambda>(f, u). get_field_id c f \<noteq> None \<and> fuel_ok E c u) (icls_fields cl) \<and> list_all (method_ok c) (icls_methods cl)"
    if "cl \<in> set (comp_classes c)"
  proof -
    have "TopClass cl \<in> set ts" using r that by meson
    with r have "ready c (TopClass cl)" "list_all (fuel_ok E c) (top_types (TopClass cl))" by blast+
    then show ?thesis by (fastforce simp: ready_def top_types_def list_all_iff)
  qed
  show "case lib_init l of None \<Rightarrow> True | Some f \<Rightarrow> get_func_id c f \<noteq> None" if "l \<in> set (comp_libraries c)"
  proof -
    have "TopLib l \<in> set ts" using r that by meson
    with r have "ready c (TopLib l)" by blast
    then show ?thesis by (simp add: ready_def)
  qed
  show "get_library_id c lp \<noteq> None \<and> list_all (fuel_ok E c) (isym_return s # isym_params s)" if "(lp, s) \<in> set (comp_symbols c)"
  proof -
    have "get_library_id c lp \<noteq> None \<and> (\<exists>l. TopLib l \<in> set ts \<and> s \<in> set (lib_symbols l))"
      using r that by (blast dest: bspec)
    then obtain l where l: "get_library_id c lp \<noteq> None" "TopLib l \<in> set ts" "s \<in> set (lib_symbols l)" by blast
    with r have "list_all (fuel_ok E c) (top_types (TopLib l))" by blast
    with l show ?thesis by (fastforce simp: top_types_def list_all_iff)
  qed
qed

lemma emits_classes:
  assumes "file_ready E ts c"
  shows "emits c (map_state (emit_class E) (zip [0..<length (comp_classes c)] (comp_classes c)) c)"
proof (rule emits_map_state)
  fix x c2 assume x: "x \<in> set (zip [0..<length (comp_classes c)] (comp_classes c))" and c2: "same_names c c2"
  obtain j cl where "x = (j, cl)" by (cases x)
  moreover have "cl \<in> set (comp_classes c)" using x calculation by (auto dest: set_zip_rightD)
  ultimately show "emits c (emit_class E x c2)" using file_readyD(2) [OF assms] emits_class c2 by blast
qed simp

lemma emits_libs:
  assumes "file_ready E ts c" "same_names c c1"
  shows "emits c (map_state emit_lib (comp_libraries c1) c1)"
  using file_readyD(3) [OF assms(1)] by (intro emits_map_state assms(2) emits_lib) (simp_all add: same_namesD(7) [OF assms(2)])

lemma emits_symbols:
  assumes "file_ready E ts c" "same_names c c1"
  shows "emits c (map_state (emit_symbol E) (comp_symbols c1) c1)"
proof (rule emits_map_state [OF assms(2)])
  fix x c2 assume "x \<in> set (comp_symbols c1)" "same_names c c2"
  moreover obtain lp s where "x = (lp, s)" by (cases x)
  ultimately show "emits c (emit_symbol E x c2)" using file_readyD(4) [OF assms(1), of lp s] same_namesD(6) [OF assms(2)]
    by (auto intro!: emits_symbol simp del: find_id_None)
qed

lemma emit_file_parts:
  assumes r: "file_ready E ts c" and m: "list_all (\<lambda>f. get_func_id c f \<noteq> None) (memo_funcs E)"
    and f: "\<And>c1. same_names c c1 \<Longrightarrow> emits c (emit_functions E 0 (comp_functions c) [] c1)"
  shows "\<exists>f. emit_file E c = Ret f"
proof -
  obtain p1 where p1: "map_out (emit_slot c) (comp_primitives c) = Ret p1"
    using emit_slots_total [of "comp_primitives c" c c] file_readyD(1) [OF r] by auto
  obtain cls c1 where 1: "map_state (emit_class E) (zip [0..<length (comp_classes c)] (comp_classes c)) c = Ret (cls, c1)"
    "same_names c c1" using emits_classes [OF r] by (auto simp: emits_def)
  obtain p2 where p2: "map_out (emit_slot c1) (complex_primitives c1) = Ret p2"
    using emit_slots_total [of "complex_primitives c1" c c1] file_readyD(1) [OF r] same_namesD(8) [OF 1(2)] 1(2) by auto
  obtain libs c2 where 2: "map_state emit_lib (comp_libraries c1) c1 = Ret (libs, c2)" "same_names c c2"
    using emits_libs [OF r 1(2)] by (auto simp: emits_def)
  obtain syms c3 where 3: "map_state (emit_symbol E) (comp_symbols c2) c2 = Ret (syms, c3)" "same_names c c3"
    using emits_symbols [OF r 2(2)] by (auto simp: emits_def)
  obtain fs code c4 where 4: "emit_functions E 0 (comp_functions c3) [] c3 = Ret ((fs, code), c4)" "same_names c c4"
    using f [OF 3(2)] same_namesD(5) [OF 3(2)] by (auto simp: emits_def)
  have "\<exists>ys. map_out (\<lambda>f. with_id (get_func_id c4 f) Ret) (memo_funcs E) = Ret ys"
    by (rule map_out_total) (use m in \<open>auto simp: list_all_iff with_id_def same_names_lookups [OF 4(2)] split: option.splits\<close>)
  then obtain memo where 5: "map_out (\<lambda>f. with_id (get_func_id c4 f) Ret) (memo_funcs E) = Ret memo" by blast
  show ?thesis using p1 1(1) p2 2(1) 3(1) 4(1) 5 by (simp add: emit_file_def Let_def)
qed

lemma emit_file_total:
  assumes a: "assign_ids n ts = Ret (kept, c)" and v: "validate_ids m kept c = Ret c'" and e: "\<not> comp_error c'"
    and fuel: "list_all (\<lambda>t. list_all (fuel_ok E c') (top_types t)) ts" and memos: "memos_ok E ts c'"
  shows "\<exists>f. emit_file E c' = Ret f"
proof -
  note val = validate_idsD [OF v e]
  have ec: "\<not> comp_error c" using val(1) e by (auto simp: validated_from_def)
  have k: "kept = ts" using assign_ids_funcs(1) [OF a ec] .
  have "tables_inv ts c'" using validate_ids_tables [OF v [unfolded k] assign_ids_tables [OF a ec]] .
  moreover have "list_all (ready c') ts" using val k top_ok_ready by (auto simp: list_all_iff)
  ultimately have r: "file_ready E ts c'" using fuel by (simp add: file_ready_def)
  have E: "\<forall>f. TopFunc f \<in> set ts \<longrightarrow> emittable E c' f"
    using fuel memos by (auto simp: emittable_def memos_ok_def list_all_iff top_types_def)
  show ?thesis
    by (rule emit_file_parts [OF r _ emitted_functions_at [OF a v e E]]) (use memos in \<open>simp add: memos_ok_def\<close>)
qed

text \<open>Enough fuel exists where the aliases of the types unfold to the end.\<close>

lemma same_names_scope: "same_names c c' \<Longrightarrow> same_scope c c'"
  by (simp add: same_scope_def same_namesD)

lemma fuel_exists:
  assumes "list_all (known c) (map (settle c) us)"
  shows "\<exists>n. \<forall>E. n \<le> alias_fuel E \<longrightarrow> list_all (fuel_ok E c) us"
proof -
  have "\<forall>t \<in> set us. \<exists>n. \<forall>c'. same_scope c c' \<longrightarrow> (\<exists>r. ir_type_id n (settle c t) c' = Ret r)"
    using assms ir_type_id_returns by (auto simp: list_all_iff)
  then obtain N where N: "\<And>t c'. t \<in> set us \<Longrightarrow> same_scope c c' \<Longrightarrow> \<exists>r. ir_type_id (N t) (settle c t) c' = Ret r"
    by metis
  have "fuel_ok E c t" if E: "Max (insert 0 (N ` set us)) \<le> alias_fuel E" and t: "t \<in> set us" for E t
    unfolding fuel_ok_def
  proof (intro allI impI)
    fix c' assume "same_names c c'"
    then obtain r where "ir_type_id (N t) (settle c t) c' = Ret r" using N [OF t same_names_scope] by blast
    moreover have "N t \<le> alias_fuel E" using E t by simp
    ultimately show "\<exists>r. ir_type_id (alias_fuel E) (settle c t) c' = Ret r" using ir_type_id_mono by blast
  qed
  then show ?thesis by (intro exI [of _ "Max (insert 0 (N ` set us))"]) (simp add: list_all_iff)
qed

lemma file_fuel_exists:
  assumes "list_all (known c) (map (settle c) (concat (map top_types ts)))"
  shows "\<exists>n. \<forall>E. n \<le> alias_fuel E \<longrightarrow> list_all (\<lambda>t. list_all (fuel_ok E c) (top_types t)) ts"
  using fuel_exists [OF assms] by (auto simp: list_all_iff)

end
