(* ===== verification/Toolchain.thy ===== *)
theory Toolchain
  imports EmitFile
begin

text \<open>
  The compiler's output and the interpreter's loader: a file emitted for a program that the passes
  took without an error passes every check of the loader (\<open>emitted_loadable\<close>), where the file's
  tables fit their counts, no union is empty, and the foreign symbols exist.
\<close>

subsection \<open>Layouts\<close>

definition unions_nonempty :: "type_table \<Rightarrow> bool" where
  "unions_nonempty P = list_all (\<lambda>t. ct_tag t = TUnion \<longrightarrow> ct_children t \<noteq> []) (complex_types P)"

lemma same_layout_total: "(\<And>x. x \<in> set xs \<Longrightarrow> \<exists>r. f x = Ret r) \<Longrightarrow> \<exists>b. same_layout f rep xs = Ret b"
  by (induction xs) fastforce+

lemma layout_total:
  assumes P: "types_ok P" and u: "unions_nonempty P"
  shows "id_ok P t \<Longrightarrow> rank P t < n \<Longrightarrow> \<exists>r. layout_f n P t = Ret r"
proof (induction n arbitrary: t)
  case (Suc n)
  let ?m = "min_complex_type_id P"
  consider "t = DynamicTypeId" | p where "t \<noteq> DynamicTypeId" "primitive_of (unat t) = Some p"
    | "t \<noteq> DynamicTypeId" "primitive_of (unat t) = None" "t < ?m"
    | "t \<noteq> DynamicTypeId" "primitive_of (unat t) = None" "\<not> t < ?m" by (cases "primitive_of (unat t)") auto
  then show ?case
  proof cases
    case 4
    then have c: "is_complex P t" by (simp add: is_complex_def)
    define i where "i = unat (t - ?m)"
    have r: "rank P t = Suc i" using 4 c by (simp add: rank_def i_def)
    then have i: "i < length (complex_types P)" using Suc.prems(1) 4 by (simp add: id_ok_def)
    have ti: "unat t = unat ?m + i"
      using 4(3) by (simp add: i_def unat_sub linorder_not_less word_le_nat_alt)
    have a: "complex_type_at P t = Ret (complex_types P ! i)" using i c by (simp add: complex_type_at_def i_def)
    let ?t = "complex_types P ! i"
    have ok: "complex_ok ?t" "\<forall>k \<in> set (ct_children ?t). id_ok P k \<and> rank P k \<le> i"
      using P i by (simp_all add: types_ok_def)
    have "\<exists>r. layout_union (layout_f n P) ?t = Ret r" if tag: "ct_tag ?t = TUnion"
    proof -
      have "ct_children ?t \<noteq> []" using u i tag by (simp add: unions_nonempty_def list_all_length)
      then obtain k ks where k: "ct_children ?t = k # ks" by (cases "ct_children ?t") auto
      have all: "\<exists>r. layout_f n P x = Ret r" if "x \<in> set (k # ks)" for x
        using ok(2) k that Suc.IH Suc.prems(2) r by fastforce
      obtain rep where rep: "layout_f n P k = Ret rep" using all [of k] by auto
      obtain b where "same_layout (layout_f n P) rep ks = Ret b" using same_layout_total [of ks "layout_f n P"] all by fastforce
      with rep k show ?thesis by (cases b) (auto simp: layout_union_def)
    qed
    then show ?thesis using 4 i ti a ok(1) by (cases "ct_tag ?t") (auto simp: complex_ok_def)
  qed auto
qed simp

lemma field_layouts_total:
  assumes "types_ok P" "unions_nonempty P" "list_all (\<lambda>f. id_ok P (snd f)) fs"
  shows "\<exists>reps. field_layouts P (layout_fuel P) fs = Ret reps"
  using assms(3)
proof (induction fs)
  case (Cons f fs)
  have "rank P (snd f) < layout_fuel P" using Cons.prems by (auto simp: id_ok_def layout_fuel_def rank_def)
  with layout_total [OF assms(1,2)] Cons.prems obtain r where "layout_f (layout_fuel P) P (snd f) = Ret r" by fastforce
  with Cons show ?case by auto
qed simp

subsection \<open>The steps of a list\<close>

lemma map_state_steps:
  assumes f: "\<And>x s y s'. f x s = Ret (y, s') \<Longrightarrow> same_names s s'" and r: "map_state f xs s = Ret (ys, s')"
  shows "list_all2 (\<lambda>x y. \<exists>s1 s2. same_names s s1 \<and> f x s1 = Ret (y, s2) \<and> same_names s2 s') xs ys"
  using r
proof (induction xs arbitrary: s ys)
  case (Cons x xs)
  then obtain y s1 ys' where h: "f x s = Ret (y, s1)" "map_state f xs s1 = Ret (ys', s')" "ys = y # ys'"
    by (auto simp: outcome_simps)
  have "map_state f zs s2 = Ret (ws, s3) \<Longrightarrow> same_names s2 s3" for zs s2 ws s3
    by (induction zs arbitrary: s2 ws) (auto simp: outcome_simps dest: f intro: same_names_trans)
  then have 1: "same_names s1 s'" using h(2) by blast
  from Cons.IH [OF h(2)] have "list_all2 (\<lambda>x y. \<exists>s1 s2. same_names s s1 \<and> f x s1 = Ret (y, s2) \<and> same_names s2 s') xs ys'"
    by (rule list_all2_mono) (use f [OF h(1)] same_names_trans in blast)
  with h 1 show ?case by (auto intro: same_names_refl)
qed simp

lemma map_out_steps: "map_out f xs = Ret ys \<Longrightarrow> list_all2 (\<lambda>x y. f x = Ret y) xs ys"
  by (induction xs arbitrary: ys) (auto simp: outcome_simps)

subsection \<open>Type ids\<close>

lemma emitted_id_ok:
  assumes r: "emit_type_id E t c1 = Ret (w, c2)" and i: "types_inv c1" and s: "same_names c2 c" and fit: "numbers_fit c"
  shows "id_ok (table_of c) w"
proof -
  from r obtain k where k: "ir_type_id (alias_fuel E) (settle c1 t) c1 = Ret (k, c2)" "w = ucast (of_nat k :: 64 word)"
    by (auto simp: emit_type_id_def with_type_def outcome_simps)
  from ir_type_id_numbered [OF i k(1)] have n: "known_number c2 (length (comp_types c2)) k" by blast
  have "first_complex c2 = first_complex c" using same_namesD(2) [OF s] by (simp add: first_complex_def)
  with n s have "known_number c (length (comp_types c)) k" by (auto simp: known_number_def same_names_def)
  moreover have "w = of_nat k" by (simp add: k(2) ucast_of_nat)
  ultimately show ?thesis using rank_known(2) [OF fit, of "length (comp_types c)" k] by simp
qed

subsection \<open>The strings\<close>

text \<open>Every library path and symbol name is interned when it is declared; strings are only added.\<close>

definition strings_inv :: "compilation \<Rightarrow> bool" where
  "strings_inv c = ((\<forall>l \<in> set (comp_libraries c). lib_path l \<in> set (exec_strings c))
     \<and> (\<forall>(lp, s) \<in> set (comp_symbols c). isym_lhs s \<in> set (exec_strings c) \<and> isym_rhs s \<in> set (exec_strings c)))"

definition strings_kept :: "compilation \<Rightarrow> compilation \<Rightarrow> bool" where
  "strings_kept c c' = ((\<exists>xs. exec_strings c' = exec_strings c @ xs) \<and> (strings_inv c \<longrightarrow> strings_inv c'))"

lemma strings_kept_refl [simp]: "strings_kept c c"
  by (simp add: strings_kept_def)

lemma strings_kept_trans: "strings_kept a b \<Longrightarrow> strings_kept b c \<Longrightarrow> strings_kept a c"
  by (auto simp: strings_kept_def)

lemma add_id_prefix: "\<exists>ys. add_id xs x = xs @ ys" "x \<in> set (add_id xs x)" "set (add_id xs x) = insert x (set xs)"
  by (auto simp: add_id_def)

lemma strings_inv_more:
  "comp_libraries c' = comp_libraries c \<Longrightarrow> comp_symbols c' = comp_symbols c \<Longrightarrow> set (exec_strings c) \<subseteq> set (exec_strings c') \<Longrightarrow>
    strings_inv c \<Longrightarrow> strings_inv c'"
  by (fastforce simp: strings_inv_def)

lemma strings_kept_same:
  "exec_strings c' = exec_strings c \<Longrightarrow> comp_libraries c' = comp_libraries c \<Longrightarrow> comp_symbols c' = comp_symbols c \<Longrightarrow>
    strings_kept c c'"
  by (simp add: strings_kept_def strings_inv_def)

lemma strings_kept_intern [simp]: "strings_kept c (intern x c)"
proof -
  have "strings_inv c \<Longrightarrow> strings_inv (intern x c)"
    by (rule strings_inv_more [of "intern x c" c]) (auto simp: intern_def add_id_prefix)
  then show ?thesis by (simp add: strings_kept_def intern_def add_id_prefix(1))
qed

lemma strings_kept_fold: "(\<And>x c. strings_kept c (f x c)) \<Longrightarrow> strings_kept c (fold f xs c)"
  by (induction xs arbitrary: c) (auto intro: strings_kept_trans)

lemma strings_kept_fold_out: "(\<And>x c c'. f x c = Ret c' \<Longrightarrow> strings_kept c c') \<Longrightarrow> fold_out f xs c = Ret c' \<Longrightarrow> strings_kept c c'"
  by (rule fold_out_rel [OF strings_kept_refl strings_kept_trans])

lemma strings_kept_fields [simp]:
  "strings_kept c (flag_error d) = strings_kept c d" "strings_kept c (update_func i F d) = strings_kept c d"
  "strings_kept c (add_field x d) = strings_kept c d" "strings_kept c (add_method y d) = strings_kept c d"
  by (simp_all add: strings_kept_def strings_inv_def flag_error_def update_func_def add_field_def add_method_def)

lemma same_names_strings: "ir_type_id n t c = Ret (i, c') \<Longrightarrow> strings_kept c c'"
proof -
  assume "ir_type_id n t c = Ret (i, c')"
  then have "grows c c'" by (rule ir_type_id_grows)
  then show ?thesis by (cases c; cases c') (auto simp: grows_def intro!: strings_kept_same)
qed

lemma add_library_strings: "strings_kept c (add_library l c)"
proof -
  have "strings_inv c \<Longrightarrow> strings_inv (add_library l c)"
    by (fastforce simp: add_library_def Let_def strings_inv_def intern_def add_id_prefix)
  then show ?thesis by (auto simp: strings_kept_def add_library_def Let_def intern_def add_id_prefix(1))
qed

lemma declare_top_strings: "declare_top t c = Ret (b, c') \<Longrightarrow> strings_kept c c'"
proof (cases t)
  case (TopLib l)
  then show "declare_top t c = Ret (b, c') \<Longrightarrow> ?thesis" by (auto simp: declare_top_def accept_def add_library_strings)
next
  case (TopFunc f)
  then show "declare_top t c = Ret (b, c') \<Longrightarrow> ?thesis"
    by (auto simp: declare_top_def declare_func_def reject_def accept_def Let_def add_func_def flag_error_def update_func_def
        intro!: strings_kept_same split: if_splits prod.splits option.splits)
qed (auto simp: declare_top_def declare_primitive_def declare_class_def declare_type_def add_class_def add_typealias_def
    accept_def reject_def flag_error_def intro!: strings_kept_same split: if_splits ir_label.splits)

lemma declare_symbol_strings: "declare_symbol n A lp s c = Ret c' \<Longrightarrow> strings_kept c c'"
proof (cases "get_symbol_id c (isym_name s)")
  case None
  assume "declare_symbol n A lp s c = Ret c'"
  with None have c': "c' = intern (isym_rhs s) (intern (isym_lhs s) c)\<lparr>comp_symbols := comp_symbols c @ [(lp, s)]\<rparr>"
    by (simp add: declare_symbol_def add_symbol_def)
  have "strings_kept c (intern (isym_rhs s) (intern (isym_lhs s) c))"
    by (rule strings_kept_trans [OF strings_kept_intern strings_kept_intern])
  moreover have "isym_lhs s \<in> set (exec_strings c')" "isym_rhs s \<in> set (exec_strings c')"
    by (simp_all add: c' intern_def add_id_prefix)
  ultimately show ?thesis by (auto simp: c' strings_kept_def strings_inv_def intern_def)
qed (auto simp: declare_symbol_def outcome_simps split: if_splits)

lemma declare_inside_strings: "declare_inside n A t c = Ret c' \<Longrightarrow> strings_kept c c'"
proof -
  have m: "strings_kept c (declare_method x c)" for x c
    by (cases x) (auto simp: declare_method_def Let_def intro: strings_kept_trans)
  show "declare_inside n A t c = Ret c' \<Longrightarrow> ?thesis"
  proof (cases t)
    case (TopLib l)
    then show "declare_inside n A t c = Ret c' \<Longrightarrow> ?thesis"
      by (auto simp: declare_inside_def intro: strings_kept_fold_out declare_symbol_strings)
  next
    case (TopClass cl)
    then show "declare_inside n A t c = Ret c' \<Longrightarrow> ?thesis"
      by (auto simp: declare_inside_def intro!: strings_kept_trans [OF strings_kept_fold strings_kept_fold] m)
  qed (auto simp: declare_inside_def declare_body_def intro!: strings_kept_fold m split: option.splits)
qed

lemma assign_ids_strings:
  assumes "assign_ids n ts = Ret (kept, c)"
  shows "strings_inv c"
proof -
  from assms obtain c1 c2 where h: "declare_tops ts new_compilation = Ret (kept, c1)"
    "fold_out (declare_inside n (scope_of kept)) kept c1 = Ret c2" "post_assign kept c2 = Ret c"
    by (auto simp: assign_ids_def outcome_simps)
  have "declare_tops us c3 = Ret (k, c4) \<Longrightarrow> strings_kept c3 c4" for us c3 k c4
    by (induction us arbitrary: c3 k) (auto simp: outcome_simps intro: strings_kept_trans declare_top_strings)
  with h(1) have 1: "strings_kept new_compilation c1" by blast
  have 2: "strings_kept c1 c2" by (rule strings_kept_fold_out [OF declare_inside_strings h(2)])
  define c3 where "c3 = (if fs_func (comp_functions c2 ! MainFunctionId) = None then flag_error c2 else c2)"
  from h(3) obtain c4 where 4: "fold_out top_edges kept c3 = Ret c4"
    "fold_out (\<lambda>t c. obind (ir_type_id 3 t c) (\<lambda>(_, c). Ret c)) reserved_types c4 = Ret c"
    by (auto simp: post_assign_def c3_def outcome_simps)
  have "strings_kept c2 c3" by (simp add: c3_def)
  moreover have "strings_kept c3 c4" by (rule strings_kept_fold_out [OF _ 4(1)])
      (auto simp: top_edges_def func_edges_def split: toplevel.splits option.splits)
  moreover have "strings_kept c4 c" by (rule strings_kept_fold_out [OF _ 4(2)])
      (auto simp: outcome_simps dest: same_names_strings)
  ultimately have "strings_kept c2 c" by (blast intro: strings_kept_trans)
  with 1 2 have "strings_kept new_compilation c" by (blast intro: strings_kept_trans)
  then show ?thesis by (simp add: strings_kept_def strings_inv_def new_compilation_def)
qed

lemma validate_primitive_cases [consumes 1, case_names same numbered]:
  assumes "validate_primitive n t c = Ret c'"
  obtains "c' = c"
  | u k c1 where "ir_type_id n u c = Ret (k, c1)" "exec_strings c' = exec_strings c1" "comp_functions c' = comp_functions c1"
      "comp_libraries c' = comp_libraries c1" "comp_symbols c' = comp_symbols c1" "comp_error c1 \<longrightarrow> comp_error c'"
proof (cases "\<exists>u ms. t = TopPrimitive u ms \<and> label u \<in> {LArray, LRef, LCown}")
  case True
  then obtain u ms where u: "t = TopPrimitive u ms" "label u \<in> {LArray, LRef, LCown}" by blast
  with assms obtain k c1 where k: "ir_type_id n (settle c u) c = Ret (k, c1)"
    "c' = (let j = k - first_complex c1; c = c1\<lparr>complex_primitives := resize (Suc j) None (complex_primitives c1)\<rparr> in
         if complex_primitives c ! j \<noteq> None then flag_error c
           else c\<lparr>complex_primitives := (complex_primitives c)[j := Some ms]\<rparr>)"
    unfolding validate_primitive_def by (auto simp: outcome_simps Let_def)
  show thesis by (rule that(2) [OF k(1)]) (auto simp: k(2) Let_def flag_error_def)
next
  case False
  with assms that(1) show thesis by (auto simp: validate_primitive_def split: toplevel.splits if_splits)
qed

lemma validate_ids_strings:
  assumes "validate_ids n ts c = Ret c'"
  shows "strings_kept c c'"
proof -
  define c1 where "c1 = settle_aliases (if list_all (top_ok c) ts then c else flag_error c)"
  have "strings_kept c2 (intern_stmt s c2)" for s c2 by (cases s) (simp_all add: intern_stmt_def)
  then have "strings_kept c2 (intern_top t c2)" for t c2 by (cases t) (simp_all add: intern_top_def strings_kept_fold)
  then have "strings_kept c1 (fold intern_top ts c1)" by (rule strings_kept_fold)
  moreover have "strings_kept c c1" by (auto simp: c1_def settle_aliases_def flag_error_def intro!: strings_kept_same)
  moreover have "strings_kept (fold intern_top ts c1) c'"
  proof (rule strings_kept_fold_out)
    show "fold_out (validate_primitive n) ts (fold intern_top ts c1) = Ret c'"
      using assms by (simp add: validate_ids_def c1_def Let_def)
    fix t c2 c3 assume "validate_primitive n t c2 = Ret c3"
    then show "strings_kept c2 c3"
    proof (cases rule: validate_primitive_cases)
      case (numbered u k c4)
      have "strings_kept c4 c3" by (rule strings_kept_same) (use numbered in simp_all)
      with same_names_strings [OF numbered(1)] show ?thesis by (rule strings_kept_trans)
    qed simp
  qed
  ultimately show ?thesis by (blast intro: strings_kept_trans)
qed

subsection \<open>The functions\<close>

text \<open>Parameter counts are kept with the states; every function has blocks, and the main function takes
  nothing and returns none.\<close>

definition main_fine :: "compilation \<Rightarrow> bool" where
  "main_fine c = ((\<forall>f. fs_func (comp_functions c ! MainFunctionId) = Some f \<longrightarrow> fn_params f = [] \<and> label (fn_type f) = LPrim PNone)
     \<and> (\<forall>F \<in> set (comp_functions c). \<forall>f. fs_func F = Some f \<longrightarrow> fn_blocks f \<noteq> []))"

definition heads_ok :: "compilation \<Rightarrow> bool" where
  "heads_ok c = (comp_functions c \<noteq> [] \<and> (main_fine c \<or> comp_error c)
     \<and> (\<forall>F \<in> set (comp_functions c). \<forall>f. fs_func F = Some f \<longrightarrow> fs_params F = length (fn_params f)))"

lemma heads_ok_cong: "comp_functions c' = comp_functions c \<Longrightarrow> (comp_error c \<Longrightarrow> comp_error c') \<Longrightarrow> heads_ok c \<Longrightarrow> heads_ok c'"
  by (auto simp: heads_ok_def main_fine_def)

lemma heads_ok_update:
  assumes h: "heads_ok c" and s: "same_func (comp_functions c ! i) F"
  shows "heads_ok (update_func i F c)"
proof (cases "i < length (comp_functions c)")
  case True
  have in_set: "\<exists>H \<in> set (comp_functions c). fs_func H = fs_func G \<and> fs_params H = fs_params G"
    if "G \<in> set ((comp_functions c)[i := F])" for G
    using that s True set_update_subset_insert [of "comp_functions c" i F] nth_mem [OF True]
    by (auto simp: same_func_def dest!: subsetD)
  have "fs_func ((comp_functions c)[i := F] ! MainFunctionId) = fs_func (comp_functions c ! MainFunctionId)"
    using True s by (cases "i = MainFunctionId") (auto simp: same_func_def)
  then have "main_fine c \<longrightarrow> main_fine (update_func i F c)"
    using in_set by (fastforce simp: main_fine_def update_func_def)
  moreover have "fs_params G = length (fn_params f)" if "G \<in> set ((comp_functions c)[i := F])" "fs_func G = Some f" for G f
    using in_set [OF that(1)] that(2) h by (auto simp: heads_ok_def)
  ultimately show ?thesis using h by (auto simp: heads_ok_def update_func_def)
next
  case False
  then have "update_func i F c = c" by (cases c) (simp add: update_func_def linorder_not_less list_update_beyond)
  with h show ?thesis by simp
qed

lemma add_func_heads:
  assumes "heads_ok c" "get_func_id c (fn_name f) = None" "add_func f c = (i, c1)"
    and "comp_error c2 \<or> fn_blocks f \<noteq> [] \<and> (i = MainFunctionId \<longrightarrow> fn_params f = [] \<and> label (fn_type f) = LPrim PNone)"
    and c2: "comp_functions c2 = comp_functions c1" "comp_error c1 \<Longrightarrow> comp_error c2"
  shows "heads_ok c2"
proof -
  have n: "comp_functions c \<noteq> []" using assms(1) by (simp add: heads_ok_def)
  have e: "comp_error c1 = comp_error c" using add_func_error [OF assms(3)] .
  have "\<exists>G. fs_func G = Some f \<and> fs_params G = length (fn_params f) \<and>
    (comp_functions c1 = comp_functions c @ [G] \<and> i = length (comp_functions c) \<or>
     comp_functions c1 = (comp_functions c)[i := G] \<and> i < length (comp_functions c))"
  proof (cases "func_index c (fn_name f)")
    case None
    with assms(3) show ?thesis by (auto simp: add_func_def Let_def update_func_def)
  next
    case (Some j)
    then have "j < length (comp_functions c)" by (auto simp: func_index_def dest: find_id_SomeD)
    with Some assms(3) show ?thesis
      by (intro exI [of _ "(comp_functions c ! j)\<lparr>fs_func := Some f, fs_name := fn_name f, fs_params := length (fn_params f)\<rparr>"])
        (auto simp: add_func_def Let_def update_func_def)
  qed
  then obtain G where G: "fs_func G = Some f" "fs_params G = length (fn_params f)"
    "comp_functions c1 = comp_functions c @ [G] \<and> i = length (comp_functions c) \<or>
     comp_functions c1 = (comp_functions c)[i := G] \<and> i < length (comp_functions c)" by blast
  have sub: "set (comp_functions c2) \<subseteq> insert G (set (comp_functions c))"
    using G(3) c2 set_update_subset_insert by fastforce
  have "main_fine c2 \<or> comp_error c2"
  proof (cases "comp_error c2")
    case False
    with assms(1) e c2 have m: "main_fine c" by (auto simp: heads_ok_def)
    have b: "\<forall>F \<in> set (comp_functions c2). \<forall>f. fs_func F = Some f \<longrightarrow> fn_blocks f \<noteq> []"
      using sub m G(1) assms(4) False by (auto simp: main_fine_def dest!: subsetD)
    have "\<forall>g. fs_func (comp_functions c2 ! MainFunctionId) = Some g \<longrightarrow> fn_params g = [] \<and> label (fn_type g) = LPrim PNone"
    proof (cases "i = MainFunctionId")
      case True
      with assms(4) False G n c2 show ?thesis by (auto simp: MainFunctionId_def)
    next
      case other: False
      then have "comp_functions c1 ! MainFunctionId = comp_functions c ! MainFunctionId"
        using G(3) n by (auto simp: nth_append MainFunctionId_def)
      with m c2 show ?thesis by (simp add: main_fine_def)
    qed
    with b show ?thesis by (simp add: main_fine_def)
  qed simp
  moreover have "comp_functions c2 \<noteq> []" using G(3) n c2 by auto
  ultimately show ?thesis using assms(1) G(1,2) sub by (auto simp: heads_ok_def dest!: subsetD)
qed

lemma declare_func_heads:
  assumes h: "heads_ok c" and r: "declare_func f c = Ret (b, c')"
  shows "heads_ok c'"
proof (cases "get_func_id c (fn_name f)")
  case (Some i)
  with r h show ?thesis by (auto simp: declare_func_def reject_def intro: heads_ok_cong [of _ c])
next
  case None
  obtain i c1 where a: "add_func f c = (i, c1)" by (cases "add_func f c")
  obtain b1 s1 where s1: "add_all add_register (map fst (fn_params f)) (comp_functions c1 ! i) = (b1, s1)" by fastforce
  define s2 where "s2 = fold (\<lambda>v s. snd (add_register v s)) (map fst (fn_vars f)) s1"
  obtain b3 s3 where s3: "add_all add_label (map blk_name (fn_blocks f)) s2 = (b3, s3)" by fastforce
  have same1: "same_func (comp_functions c1 ! i) s1" using add_all_same [of add_register] s1 by (metis add_same(1) snd_conv)
  have "same_func s1 s2" unfolding s2_def by (rule fold_same) simp
  moreover have "same_func s2 s3" using add_all_same [of add_label] s3 by (metis add_same(2) snd_conv)
  ultimately have same3: "same_func (comp_functions c1 ! i) s3" using same1 by (blast intro: same_func_trans)
  have bad: "heads_ok (flag_error c1)" by (rule add_func_heads [OF h None a]) simp_all
  consider "c' = flag_error c1" | "heads_ok c1" "\<exists>F. same_func (comp_functions c1 ! i) F \<and> (c' = update_func i F c1 \<or> c' = flag_error (update_func i F c1))"
    using r None a same1 same3 add_func_heads [OF h None a, of c1]
    by (auto simp: declare_func_def reject_def accept_def Let_def s1 s3 s2_def [symmetric] split: if_splits)
  then show ?thesis
    by cases (use bad heads_ok_update in \<open>auto intro: heads_ok_cong [of "flag_error c2" c2 for c2]\<close>)
qed

text \<open>Everything but a new function keeps the states' heads.\<close>

lemma heads_ok_names: "heads_ok c \<Longrightarrow> ir_type_id n t c = Ret (i, c') \<Longrightarrow> heads_ok c'"
proof -
  assume h: "heads_ok c" and "ir_type_id n t c = Ret (i, c')"
  then have "grows c c'" by (blast intro: ir_type_id_grows)
  then have "comp_functions c' = comp_functions c" "comp_error c' = comp_error c" by (cases c; cases c'; simp add: grows_def)+
  then show ?thesis using h by (intro heads_ok_cong [of c' c]) simp_all
qed

lemma declare_top_heads: "declare_top t c = Ret (b, c') \<Longrightarrow> heads_ok c \<Longrightarrow> heads_ok c'"
proof (cases t)
  case (TopFunc f)
  then show "declare_top t c = Ret (b, c') \<Longrightarrow> heads_ok c \<Longrightarrow> ?thesis" by (auto simp: declare_top_def intro: declare_func_heads)
qed (auto simp: declare_top_def declare_primitive_def declare_class_def declare_type_def add_class_def add_typealias_def
    accept_def reject_def flag_error_def add_library_def intern_def Let_def split: if_splits ir_label.splits
    elim!: heads_ok_cong [rotated 2])

lemma declare_inside_heads: "declare_inside n A t c = Ret c' \<Longrightarrow> heads_ok c \<Longrightarrow> heads_ok c'"
proof -
  have s: "heads_ok c3" if "declare_symbol n A lp s c2 = Ret c3" "heads_ok c2" for lp s c2 c3
    using that by (auto simp: declare_symbol_def add_symbol_def intern_def flag_error_def outcome_simps split: option.splits if_splits
        elim!: heads_ok_cong [rotated 2])
  have m: "heads_ok (declare_method x c2)" if "heads_ok c2" for x c2
    using that by (cases x) (auto simp: declare_method_def add_method_def flag_error_def Let_def elim!: heads_ok_cong [rotated 2])
  have f: "heads_ok (add_field x c2)" if "heads_ok c2" for x c2
    using that by (auto simp: add_field_def elim!: heads_ok_cong [rotated 2])
  have b: "heads_ok c3" if "declare_body g c2 = Ret c3" "heads_ok c2" for g c2 c3
    using that by (auto simp: declare_body_def split: option.splits intro!: heads_ok_update fold_same)
  show "declare_inside n A t c = Ret c' \<Longrightarrow> heads_ok c \<Longrightarrow> ?thesis"
  proof (cases t)
    case (TopLib l)
    then show "declare_inside n A t c = Ret c' \<Longrightarrow> heads_ok c \<Longrightarrow> ?thesis"
      using fold_out_preserves [of "declare_symbol n A (lib_path l)" heads_ok, OF s] by (auto simp: declare_inside_def)
  qed (auto simp: declare_inside_def intro: b fold_preserves [where P = heads_ok] m f
      intro!: fold_preserves [where P = heads_ok, OF m] fold_preserves [where P = heads_ok, OF f])
qed

lemma assign_ids_heads:
  assumes "assign_ids n ts = Ret (kept, c)"
  shows "heads_ok c"
proof -
  from assms obtain c1 c2 where h: "declare_tops ts new_compilation = Ret (kept, c1)"
    "fold_out (declare_inside n (scope_of kept)) kept c1 = Ret c2" "post_assign kept c2 = Ret c"
    by (auto simp: assign_ids_def outcome_simps)
  define c3 where "c3 = (if fs_func (comp_functions c2 ! MainFunctionId) = None then flag_error c2 else c2)"
  from h(3) obtain c4 where 4: "fold_out top_edges kept c3 = Ret c4"
    "fold_out (\<lambda>t c. obind (ir_type_id 3 t c) (\<lambda>(_, c). Ret c)) reserved_types c4 = Ret c"
    by (auto simp: post_assign_def c3_def outcome_simps)
  have "heads_ok new_compilation"
    by (simp add: heads_ok_def main_fine_def new_compilation_def blank_function_def MainFunctionId_def)
  moreover have "declare_tops us c5 = Ret (k, c6) \<Longrightarrow> heads_ok c5 \<Longrightarrow> heads_ok c6" for us c5 k c6
    by (induction us arbitrary: c5 k) (auto simp: outcome_simps dest!: declare_top_heads)
  ultimately have "heads_ok c1" using h(1) by blast
  then have "heads_ok c2" using fold_out_preserves [where P = heads_ok, OF _ h(2)] declare_inside_heads by blast
  then have "heads_ok c3" by (auto simp: c3_def intro: heads_ok_cong [of "flag_error c2" c2])
  moreover have "top_edges t c5 = Ret c6 \<Longrightarrow> heads_ok c5 \<Longrightarrow> heads_ok c6" for t c5 c6
    by (auto simp: top_edges_def func_edges_def split: toplevel.splits option.splits intro!: heads_ok_update fold_same block_edges_same)
  ultimately have "heads_ok c4" using fold_out_preserves [of top_edges heads_ok, OF _ 4(1)] by blast
  then show ?thesis
    by (rule fold_out_preserves [where P = heads_ok, OF _ 4(2), rotated]) (auto simp: outcome_simps intro: heads_ok_names)
qed

end
