(* ===== verification/LoadEmitted.thy ===== *)
theory LoadEmitted
  imports Toolchain
begin

text \<open>
  The loader's checks, one by one, on an emitted file, and their sum: what the passes accept and the
  emitter writes, the interpreter loads (\<open>emitted_loadable\<close>).
\<close>

subsection \<open>The sections of an emitted file\<close>

text \<open>Each section, with the compilation it was emitted from.\<close>

lemma emit_file_sections:
  assumes "emit_file E c = Ret f"
  obtains c1 c2 c3 c4 c5 where
    "f_strings f = map string_bytes (exec_strings c)"
    "map_out (emit_slot c) (comp_primitives c) = Ret (f_prim_methods f)"
    "map_state (emit_class E) (zip [0..<length (comp_classes c)] (comp_classes c)) c = Ret (f_classes f, c1)" "same_names c c1"
    "map_out (emit_slot c1) (complex_primitives c) = Ret (f_complex_prims f)"
    "map_state emit_lib (comp_libraries c) c1 = Ret (f_libs f, c2)" "same_names c c2"
    "map_state (emit_symbol E) (comp_symbols c) c2 = Ret (f_symbols f, c3)" "same_names c c3"
    "emit_functions E 0 (comp_functions c) [] c3 = Ret ((f_functions f, f_code f), c4)" "same_names c c4"
    "f_complex_types f = map emit_type (comp_types c4)"
    "same_names c1 c4" "same_names c2 c4" "same_names c3 c4"
proof -
  from assms obtain c1 c2 c3 c4 where h:
    "f_strings f = map string_bytes (exec_strings c)"
    "map_out (emit_slot c) (comp_primitives c) = Ret (f_prim_methods f)"
    "map_state (emit_class E) (zip [0..<length (comp_classes c)] (comp_classes c)) c = Ret (f_classes f, c1)"
    "map_out (emit_slot c1) (complex_primitives c1) = Ret (f_complex_prims f)"
    "map_state emit_lib (comp_libraries c1) c1 = Ret (f_libs f, c2)"
    "map_state (emit_symbol E) (comp_symbols c2) c2 = Ret (f_symbols f, c3)"
    "emit_functions E 0 (comp_functions c3) [] c3 = Ret ((f_functions f, f_code f), c4)"
    "f_complex_types f = map emit_type (comp_types c4)"
    by (auto simp: emit_file_def Let_def outcome_simps)
  have 1: "same_names c c1" by (rule keepsD [OF _ h(3)]) (auto intro!: keeps_intros)
  have 2: "same_names c1 c2" by (rule keepsD [OF _ h(5)]) (auto intro!: keeps_intros)
  have 3: "same_names c2 c3" by (rule keepsD [OF _ h(6)]) (auto intro!: keeps_intros)
  have 4: "same_names c3 c4" by (rule keepsD [OF _ h(7)]) (auto intro!: keeps_intros)
  have 5: "same_names c c2" using 1 2 by (rule same_names_trans)
  have 6: "same_names c c3" using 5 3 by (rule same_names_trans)
  have 7: "same_names c c4" using 6 4 by (rule same_names_trans)
  show thesis
  proof (rule that [OF h(1-3) 1 _ _ 5 _ 6 _ 7 h(8) _ _ 4])
    show "map_out (emit_slot c1) (complex_primitives c) = Ret (f_complex_prims f)" using h(4) same_namesD(8) [OF 1] by simp
    show "map_state emit_lib (comp_libraries c) c1 = Ret (f_libs f, c2)" using h(5) same_namesD(7) [OF 1] by simp
    show "map_state (emit_symbol E) (comp_symbols c) c2 = Ret (f_symbols f, c3)" using h(6) same_namesD(6) [OF 5] by simp
    show "emit_functions E 0 (comp_functions c) [] c3 = Ret ((f_functions f, f_code f), c4)" using h(7) same_namesD(5) [OF 6] by simp
    show "same_names c1 c4" "same_names c2 c4" using 2 3 4 by (blast intro: same_names_trans)+
  qed
qed

subsection \<open>Strings and symbols\<close>

lemma string_index:
  assumes "x \<in> set (exec_strings c)" "same_names c c1" "length (exec_strings c) < 2 ^ 64"
  shows "unat (id_word (find_id (exec_strings c1) x)) < length (exec_strings c)"
proof -
  obtain i where i: "find_id (exec_strings c) x = Some i" using assms(1) by (metis find_id_None not_None_eq)
  then have "i < length (exec_strings c)" by (auto dest: find_id_SomeD)
  moreover have "find_id (exec_strings c1) x = Some i" using assms(2) i by (auto simp: same_names_def find_id_mono)
  ultimately show ?thesis using assms(3) by (simp add: id_word_def unat_of_size)
qed

lemma emitted_lib_ok:
  assumes "emit_lib l c1 = Ret (y, c2)" "same_names c c1" "lib_path l \<in> set (exec_strings c)" "length (exec_strings c) < 2 ^ 64"
  shows "unat (fst y) < length (exec_strings c)"
proof -
  have "fst y = id_word (find_id (exec_strings (intern (lib_path l) c1)) (lib_path l))"
    using assms(1) by (cases y) (auto simp: emit_lib_def Let_def with_id_def split: option.splits)
  with string_index [OF assms(3) same_names_trans [OF assms(2) intern_same] assms(4)] show ?thesis by simp
qed

lemma emitted_symbol_ok:
  assumes r: "emit_symbol E (lp, s) c1 = Ret (y, c2)" and c1: "same_names c c1"
    and st: "isym_lhs s \<in> set (exec_strings c)" "isym_rhs s \<in> set (exec_strings c)" "length (exec_strings c) < 2 ^ 64"
    and l: "length (comp_libraries c) < 2 ^ 64"
  shows "unat (sym_lib y) < length (comp_libraries c) \<and> unat (sym_name y) < length (exec_strings c)
    \<and> unat (sym_version y) < length (exec_strings c)"
proof -
  let ?c = "intern lp c1"
  let ?c' = "intern (isym_rhs s) (intern (isym_lhs s) ?c)"
  have c: "same_names c ?c" "same_names c ?c'" using c1 intern_same same_names_trans by blast+
  from r obtain i where i: "get_library_id ?c lp = Some i" "sym_lib y = of_nat i"
    "sym_name y = id_word (find_id (exec_strings ?c') (isym_lhs s))" "sym_version y = id_word (find_id (exec_strings ?c') (isym_rhs s))"
    by (auto simp: emit_symbol_def Let_def with_id_def outcome_simps split: option.splits)
  have "get_library_id c lp = Some i" using i(1) same_names_lookups(8) [OF c(1)] by simp
  then have "i < length (comp_libraries c)" by (auto simp: get_library_id_def dest: find_id_SomeD)
  with i l string_index [OF st(1) c(2) st(3)] string_index [OF st(2) c(2) st(3)] show ?thesis
    by (simp add: unat_of_size)
qed

subsection \<open>Functions and methods\<close>

lemma emit_functions_heads:
  assumes "emit_functions E k Fs code c = Ret ((vfs, code'), c')"
  shows "list_all2 (\<lambda>F vf. \<exists>f c1 c2. fs_func F = Some f \<and> length (param_types vf) = length (fn_params f)
    \<and> length (labels vf) = length (fn_blocks f) \<and> emit_type_id E (fn_type f) c1 = Ret (return_type vf, c2)) Fs vfs"
  using assms
proof (induction Fs arbitrary: k code c vfs)
  case (Cons F Fs)
  then obtain vf code1 c1 vfs' where h: "emit_function E k F code c = Ret ((vf, code1), c1)"
    "emit_functions E (Suc k) Fs code1 c1 = Ret ((vfs', code'), c')" "vfs = vf # vfs'" by (auto simp: outcome_simps)
  have len: "map_state g xs s = Ret (ys, s') \<Longrightarrow> length ys = length xs" for g :: "ir_type \<Rightarrow> compilation \<Rightarrow> (32 word \<times> compilation) outcome" and xs s ys s'
    by (induction xs arbitrary: s ys) (auto simp: outcome_simps)
  have "\<exists>f c1 c2. fs_func F = Some f \<and> length (param_types vf) = length (fn_params f)
    \<and> length (labels vf) = length (fn_blocks f) \<and> emit_type_id E (fn_type f) c1 = Ret (return_type vf, c2)"
    using h(1) by (fastforce simp: emit_function_def outcome_simps split: option.splits dest: len emit_blocks_at)
  with Cons.IH [OF h(2)] h(3) show ?case by simp
qed simp

lemma emitted_none:
  assumes "emit_type_id E t c1 = Ret (w, c2)" "label t = LPrim PNone"
  shows "w = 0"
  using assms by (cases t; cases "alias_fuel E") (auto simp: emit_type_id_def with_type_def ir_type_id_simps)

lemma main_ok_emitted:
  assumes "param_types (vfs ! MainFunctionId) = []" "return_type (vfs ! MainFunctionId) = 0"
  shows "main_ok m vfs = Ret True"
  using assms by (simp add: main_ok_def subtype_step_def eval_nat_numeral)

lemma emplace_all_subset: "set (emplace_all es) \<subseteq> set es"
  by (induction es rule: emplace_all.induct) auto

lemma fixup_methods_ok:
  "\<forall>m \<in> set ms. unat (snd m) < length vfs \<and> (fst m = FinalizerMethodId \<longrightarrow> length (param_types (vfs ! unat (snd m))) = 1) \<Longrightarrow>
    fixup_methods vfs ms = Ret True"
  by (induction ms) (auto simp: outcome_simps)

text \<open>The method tables of a class: the functions exist, and a finalizer's takes one argument.\<close>

definition methods_fit :: "vfunction list \<Rightarrow> (64 word \<times> 64 word) list \<Rightarrow> bool" where
  "methods_fit vfs ms = (\<forall>m \<in> set ms. unat (snd m) < length vfs \<and>
     (fst m = FinalizerMethodId \<longrightarrow> length (param_types (vfs ! unat (snd m))) = 1))"

lemma fixup_class_ok:
  assumes "methods_fit vfs (cls_methods k)" "types_ok P" "unions_nonempty P" "list_all (\<lambda>f. id_ok P (snd f)) (cls_fields k)"
    and "\<And>ts. struct_offsets L ts \<noteq> None"
  shows "fixup_class L P vfs k = Ret True"
proof -
  have "fixup_methods vfs (emplace_all (cls_methods k)) = Ret True"
    using assms(1) emplace_all_subset by (intro fixup_methods_ok) (fastforce simp: methods_fit_def)
  moreover obtain reps where "field_layouts P (layout_fuel P) (cls_fields k) = Ret reps"
    using field_layouts_total [OF assms(2-4)] by blast
  then have "calc_size L P k = Ret True" using assms(5) by (simp add: calc_size_def)
  ultimately show ?thesis by (simp add: fixup_class_def)
qed

lemma emitted_methods_fit:
  assumes r: "map_out (emit_method c1) ms = Ret ys" and s: "same_names c c1" and ok: "list_all (method_ok c) ms"
    and F: "list_all2 (\<lambda>F vf. \<exists>f. fs_func F = Some f \<and> length (param_types vf) = length (fn_params f)) (comp_functions c) vfs"
    and h: "heads_ok c" and n: "length vfs < 2 ^ 64" "length (method_ids c) < 2 ^ 64"
  shows "methods_fit vfs ys"
  unfolding methods_fit_def
proof
  fix y assume "y \<in> set ys"
  with list_all2_member(2) [OF map_out_steps [OF r]] obtain x where x: "x \<in> set ms" "emit_method c1 x = Ret y" by blast
  obtain m g where [simp]: "x = (m, g)" by (cases x)
  from x(2) obtain i j where ij: "get_method_id c m = Some i" "get_func_id c g = Some j" "y = (of_nat i, of_nat j)"
    by (auto simp: emit_method_def with_id_def same_names_lookups [OF s] split: option.splits)
  have i: "i < length (method_ids c)" using ij(1) by (auto simp: get_method_id_def dest: find_id_SomeD)
  have j: "j < length (comp_functions c)" using ij(2)
    by (auto simp: get_func_id_def func_index_def dest: find_id_SomeD split: option.splits if_splits)
  have l: "length vfs = length (comp_functions c)" using F by (simp add: list_all2_lengthD)
  have uj: "unat (of_nat j :: 64 word) = j" using j l n by (simp add: unat_of_size)
  have "length (param_types (vfs ! j)) = 1" if "(of_nat i :: 64 word) = FinalizerMethodId"
  proof -
    have "unat (of_nat i :: 64 word) = i" using i n by (simp add: unat_of_size)
    with that have i0: "i = unat FinalizerMethodId" by simp
    from ok x(1) have "finalizer_ok c (m, g)" by (auto simp: list_all_iff method_ok_def)
    with ij i0 have p: "fs_params (comp_functions c ! j) = 1" by (simp add: finalizer_ok_def)
    obtain f where "fs_func (comp_functions c ! j) = Some f" "length (param_types (vfs ! j)) = length (fn_params f)"
      using F j by (auto simp: list_all2_conv_all_nth)
    with p h j show ?thesis by (auto simp: heads_ok_def)
  qed
  then show "unat (snd y) < length vfs \<and> (fst y = FinalizerMethodId \<longrightarrow> length (param_types (vfs ! unat (snd y))) = 1)"
    using ij(3) j l uj by simp
qed

subsection \<open>The whole file\<close>

text \<open>The counts the encoding has 64 bits for, and the numbers of types, which have 32.\<close>

definition counts :: "vbc_file \<Rightarrow> nat list" where
  "counts f = [length (f_strings f), length (f_classes f), length (f_complex_prims f), length (f_libs f), length (f_symbols f),
      length (f_functions f), length (f_complex_types f), length (f_memo f), length (f_code f)]
    @ map length (f_strings f) @ map length (f_prim_methods f) @ map length (f_complex_prims f)
    @ concat (map (\<lambda>k. [length (cls_fields k), length (cls_methods k)]) (f_classes f))
    @ concat (map (\<lambda>g. [length (param_types g), length (var_types g), length (labels g)]) (f_functions f))
    @ map (\<lambda>t. length (ct_children t)) (f_complex_types f) @ map (\<lambda>s. length (sym_params s)) (f_symbols f)"

definition counts_fit :: "vbc_file \<Rightarrow> bool" where
  "counts_fit f = (list_all (\<lambda>n. n < 2 ^ 64) (counts f)
     \<and> NumPrimitiveClasses + length (f_classes f) + length (f_complex_types f) < 2 ^ 32 - 1)"

text \<open>What the linker and libffi have to provide.\<close>

definition foreign_ok :: "loader_env \<Rightarrow> vbc_file \<Rightarrow> bool" where
  "foreign_ok L f = (list_all (\<lambda>s. has_symbol L (f_strings f ! unat (fst (f_libs f ! unat (sym_lib s))))
        (f_strings f ! unat (sym_name s)) (f_strings f ! unat (sym_version s)) \<and> prepare_ok L s) (f_symbols f)
     \<and> (\<forall>ts. struct_offsets L ts \<noteq> None))"

lemma counts_fitD:
  assumes "counts_fit f"
  shows "length (f_strings f) < 2 ^ 64" "\<forall>s \<in> set (f_strings f). length s < 2 ^ 64"
    "\<forall>ms \<in> set (f_prim_methods f). length ms < 2 ^ 64" "length (f_classes f) < 2 ^ 64" "list_all class_ok (f_classes f)"
    "length (f_complex_prims f) < 2 ^ 64" "\<forall>ms \<in> set (f_complex_prims f). length ms < 2 ^ 64"
    "length (f_libs f) < 2 ^ 64" "length (f_symbols f) < 2 ^ 64" "length (f_functions f) < 2 ^ 64"
    "g \<in> set (f_functions f) \<Longrightarrow> labels g \<noteq> [] \<Longrightarrow> function_ok g"
    "length (f_complex_types f) < 2 ^ 64" "\<forall>t \<in> set (f_complex_types f). length (ct_children t) < 2 ^ 64"
    "length (f_memo f) < 2 ^ 64" "length (f_code f) < 2 ^ 64" "\<forall>s \<in> set (f_symbols f). length (sym_params s) < 2 ^ 64"
  using assms by (auto simp: counts_fit_def counts_def list_all_iff class_ok_def function_ok_def)

lemma methods_fit_all:
  assumes r: "map_out (emit_slot c1) ps = Ret mss" and s: "same_names c c1"
    and ok: "\<And>ms. Some ms \<in> set ps \<Longrightarrow> list_all (method_ok c) ms"
    and F: "list_all2 (\<lambda>F vf. \<exists>f. fs_func F = Some f \<and> length (param_types vf) = length (fn_params f)) (comp_functions c) vfs"
    and h: "heads_ok c" and n: "length vfs < 2 ^ 64" "length (method_ids c) < 2 ^ 64"
  shows "\<forall>ms \<in> set mss. methods_fit vfs ms"
proof
  fix ms assume "ms \<in> set mss"
  with list_all2_member(2) [OF map_out_steps [OF r]] obtain p where p: "p \<in> set ps" "emit_slot c1 p = Ret ms" by blast
  show "methods_fit vfs ms"
  proof (cases p)
    case None
    with p show ?thesis by (simp add: emit_slot_def methods_fit_def)
  next
    case (Some xs)
    with p have "map_out (emit_method c1) xs = Ret ms" by (simp add: emit_slot_def)
    from emitted_methods_fit [OF this s ok F h n] p Some show ?thesis by simp
  qed
qed

lemma emitted_class_ok:
  assumes r: "emit_class E (k, cl) c1 = Ret (y, c2)" and s: "same_names c c1" "types_inv c" "same_names c2 c4" "numbers_fit c4"
    and ok: "list_all (method_ok c) (icls_methods cl)"
    and F: "list_all2 (\<lambda>F vf. \<exists>f. fs_func F = Some f \<and> length (param_types vf) = length (fn_params f)) (comp_functions c) vfs"
    and h: "heads_ok c" and n: "length vfs < 2 ^ 64" "length (method_ids c) < 2 ^ 64"
  shows "methods_fit vfs (cls_methods y) \<and> list_all (\<lambda>f. id_ok (table_of c4) (snd f)) (cls_fields y)"
proof -
  from r obtain fs ms where fm: "map_state (emit_field E) (icls_fields cl) c1 = Ret (fs, c2)"
    "map_out (emit_method c2) (icls_methods cl) = Ret ms" "cls_fields y = fs" "cls_methods y = ms"
    by (auto simp: emit_class_def outcome_simps)
  have c2: "same_names c c2" by (rule same_names_trans [OF s(1) keepsD [OF _ fm(1)]]) (auto intro!: keeps_intros)
  have fld: "same_names s1 s2" if "emit_field E x s1 = Ret (z, s2)" for x s1 z s2
    using keepsD [OF keeps_field [OF same_names_refl] that] .
  have st: "list_all2 (\<lambda>x z. \<exists>s1 s2. same_names c1 s1 \<and> emit_field E x s1 = Ret (z, s2)
      \<and> same_names s2 c2) (icls_fields cl) fs"
    by (rule map_state_steps [where f = "emit_field E", OF _ fm(1)]) (rule fld)
  have "id_ok (table_of c4) (snd z)" if "z \<in> set fs" for z
  proof -
    from list_all2_member(2) [OF st that] obtain x s1 s2
      where x: "same_names c1 s1" "emit_field E x s1 = Ret (z, s2)" "same_names s2 c2" by blast
    from x(2) obtain t where t: "emit_type_id E t s1 = Ret (snd z, s2)"
      by (auto simp: emit_field_def with_id_def outcome_simps split: option.splits prod.splits)
    have "types_inv s1" using s(1,2) x(1) by (simp add: same_names_def)
    from emitted_id_ok [OF t this same_names_trans [OF x(3) s(3)] s(4)] show ?thesis .
  qed
  moreover have "methods_fit vfs ms" by (rule emitted_methods_fit [OF fm(2) c2 ok F h n])
  ultimately show ?thesis using fm(3,4) by (simp add: list_all_iff)
qed


lemma ready_methods:
  assumes "tables_inv ts c" "list_all (ready c) ts"
  shows "Some ms \<in> set (comp_primitives c) \<or> Some ms \<in> set (complex_primitives c) \<Longrightarrow> list_all (method_ok c) ms"
    "cl \<in> set (comp_classes c) \<Longrightarrow> list_all (method_ok c) (icls_methods cl)"
proof -
  note r = assms [unfolded tables_inv_def list_all_iff [of _ ts]]
  show "list_all (method_ok c) ms" if p: "Some ms \<in> set (comp_primitives c) \<or> Some ms \<in> set (complex_primitives c)"
  proof -
    obtain u where "TopPrimitive u ms \<in> set ts" using r p by meson
    with r have "ready c (TopPrimitive u ms)" by blast
    then show ?thesis by (simp add: ready_def)
  qed
  show "list_all (method_ok c) (icls_methods cl)" if "cl \<in> set (comp_classes c)"
  proof -
    have "TopClass cl \<in> set ts" using r that by meson
    with r have "ready c (TopClass cl)" by blast
    then show ?thesis by (simp add: ready_def)
  qed
qed

text \<open>The functions of an emitted file: each has a block, the first is a main function.\<close>

lemma emitted_functions_ok:
  assumes r: "emit_functions E 0 (comp_functions c) [] c1 = Ret ((vfs, code), c2)" and h: "heads_ok c" "\<not> comp_error c"
  shows "vfs \<noteq> [] \<and> (\<forall>g \<in> set vfs. labels g \<noteq> []) \<and> main_ok m vfs = Ret True"
proof -
  note heads = emit_functions_heads [OF r]
  have n: "comp_functions c \<noteq> []" and fine: "main_fine c" using h by (auto simp: heads_ok_def)
  have "vfs \<noteq> []" using n list_all2_lengthD [OF heads] by auto
  moreover have "labels g \<noteq> []" if "g \<in> set vfs" for g
    using list_all2_member(2) [OF heads that] fine by (fastforce simp: main_fine_def)
  moreover have "main_ok m vfs = Ret True"
  proof (rule main_ok_emitted)
    have "MainFunctionId < length (comp_functions c)" using n by (simp add: MainFunctionId_def)
    from list_all2_nthD [OF heads this] obtain f d1 d2 where f: "fs_func (comp_functions c ! MainFunctionId) = Some f"
      "length (param_types (vfs ! MainFunctionId)) = length (fn_params f)"
      "emit_type_id E (fn_type f) d1 = Ret (return_type (vfs ! MainFunctionId), d2)" by blast
    with fine have p: "fn_params f = []" "label (fn_type f) = LPrim PNone" by (simp_all add: main_fine_def)
    show "param_types (vfs ! MainFunctionId) = []" using f(2) p(1) by simp
    show "return_type (vfs ! MainFunctionId) = 0" by (rule emitted_none [OF f(3) p(2)])
  qed
  ultimately show ?thesis by blast
qed

lemma all_ret_True: "(\<And>x. x \<in> set xs \<Longrightarrow> g x = Ret True) \<Longrightarrow> all_ret g xs = Ret True"
  by (induction xs) auto

lemma bare_class_ok:
  assumes "methods_fit vfs ms" "types_ok P" "unions_nonempty P" "\<And>ts. struct_offsets L ts \<noteq> None"
  shows "fixup_class L P vfs (bare_class ms) = Ret True"
  by (rule fixup_class_ok [OF _ assms(2,3) _ assms(4)]) (use assms(1) in \<open>simp_all add: bare_class_def\<close>)


lemma entry_same:
  "emit_lib l s = Ret (y, s') \<Longrightarrow> same_names s s'" "emit_symbol E p s = Ret (z, s') \<Longrightarrow> same_names s s'"
  "emit_class E k s = Ret (w, s') \<Longrightarrow> same_names s s'"
  using keepsD [OF keeps_lib [OF same_names_refl]] keepsD [OF keeps_symbol [OF same_names_refl]]
    keepsD [OF keeps_class [OF same_names_refl]] by blast+

text \<open>The tables of an emitted file, as far as the loader checks them.\<close>

lemma emitted_libs_ok:
  assumes r: "map_state emit_lib (comp_libraries c) c1 = Ret (ys, c2)" and s: "same_names c c1" "strings_inv c"
    and n: "length (exec_strings c) < 2 ^ 64"
  shows "list_all (lib_ok (map string_bytes (exec_strings c))) ys"
  unfolding list_all_iff lib_ok_def length_map
proof
  fix y assume y: "y \<in> set ys"
  have "list_all2 (\<lambda>x z. \<exists>s1 s2. same_names c1 s1 \<and> emit_lib x s1 = Ret (z, s2) \<and> same_names s2 c2) (comp_libraries c) ys"
    by (rule map_state_steps [where f = emit_lib, OF _ r]) (rule entry_same)
  from list_all2_member(2) [OF this y] obtain l s1 s2
    where l: "l \<in> set (comp_libraries c)" "same_names c1 s1" "emit_lib l s1 = Ret (y, s2)" by blast
  then have "lib_path l \<in> set (exec_strings c)" using s(2) by (simp add: strings_inv_def)
  from emitted_lib_ok [OF l(3) same_names_trans [OF s(1) l(2)] this n] show "unat (fst y) < length (exec_strings c)" .
qed

lemma emitted_symbols_ok:
  assumes r: "map_state (emit_symbol E) (comp_symbols c) c1 = Ret (ys, c2)" and s: "same_names c c1" "strings_inv c"
    and n: "length (exec_strings c) < 2 ^ 64" "length (comp_libraries c) < 2 ^ 64"
  shows "\<forall>y \<in> set ys. unat (sym_lib y) < length (comp_libraries c) \<and> unat (sym_name y) < length (exec_strings c)
    \<and> unat (sym_version y) < length (exec_strings c)"
proof
  fix y assume y: "y \<in> set ys"
  have "list_all2 (\<lambda>x z. \<exists>s1 s2. same_names c1 s1 \<and> emit_symbol E x s1 = Ret (z, s2) \<and> same_names s2 c2) (comp_symbols c) ys"
    by (rule map_state_steps [where f = "emit_symbol E", OF _ r]) (rule entry_same)
  from list_all2_member(2) [OF this y] obtain x s1 s2
    where x: "x \<in> set (comp_symbols c)" "same_names c1 s1" "emit_symbol E x s1 = Ret (y, s2)" by blast
  obtain lp q where q: "x = (lp, q)" by (cases x)
  then have "isym_lhs q \<in> set (exec_strings c)" "isym_rhs q \<in> set (exec_strings c)" using s(2) x(1) by (auto simp: strings_inv_def)
  from emitted_symbol_ok [OF x(3) [unfolded q] same_names_trans [OF s(1) x(2)] this n]
  show "unat (sym_lib y) < length (comp_libraries c) \<and> unat (sym_name y) < length (exec_strings c)
    \<and> unat (sym_version y) < length (exec_strings c)" .
qed

lemma emitted_classes_ok:
  assumes r: "map_state (emit_class E) (zip [0..<length (comp_classes c)] (comp_classes c)) c = Ret (ys, c1)"
    and s: "types_inv c" "same_names c1 c4" "numbers_fit c4"
    and ok: "\<And>cl. cl \<in> set (comp_classes c) \<Longrightarrow> list_all (method_ok c) (icls_methods cl)"
    and F: "list_all2 (\<lambda>F vf. \<exists>f. fs_func F = Some f \<and> length (param_types vf) = length (fn_params f)) (comp_functions c) vfs"
    and h: "heads_ok c" and n: "length vfs < 2 ^ 64" "length (method_ids c) < 2 ^ 64"
  shows "\<forall>y \<in> set ys. methods_fit vfs (cls_methods y) \<and> list_all (\<lambda>f. id_ok (table_of c4) (snd f)) (cls_fields y)"
proof
  fix y assume y: "y \<in> set ys"
  have "list_all2 (\<lambda>x z. \<exists>s1 s2. same_names c s1 \<and> emit_class E x s1 = Ret (z, s2) \<and> same_names s2 c1)
      (zip [0..<length (comp_classes c)] (comp_classes c)) ys"
    by (rule map_state_steps [where f = "emit_class E", OF _ r]) (rule entry_same)
  from list_all2_member(2) [OF this y] obtain x s1 s2 where x: "x \<in> set (zip [0..<length (comp_classes c)] (comp_classes c))"
    "same_names c s1" "emit_class E x s1 = Ret (y, s2)" "same_names s2 c1" by blast
  obtain k cl where q: "x = (k, cl)" by (cases x)
  with x(1) have "cl \<in> set (comp_classes c)" by (auto dest: set_zip_rightD)
  from emitted_class_ok [OF x(3) [unfolded q] x(2) s(1) same_names_trans [OF x(4) s(2)] s(3) ok [OF this] F h n]
  show "methods_fit vfs (cls_methods y) \<and> list_all (\<lambda>f. id_ok (table_of c4) (snd f)) (cls_fields y)" .
qed


lemma map_state_length: "map_state g xs s = Ret (ys, s') \<Longrightarrow> length ys = length xs"
  by (induction xs arbitrary: s ys) (auto simp: outcome_simps)

text \<open>What the two passes leave behind.\<close>

lemma passes_leave:
  assumes a: "assign_ids n ts = Ret (kept, c)" and v: "validate_ids m kept c = Ret c'" and e: "\<not> comp_error c'"
  shows "strings_inv c'" "heads_ok c'" "tables_inv ts c'" "list_all (ready c') ts" "types_grow c c'" "types_inv c'"
proof -
  note val = validate_idsD [OF v e]
  have ec: "\<not> comp_error c" using val(1) e by (auto simp: validated_from_def)
  have k: "kept = ts" using assign_ids_funcs(1) [OF a ec] .
  show "strings_inv c'" using assign_ids_strings [OF a] validate_ids_strings [OF v] by (simp add: strings_kept_def)
  show "heads_ok c'" using heads_ok_cong [OF _ _ assign_ids_heads [OF a], of c'] val(1) by (simp add: validated_from_def)
  show "tables_inv ts c'" using validate_ids_tables [OF v [unfolded k] assign_ids_tables [OF a ec]] .
  show "list_all (ready c') ts" using val k top_ok_ready by (auto simp: list_all_iff)
  show g: "types_grow c c'" by (rule validate_ids_types [OF v])
  then show "types_inv c'" using assign_ids_types [OF a] by (simp add: types_grow_def)
qed

lemma emitted_loadable:
  assumes a: "assign_ids n ts = Ret (kept, c)" and v: "validate_ids m kept c = Ret c'" and e: "\<not> comp_error c'"
    and em: "emit_file E c' = Ret f" and fit: "counts_fit f" "length (method_ids c') < 2 ^ 64"
    and u: "unions_nonempty (file_types f)" and L: "foreign_ok L f"
  shows "loadable L f"
proof -
  note pass = passes_leave [OF a v e] and cf = counts_fitD [OF fit(1)]
  obtain c1 c2 c3 c4 where s: "f_strings f = map string_bytes (exec_strings c')"
    "map_out (emit_slot c') (comp_primitives c') = Ret (f_prim_methods f)"
    "map_state (emit_class E) (zip [0..<length (comp_classes c')] (comp_classes c')) c' = Ret (f_classes f, c1)" "same_names c' c1"
    "map_out (emit_slot c1) (complex_primitives c') = Ret (f_complex_prims f)"
    "map_state emit_lib (comp_libraries c') c1 = Ret (f_libs f, c2)" "same_names c' c2"
    "map_state (emit_symbol E) (comp_symbols c') c2 = Ret (f_symbols f, c3)" "same_names c' c3"
    "emit_functions E 0 (comp_functions c') [] c3 = Ret ((f_functions f, f_code f), c4)" "same_names c' c4"
    "f_complex_types f = map emit_type (comp_types c4)" "same_names c1 c4"
    by (rule emit_file_sections [OF em])
  have libs: "length (f_libs f) = length (comp_libraries c')" and cls: "length (f_classes f) = length (comp_classes c')"
    using map_state_length [OF s(6)] map_state_length [OF s(3)] by simp_all
  have F: "list_all2 (\<lambda>F vf. \<exists>f. fs_func F = Some f \<and> length (param_types vf) = length (fn_params f)) (comp_functions c') (f_functions f)"
    using emit_functions_heads [OF s(10)] by (rule list_all2_mono) blast
  note fns = emitted_functions_ok [OF s(10) pass(2) e]
  have strs: "length (exec_strings c') < 2 ^ 64" using cf(1) s(1) by simp
  have l: "NumPrimitiveClasses + length (f_classes f) + length (f_complex_types f) < 2 ^ 32 - 1" using fit(1) by (simp add: counts_fit_def)
  have ok: "types_ok (file_types f)" by (rule emitted_types_ok [OF a pass(5) em l cf(13)])
  have m: "first_complex c4 = NumPrimitiveClasses + length (f_classes f)"
    using same_namesD(2) [OF s(11)] cls by (simp add: first_complex_def)
  then have "of_nat (first_complex c4) = num_ids f" by (simp add: num_ids_def)
  then have T: "file_types f = table_of c4" by (simp add: file_types_def table_of_def Let_def s(12))
  have fits: "numbers_fit c4" using l cf(13) s(12) m by (auto simp: numbers_fit_def DynId_def list_all_iff emit_type_def)
  have prims: "length (f_prim_methods f) = NumPrimitiveClasses"
    using list_all2_lengthD [OF map_out_steps [OF s(2)]] pass(3) by (simp add: tables_inv_def)
  note rm = ready_methods [OF pass(3,4)]
  have slots: "\<forall>ms \<in> set (f_prim_methods f) \<union> set (f_complex_prims f). methods_fit (f_functions f) ms"
    using methods_fit_all [OF s(2) same_names_refl _ F pass(2) cf(10) fit(2)] methods_fit_all [OF s(5) s(4) _ F pass(2) cf(10) fit(2)] rm(1)
    by blast
  have classes: "\<forall>y \<in> set (f_classes f). methods_fit (f_functions f) (cls_methods y) \<and> list_all (\<lambda>x. id_ok (file_types f) (snd x)) (cls_fields y)"
    using emitted_classes_ok [OF s(3) pass(6) s(13) fits rm(2) F pass(2) cf(10) fit(2)] by (simp add: T)
  have off: "\<And>ts. struct_offsets L ts \<noteq> None" using L by (simp add: foreign_ok_def)
  have fixup: "all_ret (fixup_class L (file_types f) (f_functions f)) (file_classes f) = Ret True"
    using slots classes bare_class_ok [OF _ ok u off] fixup_class_ok [OF _ ok u _ off]
    by (intro all_ret_True) (auto simp: file_classes_def)
  have lib: "list_all (lib_ok (f_strings f)) (f_libs f)"
    using emitted_libs_ok [OF s(6) s(4) pass(1) strs] by (simp add: s(1))
  have "length (comp_libraries c') < 2 ^ 64" using libs cf(8) by simp
  note syms = emitted_symbols_ok [OF s(8) s(7) pass(1) strs this]
  have sym: "list_all (symbol_ok L (f_strings f) (f_libs f)) (f_symbols f)"
    using syms lib L cf(16) s(1) libs by (auto simp: symbol_ok_def list_all_iff lib_ok_def foreign_ok_def)
  have sizes: "sizes_ok f"
    using cf fns prims ok unfolding sizes_ok_def
    by (auto simp: list_all_iff types_ok_def file_types_def all_set_conv_all_nth)
  have "predefined_ok (num_ids f) (f_complex_types f)" using emitted_predefined [OF a pass(5) em] l by simp
  with sizes lib sym fns fixup L show ?thesis by (simp add: loadable_def foreign_ok_def list_all_iff)
qed

end
