(* ===== verification/ThreadLemmas.thy ===== *)
theory ThreadLemmas
  imports Interpreter
begin

text \<open>
  What the control operations do to the frames and the registers of a thread. \<open>touches A m m'\<close>
  says that \<open>m'\<close> has the frames of \<open>m\<close>, as many registers, and the same value in each register
  outside \<open>A\<close>; every operation of a frame's end has a lemma that names its registers. A frame
  stack is well-formed (\<open>linked\<close>) when a frame's level is its position from the bottom and
  its registers start where its caller's end.
\<close>

definition touches :: "nat set \<Rightarrow> machine \<Rightarrow> machine \<Rightarrow> bool" where
  "touches A m m' \<longleftrightarrow> frames m' = frames m \<and> length (locals m') = length (locals m) \<and>
     (\<forall>i. i \<notin> A \<longrightarrow> locals m' ! i = locals m ! i)"

lemma touches_refl [simp]: "touches A m m"
  by (simp add: touches_def)

lemma touches_trans: "touches A m m' \<Longrightarrow> touches B m' m'' \<Longrightarrow> touches (A \<union> B) m m''"
  by (simp add: touches_def)

lemma touches_mono: "touches A m m' \<Longrightarrow> A \<subseteq> B \<Longrightarrow> touches B m m'"
  by (auto simp: touches_def)

lemma touchesD: "touches A m m' \<Longrightarrow> frames m' = frames m" "touches A m m' \<Longrightarrow> length (locals m') = length (locals m)"
  "touches A m m' \<Longrightarrow> i \<notin> A \<Longrightarrow> locals m' ! i = locals m ! i"
  by (auto simp: touches_def)

lemma on_heap_Ret: "on_heap f m = Ret m' \<Longrightarrow> \<exists>h. f (hp m) = Ret h \<and> m' = m\<lparr>hp := h\<rparr>"
  by (auto simp: on_heap_def outcome_simps)

lemma on_heap_touches: "on_heap f m = Ret m' \<Longrightarrow> touches {} m m'"
  by (auto dest!: on_heap_Ret simp: touches_def)

lemma assign_Ret:
  assumes "assign V i v m = Ret m'"
  shows "\<exists>h. m' = m\<lparr>locals := (locals m)[i := v], hp := h\<rparr> \<and> i < length (locals m)"
  using assms by (auto simp: assign_def reg_val_def put_reg_def outcome_simps dest!: on_heap_Ret)

lemma assign_touches: "assign V i v m = Ret m' \<Longrightarrow> touches {i} m m'"
  by (auto dest!: assign_Ret simp: touches_def)

lemma clear_touches: "clear_reg V i m = Ret m' \<Longrightarrow> touches {i} m m'"
  unfolding clear_reg_def by (rule assign_touches)

lemma each_touches:
  assumes "\<And>x m m'. x \<in> set xs \<Longrightarrow> f x m = Ret m' \<Longrightarrow> touches A m m'" "each f xs m = Ret m'"
  shows "touches A m m'"
  using assms
proof (induction xs arbitrary: m)
  case (Cons x xs)
  then obtain m1 where m1: "f x m = Ret m1" "each f xs m1 = Ret m'" by (auto simp: outcome_simps)
  have "touches A m1 m'" by (rule Cons.IH) (use Cons.prems m1 in auto)
  then have "touches (A \<union> A) m m'"
    using Cons.prems(1) [of x m m1] m1(1) by (intro touches_trans) auto
  then show ?case by simp
qed simp

lemma clear_each_touches: "each (clear_reg V) xs m = Ret m' \<Longrightarrow> touches (set xs) m m'"
  by (rule each_touches) (auto intro: touches_mono [OF clear_touches])

lemma cur_Ret [outcome_simps]: "cur m = Ret f \<longleftrightarrow> (\<exists>fs. frames m = f # fs)"
  by (auto simp: cur_def split: list.splits)

lemma frame_drop_touches:
  assumes "frame_drop V m = Ret m'" "frames m = f # fs" "frame_end V f = Ret e"
  shows "touches {fr_base f..<e} m m'"
proof -
  have "each (drop_local V) [fr_base f..<e] m = Ret m'"
    using assms by (auto simp: frame_drop_def outcome_simps)
  then show ?thesis
    by (rule each_touches [rotated])
      (auto simp: drop_local_def outcome_simps split: if_splits intro: touches_mono [OF clear_touches])
qed

lemma frame_drop_args_Ret:
  assumes "frame_drop_args V m = Ret m'" "frames m = f # fs" "frame_end V f = Ret e"
  shows "touches {e..<e + args m} m m' \<and> args m' = 0"
proof -
  have "each (clear_reg V) [e..<e + args m] (m\<lparr>args := 0\<rparr>) = Ret m'"
    using assms by (auto simp: frame_drop_args_def outcome_simps)
  moreover from clear_each_touches [OF this] have "touches {e..<e + args m} m m'"
    by (simp add: touches_def)
  moreover have "each (clear_reg V) xs m1 = Ret m2 \<Longrightarrow> args m2 = args m1" for xs m1 m2
    by (induction xs arbitrary: m1) (auto simp: outcome_simps clear_reg_def dest!: assign_Ret)
  ultimately show ?thesis by fastforce
qed

lemma frame_end_cases: "frame_drop_args V m = Ret m' \<Longrightarrow> frames m = f # fs \<Longrightarrow> \<exists>e. frame_end V f = Ret e"
  by (auto simp: frame_drop_args_def outcome_simps)

lemma finalize_stack_touches: "finalize_stack V i m = Ret m' \<Longrightarrow> touches {} m m'"
  by (auto simp: finalize_stack_def split: option.splits dest: on_heap_touches)

lemma forget_touches: "touches A m m' \<Longrightarrow> touches A m (forget_stack is (m'\<lparr>stk := s\<rparr>))"
  by (simp add: touches_def forget_stack_def)

lemma teardown_touches:
  assumes "teardown V tail m = Ret m'" "frames m = f # fs" "frame_end V f = Ret e"
  shows "touches {fr_base f..<e} m m'"
proof -
  let ?A = "{fr_base f..<e}"
  obtain m1 f1 ids m2 m3 where s: "frame_drop V m = Ret m1" "cur m1 = Ret f1"
    "each (finalize_stack V) ids m1 = Ret m2"
    "(if tail then Ret m2 else on_heap (\<lambda>h. obind (get_region (fr_region f1) h) (\<lambda>reg.
       obind (oassert (is_frame_local reg)) (\<lambda>_. collect_region (kont V) (fr_region f1) h))) m2) = Ret m3"
    "m' = forget_stack ids (m3\<lparr>stk := restore_top (fr_save f1) (stk m3)\<rparr>)"
    using assms(1) unfolding teardown_def by (auto simp only: obind_eq_Ret outcome.inject)
  have "touches {} m1 m2" by (rule each_touches [OF finalize_stack_touches s(3)])
  moreover have "touches {} m2 m3" using s(4) by (auto split: if_splits dest: on_heap_touches)
  ultimately have "touches (?A \<union> ({} \<union> {})) m m3"
    using frame_drop_touches [OF s(1) assms(2,3)] by (intro touches_trans)
  then show ?thesis using s(5) by (simp add: forget_touches)
qed

lemma drop_frame_simps [simp]:
  "frames (drop_frame m) = tl (frames m)" "locals (drop_frame m) = locals m" "args (drop_frame m) = args m"
  by (simp_all add: drop_frame_def)

lemma abandon_frame_Ret:
  assumes "abandon_frame V m = Ret m'" "frames m = f # fs"
  shows "frames m' = fs \<and> length (locals m') = length (locals m) \<and> (\<forall>i < fr_base f. locals m' ! i = locals m ! i)"
proof -
  obtain m1 m2 where s: "frame_drop_args V m = Ret m1" "teardown V False m1 = Ret m2" "m' = drop_frame m2"
    using assms(1) by (auto simp: abandon_frame_def outcome_simps)
  obtain e where e: "frame_end V f = Ret e" using frame_end_cases [OF s(1) assms(2)] by blast
  then have le: "fr_base f \<le> e" by (auto simp: frame_end_def outcome_simps)
  have t1: "touches {e..<e + args m} m m1" using frame_drop_args_Ret [OF s(1) assms(2) e] by simp
  then have "frames m1 = f # fs" using assms(2) by (simp add: touches_def)
  then have "touches {fr_base f..<e} m1 m2" by (rule teardown_touches [OF s(2) _ e])
  from touches_trans [OF t1 this] show ?thesis
    using s(3) assms(2) le by (auto simp: touches_def)
qed

subsection \<open>Returning\<close>

lemma grow_prefix: "\<exists>ys. grow n L = L @ ys"
proof (induction n L rule: grow.induct)
  case (1 n L)
  show ?case
  proof (cases "n \<le> length L \<or> L = []")
    case False
    with 1 obtain ys where "grow n (L @ replicate (length L) InvalidV) = (L @ replicate (length L) InvalidV) @ ys" by blast
    with False show ?thesis by (simp add: grow.simps [of n L])
  qed (simp add: grow.simps [of n L])
qed

lemma reserve_keeps: "i < length (locals m) \<Longrightarrow> locals (reserve n m) ! i = locals m ! i" "frames (reserve n m) = frames m"
  "length (locals m) \<le> length (locals (reserve n m))"
  using grow_prefix [of n "locals m"] by (auto simp: reserve_def nth_append)

lemma grow_enough: "L \<noteq> [] \<Longrightarrow> n \<le> length (grow n L)"
proof (induction n L rule: grow.induct)
  case (1 n L)
  then show ?case by (cases "n \<le> length L") (simp_all add: grow.simps [of n L])
qed

lemma grow_same: "n \<le> length L \<Longrightarrow> grow n L = L"
  by (simp add: grow.simps)

lemma escape_frame_touches: "escape_frame V ret m = Ret m' \<Longrightarrow> touches {} m m'"
  unfolding escape_frame_def by (auto simp: outcome_simps split: if_splits dest!: on_heap_touches)

lemma popframe_Ret:
  assumes "popframe V ret m = Ret m'" "frames m = f # g # fs" "fr_base f \<le> length (locals m)"
  shows "frames m' = g # fs \<and> locals m' ! (fr_base g + fr_dst f) = ret \<and>
    (\<forall>i < fr_base f. i \<noteq> fr_base g + fr_dst f \<longrightarrow> locals m' ! i = locals m ! i)"
proof -
  obtain m1 m2 m3 where s: "frame_drop_args V m = Ret m1" "escape_frame V ret m1 = Ret m2"
    "teardown V False m2 = Ret m3"
    "obind (local_at V (fr_dst f) (drop_frame m3)) (\<lambda>(i, m). assign V i ret m) = Ret m' \<or> frames (drop_frame m3) = []"
    "(if frames (drop_frame m3) = [] then assign V 0 ret (drop_frame m3)
      else obind (local_at V (fr_dst f) (drop_frame m3)) (\<lambda>(i, m). assign V i ret m)) = Ret m'"
    using assms(1,2) unfolding popframe_def by (auto simp: outcome_simps Let_def split: if_splits)
  obtain e where e: "frame_end V f = Ret e" using frame_end_cases [OF s(1) assms(2)] by blast
  then have le: "fr_base f \<le> e" by (auto simp: frame_end_def outcome_simps)
  have t1: "touches {e..<e + args m} m m1" using frame_drop_args_Ret [OF s(1) assms(2) e] by simp
  have t2: "touches {} m1 m2" by (rule escape_frame_touches [OF s(2)])
  have fr: "frames m2 = f # g # fs" using t1 t2 assms(2) by (simp add: touches_def)
  have t: "touches ({e..<e + args m} \<union> ({} \<union> {fr_base f..<e})) m m3"
    by (intro touches_trans [OF t1] touches_trans [OF t2] teardown_touches [OF s(3) fr e])
  then have f3: "frames m3 = f # g # fs" "length (locals m3) = length (locals m)"
    "\<And>i. i < fr_base f \<Longrightarrow> locals m3 ! i = locals m ! i"
    using assms(2) le by (auto simp: touches_def)
  obtain i m4 where l: "local_at V (fr_dst f) (drop_frame m3) = Ret (i, m4)" "assign V i ret m4 = Ret m'"
    using s(5) f3(1) by (auto simp: outcome_simps)
  have i: "i = fr_base g + fr_dst f" and m4: "m4 = reserve (Suc i) (drop_frame m3)"
    using l(1) f3(1) by (auto simp: local_at_def outcome_simps)
  obtain h where m': "m' = m4\<lparr>locals := (locals m4)[i := ret], hp := h\<rparr>" "i < length (locals m4)"
    using assign_Ret [OF l(2)] by blast
  have "j < fr_base f \<Longrightarrow> j \<noteq> i \<Longrightarrow> locals m' ! j = locals m ! j" for j
    using f3(2) f3(3) [of j] assms(3) m'(1) m4 reserve_keeps(1) [of j "drop_frame m3" "Suc i"] by simp
  then show ?thesis using i m' m4 f3(1) by (simp add: reserve_keeps)
qed

subsection \<open>Well-formed frame stacks\<close>

fun linked :: "vm \<Rightarrow> frame list \<Rightarrow> bool" where
  "linked V [] \<longleftrightarrow> True"
| "linked V (f # fs) \<longleftrightarrow> fr_func f < length (funcs (prog V)) \<and> fr_level f = length fs \<and>
     (case fs of [] \<Rightarrow> fr_base f = 0 | g # gs \<Rightarrow> frame_end V g = Ret (fr_base f)) \<and> linked V fs"

definition thread_ok :: "vm \<Rightarrow> machine \<Rightarrow> bool" where
  "thread_ok V m \<longleftrightarrow> linked V (frames m) \<and> locals m \<noteq> [] \<and>
     (frames m \<noteq> [] \<longrightarrow> fr_base (hd (frames m)) \<le> length (locals m))"

lemma frame_end_le: "frame_end V f = Ret e \<Longrightarrow> fr_base f \<le> e"
  by (auto simp: frame_end_def outcome_simps)

lemma linked_tl: "linked V fs \<Longrightarrow> linked V (tl fs)"
  by (cases fs) auto

lemma linked_drop: "linked V fs \<Longrightarrow> linked V (drop k fs)"
  by (induction k arbitrary: fs) (simp_all add: drop_Suc linked_tl)

lemma linked_level: "linked V fs \<Longrightarrow> i < length fs \<Longrightarrow> fr_level (fs ! i) = length fs - Suc i"
  by (induction fs arbitrary: i) (auto simp: nth_Cons split: nat.splits)

lemma linked_base: "linked V (f # g # fs) \<Longrightarrow> fr_base g \<le> fr_base f"
  by (auto dest: frame_end_le)

lemma linked_bases:
  "linked V (xs @ f # fs) \<Longrightarrow> fr_base f \<le> fr_base (hd (xs @ [f])) \<and> (\<forall>x \<in> set xs. fr_base f \<le> fr_base x)"
proof (induction xs)
  case (Cons y ys)
  then have "fr_base (hd (ys @ [f])) \<le> fr_base y" by (cases ys) (auto dest: frame_end_le)
  with Cons show ?case by auto
qed simp

lemma thread_ok_tl:
  assumes "linked V (f # fs)" "fr_base f \<le> length (locals m)" "locals m \<noteq> []" "frames m = fs"
  shows "thread_ok V m"
  using assms linked_base [of V f] by (cases fs) (auto simp: thread_ok_def dest: le_trans frame_end_le)

subsection \<open>Raising\<close>

lemma enc_level_eq: "n < 2 ^ 61 \<Longrightarrow> k < 2 ^ 61 \<Longrightarrow> enc (LStack n) = enc (LStack k) \<longleftrightarrow> n = k"
  using enc_inject [of "LStack n" "LStack k"] by (auto simp: loc_ok_def)

lemma enc_level_le:
  assumes "n < 2 ^ 61" "k < 2 ^ 61"
  shows "enc (LStack n) \<ge> enc (LStack k) \<longleftrightarrow> k \<le> n"
proof -
  have "unat (enc (LStack i)) = 8 * i + 1" if "i < 2 ^ 61" for i
    using that unfolding enc_def by (subst unat_of_small) auto
  with assms show ?thesis by (simp add: word_le_nat_alt)
qed

lemma escape_raise_touches: "escape_raise V t ret m = Ret m' \<Longrightarrow> touches {} m m'"
proof -
  assume e: "escape_raise V t ret m = Ret m'"
  obtain l where "location ret (hp m) = Ret l" using e by (auto simp: escape_raise_def outcome_simps)
  with e show ?thesis
    by (cases l) (auto simp: escape_raise_def on_heap_touches split: if_splits)
qed

text \<open>Each round of the loop abandons one frame, and it ends at the frame whose level is the target.\<close>

primrec abandon_frames :: "nat \<Rightarrow> vm \<Rightarrow> machine \<Rightarrow> machine outcome" where
  "abandon_frames 0 V m = Ret m"
| "abandon_frames (Suc k) V m = obind (abandon_frame V m) (abandon_frames k V)"

lemma abandon_frames_Ret:
  "abandon_frames k V m = Ret m' \<Longrightarrow> linked V (frames m) \<Longrightarrow> k \<le> length (frames m) \<Longrightarrow>
   frames m' = drop k (frames m) \<and> length (locals m') = length (locals m) \<and>
   (\<forall>i. (\<forall>f \<in> set (take k (frames m)). i < fr_base f) \<longrightarrow> locals m' ! i = locals m ! i)"
proof (induction k arbitrary: m)
  case (Suc k)
  then obtain f fs where f: "frames m = f # fs" by (cases "frames m") auto
  from Suc.prems(1) obtain m1 where m1: "abandon_frame V m = Ret m1" "abandon_frames k V m1 = Ret m'"
    by (auto simp: outcome_simps)
  note a = abandon_frame_Ret [OF m1(1) f]
  have "linked V (frames m1)" "k \<le> length (frames m1)" using Suc.prems f a by auto
  from Suc.IH [OF m1(2) this] show ?case using a f by simp
qed simp

lemma abandon_until_frames:
  assumes "linked V (frames m)" "length (frames m) = Suc t + k" "length (frames m) < 2 ^ 61" "k \<le> n"
  shows "abandon_until n V (\<lambda>f. enc (LStack (fr_level f)) = enc (LStack t)) m = abandon_frames k V m"
  using assms
proof (induction k arbitrary: m n)
  case 0
  then obtain f fs where f: "frames m = f # fs" by (cases "frames m") auto
  with 0 show ?case by (simp add: abandon_until.simps cur_def)
next
  case (Suc k)
  then obtain f fs where f: "frames m = f # fs" by (cases "frames m") auto
  obtain n' where n: "n = Suc n'" "k \<le> n'" using Suc.prems(4) by (cases n) auto
  have lev: "fr_level f = Suc t + k" "fr_level f < 2 ^ 61" "t < 2 ^ 61" using Suc.prems f by auto
  have ne: "enc (LStack (fr_level f)) \<noteq> enc (LStack t)"
    using lev(1) enc_level_eq [OF lev(2,3)] by simp
  have rest: "abandon_until n' V (\<lambda>f. enc (LStack (fr_level f)) = enc (LStack t)) m1 = abandon_frames k V m1"
    if "abandon_frame V m = Ret m1" for m1
  proof (rule Suc.IH)
    have "frames m1 = fs" using abandon_frame_Ret [OF that f] by simp
    then show "linked V (frames m1)" "length (frames m1) = Suc t + k" "length (frames m1) < 2 ^ 61" "k \<le> n'"
      using Suc.prems f n by auto
  qed
  show ?case using ne f n rest
    by (cases "abandon_frame V m") (simp_all add: abandon_until.simps [of "Suc n'"] cur_def)
qed

lemma raise_to_frames:
  assumes "linked V (frames m)" "length (frames m) < 2 ^ 61" "Suc t < length (frames m)"
  shows "raise_to V ret (enc (LStack t)) m = obind (escape_raise V t ret m) (\<lambda>m.
    obind (abandon_frames (length (frames m) - Suc t) V m) (popframe V ret))"
proof -
  obtain f fs where f: "frames m = f # fs" using assms(3) by (cases "frames m") auto
  have t: "fr_level f < 2 ^ 61" "t < 2 ^ 61" "t < fr_level f" using assms f by auto
  have idx: "raw_stack_index (enc (LStack t)) = Ret (of_nat t)"
    using t(2) by (intro enc_stack_index) (simp add: loc_ok_def)
  have un: "unat (of_nat t :: 64 word) = t" using t(2) by (intro unat_of_small) simp
  have loop: "abandon_until (length (frames m1)) V (\<lambda>f. enc (LStack (fr_level f)) = enc (LStack t)) m1
      = abandon_frames (length (frames m1) - Suc t) V m1"
    if "escape_raise V t ret m = Ret m1" for m1
  proof -
    have "frames m1 = frames m" using escape_raise_touches [OF that] by (simp add: touches_def)
    with assms show ?thesis by (intro abandon_until_frames) auto
  qed
  show ?thesis using t loop enc_level_le [OF t(2,1)] f
    by (cases "escape_raise V t ret m") (simp_all add: raise_to_def cur_def idx un enc_is_stack)
qed

text \<open>
  A raise that succeeds lands in the caller of the target: its frames and the registers below
  the target's are those of before, but for the destination of the target's call.
\<close>

lemma raise_to_Ret:
  assumes "raise_to V ret (enc (LStack (Suc t))) m = Ret m'" "thread_ok V m"
    "length (frames m) < 2 ^ 61" "Suc (Suc t) < length (frames m)"
    "drop (length (frames m) - Suc (Suc t)) (frames m) = f # g # fs"
  shows "frames m' = g # fs \<and> locals m' ! (fr_base g + fr_dst f) = ret \<and>
    (\<forall>i < fr_base f. i \<noteq> fr_base g + fr_dst f \<longrightarrow> locals m' ! i = locals m ! i)"
proof -
  let ?k = "length (frames m) - Suc (Suc t)"
  have l: "linked V (frames m)" and b: "fr_base (hd (frames m)) \<le> length (locals m)"
    using assms(2,4) by (auto simp: thread_ok_def)
  obtain m1 where s1: "escape_raise V (Suc t) ret m = Ret m1"
    "obind (abandon_frames (length (frames m1) - Suc (Suc t)) V m1) (popframe V ret) = Ret m'"
    using assms(1) unfolding raise_to_frames [OF l assms(3,4)] by (auto simp only: obind_eq_Ret)
  then have "frames m1 = frames m" by (simp add: escape_raise_touches [THEN touchesD(1)])
  with s1 obtain m2 where s: "escape_raise V (Suc t) ret m = Ret m1" "abandon_frames ?k V m1 = Ret m2" "popframe V ret m2 = Ret m'"
    by (auto simp only: obind_eq_Ret)
  have t: "frames m1 = frames m" "length (locals m1) = length (locals m)" "\<And>i. locals m1 ! i = locals m ! i"
    using escape_raise_touches [OF s(1)] by (auto simp: touches_def)
  have fr: "frames m = take ?k (frames m) @ f # g # fs" using assms(5) append_take_drop_id by metis
  note lb = linked_bases [of V "take ?k (frames m)" f "g # fs"]
  have low: "fr_base f \<le> fr_base x" if "x \<in> set (take ?k (frames m))" for x
    using lb that l fr by simp
  have "fr_base f \<le> fr_base (hd (take ?k (frames m) @ [f]))" using lb l fr by simp
  also have "hd (take ?k (frames m) @ [f]) = hd (frames m)" by (subst (2) fr) (simp add: hd_append)
  finally have "fr_base f \<le> fr_base (hd (frames m))" .
  with b have fb: "fr_base f \<le> length (locals m)" by simp
  note ab = abandon_frames_Ret [OF s(2)]
  have a: "frames m2 = f # g # fs" "length (locals m2) = length (locals m)" using ab t l assms(5) by auto
  have "locals m2 ! i = locals m ! i" if "i < fr_base f" for i
    using ab t l low less_le_trans [OF that] by auto
  note a = a this
  show ?thesis using popframe_Ret [OF s(3) a(1)] a(2,3) fb by auto
qed

end
