(* ===== verification/StepLemmas.thy ===== *)
theory StepLemmas
  imports ThreadLemmas
begin

text \<open>
  Every instruction keeps the frame stack well-formed. \<open>yields P x\<close> says that \<open>x\<close> returns only
  values with \<open>P\<close>; the rules \<open>wp\<close> take an operation on a well-formed thread to the rest of the
  instruction, and \<open>wp_pure\<close> passes over what does not touch the thread.
\<close>

named_theorems wp

definition yields :: "('a \<Rightarrow> bool) \<Rightarrow> 'a outcome \<Rightarrow> bool" where
  "yields P x \<longleftrightarrow> (\<forall>v. x = Ret v \<longrightarrow> P v)"

lemma yieldsD: "yields P x \<Longrightarrow> x = Ret v \<Longrightarrow> P v"
  by (simp add: yields_def)

lemma yields_bind: "yields P x \<Longrightarrow> (\<And>v. P v \<Longrightarrow> yields Q (f v)) \<Longrightarrow> yields Q (obind x f)"
  by (auto simp: yields_def outcome_simps)

lemma yields_bind2: "yields (\<lambda>(a, m). P m) x \<Longrightarrow> (\<And>a m. P m \<Longrightarrow> yields Q (f a m)) \<Longrightarrow>
  yields Q (obind x (\<lambda>(a, m). f a m))"
  by (auto simp: yields_def outcome_simps)

lemma yields_bind3: "yields (\<lambda>(a, b, m). P m) x \<Longrightarrow> (\<And>a b m. P m \<Longrightarrow> yields Q (f a b m)) \<Longrightarrow>
  yields Q (obind x (\<lambda>(a, b, m). f a b m))"
  by (auto simp: yields_def outcome_simps)

lemma yields_pure: "(\<And>v. yields Q (f v)) \<Longrightarrow> yields Q (obind x f)"
  by (auto simp: yields_def outcome_simps)

lemma yields_simps [wp]: "yields P (Raise e)" "yields P Stuck"
  by (simp_all add: yields_def)

lemma yields_Ret: "P v \<Longrightarrow> yields P (Ret v)"
  by (simp add: yields_def)

lemma yields_if [wp]: "(b \<Longrightarrow> yields P x) \<Longrightarrow> (\<not> b \<Longrightarrow> yields P y) \<Longrightarrow> yields P (if b then x else y)"
  by simp

lemma yields_option [wp]: "yields P x \<Longrightarrow> (\<And>a. yields P (f a)) \<Longrightarrow> yields P (case v of None \<Rightarrow> x | Some a \<Rightarrow> f a)"
  by (cases v) auto

lemma yields_prod [wp]: "(\<And>a b. yields P (f a b)) \<Longrightarrow> yields P (case v of (a, b) \<Rightarrow> f a b)"
  by (cases v) auto

lemma yields_prod_app [wp]: "(\<And>a b. yields P (f a b m)) \<Longrightarrow> yields P ((case v of (a, b) \<Rightarrow> f a b) m)"
  by (cases v) auto

lemma yields_Let [wp]: "yields P (f a) \<Longrightarrow> yields P (Let a f)"
  by simp

subsection \<open>What keeps the frames\<close>

text \<open>\<open>m'\<close> has the frames of \<open>m\<close>, up to their program counters and targets, and no fewer registers.\<close>

definition shape :: "frame \<Rightarrow> nat \<times> nat \<times> nat" where
  "shape f = (fr_func f, fr_level f, fr_base f)"

definition like :: "machine \<Rightarrow> machine \<Rightarrow> bool" where
  "like m m' \<longleftrightarrow> map shape (frames m') = map shape (frames m) \<and> length (locals m) \<le> length (locals m')"

lemma shape_eq: "shape f = shape g \<longleftrightarrow> fr_func f = fr_func g \<and> fr_level f = fr_level g \<and> fr_base f = fr_base g"
  by (simp add: shape_def)

lemma shape_end: "shape f = shape g \<Longrightarrow> frame_end V f = frame_end V g"
  by (simp add: shape_eq frame_end_def)

lemma linked_cong: "map shape fs = map shape gs \<Longrightarrow> linked V fs = linked V gs"
proof (induction fs arbitrary: gs)
  case (Cons f fs)
  then obtain g gs' where g: "gs = g # gs'" "shape f = shape g" "map shape fs = map shape gs'" by auto
  have "length fs = length gs'" using g(3) by (metis length_map)
  moreover have "(case fs of [] \<Rightarrow> fr_base f = 0 | h # hs \<Rightarrow> frame_end V h = Ret (fr_base f))
      = (case gs' of [] \<Rightarrow> fr_base g = 0 | h # hs \<Rightarrow> frame_end V h = Ret (fr_base g))"
    using g(2,3) by (auto simp: shape_eq frame_end_def split: list.splits)
  ultimately show ?case
    using Cons.IH [OF g(3)] g(2) unfolding g(1) linked.simps shape_eq by metis
qed simp

lemma like_ok:
  assumes "thread_ok V m" "like m m'"
  shows "thread_ok V m'"
proof -
  have s: "map shape (frames m') = map shape (frames m)" and n: "length (locals m) \<le> length (locals m')"
    using assms(2) by (auto simp: like_def)
  have "fr_base (hd (frames m')) = fr_base (hd (frames m)) \<and> frames m \<noteq> []" if "frames m' \<noteq> []"
    using s that by (cases "frames m"; cases "frames m'") (simp_all add: shape_eq)
  with assms(1) n linked_cong [OF s] show ?thesis by (auto simp: thread_ok_def)
qed

lemma touches_ok: "touches A m m' \<Longrightarrow> thread_ok V m \<Longrightarrow> thread_ok V m'"
  by (erule like_ok) (auto simp: like_def touches_def)

lemma ok_update [wp]:
  "thread_ok V m \<Longrightarrow> thread_ok V (m\<lparr>hp := h\<rparr>)" "thread_ok V m \<Longrightarrow> thread_ok V (m\<lparr>stk := s\<rparr>)"
  "thread_ok V m \<Longrightarrow> thread_ok V (m\<lparr>at_idx := ix\<rparr>)" "thread_ok V m \<Longrightarrow> thread_ok V (m\<lparr>finals := ps\<rparr>)"
  "thread_ok V m \<Longrightarrow> thread_ok V (m\<lparr>args := n\<rparr>)" "thread_ok V m \<Longrightarrow> thread_ok V (m\<lparr>memo := vs\<rparr>)"
  "thread_ok V m \<Longrightarrow> thread_ok V (m\<lparr>memo_busy := bs\<rparr>)" "thread_ok V m \<Longrightarrow> thread_ok V (m\<lparr>queue := q\<rparr>)"
  "thread_ok V m \<Longrightarrow> thread_ok V (m\<lparr>externals := x\<rparr>)" "thread_ok V m \<Longrightarrow> thread_ok V (m\<lparr>ffi_buffer := k\<rparr>)"
  "thread_ok V m \<Longrightarrow> thread_ok V (m\<lparr>extra_params := es\<rparr>)"
  by (simp_all add: thread_ok_def)

lemma ok_reserve [wp]: "thread_ok V m \<Longrightarrow> thread_ok V (reserve n m)"
  using reserve_keeps(2) [of n m] reserve_keeps(3) [of m n] by (auto simp: thread_ok_def)

lemma set_cur_ok:
  "thread_ok V m \<Longrightarrow> (\<And>f. fr_func (g f) = fr_func f \<and> fr_level (g f) = fr_level f \<and> fr_base (g f) = fr_base f) \<Longrightarrow>
   thread_ok V (set_cur g m)"
  by (erule like_ok) (auto simp: like_def set_cur_def shape_def split: list.splits)

lemma ok_frame_fields [wp]:
  "thread_ok V m \<Longrightarrow> thread_ok V (set_cur (\<lambda>f. f\<lparr>fr_pc := p\<rparr>) m)"
  "thread_ok V m \<Longrightarrow> thread_ok V (set_cur (\<lambda>f. f\<lparr>fr_raise := w\<rparr>) m)"
  "thread_ok V m \<Longrightarrow> thread_ok V (set_cur (\<lambda>f. f\<lparr>fr_finalize_top := Suc (fr_finalize_top f)\<rparr>) m)"
  by (erule set_cur_ok; simp)+

text \<open>An operation that keeps the frames, alone or before the rest of an instruction.\<close>

lemma keeps_intro: "(\<And>m'. x = Ret m' \<Longrightarrow> touches A m m') \<Longrightarrow> thread_ok V m \<Longrightarrow> yields (thread_ok V) x"
  by (auto simp: yields_def intro: touches_ok)

lemma on_heap_ok: "thread_ok V m \<Longrightarrow> yields (thread_ok V) (on_heap f m)"
  by (rule keeps_intro [OF on_heap_touches])

lemma assign_ok: "thread_ok V m \<Longrightarrow> yields (thread_ok V) (assign V i v m)"
  by (rule keeps_intro [OF assign_touches])

lemma put_reg_ok [wp]: "thread_ok V m \<Longrightarrow> thread_ok V (put_reg i v m)"
  by (simp add: put_reg_def thread_ok_def)

lemmas basic_wp [wp] = on_heap_ok assign_ok on_heap_ok [THEN yields_bind] assign_ok [THEN yields_bind]

lemma assign_borrow_ok: "thread_ok V m \<Longrightarrow> yields (thread_ok V) (assign_borrow V i v m)"
  unfolding assign_borrow_def by (rule wp | assumption)+

lemma assign_immortal_ok: "thread_ok V m \<Longrightarrow> yields (thread_ok V) (assign_immortal V i v m)"
  unfolding assign_immortal_def by (rule wp yields_pure | assumption)+

lemma assign_static_ok: "thread_ok V m \<Longrightarrow> yields (thread_ok V) (assign_static V i v m)"
  unfolding assign_static_def by (rule wp yields_pure | assumption)+

lemma clear_reg_ok: "thread_ok V m \<Longrightarrow> yields (thread_ok V) (clear_reg V i m)"
  unfolding clear_reg_def by (rule assign_ok)

text \<open>A pair that returns the thread.\<close>

abbreviation keeps :: "vm \<Rightarrow> ('a \<times> machine) outcome \<Rightarrow> bool" where
  "keeps V x \<equiv> yields (\<lambda>(a, m). thread_ok V m) x"

lemma keeps_Ret [wp]: "thread_ok V m \<Longrightarrow> keeps V (Ret (a, m))"
  by (simp add: yields_def)

text \<open>
  The general rules for sequencing: a step that returns the thread keeps it well-formed, any other
  value is arbitrary.
\<close>

lemma bind_machine: "yields (thread_ok V) (x :: machine outcome) \<Longrightarrow> (\<And>m. thread_ok V m \<Longrightarrow> yields Q (f m)) \<Longrightarrow> yields Q (obind x f)"
  by (rule yields_bind)

lemma bind_pair: "keeps V (x :: ('a \<times> machine) outcome) \<Longrightarrow> (\<And>a m. thread_ok V m \<Longrightarrow> yields Q (f a m)) \<Longrightarrow>
  yields Q (obind x (\<lambda>(a, m). f a m))"
  by (rule yields_bind2)

lemmas seq = bind_machine bind_pair yields_pure

lemma take_reg_ok: "thread_ok V m \<Longrightarrow> keeps V (take_reg i m)"
  unfolding take_reg_def by (rule wp seq | assumption)+

lemma local_at_ok: "thread_ok V m \<Longrightarrow> keeps V (local_at V i m)"
  unfolding local_at_def by (rule wp seq | assumption)+

lemma arg_at_ok: "thread_ok V m \<Longrightarrow> keeps V (arg_at V i m)"
  unfolding arg_at_def by (rule wp seq | assumption)+

lemmas assign_wp [wp] = assign_borrow_ok assign_immortal_ok assign_static_ok clear_reg_ok
  assign_borrow_ok [THEN yields_bind] assign_immortal_ok [THEN yields_bind] assign_static_ok [THEN yields_bind]
  clear_reg_ok [THEN yields_bind]

lemmas index_wp [wp] = take_reg_ok local_at_ok arg_at_ok
  take_reg_ok [THEN yields_bind2] local_at_ok [THEN yields_bind2] arg_at_ok [THEN yields_bind2]

lemma thread_arg_ok: "thread_ok V m \<Longrightarrow> keeps V (thread_arg V i m)"
  unfolding thread_arg_def by (rule wp seq | assumption)+


lemma fetch_ok: "thread_ok V m \<Longrightarrow> keeps V (fetch V m)"
  unfolding fetch_def by (rule wp seq | assumption)+

lemma fetch_signed_ok: "thread_ok V m \<Longrightarrow> keeps V (fetch_signed V m)"
  unfolding fetch_signed_def by (rule wp seq | assumption)+

lemmas fetch_wp [wp] = fetch_ok fetch_signed_ok fetch_ok [THEN yields_bind2] fetch_signed_ok [THEN yields_bind2]
  thread_arg_ok thread_arg_ok [THEN yields_bind2]

lemma fetch_nat_ok: "thread_ok V m \<Longrightarrow> keeps V (fetch_nat V m)"
  unfolding fetch_nat_def by (rule wp seq | assumption)+

lemma fetch_type_ok: "thread_ok V m \<Longrightarrow> keeps V (fetch_type V m)"
  unfolding fetch_type_def by (rule wp seq | assumption)+

lemma fetch_prim_ok: "thread_ok V m \<Longrightarrow> keeps V (fetch_prim V m)"
  unfolding fetch_prim_def by (rule wp seq | assumption)+

lemma fetch_region_type_ok: "thread_ok V m \<Longrightarrow> keeps V (fetch_region_type V m)"
  unfolding fetch_region_type_def by (rule wp seq | assumption)+

lemmas operand_wp [wp] = fetch_nat_ok fetch_type_ok fetch_prim_ok fetch_region_type_ok
  fetch_nat_ok [THEN yields_bind2] fetch_type_ok [THEN yields_bind2] fetch_prim_ok [THEN yields_bind2]
  fetch_region_type_ok [THEN yields_bind2]

abbreviation keeps3 :: "vm \<Rightarrow> ('a \<times> 'b \<times> machine) outcome \<Rightarrow> bool" where
  "keeps3 V x \<equiv> yields (\<lambda>(a, b, m). thread_ok V m) x"

lemma keeps3_Ret [wp]: "thread_ok V m \<Longrightarrow> keeps3 V (Ret (a, b, m))"
  by (simp add: yields_def)

lemma fetch_class_ok: "thread_ok V m \<Longrightarrow> keeps3 V (fetch_class V m)"
  unfolding fetch_class_def by (rule wp seq | assumption)+

lemma local_first_ok: "thread_ok V m \<Longrightarrow> keeps V (local_first V m)"
  unfolding local_first_def by (rule wp seq | assumption)+

lemmas class_wp [wp] = fetch_class_ok [THEN yields_bind3] local_first_ok local_first_ok [THEN yields_bind2]

lemma local_next_ok: "thread_ok V m \<Longrightarrow> keeps V (local_next V m)"
  unfolding local_next_def by (rule wp seq | assumption)+

lemma move_first_ok: "thread_ok V m \<Longrightarrow> keeps V (move_first V m)"
  unfolding move_first_def by (rule wp seq | assumption)+

lemma next_arg_ok: "thread_ok V m \<Longrightarrow> keeps V (next_arg V m)"
  unfolding next_arg_def by (rule wp seq | assumption)+

lemmas next_wp [wp] = local_next_ok move_first_ok next_arg_ok local_next_ok [THEN yields_bind2]
  move_first_ok [THEN yields_bind2] next_arg_ok [THEN yields_bind2]

lemma move_next_ok: "thread_ok V m \<Longrightarrow> keeps V (move_next V m)"
  unfolding move_next_def by (rule wp seq | assumption)+

lemma read_const_ok: "thread_ok V m \<Longrightarrow> keeps V (read_const V t m)"
  unfolding read_const_def by (cases t; simp only: primitive.case; (rule wp seq | assumption)+)

lemmas read_wp [wp] = move_next_ok read_const_ok move_next_ok [THEN yields_bind2] read_const_ok [THEN yields_bind2]

lemma with_dst_ok [wp]: "thread_ok V m \<Longrightarrow> (\<And>d m. thread_ok V m \<Longrightarrow> yields P (f d m)) \<Longrightarrow> yields P (with_dst V f m)"
  unfolding with_dst_def by (rule wp seq | assumption)+

lemma with_src_ok [wp]: "thread_ok V m \<Longrightarrow> (\<And>v m. thread_ok V m \<Longrightarrow> yields P (f v m)) \<Longrightarrow> yields P (with_src V f m)"
  unfolding with_src_def by (rule wp seq | assumption)+

subsection \<open>Control\<close>

lemma each_ok: "P s \<Longrightarrow> (\<And>x s. P s \<Longrightarrow> yields P (f x s)) \<Longrightarrow> yields P (each f xs s)"
proof (induction xs arbitrary: s)
  case (Cons x xs)
  show ?case unfolding each.simps by (rule yields_bind [of P]) (fact Cons.prems(2) [OF Cons.prems(1)], rule Cons.IH [OF _ Cons.prems(2)])
qed (simp add: yields_def)

lemmas each_wp [wp] = each_ok [where P = "thread_ok V" for V] each_ok [where P = "thread_ok V" for V, THEN yields_bind]

lemma Ret_ok [wp]: "thread_ok V m \<Longrightarrow> yields (thread_ok V) (Ret m)"
  by (rule yields_Ret)

lemma drop_local_ok [wp]: "thread_ok V m \<Longrightarrow> yields (thread_ok V) (drop_local V i m)"
  unfolding drop_local_def by (rule wp seq | assumption)+

lemma frame_drop_ok: "thread_ok V m \<Longrightarrow> yields (thread_ok V) (frame_drop V m)"
  unfolding frame_drop_def by (rule wp seq | assumption)+

lemma frame_drop_args_ok: "thread_ok V m \<Longrightarrow> yields (thread_ok V) (frame_drop_args V m)"
  unfolding frame_drop_args_def by (rule wp seq | assumption)+

lemmas drop_wp [wp] = frame_drop_ok frame_drop_args_ok frame_drop_ok [THEN yields_bind] frame_drop_args_ok [THEN yields_bind]

lemma drop_args_ok: "thread_ok V m \<Longrightarrow> yields (thread_ok V) (drop_args V m)"
  unfolding drop_args_def by (rule wp seq | assumption)+

lemma fail_args_ok [wp]: "yields P (fail_args V e m)"
  unfolding fail_args_def by (rule wp seq | assumption)+

lemma args_fit_ok: "thread_ok V m \<Longrightarrow> keeps V (args_fit V i ts m)"
proof (induction ts arbitrary: i m)
  case (Cons t ts)
  show ?case unfolding args_fit.simps
    by (rule wp seq Cons.IH Cons.prems | assumption)+
qed (simp add: yields_def)

lemmas args_wp [wp] = drop_args_ok args_fit_ok drop_args_ok [THEN yields_bind] args_fit_ok [THEN yields_bind2]

lemma check_args_ok: "thread_ok V m \<Longrightarrow> yields (thread_ok V) (check_args V ts m)"
  unfolding check_args_def by (rule wp seq | assumption)+

lemma try_check_args_ok: "thread_ok V m \<Longrightarrow> keeps V (try_check_args V ts m)"
  unfolding try_check_args_def by (rule wp seq | assumption)+

lemma check_field_args_ok: "thread_ok V m \<Longrightarrow> yields (thread_ok V) (check_field_args V c m)"
  unfolding check_field_args_def by (rule seq check_args_ok | assumption)+

lemma store_invalid_ok: "thread_ok V m \<Longrightarrow> yields (thread_ok V) (store_invalid V d m)"
  unfolding store_invalid_def by (rule wp seq | assumption)+

lemma push_checked_ok:
  assumes "thread_ok V m"
  shows "yields (thread_ok V) (push_checked V g dst m)"
proof -
  have "thread_ok V m'" if p: "push_checked V g dst m = Ret m'" for m'
  proof -
    obtain fn level base fin where s: "func_at V g = Ret fn"
      "(case frames m of [] \<Rightarrow> Ret (0, 0, 0)
       | f # fs \<Rightarrow> obind (frame_end V f) (\<lambda>e. Ret (Suc (fr_level f), e, fr_finalize_top f))) = Ret (level, base, fin)"
      "\<exists>f. frames m' = f # frames m \<and> fr_func f = g \<and> fr_level f = level \<and> fr_base f = base \<and>
        locals m' = locals (reserve (base + unat (registers fn)) m)"
      using p by (fastforce simp: push_checked_def outcome_simps Let_def reserve_keeps(2) split: prod.splits)
    have "level = length (frames m)" "case frames m of [] \<Rightarrow> base = 0 | f # fs \<Rightarrow> frame_end V f = Ret base"
      using s(2) assms by (auto simp: thread_ok_def outcome_simps split: list.splits)
    moreover have "g < length (funcs (prog V))" using s(1) by (simp add: func_at_def outcome_simps)
    moreover have "locals (reserve (base + unat (registers fn)) m) \<noteq> []" "base \<le> length (locals (reserve (base + unat (registers fn)) m))"
      using assms grow_enough [of "locals m" "base + unat (registers fn)"] reserve_keeps(3) [of m "base + unat (registers fn)"]
      by (auto simp: thread_ok_def reserve_def)
    ultimately show ?thesis using s(3) assms by (auto simp: thread_ok_def)
  qed
  then show ?thesis by (simp add: yields_def)
qed

lemmas push_wp [wp] = push_checked_ok store_invalid_ok check_args_ok [THEN yields_bind] try_check_args_ok [THEN yields_bind2]
  check_field_args_ok [THEN yields_bind]

lemma pushframe_ok [wp]: "thread_ok V m \<Longrightarrow> yields (thread_ok V) (pushframe V g dst m)"
  unfolding pushframe_def by (rule wp seq | assumption)+

lemma try_pushframe_ok [wp]: "thread_ok V m \<Longrightarrow> yields (thread_ok V) (try_pushframe V g dst m)"
  unfolding try_pushframe_def by (rule wp seq | assumption)+

lemma forget_stack_ok [wp]: "thread_ok V m \<Longrightarrow> thread_ok V (forget_stack is m)"
  unfolding forget_stack_def Let_def by (rule wp | assumption)+

lemma finalize_stack_ok [wp]: "thread_ok V m \<Longrightarrow> yields (thread_ok V) (finalize_stack V i m)"
  unfolding finalize_stack_def by (rule wp seq | assumption)+

lemma drop_frame_ok [wp]: "thread_ok V m \<Longrightarrow> thread_ok V (drop_frame m)"
proof (cases "frames m")
  case (Cons f fs)
  assume "thread_ok V m"
  with Cons show ?thesis by (intro thread_ok_tl [of V f fs]) (auto simp: thread_ok_def)
qed (simp add: thread_ok_def)

lemma teardown_ok [wp]: "thread_ok V m \<Longrightarrow> yields (thread_ok V) (teardown V tail m)"
  unfolding teardown_def by (rule wp seq | assumption)+

lemma abandon_frame_ok [wp]: "thread_ok V m \<Longrightarrow> yields (thread_ok V) (abandon_frame V m)"
  unfolding abandon_frame_def by (rule wp seq | assumption)+

lemma abandon_until_ok [wp]: "thread_ok V m \<Longrightarrow> yields (thread_ok V) (abandon_until n V stop m)"
proof (induction n arbitrary: m)
  case (Suc n)
  show ?case unfolding abandon_until.simps [of "Suc n"] nat.case
    by (rule wp seq Suc.IH Suc.prems | assumption)+
qed (auto simp: abandon_until.simps yields_def outcome_simps split: if_splits)

lemma abandon_down_to_ok [wp]: "thread_ok V m \<Longrightarrow> yields (thread_ok V) (abandon_down_to n V d m)"
proof (induction n arbitrary: m)
  case (Suc n)
  show ?case unfolding abandon_down_to.simps [of "Suc n"] nat.case
    by (rule wp seq Suc.IH Suc.prems | assumption)+
qed (simp add: abandon_down_to.simps yields_def)

lemma teardown_all_ok [wp]: "thread_ok V m \<Longrightarrow> yields (thread_ok V) (teardown_all V m)"
  unfolding teardown_all_def by (rule wp)

lemma escape_frame_ok [wp]: "thread_ok V m \<Longrightarrow> yields (thread_ok V) (escape_frame V ret m)"
  unfolding escape_frame_def by (rule wp seq | assumption)+

lemma popframe_ok [wp]: "thread_ok V m \<Longrightarrow> yields (thread_ok V) (popframe V ret m)"
  unfolding popframe_def by (rule wp seq | assumption)+

lemma escape_raise_ok [wp]: "thread_ok V m \<Longrightarrow> yields (thread_ok V) (escape_raise V t ret m)"
  by (rule keeps_intro [OF escape_raise_touches])

lemma raise_to_ok [wp]: "thread_ok V m \<Longrightarrow> yields (thread_ok V) (raise_to V ret t m)"
  unfolding raise_to_def by (rule wp seq | assumption)+

lemma tail_arg_ok: "thread_ok V m \<Longrightarrow> keeps V (tail_arg V i (esc, m))"
  unfolding tail_arg_def prod.case by (rule wp seq | assumption)+

lemma enter_ok [wp]:
  "thread_ok V m \<Longrightarrow> g < length (funcs (prog V)) \<Longrightarrow> thread_ok V (set_cur (\<lambda>f. f\<lparr>fr_func := g, fr_pc := p\<rparr>) m)"
  by (cases "frames m") (auto simp: thread_ok_def set_cur_def split: list.splits)

lemma tailcall_ok [wp]:
  assumes "thread_ok V m"
  shows "yields (thread_ok V) (tailcall V g m)"
proof (cases g)
  case (Some g)
  have args: "keeps V (each (tail_arg V) xs (esc, m))" if "thread_ok V m" for xs esc m
    by (rule each_ok [where P = "\<lambda>(esc, m). thread_ok V m"]) (auto simp: that intro: tail_arg_ok)
  show ?thesis
  proof (cases "g < length (funcs (prog V))")
    case True
    show ?thesis unfolding tailcall_def Some option.case
      by (rule wp args seq True assms | assumption)+
  qed (simp add: tailcall_def Some func_at_def yields_def)
qed (simp add: tailcall_def yields_def)

lemma branch_ok [wp]: "thread_ok V m \<Longrightarrow> yields (thread_ok V) (branch V l m)"
  unfolding branch_def by (rule wp seq | assumption)+

subsection \<open>Instructions\<close>

lemma check_closure_ok [wp]: "thread_ok V m \<Longrightarrow> yields (thread_ok V) (check_closure V v t m)"
  unfolding check_closure_def by (rule wp seq | assumption)+

lemma from_exchange_ok [wp]: "thread_ok V m \<Longrightarrow> yields (thread_ok V) (from_exchange mv V d r v m)"
proof -
  assume m: "thread_ok V m"
  have reg: "keeps V (register_exchange mv V i f v m)" if "thread_ok V m" for i f m
    using that unfolding register_exchange_def by - (rule wp seq | assumption)+
  have "keeps V (reference_exchange mv V r v m)"
    unfolding reference_exchange_def Let_def
    by (cases r; simp only: val.case; (rule wp reg seq m | assumption)+)
  with m show ?thesis unfolding from_exchange_def by - (rule wp seq | assumption)+
qed

lemma from_load_ok [wp]: "thread_ok V m \<Longrightarrow> yields (thread_ok V) (from_load V d r m)"
  unfolding from_load_def by (rule wp seq | assumption)+

lemma from_field_ref_ok [wp]: "thread_ok V m \<Longrightarrow> yields (thread_ok V) (from_field_ref mv V d v fid m)"
  unfolding from_field_ref_def by (cases v; simp only: val.case; (rule wp seq | assumption)+)

lemma from_array_ref_ok [wp]: "thread_ok V m \<Longrightarrow> yields (thread_ok V) (from_array_ref mv V d v i m)"
  unfolding from_array_ref_def by (cases v; simp only: val.case; (rule wp seq | assumption)+)

lemma take_args_ok [wp]: "thread_ok V m \<Longrightarrow> keeps V (take_args V n m)"
proof -
  assume m: "thread_ok V m"
  have slots: "thread_ok V (reserve k m\<lparr>locals := take e L @ replicate n InvalidV @ drop (e + n) L\<rparr>)"
    if "L = locals (reserve k m)" "k = e + n" for k e L
  proof (rule like_ok [OF ok_reserve [OF m, of k]])
    have "L \<noteq> []" using ok_reserve [OF m, of k] that(1) by (simp add: thread_ok_def)
    moreover have "locals m \<noteq> []" using m by (simp add: thread_ok_def)
    ultimately have "e + n \<le> length L" using grow_enough [of "locals m" k] that by (simp add: reserve_def)
    then show "like (reserve k m) (reserve k m\<lparr>locals := take e L @ replicate n InvalidV @ drop (e + n) L\<rparr>)"
      using that by (simp add: like_def)
  qed
  with m show ?thesis unfolding take_args_def Let_def by - (rule wp seq slots refl | assumption)+
qed

lemma init_object_ok [wp]: "thread_ok V m \<Longrightarrow> yields (thread_ok V) (init_object V p c m)"
  unfolding init_object_def by (rule wp seq | assumption)+

lemma object_in_ok [wp]: "thread_ok V m \<Longrightarrow> yields (thread_ok V) (object_in V d r t c m)"
  unfolding object_in_def by (rule wp seq | assumption)+

lemma alloc_on_stack_ok [wp]: "thread_ok V m \<Longrightarrow> keeps V (alloc_on_stack sz t arr slots m)"
  unfolding alloc_on_stack_def by (rule wp seq | assumption)+

lemma push_finalizer_ok [wp]: "thread_ok V m \<Longrightarrow> yields (thread_ok V) (push_finalizer V p m)"
  unfolding push_finalizer_def by (rule wp seq | assumption)+

lemma array_in_ok [wp]: "thread_ok V m \<Longrightarrow> yields (thread_ok V) (array_in V d r t n m)"
  unfolding array_in_def by (rule wp seq | assumption)+

lemma stack_array_ok [wp]: "thread_ok V m \<Longrightarrow> yields (thread_ok V) (stack_array V d t n m)"
  unfolding stack_array_def by (rule wp seq | assumption)+

lemma size_and_type_ok: "thread_ok V m \<Longrightarrow> keeps3 V (size_and_type V m)"
  unfolding size_and_type_def by (rule wp seq | assumption)+

lemma type_and_const_ok: "thread_ok V m \<Longrightarrow> keeps3 V (type_and_const V m)"
  unfolding type_and_const_def by (rule wp seq | assumption)+

lemmas operands_wp [wp] = size_and_type_ok [THEN yields_bind3] type_and_const_ok [THEN yields_bind3]

lemma arg_val_ok [wp]: "thread_ok V m \<Longrightarrow> keeps V (arg_val V i m)"
  unfolding arg_val_def by (rule wp seq | assumption)+

lemmas instruction_defs = i_const_def i_string_def i_convert_def i_singleton_def i_new_def i_stack_def
  i_heap_def i_region_def i_new_array_def i_new_array_const_def i_stack_array_def i_stack_array_const_def
  i_heap_array_def i_heap_array_const_def i_region_array_def i_region_array_const_def i_copy_def i_move_def
  i_drop_def i_freeze_def i_register_ref_def i_field_ref_move_def i_field_ref_copy_def i_array_ref_move_def
  i_array_ref_copy_def i_array_ref_move_const_def i_array_ref_copy_const_def i_load_def i_store_move_def
  i_store_copy_def i_lookup_dynamic_def i_lookup_ffi_def i_arg_move_def i_arg_copy_def i_call_static_def
  i_call_dynamic_def i_try_call_dynamic_def i_typetest_def i_tailcall_static_def i_tailcall_dynamic_def
  i_return_def i_raise_def i_cond_def i_jump_def i_bin_def i_un_def i_read_def i_ptr_def i_get_raise_def
  i_set_raise_def i_constant_def i_pin_def i_unpin_def i_merge_def i_array_copy_def i_array_fill_def
  i_array_compare_def i_add_external_def i_remove_external_def i_free_callback_def i_code_ptr_callback_def
  i_make_callback_def i_ffi_load_def i_ffi_store_def

lemma exec_plain:
  assumes "thread_ok V m" "op \<notin> {OFFI, OWhenStatic, OWhenDynamic, OFFIStruct, OMemoLoad}"
  shows "yields (thread_ok V) (exec V R op m)"
  using assms(2)
  apply (cases op)
  apply (simp_all add: instruction_defs)
  apply (rule wp seq assms(1) | assumption)+
  done

lemma symbol_call_ok [wp]: "thread_ok V m \<Longrightarrow> keeps V (symbol_call V i y vs m)"
  unfolding symbol_call_def by (rule wp seq | assumption)+

lemma i_ffi_ok: "thread_ok V m \<Longrightarrow> yields (thread_ok V) (i_ffi V m)"
  unfolding i_ffi_def by (rule wp seq | assumption)+

lemma fresh_array_ok [wp]: "thread_ok V m \<Longrightarrow> keeps V (fresh_array V r t n m)"
  unfolding fresh_array_def by (rule wp seq | assumption)+

lemma put_slot_ok [wp]: "thread_ok V m \<Longrightarrow> yields (thread_ok V) (put_slot V p iv m)"
  unfolding put_slot_def by (rule wp seq | assumption)+

lemma i_ffi_struct_ok: "thread_ok V m \<Longrightarrow> yields (thread_ok V) (i_ffi_struct V m)"
  unfolding i_ffi_struct_def by (rule wp seq | assumption)+

lemma check_cown_arg_ok [wp]: "thread_ok V m \<Longrightarrow> yields (thread_ok V) (check_cown_arg V a m)"
  unfolding check_cown_arg_def by (rule wp seq | assumption)+

lemma take_cown_ok: "thread_ok V m \<Longrightarrow> keeps V (take_cown a (cs, m))"
  unfolding take_cown_def prod.case by (rule wp seq | assumption)+

lemma take_cowns_ok [wp]: "thread_ok V m \<Longrightarrow> keeps V (each take_cown xs (cs, m))"
  by (rule each_ok [where P = "\<lambda>(cs, m). thread_ok V m"]) (auto intro: take_cown_ok)

lemma capture_closure_ok [wp]: "thread_ok V m \<Longrightarrow> keeps V (capture_closure V a m)"
  unfolding capture_closure_def by (rule wp seq | assumption)+

lemma queue_behavior_ok [wp]: "thread_ok V m \<Longrightarrow> yields (thread_ok V) (queue_behavior V d t g m)"
  unfolding queue_behavior_def by (rule wp seq | assumption)+

lemma i_when_ok: "thread_ok V m \<Longrightarrow> yields (thread_ok V) (i_when_static V m)"
  "thread_ok V m \<Longrightarrow> yields (thread_ok V) (i_when_dynamic V m)"
  unfolding i_when_static_def i_when_dynamic_def by (rule wp seq | assumption)+

lemma i_memo_load_ok:
  assumes "thread_ok V m" and R: "\<And>g m. thread_ok V m \<Longrightarrow> keeps V (R g m)"
  shows "yields (thread_ok V) (i_memo_load V R m)"
  unfolding i_memo_load_def init_memo_slot_def run_sync_def by (rule wp R seq assms(1) | assumption)+

lemma step_ok:
  assumes "thread_ok V m" and R: "\<And>g m. thread_ok V m \<Longrightarrow> keeps V (R g m)"
  shows "yields (thread_ok V) (step V R m)"
proof -
  have "yields (thread_ok V) (exec V R op m)" if m: "thread_ok V m" for op m
    using i_ffi_ok [OF m] i_ffi_struct_ok [OF m] i_when_ok [OF m] i_memo_load_ok [OF m R] exec_plain [OF m, of op R]
    by (cases "op \<in> {OFFI, OWhenStatic, OWhenDynamic, OFFIStruct, OMemoLoad}") auto
  then show ?thesis unfolding step_def by - (rule wp seq assms(1) | assumption)+
qed

subsection \<open>Runs\<close>

lemma run_with_ok:
  assumes "thread_ok V m" "\<And>d m. thread_ok V m \<Longrightarrow> yields (thread_ok V) (S d m)"
  shows "keeps V (run_with S V g m)"
  unfolding run_with_def by (rule wp assms(2) seq assms(1) | assumption)+

lemma steps_ok: "thread_ok V m \<Longrightarrow> yields (thread_ok V) (steps n V d m)"
proof (induction n arbitrary: d m)
  case (Suc n)
  show ?case unfolding steps.simps
    by (rule wp step_ok run_with_ok Suc.IH seq Suc.prems | assumption)+
qed (simp add: yields_def)

lemma steps_depth: "steps n V d m = Ret m' \<Longrightarrow> length (frames m') = d"
  by (induction n arbitrary: m) (auto simp: outcome_simps split: if_splits)

end
