(* ===== verification/RunLemmas.thy ===== *)
theory RunLemmas
  imports StepLemmas
begin

text \<open>
  Runs of a thread: more fuel changes no result, a run leaves the depth it found, the two kinds
  of call agree, and a behavior ends with an empty thread.
\<close>

subsection \<open>Fuel\<close>

lemma exec_more:
  assumes "\<And>g m. ole (R g m) (R' g m)"
  shows "ole (exec V R op m) (exec V R' op m)"
proof (cases "op = OMemoLoad")
  case True
  have "ole (i_memo_load V R m) (i_memo_load V R' m)"
    unfolding i_memo_load_def with_dst_def init_memo_slot_def run_sync_def
    by (intro ole_intros assms)
  with True show ?thesis by simp
next
  case False
  then have "exec V R op m = exec V R' op m" by (cases op) simp_all
  then show ?thesis by (simp add: ole_refl)
qed

lemma step_more: "(\<And>g m. ole (R g m) (R' g m)) \<Longrightarrow> ole (step V R m) (step V R' m)"
  unfolding step_def by (intro ole_intros exec_more)

lemma run_with_more: "(\<And>d m. ole (S d m) (S' d m)) \<Longrightarrow> ole (run_with S V g m) (run_with S' V g m)"
  unfolding run_with_def by (intro ole_intros)

lemma steps_more: "ole (steps n V d m) (steps (n + k) V d m)"
proof (induction n arbitrary: d m)
  case 0
  then show ?case by (cases k) (simp_all add: ole_intros)
next
  case (Suc n)
  show ?case unfolding add_Suc steps.simps
    by (intro ole_intros step_more run_with_more Suc.IH)
qed

lemma thread_run_more: "thread_run n V g m = Ret r \<Longrightarrow> thread_run (n + k) V g m = Ret r"
  unfolding thread_run_def by (rule oleD [OF run_with_more [OF steps_more]])

subsection \<open>Depth\<close>

lemma local_at_frames: "local_at V i m = Ret (j, m') \<Longrightarrow> frames m' = frames m"
  by (auto simp: local_at_def outcome_simps reserve_keeps)

lemma take_reg_frames: "take_reg i m = Ret (v, m') \<Longrightarrow> frames m' = frames m"
  by (auto simp: take_reg_def outcome_simps put_reg_def)

lemma thread_run_depth:
  assumes "thread_run n V g m = Ret (v, m')"
  shows "length (frames m') = length (frames m)"
  using assms unfolding thread_run_def run_with_def
  by (auto simp: outcome_simps split: prod.splits if_splits dest!: steps_depth local_at_frames take_reg_frames
      assign_touches [THEN touchesD(1)])

lemma thread_run_ok: "thread_ok V m \<Longrightarrow> keeps V (thread_run n V g m)"
  unfolding thread_run_def by (rule run_with_ok [OF _ steps_ok])

subsection \<open>Calls\<close>

text \<open>What both kinds of call decide about the arguments: the error they are refused with.\<close>

definition verdict :: "vm \<Rightarrow> 32 word list \<Rightarrow> machine \<Rightarrow> (error option \<times> machine) outcome" where
  "verdict V ts m = (if args m \<noteq> length ts then Ret (Some BadArgs, m)
     else obind (args_fit V 0 ts m) (\<lambda>(ok, m). Ret (if ok then None else Some BadType, m)))"

lemma pushframe_verdict:
  assumes "func_at V g = Ret fn"
  shows "pushframe V (Some g) dst m = obind (verdict V (param_types fn) m) (\<lambda>(e, m). case e of
      None \<Rightarrow> push_checked V g dst (m\<lparr>args := 0\<rparr>)
    | Some e \<Rightarrow> fail_args V e m)"
  by (cases "args_fit V 0 (param_types fn) m")
    (auto simp: pushframe_def check_args_def verdict_def fail_args_def assms obind_assoc split: prod.splits)

lemma try_pushframe_verdict:
  assumes "func_at V g = Ret fn"
  shows "try_pushframe V (Some g) dst m = obind (verdict V (param_types fn) m) (\<lambda>(e, m). case e of
      None \<Rightarrow> push_checked V g dst (m\<lparr>args := 0\<rparr>)
    | Some e \<Rightarrow> obind (drop_args V m) (store_invalid V dst))"
  by (cases "args_fit V 0 (param_types fn) m")
    (auto simp: try_pushframe_def try_check_args_def verdict_def assms obind_assoc split: prod.splits)

text \<open>Checking the arguments moves nothing: at most the vector grows.\<close>

lemma thread_arg_keeps:
  assumes "thread_arg V i m = Ret (r, m')"
  shows "frames m' = frames m" "args m' = args m" "length (locals m) \<le> length (locals m')"
    "j < length (locals m) \<Longrightarrow> locals m' ! j = locals m ! j"
  using assms by (auto simp: thread_arg_def arg_at_def outcome_simps reserve_keeps split: if_splits)
    (simp_all add: reserve_def)

lemma args_fit_keeps:
  "args_fit V i ts m = Ret (okay, m') \<Longrightarrow> frames m' = frames m \<and> length (locals m) \<le> length (locals m') \<and>
     (\<forall>j < length (locals m). locals m' ! j = locals m ! j)"
proof (induction ts arbitrary: i m)
  case (Cons t ts)
  then obtain r m1 okay' where s: "thread_arg V i m = Ret (r, m1)"
    "(if okay' then args_fit V (Suc i) ts m1 else Ret (False, m1)) = Ret (okay, m')"
    by (auto simp: outcome_simps)
  note k = thread_arg_keeps [OF s(1)]
  show ?case
  proof (cases okay')
    case True
    with s(2) have "args_fit V (Suc i) ts m1 = Ret (okay, m')" by simp
    from Cons.IH [OF this] k show ?thesis by (auto intro: less_le_trans)
  next
    case False
    with s(2) k show ?thesis by auto
  qed
qed simp

text \<open>The arguments are the first registers of the callee, in place.\<close>

lemma pushframe_Ret:
  assumes "pushframe V (Some g) dst m = Ret m'" "func_at V g = Ret fn" "frames m = f # fs" "frame_end V f = Ret e"
  shows "\<exists>c. frames m' = c # f # fs \<and> fr_func c = g \<and> fr_base c = e \<and> fr_dst c = dst \<and> fr_level c = Suc (fr_level f) \<and>
    args m = length (param_types fn) \<and> args m' = 0 \<and> (\<forall>j < length (locals m). locals m' ! j = locals m ! j)"
proof -
  obtain m1 where v: "args m = length (param_types fn)" "args_fit V 0 (param_types fn) m = Ret (True, m1)"
    and p: "push_checked V g dst (m1\<lparr>args := 0\<rparr>) = Ret m'"
    using assms(1) unfolding pushframe_verdict [OF assms(2)]
    by (auto simp: verdict_def fail_args_def outcome_simps split: if_splits option.splits)
  have k: "frames m1 = f # fs" "length (locals m) \<le> length (locals m1)" "\<forall>j < length (locals m). locals m1 ! j = locals m ! j"
    using args_fit_keeps [OF v(2)] assms(3) by auto
  have r: "args (reserve n m1) = args m1" for n m1 by (simp add: reserve_def)
  have "\<exists>c. frames m' = c # f # fs \<and> fr_func c = g \<and> fr_base c = e \<and> fr_dst c = dst \<and> fr_level c = Suc (fr_level f) \<and>
    args m' = 0 \<and> locals m' = locals (reserve (e + unat (registers fn)) (m1\<lparr>args := 0\<rparr>))"
    using p k(1) assms(2,4)
    by (auto simp: push_checked_def outcome_simps Let_def reserve_keeps(2) r split: prod.splits)
  then obtain c where c: "frames m' = c # f # fs \<and> fr_func c = g \<and> fr_base c = e \<and> fr_dst c = dst \<and> fr_level c = Suc (fr_level f) \<and> args m' = 0"
    and l: "locals m' = locals (reserve (e + unat (registers fn)) (m1\<lparr>args := 0\<rparr>))" by blast
  have "locals m' ! j = locals m ! j" if "j < length (locals m)" for j
    using l k that reserve_keeps(1) [of j "m1\<lparr>args := 0\<rparr>"] by simp
  with c v(1) show ?thesis by blast
qed

subsection \<open>Behaviors\<close>

lemma abandon_down_to_frames:
  "abandon_down_to n V d m = Ret m' \<Longrightarrow> length (frames m') \<le> d"
proof (induction n arbitrary: m)
  case (Suc n)
  then show ?case by (auto simp: abandon_down_to.simps [of "Suc n"] outcome_simps split: if_splits)
qed (simp add: abandon_down_to.simps split: if_splits)

lemma complete_behavior_frames: "complete_behavior V b v m = Ret m' \<Longrightarrow> frames m' = frames m"
  by (auto simp: complete_behavior_def dest!: on_heap_touches simp: touches_def)

lemma fail_behavior_frames: "fail_behavior V b e m = Ret m' \<Longrightarrow> frames m' = []"
  by (auto simp: fail_behavior_def teardown_all_def outcome_simps dest!: abandon_down_to_frames complete_behavior_frames)

lemma each_frames:
  "(\<And>x m m'. f x m = Ret m' \<Longrightarrow> frames m' = frames m) \<Longrightarrow> each f xs m = Ret m' \<Longrightarrow> frames m' = frames m"
  by (induction xs arbitrary: m) (auto simp: outcome_simps)

lemma place_arg_frames: "place_arg V v m = Ret m' \<Longrightarrow> frames m' = frames m"
  by (auto simp: place_arg_def dest!: assign_touches simp: touches_def)

lemma begin_behavior_frames: "begin_behavior V b m = Ret m' \<Longrightarrow> frames m = [] \<and> frames m' = []"
proof -
  assume b: "begin_behavior V b m = Ret m'"
  obtain m1 where "frames m = []" "frames m1 = frames m" "each (place_cown V) (bh_cowns b) m1 = Ret m'"
    using b by (force simp: begin_behavior_def outcome_simps split: if_splits
      dest!: place_arg_frames on_heap_touches [THEN touchesD(1)])
  moreover have "place_cown V x m = Ret m' \<Longrightarrow> frames m' = frames m" for x m m'
    by (cases x) (auto simp: place_cown_def outcome_simps split: if_splits
      dest!: place_arg_frames on_heap_touches [THEN touchesD(1)])
  ultimately show ?thesis using each_frames [of "place_cown V" "bh_cowns b" m1 m'] by auto
qed

lemma run_behavior_frames: "run_behavior n V b m = Ret m' \<Longrightarrow> frames m' = []"
  by (auto simp: run_behavior_def outcome_simps split: prod.splits
    dest!: begin_behavior_frames thread_run_depth complete_behavior_frames)

subsection \<open>A held register\<close>

text \<open>\<open>ArgCopy\<close> holds a reference to its source while the argument area is made to fit.\<close>

lemma fetch_keeps: "fetch V m = Ret (w, m') \<Longrightarrow> locals m' = locals m \<and> args m' = args m \<and> (\<forall>f fs. frames m = f # fs \<longrightarrow>
  (\<exists>f'. frames m' = f' # fs \<and> shape f' = shape f))"
  by (auto simp: fetch_def set_cur_def shape_eq outcome_simps split: prod.splits)

lemma arg_copy_stuck:
  assumes "thread_ok V m" "frames m = f # fs" "frame_end V f = Ret e" "length (locals m) = e + args m"
    "fetch V m = Ret (i, m1)" "unat i < e - fr_base f"
  shows "i_arg_copy V m = Stuck"
proof -
  obtain f' where k: "locals m1 = locals m" "args m1 = args m" "frames m1 = f' # fs" and sh: "shape f' = shape f"
    using fetch_keeps [OF assms(5)] assms(2) by blast
  have e: "frame_end V f' = Ret e" using shape_end [OF sh] assms(3) by simp
  obtain fn where fn: "func_at V (fr_func f') = Ret fn" "e = fr_base f' + unat (registers fn)"
    using e by (auto simp: frame_end_def outcome_simps)
  have b: "fr_base f' = fr_base f" using sh by (simp add: shape_eq)
  have small: "reserve n m1 = m1" if "n \<le> length (locals m)" for n
    using that k(1) by (simp add: reserve_def grow_same)
  have "local_first V m = Ret (fr_base f' + unat i, m1)"
    using assms(4,6) fn b k by (simp add: local_first_def fetch_nat_def assms(5) local_at_def cur_def small oassert_def)
  moreover have "locals m \<noteq> []" using assms(1) by (simp add: thread_ok_def)
  then have "length (locals m1) < length (locals (reserve (Suc (e + args m)) m1))"
    using grow_enough [of "locals m1" "Suc (e + args m)"] k assms(4) by (simp add: reserve_def)
  then have "obind (next_arg V m1) (\<lambda>(a, m'). obind (same_vector m1 m') (\<lambda>_. obind (reg_val s m') (\<lambda>v. assign_borrow V a v m'))) = Stuck" for s
    using e k by (simp add: next_arg_def arg_at_def cur_def same_vector_def oassert_def)
  ultimately show ?thesis by (simp add: i_arg_copy_def)
qed

end
