(* ===== verification/MergeLemmas.thy ===== *)
theory MergeLemmas
  imports Merge
begin

text \<open>
  \<open>merge_regions\<close> moves every header and every sub-region of \<open>src\<close> to \<open>dest\<close>, and all of
  \<open>src\<close>'s stack references with them, and ends by releasing the empty region \<open>src\<close>: stated as
  an equation with \<open>free_region\<close> on a heap that keeps the region accounting.
\<close>

subsection \<open>Moving the headers\<close>

text \<open>Only header sets and headers differ.\<close>

definition heads_only :: "heap \<Rightarrow> heap \<Rightarrow> bool" where
  "heads_only h h' \<longleftrightarrow> h' = h\<lparr>regions := regions h', objs := objs h'\<rparr> \<and>
     (\<forall>r. map_option (\<lambda>reg. reg\<lparr>headers := []\<rparr>) (regions h' r) = map_option (\<lambda>reg. reg\<lparr>headers := []\<rparr>) (regions h r))"

lemma heads_only_refl [simp]: "heads_only h h"
  by (simp add: heads_only_def)

lemma heads_only_trans: "heads_only h h' \<Longrightarrow> heads_only h' h'' \<Longrightarrow> heads_only h h''"
  by (cases h, cases h', cases h'') (auto simp: heads_only_def)

lemma heads_only_fields:
  "heads_only h h' \<Longrightarrow> next_rid h' = next_rid h \<and> worklist h' = worklist h \<and> in_collection h' = in_collection h"
  by (simp add: heads_only_def) (metis heap.ext_inject heap.surjective heap.update_convs(1,2))

lemma heads_only_region:
  assumes "heads_only h h'"
  shows "map_option owner (regions h' r) = map_option owner (regions h r)"
    "map_option stack_rc (regions h' r) = map_option stack_rc (regions h r)"
    "map_option frame_depth (regions h' r) = map_option frame_depth (regions h r)"
proof -
  let ?f = "\<lambda>reg. reg\<lparr>headers := []\<rparr>"
  have "map_option ?f (regions h' r) = map_option ?f (regions h r)" using assms by (simp add: heads_only_def)
  from arg_cong [OF this, of "map_option owner"] arg_cong [OF this, of "map_option stack_rc"]
    arg_cong [OF this, of "map_option frame_depth"]
  show "map_option owner (regions h' r) = map_option owner (regions h r)"
    "map_option stack_rc (regions h' r) = map_option stack_rc (regions h r)"
    "map_option frame_depth (regions h' r) = map_option frame_depth (regions h r)"
    by (simp_all add: option.map_comp comp_def)
qed

lemma heads_only_same:
  assumes "heads_only h h'"
  shows "parent_of h' = parent_of h" "rc h' = rc h" "heap_region h' = heap_region h" "owner_of h' = owner_of h"
    "forest h' = forest h" "rc_ok ext h' = rc_ok ext h" "room ext h' k = room ext h k"
proof -
  note f = heads_only_region [OF assms] and n = heads_only_fields [OF assms]
  show o': "owner_of h' = owner_of h" using f(1) by (simp add: owner_of_def [abs_def])
  then show p: "parent_of h' = parent_of h" by (auto simp: parent_owner)
  show r: "rc h' = rc h"
  proof
    fix q show "rc h' q = rc h q" using f(2) [of q] by (cases "regions h' q"; cases "regions h q") (auto simp: rc_def)
  qed
  show hr: "heap_region h' = heap_region h"
  proof
    fix q show "heap_region h' q = heap_region h q"
      using f(3) [of q] by (cases "regions h' q"; cases "regions h q") (auto simp: heap_region_def)
  qed
  have "kids h' = kids h" by (simp add: kids_def [abs_def] p r)
  with p r hr n show "forest h' = forest h" "rc_ok ext h' = rc_ok ext h" "room ext h' k = room ext h k"
    by (simp_all add: forest_def rc_ok_def room_def)
qed

lemma move_region_ok:
  assumes "objs h p = Some b" "o_loc b = LRegion src" "src \<noteq> dest" "regions h src = Some rs" "regions h dest = Some rd"
  shows "\<exists>h'. move_region p dest h = Ret h' \<and> heads_only h h' \<and>
    objs h' = (objs h)(p \<mapsto> b\<lparr>o_loc := LRegion dest\<rparr>) \<and>
    map_option headers (regions h' src) = Some (removeAll p (headers rs)) \<and>
    (\<exists>rd'. regions h' dest = Some rd' \<and> set (headers rd') = insert p (set (headers rd)))"
  using assms
  by (auto simp: move_region_def get_obj_def insert_header_def mod_region_def mod_obj_def remove_header_def heads_only_def)

lemma move_all_ok:
  assumes "distinct ps" "\<And>p. p \<in> set ps \<Longrightarrow> \<exists>b. objs h p = Some b \<and> o_loc b = LRegion src"
    "src \<noteq> dest" "regions h src = Some rs" "regions h dest = Some rd"
  shows "\<exists>h'. each (\<lambda>p. move_region p dest) ps h = Ret h' \<and> heads_only h h' \<and>
    objs h' = (\<lambda>p. if p \<in> set ps then map_option (\<lambda>b. b\<lparr>o_loc := LRegion dest\<rparr>) (objs h p) else objs h p) \<and>
    map_option headers (regions h' src) = Some (filter (\<lambda>p. p \<notin> set ps) (headers rs)) \<and>
    (\<exists>rd'. regions h' dest = Some rd' \<and> set (headers rd') = set ps \<union> set (headers rd))"
  using assms
proof (induction ps arbitrary: h rs rd)
  case (Cons p ps)
  from Cons.prems(2) [of p] obtain b where b: "objs h p = Some b" "o_loc b = LRegion src" by auto
  from move_region_ok [OF b Cons.prems(3-5)] obtain h1 rd1 where
    1: "move_region p dest h = Ret h1" "heads_only h h1" "objs h1 = (objs h)(p \<mapsto> b\<lparr>o_loc := LRegion dest\<rparr>)"
      "map_option headers (regions h1 src) = Some (removeAll p (headers rs))"
      "regions h1 dest = Some rd1" "set (headers rd1) = insert p (set (headers rd))" by blast
  from 1(4) obtain rs1 where rs1: "regions h1 src = Some rs1" "headers rs1 = removeAll p (headers rs)" by auto
  have "\<exists>b. objs h1 q = Some b \<and> o_loc b = LRegion src" if "q \<in> set ps" for q
    using Cons.prems(1,2) that by (auto simp: 1(3))
  with Cons.IH [of h1 rs1 rd1] Cons.prems(1,3) rs1(1) 1(5) obtain h' where
    h': "each (\<lambda>p. move_region p dest) ps h1 = Ret h'" "heads_only h1 h'"
      "objs h' = (\<lambda>p. if p \<in> set ps then map_option (\<lambda>b. b\<lparr>o_loc := LRegion dest\<rparr>) (objs h1 p) else objs h1 p)"
      "map_option headers (regions h' src) = Some (filter (\<lambda>p. p \<notin> set ps) (headers rs1))"
      "\<exists>rd'. regions h' dest = Some rd' \<and> set (headers rd') = set ps \<union> set (headers rd1)" by auto
  have "filter (\<lambda>q. q \<notin> set ps) (removeAll p (headers rs)) = filter (\<lambda>q. q \<notin> set (p # ps)) (headers rs)"
    by (auto simp: removeAll_filter_not_eq intro: filter_cong)
  with h' 1 rs1 heads_only_trans [OF 1(2) h'(2)] Cons.prems(1) b show ?case
    by (intro exI [of _ h']) (auto simp: fun_eq_iff)
qed simp

subsection \<open>Finding the sub-regions\<close>

definition in_region_of :: "heap \<Rightarrow> oid \<Rightarrow> rid \<Rightarrow> bool" where
  "in_region_of h p r \<longleftrightarrow> (\<exists>b. objs h p = Some b \<and> o_loc b = LRegion r)"

definition add_entry :: "heap \<Rightarrow> rid \<Rightarrow> rid \<Rightarrow> oid \<Rightarrow> (rid \<times> oid) list \<Rightarrow> (rid \<times> oid) list" where
  "add_entry h dest src p found = (case objs h p of
     Some b \<Rightarrow> (case o_loc b of
       LRegion r \<Rightarrow> if r \<noteq> src \<and> r \<noteq> dest \<and> parent_of h r = Some src \<and> r \<notin> fst ` set found then found @ [(r, p)] else found
     | _ \<Rightarrow> found)
   | None \<Rightarrow> found)"

lemma each_fold: "(\<And>x s. x \<in> set xs \<Longrightarrow> f x s = Ret (g x s)) \<Longrightarrow> each f xs s = Ret (fold g xs s)"
  by (induction xs arbitrary: s) auto

lemma scan_child_eq:
  assumes "closed_heap h" "objs h p \<noteq> None"
  shows "scan_child h dest src p found = Ret (add_entry h dest src p found)"
proof -
  obtain b where b: "objs h p = Some b" using assms by auto
  show ?thesis
  proof (cases "o_loc b")
    case (LRegion r)
    then obtain reg where "regions h r = Some reg" using assms(1) b by (fastforce simp: closed_heap_def)
    then show ?thesis
      using b LRegion by (auto simp: scan_child_def add_entry_def location_of_def get_obj_def get_region_def parent_of_def
        split: owner.splits)
  qed (simp_all add: scan_child_def add_entry_def location_of_def get_obj_def b)
qed

definition traced_from :: "heap \<Rightarrow> oid list \<Rightarrow> oid list" where
  "traced_from h ps = concat (map (\<lambda>p. case objs h p of Some b \<Rightarrow> trace b | None \<Rightarrow> []) ps)"

lemma scan_eq:
  assumes "closed_heap h" "\<And>p. p \<in> set ps \<Longrightarrow> objs h p \<noteq> None"
  shows "each (scan_header h dest src) ps found = Ret (fold (add_entry h dest src) (traced_from h ps) found)"
  using assms(2)
proof (induction ps arbitrary: found)
  case (Cons p ps)
  then obtain b where b: "objs h p = Some b" by auto
  have "q \<in> set (trace b) \<Longrightarrow> objs h q \<noteq> None" for q using assms(1) b by (auto simp: closed_heap_def)
  then have "each (scan_child h dest src) (trace b) found = Ret (fold (add_entry h dest src) (trace b) found)"
    by (intro each_fold scan_child_eq [OF assms(1)]) blast
  with Cons b show ?case by (simp add: scan_header_def get_obj_def traced_from_def)
qed (simp add: traced_from_def)

lemma fold_entries:
  "distinct (map fst found) \<Longrightarrow> distinct (map fst (fold (add_entry h dest src) ps found)) \<and>
   fst ` set (fold (add_entry h dest src) ps found) =
     fst ` set found \<union> {r. r \<noteq> src \<and> r \<noteq> dest \<and> parent_of h r = Some src \<and> (\<exists>p\<in>set ps. in_region_of h p r)}"
proof (induction ps arbitrary: found)
  case (Cons p ps)
  have "distinct (map fst (add_entry h dest src p found)) \<and> fst ` set (add_entry h dest src p found) =
      fst ` set found \<union> {r. r \<noteq> src \<and> r \<noteq> dest \<and> parent_of h r = Some src \<and> in_region_of h p r}"
    using Cons.prems by (auto simp: add_entry_def in_region_of_def split: option.splits loc.splits)
  with Cons.IH [of "add_entry h dest src p found"] show ?case by auto
qed simp

subsection \<open>Moving the sub-regions\<close>

lemma rehome_ok:
  assumes F: "forest h" and ok: "rc_ok ext h" and rm: "room ext h 2" and pos: "\<And>q. 0 \<le> ext q"
    and s: "parent_of h s = Some src" "s \<noteq> dest" "s \<notin> up h dest" and d: "heap_region h dest"
    and held: "1 \<le> ext src" "1 \<le> ext dest"
  shows "\<exists>h'. rehome K dest (s, e) h = Ret h' \<and> forest h' \<and> rc_ok ext h' \<and> same_rest h h' \<and>
    parent_of h' = (parent_of h)(s \<mapsto> dest) \<and> owner_of h' = (owner_of h)(s \<mapsto> Parent dest)"
proof -
  have hs: "heap_region h s" "heap_region h src" using F s(1) by (auto simp: forest_def)
  have ns: "src \<noteq> s" using not_own_parent [OF F, of s] s(1) by auto
  let ?e1 = "ext(s := ext s + 1)"
  obtain h1 where h1: "stack_inc s 1 h = Ret h1" "same_shape h h1" "worklist h1 = worklist h" "rc_ok ?e1 h1"
    using stack_inc_room [OF F ok hs(1) room_weaken [OF rm]] by force
  note s1 = same_shape_forest [OF h1(2)] same_shape_parent [OF h1(2)] same_shape_heap_region [OF h1(2)]
    same_shape_owner [OF h1(2)] same_shape_up [OF h1(2)] same_shape_fields [OF h1(2)]
  have pos1: "0 \<le> ?e1 q" for q using pos [of q] pos [of s] by simp
  have "heap_region h1 s" using hs(1) by (simp add: s1)
  then have "int (rc h1 s) = ext s + 1 + int (card (kids h1 s))" using h1(4) by (simp add: rc_ok_def)
  then have "0 < rc h1 s" using pos [of s] by linarith
  moreover have "\<exists>q\<in>up h1 src. 0 < ?e1 q" using held(1) ns by (auto simp: up_def)
  ultimately obtain h2 where h2: "clear_parent K s h1 = Ret h2" "forest h2" "rc_ok ?e1 h2" "same_rest h1 h2"
    "parent_of h2 = (parent_of h)(s := None)" "owner_of h2 = (owner_of h)(s \<mapsto> Unowned)"
    using clear_parent_ok [of h1 ?e1 s src K] F h1(4) s(1) pos1 s1 by auto
  have f2: "heap_region h2 q = heap_region h q" "next_rid h2 = next_rid h" for q
    using h2(4) same_rest_fields [OF h2(4)] s1 by (simp_all add: same_rest_def)
  have "up h2 dest = up h dest" using s(2,3) by (simp add: up_def h2(5) above_upd)
  then have "s \<notin> up h2 dest" using s(3) by simp
  moreover have "regions h2 s = Some reg \<Longrightarrow> owner reg = Unowned" for reg
    using h2(6) by (auto simp: owner_of_def dest: fun_cong [of _ _ s])
  moreover have "room ?e1 h2 1" by (rule room_weaken [OF rm]) (simp_all add: f2)
  ultimately obtain h3 where h3: "set_parent s dest e h2 = Ret h3" "forest h3" "rc_ok ?e1 h3" "same_rest h2 h3"
    "parent_of h3 = (parent_of h)(s \<mapsto> dest)" "owner_of h3 = (owner_of h)(s \<mapsto> Parent dest)"
    using set_parent_ok [OF h2(2,3), of s dest e] room_rc [OF h2(2,3), of 1] hs(1) d h2(5,6) f2 by auto
  have f3: "heap_region h3 s" using h3(4) hs(1) f2 by (simp add: same_rest_def)
  have "dest \<in> up h3 s" using up_Some [of h3 s dest] h3(5) by (auto simp: up_def)
  moreover have "0 < (?e1(s := ?e1 s - 1)) dest" using held(2) s(2) by simp
  moreover have "1 \<le> ?e1 s" using pos [of s] by simp
  ultimately obtain h4 where h4: "stack_dec K s 1 h3 = Ret (True, h4)" "same_shape h3 h4" "rc_ok (?e1(s := ?e1 s - 1)) h4"
    using stack_dec_held [OF h3(2,3) f3 _ pos1, of dest K] by blast
  have "same_rest h h4"
    using same_rest_trans [OF same_shape_rest [OF h1(2)] same_rest_trans [OF h2(4) same_rest_trans [OF h3(4) same_shape_rest [OF h4(2)]]]] .
  moreover have "rc_ok ext h4" using h4(3) by simp
  moreover have "rehome K dest (s, e) h = Ret h4"
    using h1(1) h2(1) h3(1) h4(1) by (simp add: rehome_def stack_dec'_def)
  ultimately show ?thesis
    using h3(2,5,6) same_shape_forest [OF h4(2)] same_shape_parent [OF h4(2)] same_shape_owner [OF h4(2)] by simp
qed

lemma rehome_all_ok:
  assumes F: "forest h" and ok: "rc_ok ext h" and rm: "room ext h 2" and pos: "\<And>q. 0 \<le> ext q"
    and s: "\<And>c. c \<in> fst ` set found \<Longrightarrow> parent_of h c = Some src \<and> c \<noteq> dest \<and> c \<notin> up h dest" "distinct (map fst found)"
    and d: "heap_region h dest" and held: "1 \<le> ext src" "1 \<le> ext dest"
  shows "\<exists>h'. each (rehome K dest) found h = Ret h' \<and> forest h' \<and> rc_ok ext h' \<and> same_rest h h' \<and>
    parent_of h' = (\<lambda>c. if c \<in> fst ` set found then Some dest else parent_of h c) \<and>
    owner_of h' = (\<lambda>c. if c \<in> fst ` set found then Some (Parent dest) else owner_of h c)"
  using F ok rm s d
proof (induction found arbitrary: h)
  case (Cons x found)
  obtain c e where x: "x = (c, e)" by fastforce
  have c: "parent_of h c = Some src" "c \<noteq> dest" "c \<notin> up h dest" using Cons.prems(4) [of c] x by auto
  obtain h1 where h1: "rehome K dest (c, e) h = Ret h1" "forest h1" "rc_ok ext h1" "same_rest h h1"
    "parent_of h1 = (parent_of h)(c \<mapsto> dest)" "owner_of h1 = (owner_of h)(c \<mapsto> Parent dest)"
    using rehome_ok [OF Cons.prems(1-3) pos c Cons.prems(6) held, of K e] by blast
  have f1: "heap_region h1 q = heap_region h q" "next_rid h1 = next_rid h" for q
    using h1(4) same_rest_fields [OF h1(4)] by (simp_all add: same_rest_def)
  have up: "up h1 dest = up h dest" using c(2,3) by (simp add: up_def h1(5) above_upd)
  have "parent_of h1 q = Some src \<and> q \<noteq> dest \<and> q \<notin> up h1 dest" if "q \<in> fst ` set found" for q
    using Cons.prems(4) [of q] Cons.prems(5) that x up h1(5) by auto
  moreover have "room ext h1 2" using Cons.prems(3) f1 by (simp add: room_def)
  ultimately obtain h' where h': "each (rehome K dest) found h1 = Ret h'" "forest h'" "rc_ok ext h'" "same_rest h1 h'"
    "parent_of h' = (\<lambda>c. if c \<in> fst ` set found then Some dest else parent_of h1 c)"
    "owner_of h' = (\<lambda>c. if c \<in> fst ` set found then Some (Parent dest) else owner_of h1 c)"
    using Cons.IH [OF h1(2,3)] Cons.prems(5,6) x f1 by auto
  have "each (rehome K dest) (x # found) h = Ret h'" using h1(1) h'(1) x by simp
  then show ?case
    using h' h1 x same_rest_trans [OF h1(4) h'(4)] by (intro exI [of _ h'] conjI) (auto simp: fun_eq_iff)
qed simp

subsection \<open>The merge\<close>

text \<open>Every sub-region of \<open>src\<close> is entered from a field of one of \<open>src\<close>'s objects.\<close>

definition entered :: "heap \<Rightarrow> rid \<Rightarrow> bool" where
  "entered h src \<longleftrightarrow> (\<forall>reg c. regions h src = Some reg \<longrightarrow> parent_of h c = Some src \<longrightarrow>
     (\<exists>p\<in>set (traced_from h (headers reg)). in_region_of h p c))"

text \<open>The two regions of a merge: \<open>src\<close> without an owner, both held by a register.\<close>

definition mergeable :: "(rid \<Rightarrow> int) \<Rightarrow> heap \<Rightarrow> rid \<Rightarrow> rid \<Rightarrow> bool" where
  "mergeable ext h dest src \<longleftrightarrow> forest h \<and> rc_ok ext h \<and> (\<forall>q. 0 \<le> ext q) \<and> room ext h (nat (ext src) + 2) \<and>
     heap_region h dest \<and> heap_region h src \<and> src \<noteq> dest \<and> owner_of h src = Some Unowned \<and> 1 \<le> ext src \<and>
     closed_heap h \<and> entered h src \<and>
     (\<forall>reg. regions h src = Some reg \<longrightarrow> distinct (headers reg) \<and> (\<forall>p\<in>set (headers reg). in_region_of h p src))"

lemma merge_prefix:
  assumes M: "mergeable ext h dest src" and rs: "regions h src = Some rs"
    and acyc: "\<And>c. parent_of h c = Some src \<Longrightarrow> c \<noteq> dest \<Longrightarrow> c \<notin> up h dest"
  shows "\<exists>h'. merge_regions K dest src h = merge_counts K dest src h' \<and> forest h' \<and> rc_ok (ext(dest := ext dest + 1)) h' \<and>
    next_rid h' = next_rid h \<and> (\<forall>q. heap_region h' q = heap_region h q) \<and>
    parent_of h' = (\<lambda>c. if parent_of h c = Some src \<and> c \<noteq> dest then Some dest else parent_of h c) \<and>
    owner_of h' src = Some Unowned \<and> map_option headers (regions h' src) = Some [] \<and>
    header_set h' dest = header_set h dest \<union> header_set h src \<and>
    objs h' = (\<lambda>p. if p \<in> header_set h src then map_option (\<lambda>b. b\<lparr>o_loc := LRegion dest\<rparr>) (objs h p) else objs h p)"
proof -
  let ?e1 = "ext(dest := ext dest + 1)"
  note m = M [unfolded mergeable_def]
  have F: "forest h" and ok: "rc_ok ext h" and pos: "\<And>q. 0 \<le> ext q" and rm: "room ext h (nat (ext src) + 2)"
    and d: "heap_region h dest" and s: "heap_region h src" and ne: "src \<noteq> dest" and un: "owner_of h src = Some Unowned"
    and held: "1 \<le> ext src" and cl: "closed_heap h" and en: "entered h src"
    and hd: "distinct (headers rs)" "\<And>p. p \<in> set (headers rs) \<Longrightarrow> in_region_of h p src"
    using m rs by auto
  obtain h1 where h1: "stack_inc dest 1 h = Ret h1" "same_shape h h1" "rc_ok ?e1 h1"
    using stack_inc_room [OF F ok d room_weaken [OF rm]] held by force
  note s1 = same_shape_forest [OF h1(2)] same_shape_parent [OF h1(2)] same_shape_heap_region [OF h1(2)]
    same_shape_owner [OF h1(2)] same_shape_up [OF h1(2)]
  have f1: "next_rid h1 = next_rid h" "objs h1 = objs h" using same_shape_fields [OF h1(2)] by auto
  have str: "map_option strip (regions h1 q) = map_option strip (regions h q)" for q
    using h1(2) by (simp add: same_shape_def)
  obtain rs1 where rs1: "regions h1 src = Some rs1" "headers rs1 = headers rs"
    using strip_eq(2) [OF str [symmetric] rs] by blast
  have cl1: "closed_heap h1"
  proof -
    have "regions h1 r = None \<longleftrightarrow> regions h r = None" for r using strip_eq(1) [OF str [of r]] by blast
    moreover have "next_oid h1 = next_oid h"
      using h1(2) by (simp add: same_shape_def) (metis heap.ext_inject heap.surjective heap.update_convs(1,7))
    ultimately show ?thesis using cl by (simp add: closed_heap_def f1)
  qed
  define found where "found = fold (add_entry h1 dest src) (traced_from h1 (headers rs)) []"
  have "objs h1 p \<noteq> None" if "p \<in> set (headers rs)" for p using hd(2) [OF that] by (auto simp: in_region_of_def f1)
  then have sc: "each (scan_header h1 dest src) (headers rs1) [] = Ret found"
    using scan_eq [OF cl1, of "headers rs" dest src "[]"] by (simp add: rs1 found_def)
  have tf: "traced_from h1 ps = traced_from h ps" "in_region_of h1 p r = in_region_of h p r" for ps p r
    by (simp_all add: traced_from_def in_region_of_def f1)
  have ns: "parent_of h src \<noteq> Some src" by (rule not_own_parent [OF F])
  have fd: "distinct (map fst found)" "fst ` set found = {c. parent_of h c = Some src \<and> c \<noteq> dest}"
    using fold_entries [of "[]" h1 dest src "traced_from h1 (headers rs)"] en rs ns
    by (auto simp: found_def s1 tf entered_def)
  obtain rd1 where rd1: "regions h1 dest = Some rd1" using d s1(3) [of dest] by (auto simp: heap_region_def)
  have "\<exists>b. objs h1 p = Some b \<and> o_loc b = LRegion src" if "p \<in> set (headers rs1)" for p
    using hd(2) that by (auto simp: in_region_of_def f1 rs1)
  then obtain h2 where h2: "each (\<lambda>p. move_region p dest) (headers rs1) h1 = Ret h2" "heads_only h1 h2"
    "objs h2 = (\<lambda>p. if p \<in> set (headers rs1) then map_option (\<lambda>b. b\<lparr>o_loc := LRegion dest\<rparr>) (objs h1 p) else objs h1 p)"
    "map_option headers (regions h2 src) = Some (filter (\<lambda>p. p \<notin> set (headers rs1)) (headers rs1))"
    "\<exists>rd'. regions h2 dest = Some rd' \<and> set (headers rd') = set (headers rs1) \<union> set (headers rd1)"
    using move_all_ok [of "headers rs1" h1 src dest rs1 rd1] hd(1) ne rs1 rd1 by auto
  have hd2: "map_option headers (regions h2 src) = Some []" using h2(4) by (simp add: filter_empty_conv)
  have hs1: "header_set h1 = header_set h" by (rule same_rest_headers [OF same_shape_rest [OF h1(2)]])
  have src1: "header_set h src = set (headers rs1)" using rs rs1 by (simp add: header_set_def)
  have "header_set h1 dest = set (headers rd1)" using rd1 by (simp add: header_set_def)
  then have dest2: "header_set h2 dest = header_set h dest \<union> header_set h src"
    using h2(5) hs1 src1 by (auto simp: header_set_def)
  note s2 = heads_only_same [OF h2(2)]
  have up2: "up h2 dest = up h dest" by (simp add: up_def s2 s1)
  have "parent_of h2 c = Some src \<and> c \<noteq> dest \<and> c \<notin> up h2 dest" if "c \<in> fst ` set found" for c
    using that acyc by (simp add: fd s2 s1 up2)
  moreover have "room ?e1 h2 2"
    by (rule room_weaken [OF rm]) (use held heads_only_fields [OF h2(2)] f1 in auto)
  moreover have "0 \<le> ?e1 q" for q using pos [of q] pos [of dest] by simp
  moreover have "1 \<le> ?e1 src" "1 \<le> ?e1 dest" using held ne pos [of dest] by simp_all
  ultimately obtain h3 where h3: "each (rehome K dest) found h2 = Ret h3" "forest h3" "rc_ok ?e1 h3" "same_rest h2 h3"
    "parent_of h3 = (\<lambda>c. if c \<in> fst ` set found then Some dest else parent_of h2 c)"
    "owner_of h3 = (\<lambda>c. if c \<in> fst ` set found then Some (Parent dest) else owner_of h2 c)"
    using rehome_all_ok [of h2 ?e1 found src dest K] F h1(3) d fd(1) by (simp add: s1 s2) blast
  have f3: "next_rid h3 = next_rid h" "objs h3 = objs h2"
    using same_rest_fields [OF h3(4)] heads_only_fields [OF h2(2)] f1 by auto
  have "merge_regions K dest src h = merge_counts K dest src h3"
    using h1(1) rs1(1) sc h2(1) h3(1) by (simp add: merge_regions_def get_region_def)
  moreover have "owner_of h3 src = Some Unowned" using h3(6) fd(2) ns un s1 s2 by simp
  moreover have "objs h3 = (\<lambda>p. if p \<in> header_set h src then map_option (\<lambda>b. b\<lparr>o_loc := LRegion dest\<rparr>) (objs h p) else objs h p)"
    unfolding f3(2) h2(3) f1(2) src1 ..
  moreover have "header_set h3 dest = header_set h dest \<union> header_set h src"
    using same_rest_headers [OF h3(4)] dest2 by simp
  moreover have "map_option headers (regions h3 src) = Some []" using h3(4) hd2 by (simp add: same_rest_def)
  moreover have "heap_region h3 q = heap_region h q" for q using h3(4) by (simp add: same_rest_def s2 s1)
  ultimately show ?thesis
    using h3(2,3,5) f3(1) by (intro exI [of _ h3]) (auto simp: fd s2 s1 fun_eq_iff)
qed

lemma rc_okD:
  assumes "rc_ok ext h" "heap_region h r" "regions h r = Some reg"
  shows "int (unat (stack_rc reg)) = ext r + int (card (kids h r))"
proof -
  have "int (rc h r) = ext r + int (card (kids h r))" using assms by (simp add: rc_ok_def)
  then show ?thesis using assms(3) by (simp add: rc_def)
qed

lemma merge_counts_eq:
  assumes "regions h src = Some rs" "regions h dest = Some rd" "frame_depth rs = 0" "frame_depth rd = 0" "src \<noteq> dest"
    "owner rs = Unowned" "stack_rc rs \<noteq> 0" "stack_rc rd \<noteq> 0" "unat (stack_rc rd) + unat (stack_rc rs) < 2 ^ 32"
  shows "merge_counts K dest src h =
    collect_region K src (set_rc src 0 (set_rc dest (stack_rc rd + stack_rc rs - 1) h))"
proof -
  let ?n = "stack_rc rs" and ?m = "stack_rc rd"
  have sum: "unat (?m + ?n) = unat ?m + unat ?n" by (rule unat_add_lem' [OF assms(9)])
  have "0 < unat ?m" "0 < unat ?n" using assms(7,8) by (simp_all add: unat_gt_0)
  then have "1 \<le> ?m + ?n" "unat (?m + ?n) \<noteq> unat (1 :: 32 word)" using sum by (simp_all add: word_le_nat_alt)
  moreover from this have "?m + ?n - 1 \<noteq> 0" by (metis eq_iff_diff_eq_0)
  moreover have "stack_inc dest ?n h = Ret (set_rc dest (?m + ?n) h)"
    using assms by (simp add: stack_inc_def get_region_def is_frame_local_def set_rc_def mod_region_def)
  moreover have "0 < ?n" using assms(7) by (simp add: word_neq_0_conv)
  ultimately show ?thesis
    using assms
    by (simp add: merge_counts_def get_region_def stack_dec'_def stack_dec_def is_frame_local_def set_rc_def mod_region_def
      free_region_def has_owner_def obind_assoc Let_def fun_upd_twist)
qed

theorem merge_regions_ok:
  assumes M: "mergeable ext h dest src" and rs: "regions h src = Some rs" and out: "src \<notin> up h dest"
  shows "\<exists>h'. merge_regions K dest src h = collect_region K src h' \<and> forest h' \<and>
    rc_ok (ext(dest := ext dest + ext src, src := 0)) h' \<and>
    parent_of h' = (\<lambda>c. if parent_of h c = Some src then Some dest else parent_of h c) \<and>
    header_set h' dest = header_set h dest \<union> header_set h src \<and> header_set h' src = {} \<and>
    objs h' = (\<lambda>p. if p \<in> header_set h src then map_option (\<lambda>b. b\<lparr>o_loc := LRegion dest\<rparr>) (objs h p) else objs h p)"
proof -
  note m = M [unfolded mergeable_def]
  have F: "forest h" and rm: "room ext h (nat (ext src) + 2)" and d: "heap_region h dest" and s: "heap_region h src"
    and ne: "src \<noteq> dest" and pos: "\<And>q. 0 \<le> ext q" and held: "1 \<le> ext src"
    using m by auto
  have kid: "c \<notin> up h dest" if "parent_of h c = Some src" "c \<noteq> dest" for c
    using that out above_Some [of "parent_of h" c src] above_trans [of c "parent_of h" dest src] by (auto simp: up_def)
  have pd: "parent_of h dest \<noteq> Some src" using out up_Some [of h dest src] by (auto simp: up_def)
  let ?e1 = "ext(dest := ext dest + 1)"
  obtain h1 where h1: "merge_regions K dest src h = merge_counts K dest src h1" "forest h1" "rc_ok ?e1 h1"
    "next_rid h1 = next_rid h" "\<And>q. heap_region h1 q = heap_region h q"
    "parent_of h1 = (\<lambda>c. if parent_of h c = Some src \<and> c \<noteq> dest then Some dest else parent_of h c)"
    "owner_of h1 src = Some Unowned" "map_option headers (regions h1 src) = Some []"
    "header_set h1 dest = header_set h dest \<union> header_set h src"
    "objs h1 = (\<lambda>p. if p \<in> header_set h src then map_option (\<lambda>b. b\<lparr>o_loc := LRegion dest\<rparr>) (objs h p) else objs h p)"
    using merge_prefix [OF M rs kid, of K] by blast
  obtain rs1 rd1 where r1: "regions h1 src = Some rs1" "frame_depth rs1 = 0" "owner rs1 = Unowned"
    "regions h1 dest = Some rd1" "frame_depth rd1 = 0"
    using h1(5) [of src] h1(5) [of dest] h1(7) s d by (auto simp: heap_region_def owner_of_Some)
  have par1: "parent_of h1 q \<noteq> Some src" for q using h1(6) pd ne by auto
  then have k1: "kids h1 src = {}" by (simp add: kids_def)
  have n: "int (unat (stack_rc rs1)) = ext src"
    using rc_okD [OF h1(3) _ r1(1)] h1(5) [of src] s k1 ne by simp
  have mm: "int (unat (stack_rc rd1)) = ext dest + 1 + int (card (kids h1 dest))"
    using rc_okD [OF h1(3) _ r1(4)] h1(5) [of dest] d by simp
  have "unat (stack_rc rd1) + (nat (ext src) + 1) < 2 ^ 32"
    using room_rc [OF h1(2,3), of "nat (ext src) + 1" dest] room_weaken [OF rm h1(4)] h1(5) [of dest] d r1(4)
    by (force simp: rc_def)
  then have fit: "unat (stack_rc rd1) + unat (stack_rc rs1) < 2 ^ 32" using n by linarith
  have nz: "stack_rc rs1 \<noteq> 0" "stack_rc rd1 \<noteq> 0" using n mm held pos [of dest] by auto
  let ?w = "stack_rc rd1 + stack_rc rs1 - 1"
  let ?h2 = "set_rc dest ?w h1" let ?h3 = "set_rc src 0 ?h2"
  have c: "merge_counts K dest src h1 = collect_region K src ?h3"
    by (rule merge_counts_eq [OF r1(1,4,2,5) ne r1(3) nz fit])
  have w: "int (unat ?w) = ext dest + ext src + int (card (kids h1 dest))"
  proof -
    have "unat ?w = unat (stack_rc rd1 + stack_rc rs1) - 1"
      using unat_add_lem' [OF fit] nz by (subst unat_minus_one) (auto simp: unat_eq_zero [symmetric])
    with unat_add_lem' [OF fit] n mm pos [of dest] show ?thesis by linarith
  qed
  have "rc h1 dest = unat (stack_rc rd1)" using r1(4) by (simp add: rc_def)
  then have wpos: "0 < unat ?w" "0 < rc h1 dest" using w mm pos [of dest] held by linarith+
  have rc2: "rc_ok (?e1(dest := ext dest + ext src)) ?h2"
    by (rule rc_ok_set_rc [OF h1(2,3) _ w]) (use h1(5) d wpos in simp_all)
  have sh2: "forest ?h2" "heap_region ?h2 src" "kids ?h2 src = {}" "parent_of ?h2 src = parent_of h1 src"
    using h1(2,5) s par1 by (simp_all add: same_shape_forest [OF set_rc_shape] same_shape_heap_region [OF set_rc_shape]
      kids_def same_shape_parent [OF set_rc_shape])
  have own: "parent_of h1 src = None" using h1(7) by (simp add: parent_owner)
  have rc3: "rc_ok (?e1(dest := ext dest + ext src, src := 0)) ?h3"
    by (rule rc_ok_set_rc [OF sh2(1) rc2 sh2(2)]) (use own sh2 in simp_all)
  have sh: "same_shape h1 ?h3" using same_shape_trans [OF set_rc_shape set_rc_shape] .
  have "forest ?h3" using h1(2) by (simp add: same_shape_forest [OF sh])
  moreover have "parent_of ?h3 = (\<lambda>c. if parent_of h c = Some src then Some dest else parent_of h c)"
    using h1(6) pd by (auto simp: same_shape_parent [OF sh] fun_eq_iff)
  moreover have "header_set ?h3 = header_set h1" by (rule same_rest_headers [OF same_shape_rest [OF sh]])
  then have "header_set ?h3 src = {}" "header_set ?h3 dest = header_set h dest \<union> header_set h src"
    using h1(8,9) by (auto simp: header_set_def)
  moreover have "objs ?h3 = objs h1" using same_shape_fields [OF sh] by simp
  ultimately show ?thesis using h1(1,10) c rc3 by (intro exI [of _ ?h3]) simp
qed

text \<open>Merging a region into its own child frees it under the child.\<close>

theorem merge_into_child:
  assumes M: "mergeable ext h dest src" and rs: "regions h src = Some rs" and child: "parent_of h dest = Some src"
  shows "\<exists>h'. merge_regions K dest src h = collect_region K src h' \<and> parent_of h' dest = Some src"
proof -
  note m = M [unfolded mergeable_def]
  have F: "forest h" and rm: "room ext h (nat (ext src) + 2)" and d: "heap_region h dest" and s: "heap_region h src"
    and ne: "src \<noteq> dest" and pos: "\<And>q. 0 \<le> ext q" and held: "1 \<le> ext src" and un: "owner_of h src = Some Unowned"
    using m by auto
  have "parent_of h src = None" using un by (simp add: parent_owner)
  then have "up h dest = {dest, src}" using up_Some [OF child] up_None by simp
  then have kid: "c \<notin> up h dest" if "parent_of h c = Some src" "c \<noteq> dest" for c
    using that not_own_parent [OF F, of src] by auto
  let ?e1 = "ext(dest := ext dest + 1)"
  obtain h1 where h1: "merge_regions K dest src h = merge_counts K dest src h1" "forest h1" "rc_ok ?e1 h1"
    "next_rid h1 = next_rid h" "\<And>q. heap_region h1 q = heap_region h q"
    "parent_of h1 = (\<lambda>c. if parent_of h c = Some src \<and> c \<noteq> dest then Some dest else parent_of h c)"
    "owner_of h1 src = Some Unowned"
    using merge_prefix [OF M rs kid, of K] by blast
  obtain rs1 rd1 where r1: "regions h1 src = Some rs1" "frame_depth rs1 = 0" "owner rs1 = Unowned"
    "regions h1 dest = Some rd1" "frame_depth rd1 = 0"
    using h1(5) [of src] h1(5) [of dest] h1(7) s d by (auto simp: heap_region_def owner_of_Some)
  have mm: "int (unat (stack_rc rd1)) = ext dest + 1 + int (card (kids h1 dest))"
    using rc_okD [OF h1(3) _ r1(4)] h1(5) [of dest] d by simp
  have "kids h1 src \<subseteq> {dest}" using h1(6) ne by (auto simp: kids_def split: if_splits)
  then have "card (kids h1 src) \<le> 1" using card_mono [of "{dest}" "kids h1 src"] by simp
  moreover have n: "int (unat (stack_rc rs1)) = ext src + int (card (kids h1 src))"
    using rc_okD [OF h1(3) _ r1(1)] h1(5) [of src] s ne by simp
  moreover have "unat (stack_rc rd1) + (nat (ext src) + 1) < 2 ^ 32"
    using room_rc [OF h1(2,3), of "nat (ext src) + 1" dest] room_weaken [OF rm h1(4)] h1(5) [of dest] d r1(4)
    by (force simp: rc_def)
  ultimately have fit: "unat (stack_rc rd1) + unat (stack_rc rs1) < 2 ^ 32" using held by linarith
  have nz: "stack_rc rs1 \<noteq> 0" "stack_rc rd1 \<noteq> 0" using n mm held pos [of dest] by auto
  let ?h3 = "set_rc src 0 (set_rc dest (stack_rc rd1 + stack_rc rs1 - 1) h1)"
  have "merge_counts K dest src h1 = collect_region K src ?h3"
    by (rule merge_counts_eq [OF r1(1,4,2,5) ne r1(3) nz fit])
  moreover have "parent_of ?h3 = parent_of h1" by (rule same_shape_parent [OF same_shape_trans [OF set_rc_shape set_rc_shape]])
  ultimately show ?thesis using h1(1,6) child by (intro exI [of _ ?h3]) simp
qed

end
