(* ===== verification/Sample.thy ===== *)
theory Sample
  imports MergeLemmas
begin

text \<open>
  A small concrete heap at which the properties of the root theory are instantiated. Region 0
  is a heap region, region 1 a sub-region of it, region 2 the frame-local region of the
  outermost frame. Objects 0 and 1 are frame-local and 0 refers to 1; object 1 refers to object
  2 in region 0, and object 2 to object 3, the entry point of region 1. One register holds
  object 2, another object 3.
\<close>

definition sample_obj :: "rid \<Rightarrow> 32 word \<Rightarrow> (vtype \<times> val) list \<Rightarrow> hobj" where
  "sample_obj r c slots = \<lparr>o_loc = LRegion r, o_rc = c, o_type = 20, o_array = False, o_slots = slots\<rparr>"

definition sample_heap :: heap where
  "sample_heap =
    \<lparr>regions = [0 \<mapsto> \<lparr>owner = Unowned, entry_point = None, stack_rc = 3, rtype = RegionRC,
                  frame_depth = 0, headers = [2], finalizing = False\<rparr>,
                1 \<mapsto> \<lparr>owner = Parent 0, entry_point = Some 3, stack_rc = 1, rtype = RegionRC,
                  frame_depth = 0, headers = [3], finalizing = False\<rparr>,
                2 \<mapsto> \<lparr>owner = Unowned, entry_point = None, stack_rc = 0, rtype = RegionRC,
                  frame_depth = 1, headers = [0, 1], finalizing = False\<rparr>],
     objs = [0 \<mapsto> sample_obj 2 1 [(VDyn, ObjectV 1 False)],
             1 \<mapsto> sample_obj 2 1 [(VObject, ObjectV 2 False)],
             2 \<mapsto> sample_obj 0 2 [(VObject, ObjectV 3 False)],
             3 \<mapsto> sample_obj 1 2 [(VDyn, NoneV)]],
     cowns = [0 \<mapsto> \<lparr>c_refs = 1, c_type = 30, c_content = NoneV\<rparr>],
     next_rid = 3, next_oid = 4, next_cid = 1, worklist = [], in_collection = False,
     cowns_pending = [], cowns_draining = False, frame_regions = [2]\<rparr>"

text \<open>A drain that has nothing to do.\<close>

definition sample_conts :: conts where
  "sample_conts = \<lparr>settle = Ret, cdrain = Ret\<rparr>"

text \<open>The register and frame-local references into each heap region.\<close>

definition sample_ext :: "rid \<Rightarrow> int" where
  "sample_ext r = (if r = 0 then 2 else if r = 1 then 1 else 0)"

lemma sample_ext_nonneg [simp]: "0 \<le> sample_ext r"
  by (simp add: sample_ext_def)

lemmas sample_defs = sample_heap_def sample_obj_def

lemma sample_regions:
  "regions sample_heap r = Some reg \<Longrightarrow> r = 0 \<or> r = 1 \<or> r = 2"
  by (simp add: sample_heap_def split: if_splits)

lemma sample_heap_region: "heap_region sample_heap r \<longleftrightarrow> r = 0 \<or> r = 1"
  by (auto simp: heap_region_def sample_heap_def)

lemma sample_parent: "parent_of sample_heap r = (if r = 1 then Some 0 else None)"
  by (simp add: parent_of_def sample_heap_def)

lemma sample_rc: "rc sample_heap r = (if r = 0 then 3 else if r = 1 then 1 else 0)"
  by (simp add: rc_def sample_heap_def)

lemma sample_forest: "forest sample_heap"
proof -
  have "chain (parent_of sample_heap) 3"
    by (rule chain_decreasing) (simp add: sample_parent split: if_splits)
  moreover have "next_rid sample_heap = 3" by (simp add: sample_heap_def)
  ultimately show ?thesis by (simp add: forest_def sample_parent sample_heap_region)
qed

lemma sample_kids: "kids sample_heap r = (if r = 0 then {1} else {})"
  by (auto simp: kids_def sample_parent sample_rc)

lemma sample_rc_ok: "rc_ok sample_ext sample_heap"
  by (auto simp: rc_ok_def sample_heap_region sample_rc sample_kids sample_ext_def)

lemma sample_closed: "closed_heap sample_heap"
  by (auto simp: closed_heap_def sample_defs trace_def List.map_filter_def traced_def split: if_splits)

lemma sample_above: "above (parent_of sample_heap) r = (if r = 1 then {0} else {})"
proof (cases "r = 1")
  case True
  have "above (parent_of sample_heap) 1 = insert 0 (above (parent_of sample_heap) 0)"
    by (rule above_Some) (simp add: sample_parent)
  with True show ?thesis by (simp add: above_None sample_parent)
qed (simp add: above_None sample_parent)

lemma sample_up: "up sample_heap r = (if r = 1 then {1, 0} else {r})"
  by (auto simp: up_def sample_above)

lemma sample_slots: "slots_total sample_heap = 4"
  by (simp add: slots_total_def sample_defs upt_rec)

lemma sample_objs:
  "objs sample_heap 0 = Some (sample_obj 2 1 [(VDyn, ObjectV 1 False)])"
  "objs sample_heap 1 = Some (sample_obj 2 1 [(VObject, ObjectV 2 False)])"
  "objs sample_heap 2 = Some (sample_obj 0 2 [(VObject, ObjectV 3 False)])"
  "objs sample_heap 3 = Some (sample_obj 1 2 [(VDyn, NoneV)])"
  by (simp_all add: sample_heap_def)

lemma sample_regs:
  "regions sample_heap 0 = Some \<lparr>owner = Unowned, entry_point = None, stack_rc = 3, rtype = RegionRC,
     frame_depth = 0, headers = [2], finalizing = False\<rparr>"
  "regions sample_heap 1 = Some \<lparr>owner = Parent 0, entry_point = Some 3, stack_rc = 1, rtype = RegionRC,
     frame_depth = 0, headers = [3], finalizing = False\<rparr>"
  "regions sample_heap 2 = Some \<lparr>owner = Unowned, entry_point = None, stack_rc = 0, rtype = RegionRC,
     frame_depth = 1, headers = [0, 1], finalizing = False\<rparr>"
  by (simp_all add: sample_heap_def)

lemma sample_obj_sel [simp]:
  "o_loc (sample_obj r c s) = LRegion r" "o_rc (sample_obj r c s) = c" "o_slots (sample_obj r c s) = s"
  "trace (sample_obj r c s) = List.map_filter (\<lambda>(t, v). if traced t then header_of v else None) s"
  by (simp_all add: sample_obj_def trace_def)

lemma sample_ancestor: "r = 0 \<or> r = 1 \<Longrightarrow> is_ancestor_of a r sample_heap = Ret (a = 0 \<and> r = 1)"
  using is_ancestor_ok [OF sample_forest, of r a] by (auto simp: sample_heap_region sample_above)

lemma sample_next: "next_rid sample_heap = 3" "in_collection sample_heap = False" "worklist sample_heap = []"
  by (simp_all add: sample_heap_def)

lemma sample_room: "room sample_ext sample_heap 2"
  by (simp add: room_def sample_ext_def sample_next)

lemma sample_owned: "owned sample_heap r \<longleftrightarrow> r = 1"
  by (auto simp: owned_def sample_heap_def has_owner_def)

lemma sample_locations:
  "location_of 0 sample_heap = Ret (LRegion 2)" "location_of 1 sample_heap = Ret (LRegion 2)"
  "location_of 2 sample_heap = Ret (LRegion 0)" "location_of 3 sample_heap = Ret (LRegion 1)"
  by (simp_all add: location_of_def get_obj_def sample_objs del: One_nat_def)

subsection \<open>Variants\<close>

text \<open>Region 1 without its parent, and owned by cown 0 with object 3 as its content.\<close>

definition sample_free :: heap where
  "sample_free = set_owner 1 Unowned None sample_heap"

lemma sample_free_ok: "forest sample_free" "rc_ok (sample_ext(0 := 3)) sample_free"
  "heap_region sample_free r \<longleftrightarrow> r = 0 \<or> r = 1" "parent_of sample_free = (\<lambda>_. None)"
  "rc sample_free q = rc sample_heap q"
proof -
  have r: "heap_region sample_heap 1" by (simp add: sample_heap_region)
  show p: "parent_of sample_free = (\<lambda>_. None)"
    unfolding sample_free_def parent_set_owner [OF r] by (rule ext) (simp add: sample_parent)
  show "forest sample_free" unfolding sample_free_def by (rule forest_unset_parent [OF sample_forest r]) simp
  show "rc_ok (sample_ext(0 := 3)) sample_free"
    unfolding sample_free_def
    by (rule rc_ok_set_owner [OF sample_forest r sample_rc_ok]) (simp add: sample_parent sample_rc sample_ext_def)
qed (simp_all add: sample_free_def sample_heap_region)

lemma sample_mergeable: "mergeable sample_ext sample_heap 1 0"
proof -
  have "room sample_ext sample_heap (nat (sample_ext 0) + 2)"
    by (simp add: room_def sample_ext_def sample_next)
  moreover have "entered sample_heap 0"
    by (auto simp: entered_def sample_regs traced_from_def sample_objs sample_parent in_region_of_def
      List.map_filter_def traced_def split: if_splits)
  ultimately show ?thesis
    using sample_forest sample_rc_ok sample_closed
    by (simp add: mergeable_def sample_heap_region owner_of_def sample_regs in_region_of_def sample_objs) (simp add: sample_ext_def)
qed

lemma sample_free_mergeable: "mergeable (sample_ext(0 := 3)) sample_free 0 1"
proof -
  have "room (sample_ext(0 := 3)) sample_free (nat ((sample_ext(0 := 3)) 1) + 2)"
    by (simp add: room_def sample_ext_def sample_free_def sample_next)
  moreover have "entered sample_free 1" by (simp add: entered_def sample_free_ok)
  moreover have "closed_heap sample_free"
    using sample_closed by (simp add: closed_heap_def sample_free_def set_owner_def mod_region_def)
  moreover have "regions sample_free 1 = Some \<lparr>owner = Unowned, entry_point = None, stack_rc = 1, rtype = RegionRC,
     frame_depth = 0, headers = [3], finalizing = False\<rparr>"
    by (simp add: sample_free_def set_owner_def mod_region_def sample_regs del: One_nat_def)
  ultimately show ?thesis
    using sample_free_ok
    by (simp add: mergeable_def owner_of_def in_region_of_def) (simp add: sample_free_def sample_objs sample_ext_def)
qed

definition sample_cown :: heap where
  "sample_cown = (set_owner 1 (CownOwner (Some 0)) (Some 3) sample_heap)
     \<lparr>cowns := [0 \<mapsto> \<lparr>c_refs = 1, c_type = 30, c_content = ObjectV 3 False\<rparr>]\<rparr>"

lemma sample_cown_regions:
  "regions sample_cown 0 = regions sample_heap 0" "regions sample_cown 2 = regions sample_heap 2"
  "regions sample_cown 1 = Some \<lparr>owner = CownOwner (Some 0), entry_point = Some 3, stack_rc = 1, rtype = RegionRC,
     frame_depth = 0, headers = [3], finalizing = False\<rparr>"
  "objs sample_cown = objs sample_heap" "next_rid sample_cown = 3"
  "cowns sample_cown 0 = Some \<lparr>c_refs = 1, c_type = 30, c_content = ObjectV 3 False\<rparr>"
  by (simp_all add: sample_cown_def set_owner_def mod_region_def sample_regs sample_next del: One_nat_def)

lemma sample_cown_ok: "forest sample_cown" "rc_ok (sample_ext(0 := 3)) sample_cown"
  "heap_region sample_cown r \<longleftrightarrow> r = 0 \<or> r = 1" "location v sample_cown = location v sample_heap"
proof -
  let ?h = "set_owner 1 (CownOwner (Some 0)) (Some 3) sample_heap"
  have r: "heap_region sample_heap 1" by (simp add: sample_heap_region)
  have reg: "regions sample_cown = regions ?h" "next_rid sample_cown = next_rid ?h" by (simp_all add: sample_cown_def)
  note same = regions_same [OF reg]
  have "forest ?h" by (rule forest_unset_parent [OF sample_forest r]) simp
  then show "forest sample_cown" by (simp add: same)
  have "rc_ok (sample_ext(0 := 3)) ?h"
    by (rule rc_ok_set_owner [OF sample_forest r sample_rc_ok]) (simp add: sample_parent sample_rc sample_ext_def)
  then show "rc_ok (sample_ext(0 := 3)) sample_cown" by (simp add: same)
  show "heap_region sample_cown r \<longleftrightarrow> r = 0 \<or> r = 1" by (simp add: same sample_heap_region)
  show "location v sample_cown = location v sample_heap"
    by (cases v) (simp_all add: location_of_def get_obj_def sample_cown_regions)
qed

text \<open>A program without classes or finalizers, and the runtime of such a program.\<close>

definition sample_env :: env where
  "sample_env = \<lparr>finalizer = \<lambda>_. None, run_cleanup = \<lambda>_ _. Ret\<rparr>"

end
