(* ===== verification/SampleThread.thy ===== *)
theory SampleThread
  imports RunLemmas Sample
begin

text \<open>
  A concrete program and threads at which the properties of the bytecode thread are instantiated.
  Function 0 calls function 1, which takes one argument. The threads run on the sample heap, with
  their frames' regions in it.
\<close>

definition sample_fp :: fp_env where
  "sample_fp = \<lparr>fp32_2 = \<lambda>_ a b. a, fp64_2 = \<lambda>_ a b. a, fp32_1 = \<lambda>_ a. a, fp64_1 = \<lambda>_ a. a,
     widen = ucast, narrow = ucast, trunc = \<lambda>_. None, fp32_of_nat = of_nat, fp64_of_nat = of_nat,
     pointer_bits = \<lambda>_. 0\<rparr>"

definition sample_program :: program where
  "sample_program = \<lparr>types = \<lparr>min_complex_type_id = 20, complex_types =
       [\<lparr>ct_tag = TArray, ct_children = [DynamicTypeId]\<rparr>, \<lparr>ct_tag = TCown, ct_children = [DynamicTypeId]\<rparr>],
     ref_map = Map.empty, typeid_ref_dyn = 0\<rparr>, classes = [],
     funcs = [\<lparr>registers = 2, debug_info = 0, param_types = [], return_type = DynamicTypeId, var_types = [], labels = [0]\<rparr>,
       \<lparr>registers = 2, debug_info = 0, param_types = [DynamicTypeId], return_type = DynamicTypeId, var_types = [], labels = [7]\<rparr>],
     string_arrays = [], symbols = [], memo_funcs = []\<rparr>"

text \<open>The code of function 0: \<open>r0 = const bool true; return r0\<close>.\<close>

definition sample_bytes :: "byte list" where
  "sample_bytes = [0, 0, 1, 1, 43, 0]"

definition sample_foreign :: foreign where
  "sample_foreign = \<lparr>ffi_size = \<lambda>_. 8, ffi_struct = \<lambda>_. None, symbol_address = \<lambda>_. 8, prepare_var = \<lambda>_ _. True, ffi_call = \<lambda>_ _ h. Ret (NoneV, h),
     read_memory = \<lambda>_ _ _. Stuck, write_memory = \<lambda>_ _. Ret, new_callback = \<lambda>_ _ h. Ret (8, h), callback_code = id,
     free_callback = \<lambda>_. Ret\<rparr>"

definition sample_vm :: vm where
  "sample_vm = \<lparr>prog = sample_program, bytes = sample_bytes, fpu = sample_fp, fenv = sample_env, kont = sample_conts,
     addr = \<lambda>p. 8 * p, ffi = sample_foreign\<rparr>"

definition sample_frame :: "nat \<Rightarrow> nat \<Rightarrow> rid \<Rightarrow> frame" where
  "sample_frame g l r = \<lparr>fr_region = r, fr_func = g, fr_level = l, fr_save = (0, 0), fr_base = 2 * l, fr_finalize_base = 0,
     fr_finalize_top = 0, fr_pc = 0, fr_dst = 1, fr_raise = enc (LStack l)\<rparr>"

text \<open>A thread with the given frames, whose regions 2, 3 and 4 are frame-local.\<close>

definition frame_heap :: heap where
  "frame_heap = sample_heap\<lparr>regions := (regions sample_heap)(
       3 \<mapsto> \<lparr>owner = Unowned, entry_point = None, stack_rc = 0, rtype = RegionRC, frame_depth = 2, headers = [], finalizing = False\<rparr>,
       4 \<mapsto> \<lparr>owner = Unowned, entry_point = None, stack_rc = 0, rtype = RegionRC, frame_depth = 3, headers = [], finalizing = False\<rparr>),
     next_rid := 5, cowns := [0 \<mapsto> \<lparr>c_refs = 1, c_type = 21, c_content = NoneV\<rparr>],
     frame_regions := [2, 3, 4]\<rparr>"

definition sample_thread :: "frame list \<Rightarrow> val list \<Rightarrow> nat \<Rightarrow> machine" where
  "sample_thread fs L n = \<lparr>hp = frame_heap\<lparr>frame_regions := rev (map fr_region fs)\<rparr>, stk = empty_stack, at_idx = \<lambda>_. None, frames = fs, locals = L, finals = [], args = n,
     memo = [], memo_busy = [], queue = [], externals = 0, ffi_buffer = 0, extra_params = \<lambda>_. 0\<rparr>"

lemmas thread_defs = sample_thread_def frame_heap_def sample_frame_def sample_vm_def sample_program_def sample_bytes_def

end
