(* ===== verification/SampleIr.thy ===== *)
theory SampleIr
  imports EmitConst SampleThread
begin

text \<open>
  A program for the witnesses: a class, an alias of a union, and a main function of two blocks.
\<close>

definition small_union :: ir_type where
  "small_union = Node LUnion [prim_type PU8, prim_type PNone]"

definition small_main :: ir_func where
  "small_main = \<lparr>fn_name = ''@main'', fn_params = [], fn_type = prim_type PNone,
     fn_vars = [(''v'', Node (LTypeId ''Byte'') [])],
     fn_blocks =
       [\<lparr>blk_name = ''start'', blk_body = [SConst ''v'' PU8 \<lparr>lit_kind = KInt, lit_text = ''200''\<rparr>,
            SNew ''o'' ''Box'' [IrArg True ''v'']],
          blk_term = TJump ''done''\<rparr>,
        \<lparr>blk_name = ''done'', blk_body = [SConst ''r'' PNone \<lparr>lit_kind = KNone, lit_text = ''none''\<rparr>],
          blk_term = TReturn ''r''\<rparr>]\<rparr>"

definition small_program :: ir_program where
  "small_program =
     [TopType ''Byte'' small_union,
      TopClass \<lparr>icls_name = ''Box'', icls_fields = [(''f'', Node (LTypeId ''Byte'') [])], icls_methods = []\<rparr>,
      TopFunc small_main]"

definition small_emit :: emit_env where
  "small_emit = \<lparr>alias_fuel = 3, float_bits = \<lambda>l. (0, 0), memo_funcs = [], class_di = \<lambda>k. 0, func_di = \<lambda>k. 0\<rparr>"




text \<open>What the passes make of it.\<close>

definition small_state :: func_state where
  "small_state = \<lparr>fs_name = ''@main'', fs_func = Some small_main, fs_params = 0, fs_registers = [''v'', ''o'', ''r''],
     fs_labels = [''start'', ''done''],
     fs_cfg = [\<lparr>cfg_pred = [], cfg_succ = [1]\<rparr>, \<lparr>cfg_pred = [0], cfg_succ = []\<rparr>]\<rparr>"

definition small_comp :: compilation where
  "small_comp = \<lparr>comp_error = False, exec_strings = [], typealiases = [(''Byte'', small_union)],
     comp_primitives = replicate 17 None, complex_primitives = [],
     comp_classes = [\<lparr>icls_name = ''Box'', icls_fields = [(''f'', Node (LTypeId ''Byte'') [])], icls_methods = []\<rparr>],
     field_ids = [''f''], method_ids = [''@final'', ''@callback''], comp_functions = [small_state],
     comp_symbols = [], comp_libraries = [],
     comp_types =
       [\<lparr>ti_kind = KCown, ti_elements = [0]\<rparr>, \<lparr>ti_kind = KArray, ti_elements = [6]\<rparr>,
        \<lparr>ti_kind = KArray, ti_elements = [19]\<rparr>, \<lparr>ti_kind = KRef, ti_elements = [DynId]\<rparr>,
        \<lparr>ti_kind = KArray, ti_elements = [13]\<rparr>, \<lparr>ti_kind = KTuple, ti_elements = [13, 22, 19]\<rparr>],
     type_info_ids =
       [\<lparr>ti_kind = KCown, ti_elements = [0]\<rparr> \<mapsto> 18, \<lparr>ti_kind = KArray, ti_elements = [6]\<rparr> \<mapsto> 19,
        \<lparr>ti_kind = KArray, ti_elements = [19]\<rparr> \<mapsto> 20, \<lparr>ti_kind = KRef, ti_elements = [DynId]\<rparr> \<mapsto> 21,
        \<lparr>ti_kind = KArray, ti_elements = [13]\<rparr> \<mapsto> 22, \<lparr>ti_kind = KTuple, ti_elements = [13, 22, 19]\<rparr> \<mapsto> 23]\<rparr>"

named_theorems ir_eval

lemmas [ir_eval] = declare_top_def declare_type_def declare_primitive_def declare_class_def declare_func_def accept_def reject_def
  add_library_def add_typealias_def add_class_def add_func_def Let_def intern_def flag_error_def update_func_def
  get_class_id_def get_typealias_id_def get_typealias_def get_func_id_def get_func_def func_index_def add_label_def add_register_def
  get_label_id_def get_register_id_def blank_function_def add_id_def declare_inside_def declare_body_def
  add_field_def add_method_def declare_method_def get_field_id_def get_method_id_def
  assign_ids_def post_assign_def top_edges_def func_edges_def block_edges_def add_edge_def MainFunctionId_def
  prim_type_def new_compilation_def reserved_types_def numeral_3_eq_3 ir_type_id_simps ir_type_id_kinds
  cown_of_def array_of_def ref_of_def dyn_type_def ffi_struct_result_type_def complex_kind_def number_info_def type_elements_def
  first_complex_def NumPrimitiveClasses_def
  validate_ids_def top_ok_def func_ok_def block_ok_def class_node_def arg_uses_def arity_ok_def field_arity_def
  settle_aliases_def intern_top_def intern_stmt_def validate_primitive_def

lemmas small_defs = small_program_def small_main_def small_union_def small_comp_def small_state_def

lemma small_assigned: "assign_ids 3 small_program = Ret (small_program, small_comp)"
  by (simp add: ir_eval small_defs)

lemma small_validated: "validate_ids 3 small_program small_comp = Ret small_comp"
  by (simp add: ir_eval small_defs)

lemmas [ir_eval] = emit_file_def emit_slot_def emit_class_def emit_field_def emit_type_id_def with_type_def with_id_def
  emit_function_def block_instrs_def with_reg_def with_label_def const_operands_def ir_type_id_complex

lemma map_out_replicate: "f x = Ret y \<Longrightarrow> map_out f (replicate n x) = Ret (replicate n y)"
  by (induction n) auto

text \<open>The emitted file.\<close>

definition small_instrs :: "instr list list" where
  "small_instrs =
    [[(OConst, [OpU 0, OpU 6, OpU 200]), (OArgMove, [OpU 0]), (ONew, [OpU 1, OpU 17]), (OJump, [OpU 1])],
     [(OConst, [OpU 2, OpU 0]), (OReturn, [OpU 2])]]"

definition small_file :: vbc_file where
  "small_file = \<lparr>f_strings = [], f_prim_methods = replicate 17 [],
     f_classes = [\<lparr>cls_debug_info = 0, cls_fields = [(0, 24)], cls_methods = []\<rparr>],
     f_complex_prims = [], f_libs = [], f_symbols = [],
     f_functions = [\<lparr>registers = 3, debug_info = 0, param_types = [], return_type = 0, var_types = [24], labels = [0, 12]\<rparr>],
     f_complex_types =
       [\<lparr>ct_tag = TCown, ct_children = [0]\<rparr>, \<lparr>ct_tag = TArray, ct_children = [6]\<rparr>,
        \<lparr>ct_tag = TArray, ct_children = [19]\<rparr>, \<lparr>ct_tag = TRef, ct_children = [DynamicTypeId]\<rparr>,
        \<lparr>ct_tag = TArray, ct_children = [13]\<rparr>, \<lparr>ct_tag = TTuple, ct_children = [13, 22, 19]\<rparr>,
        \<lparr>ct_tag = TUnion, ct_children = [0, 6]\<rparr>],
     f_memo = [], f_code = [0, 0, 6, 200, 1, 32, 0, 4, 1, 17, 46, 1, 0, 2, 0, 43, 2]\<rparr>"

lemma small_bytes:
  "put_instr (OConst, [OpU 0, OpU 6, OpU 200]) = [0, 0, 6, 200, 1]" "put_instr (OArgMove, [OpU 0]) = [32, 0]"
  "put_instr (ONew, [OpU 1, OpU 17]) = [4, 1, 17]" "put_instr (OJump, [OpU 1]) = [46, 1]"
  "put_instr (OConst, [OpU 2, OpU 0]) = [0, 2, 0]" "put_instr (OReturn, [OpU 2]) = [43, 2]"
  by code_simp+

lemma small_literal: "(word_literal False \<lparr>lit_kind = KInt, lit_text = ''200''\<rparr> :: 8 word) = 200"
  by code_simp

lemma small_emitted: "emit_file small_emit small_comp = Ret small_file"
  by (simp add: ir_eval small_defs small_emit_def small_file_def small_literal small_bytes map_out_replicate emit_type_def of_nat_DynId)

end
