(* ===== verification/Spec2Isabelle.thy ===== *)
theory Spec2Isabelle
  imports ArithLemmas FreezeLemmas LoadEmitted SampleIr
begin

text \<open>
  A verification development for the Verona bytecode toolchain.

  \<^bold>\<open>The program.\<close> A front end produces the intermediate representation \<open>wfIR\<close>
  (\<^verbatim>\<open>include/vir.h\<close>). The compiler \<^verbatim>\<open>virc\<close> numbers its names and types (\<open>assign_ids\<close>,
  \<open>Compilation\<close>), checks them (\<open>validate_ids\<close>) and emits a VBC file (\<open>VBCEmitter\<close>). The
  interpreter \<^verbatim>\<open>vbci\<close> loads the file (\<open>Program::load\<close>) and runs it on threads
  (\<open>Thread::step\<close>), whose instructions work on registers, on a heap of regions and on cowns. Regions
  own objects and form a forest; the write barrier, drag, merge, freeze, the collector and the
  exchange of cown contents are the operations that have to keep the forest and the reference
  counts right. The development follows this order and joins its ends: what the passes accept
  and the emitter writes, the loader loads and the interpreter executes.

  \<^bold>\<open>Conventions\<close> (\<open>Prelude\<close>). An operation that may throw is an \<open>outcome\<close>: \<open>Ret\<close>
  the result, \<open>Raise\<close> a Verona error, \<open>Stuck\<close> a failed assertion, undefined behaviour or
  spent fuel. Hence a theorem with \<open>\<exists>h'. f x = Ret h'\<close> says that no assertion fails, no error is
  thrown and the loops inside \<open>f\<close> end. Machine integers are words of their width; heap pointers
  are identifiers into the maps \<open>regions\<close>, \<open>objs\<close> and \<open>cowns\<close> of a \<open>heap\<close>, in which a freed one is absent.

  \<^bold>\<open>The file format.\<close>
  \<^item> \<open>Format\<close>: the enumerations of \<^verbatim>\<open>include/vbc/format.h\<close>, \<^verbatim>\<open>vbci/value_type.h\<close>.
  \<^item> \<open>Leb\<close>: the integer encodings, writer (\<^verbatim>\<open>virc/vbc/emitter.cc\<close>) and reader
    (\<^verbatim>\<open>vbci/program.h\<close>), with their round trips.
  \<^item> \<open>Codec\<close>: the locales' contract between a writer and a reader, \<open>codec\<close>; \<open>checked_codec\<close> in \<open>Loader\<close> adds
    the loader's own checks. \<open>VbcFile\<close> and \<open>Loader\<close> interpret them for every section of a file;
    \<open>load\<close> is \<open>Program::load\<close>, \<open>put_file\<close> what \<open>emit\<close> appends.
  \<^item> \<open>TypeTable\<close>: \<open>Program::subtype\<close>, layouts and the type queries.

  \<^bold>\<open>The interpreter.\<close>
  \<^item> \<open>Location\<close>, \<open>Value\<close>, \<open>Arith\<close>, \<open>ArithLemmas\<close>: \<^verbatim>\<open>vbci/location.h\<close>, \<^verbatim>\<open>vbci/value.h\<close>,
    \<^verbatim>\<open>vbci/value.cc\<close>. The packed location word and the datatype that it represents; the operators at the
    promoted C++ types, against mathematical integers.
  \<^item> \<open>StackAlloc\<close>: the frame allocator of \<^verbatim>\<open>vbci/stack.h\<close>, \<^verbatim>\<open>vbci/stack.cc\<close>.
  \<^item> \<open>Heap\<close>: \<^verbatim>\<open>vbci/region.h\<close>, \<^verbatim>\<open>region_rc.h\<close>, \<^verbatim>\<open>header.h\<close>, \<^verbatim>\<open>cown.h\<close>, the entry points of
    \<^verbatim>\<open>collect.cc\<close>. \<open>Chains\<close> and \<open>Forest\<close> carry the invariants: \<open>forest\<close> (parents have no cycle
    and exist) and \<open>rc_ok ext\<close> (a region's \<open>stack_rc\<close> is the number \<open>ext\<close> of references to it from
    registers and frames, plus one for each sub-region that has a count of its own).
  \<^item> \<open>Drag\<close>, \<open>Barrier\<close>, \<open>BarrierLemmas\<close>, \<open>Collect\<close>, \<open>Cells\<close>, \<open>Cowns\<close>, \<open>CownLemmas\<close>, \<open>Merge\<close>,
    \<open>MergeLemmas\<close>, \<open>Freeze\<close>, \<open>FreezeLemmas\<close>: \<^verbatim>\<open>drag.cc\<close>, \<^verbatim>\<open>writebarrier.h\<close>, \<^verbatim>\<open>collect.cc\<close>,
    \<^verbatim>\<open>object.h\<close> and \<^verbatim>\<open>array.h\<close>, \<^verbatim>\<open>cown.h\<close>, \<^verbatim>\<open>merge.cc\<close>, \<^verbatim>\<open>freeze.cc\<close>, with how each operation changes
    the forest, \<open>ext\<close> and the objects.
  \<^item> \<open>Registers\<close>, \<open>Control\<close>, \<open>Opcodes\<close>, \<open>Instructions\<close>, \<open>Foreign\<close>, \<open>Interpreter\<close>: \<^verbatim>\<open>register.h\<close>,
    \<^verbatim>\<open>frame.h\<close>, \<^verbatim>\<open>frame.cc\<close>, \<^verbatim>\<open>thread.h\<close>, \<^verbatim>\<open>thread.cc\<close>. A \<open>machine\<close> is a thread with its heap; \<open>exec\<close> dispatches
    to one definition per opcode, \<open>steps\<close> is the loop of \<open>thread_run\<close>. \<open>ThreadLemmas\<close>, \<open>StepLemmas\<close>
    and \<open>RunLemmas\<close> show what control operations do to frames and registers, that every
    instruction keeps the frame stack well-formed (\<open>thread_ok\<close>), and that runs do not depend on fuel.

  \<^bold>\<open>The compiler.\<close>
  \<^item> \<open>Sequent\<close>, \<open>IrSubtype\<close>: \<^verbatim>\<open>virc/analysis/sequent.h\<close> and \<^verbatim>\<open>ir_subtype.h\<close>. The proof search is shown
    to terminate and to decide entailment.
  \<^item> \<open>Ir\<close>, \<open>TypeIds\<close>, \<open>TypeIdLemmas\<close>: \<^verbatim>\<open>include/vir.h\<close>, \<^verbatim>\<open>virc/model/\<close>. \<open>types_inv\<close> is the invariant of
    the type table; \<open>numbered\<close> specifies the numbering as a relation.
  \<^item> \<open>AssignIds\<close>, \<open>ValidateIds\<close>, \<open>Literals\<close>: the two passes and \<^verbatim>\<open>virc/support/literals.cc\<close>.
  \<^item> \<open>Emit\<close>: the emitter. \<open>TypeAgree\<close> relates its type table to the interpreter's subtyping;
    \<open>EmitLemmas\<close> its code to the interpreter's step; \<open>EmitTotal\<close>, \<open>EmitConst\<close> and \<open>EmitFile\<close> show that it writes
    every program that the passes take; \<open>Toolchain\<close> and \<open>LoadEmitted\<close> that the loader accepts what it
    writes.

  \<^bold>\<open>Samples.\<close> \<open>Sample\<close>, \<open>SampleThread\<close> and \<open>SampleIr\<close> hold a concrete heap, threads and a program,
  at which the theorems with hypotheses are instantiated below.

  \<^bold>\<open>Fuel.\<close> Recursions that are not structural have a fuel argument.
  \<^item> \<open>subtype\<close> and layouts recurse over the type table; \<open>subtype_f\<close> needs more than the two ranks (\<open>subtype_decides\<close>),
    and \<open>layout_fuel\<close> is two more than the number of complex types.
  \<^item> The parent chain is walked with \<open>Suc (next_rid h)\<close>, which suffices on a forest; union-find
    likewise with \<open>Suc (next_oid h)\<close> (\<open>find_compresses\<close>).
  \<^item> The search of a drag has \<open>2 + slots_total h\<close>, which suffices (\<open>drag_search_terminates\<close>); \<open>dfs_fuel\<close> of freezing adds
    the number of headers, since each is left once. The unwinding of a raise has the number of frames.
  \<^item> \<open>ir_type_id\<close> and \<open>ir_subtype\<close> follow aliases, which may be cyclic. Where aliases unfold, some
    fuel suffices (\<open>type_numbering\<close>) and any larger amount gives the same; where they do not, none does
    (\<open>alias_cycle_diverges\<close>). The emitter's amount is \<open>alias_fuel\<close>, and \<open>fuel_ok\<close> says that it suffices.
  \<^item> \<open>steps\<close>: a program may run forever; \<open>run_ends_once\<close> shows that a result does not depend on the fuel. The
    collector's fuel counts finalizers in the same way.

  \<^bold>\<open>Parameters.\<close> Rounding arithmetic and libm (\<open>fp_env\<close>), the conversion of float literals, the dynamic linker
  and libffi (\<open>loader_env\<close>, \<open>vm\<close>), foreign memory, what a finalizer's bytecode does (\<open>E\<close> of the collector),
  the addresses of headers (\<open>addr\<close> of freezing), the operations that \<open>Heap\<close> needs from later theories (\<open>conts\<close>, which
  \<open>Collect\<close> provides), debug information and its offsets.

  \<^bold>\<open>Not modelled.\<close> The reader of \<^verbatim>\<open>virc\<close> (parser combinators of the Trieste library), its
  passes \<^verbatim>\<open>memo.cc\<close>, \<^verbatim>\<open>typecheck.cc\<close>, \<^verbatim>\<open>optimize.cc\<close> and \<^verbatim>\<open>liveness.cc\<close>; the surface compiler \<^verbatim>\<open>vc\<close>; debug
  information, logging, command lines; \<^verbatim>\<open>dynlib.cc\<close> and \<^verbatim>\<open>callback.cc\<close> but for the checks around a foreign
  call; the scheduler, so that behaviors are run one at a time and an interleaving of threads on
  shared cowns is not covered. A thrown error is the value \<open>Raise\<close>: the state it leaves behind is an argument of
  the handlers. Where the code iterates over an unordered map the model has a list in insertion order; a class
  with a field or method number twice keeps both entries where the map of the code keeps the first.
\<close>

section \<open>The toolchain\<close>


















section \<open>The compiler\<close>

text \<open>C4. The proof search of \<open>SequentCalculus\<close> returns, and its answer is the entailment: it
  proves the right formula from the left one and the context's implications exactly where every
  valuation of the atoms that satisfies those satisfies it. The axioms have to be exact on atoms.\<close>

theorem sequent_decides:
  assumes "exact_atoms C V proves clash" "formula C l" "formula C r" "list_all (formula C) (implications ctx)"
  shows "sequent C ctx l r =
    Ret (\<forall>v \<in> V. list_all (holds C v) (implications ctx) \<and> holds C v l \<longrightarrow> holds C v r)"
proof -
  have "sequent C ctx l r = Ret (entailed C V (l # rev (implications ctx)) [r])"
    using reduce_exact [OF assms(1), of "[]" "[]" "l # rev (implications ctx)" "[r]" "ctx\<lparr>implications := []\<rparr>"] assms(2-4)
    by (simp add: sequent_def settled_state_def list_all_iff)
  then show ?thesis by (auto simp: entailed_def list_all_iff)
qed

datatype connective = Atom nat | Or | And | Not | Implies

definition propositional :: "connective calculus" where
  "propositional = \<lparr>is_unwrap = \<lambda>_. False, is_or = \<lambda>l. l = Or, is_and = \<lambda>l. l = And, is_not = \<lambda>l. l = Not,
     is_implies = \<lambda>l. l = Implies, axioms = \<lambda>_. Some axiom_eq, contradiction_axioms = \<lambda>_. Some axiom_false\<rparr>"

lemma propositional_exact: "exact_atoms propositional UNIV (=) (\<lambda>_ _. False)"
proof -
  have "\<exists>v. list_all v ls \<and> \<not> list_ex v rs" if "\<forall>l \<in> set ls. \<forall>r \<in> set rs. l \<noteq> r" for ls rs :: "connective node list"
    using that by (intro exI [of _ "\<lambda>x. x \<in> set ls"]) (auto simp: list_all_iff list_ex_iff)
  then show ?thesis
    by (simp add: exact_atoms_def propositional_def ask_def axiom_eq_def axiom_false_def contradiction_def Let_def)
qed

text \<open>Modus ponens through the context.\<close>

theorem sequent_decides_witness:
  "sequent propositional \<lparr>implications = [Node Implies [Node (Atom 1) [], Node (Atom 2) []]], assumptions = []\<rparr>
     (Node (Atom 1) []) (Node Or [Node (Atom 3) [], Node (Atom 2) []]) = Ret True"
  by (subst sequent_decides [OF propositional_exact])
    (auto simp: propositional_def is_atom_def)

text \<open>C5. What the compiler's subtyping accepts, the interpreter's accepts for the numbers the two
  types get in the emitted table, at any depth of aliases, unions and constructors. No union in the
  table may have the dynamic type as a member.\<close>

theorem compiler_subtype_sound:
  assumes "table_ok c" "ir_subtype n (alias_of c) no_context l r = Ret True"
    and "ir_type_id m l c = Ret (i, c)" "ir_type_id m r c = Ret (j, c)"
  shows "subtype (table_of c) (of_nat i) (of_nat j)"
  using ir_subtype_sound [OF assms(1,2)] ir_type_id_numbered [of c m l i c] ir_type_id_numbered [of c m r j c] assms
  by (simp add: no_context_def table_ok_def)




definition small_types :: compilation where
  "small_types = small_comp\<lparr>comp_types := comp_types small_comp @ [\<lparr>ti_kind = KUnion, ti_elements = [0, 6]\<rparr>],
     type_info_ids := (type_info_ids small_comp)(\<lparr>ti_kind = KUnion, ti_elements = [0, 6]\<rparr> \<mapsto> 24)\<rparr>"

lemma small_types_ok: "table_ok small_types"
proof -
  have "types_inv small_comp" using assign_ids_types [OF small_assigned] by blast
  moreover have "ir_type_id 3 (Node (LTypeId ''Byte'') []) small_comp = Ret (24, small_types)"
    by (simp add: ir_eval small_defs small_types_def insert_commute)
  ultimately have "types_inv small_types" using ir_type_id_numbered by blast
  moreover have "numbers_fit small_types" by (simp add: numbers_fit_def small_types_def small_comp_def first_complex_def DynId_def NumPrimitiveClasses_def)
  moreover have "no_dyn_unions small_types" by (simp add: no_dyn_unions_def small_types_def small_comp_def DynId_def)
  ultimately show ?thesis by (simp add: table_ok_def)
qed

theorem compiler_subtype_sound_witness: "subtype (table_of small_types) 6 24"
proof -
  have "ir_subtype 3 (alias_of small_types) no_context (prim_type PU8) (Node (LTypeId ''Byte'') []) = Ret True"
    by (simp add: numeral_3_eq_3 sequent_def no_context_def reduce.simps ir_calculus_def close_atoms_def ask_def alias_of_def
      prim_type_def ir_axiom_eq_def ir_axiom_alias_def resolve_alias_def contradiction_def small_types_def ir_eval small_defs)
  moreover have "ir_type_id 3 (Node (LTypeId ''Byte'') []) small_types = Ret (24, small_types)"
    by (simp add: ir_eval small_defs small_types_def insert_commute)
  moreover have "ir_type_id 3 (prim_type PU8) small_types = Ret (6, small_types)" by (simp add: ir_eval)
  ultimately show ?thesis using compiler_subtype_sound [OF small_types_ok] by fastforce
qed

text \<open>C7. A type whose names are declared and whose aliases unfold gets a number: \<open>get_type_id\<close>
  returns, the table stays consistent, no number given before changes, and the type keeps its
  number in every later state of the table.\<close>

theorem type_numbering:
  assumes "types_inv c" "known c t"
  shows "\<exists>n i c'. ir_type_id n t c = Ret (i, c') \<and> types_inv c' \<and> grows c c' \<and>
    (\<forall>m c1 j c2. types_inv c1 \<and> grows c' c1 \<and> ir_type_id m t c1 = Ret (j, c2) \<longrightarrow> j = i)"
proof -
  from ir_type_id_returns [OF assms(2)] obtain n i c' where r: "ir_type_id n t c = Ret (i, c')"
    by (metis same_scope_def surj_pair)
  note 1 = ir_type_id_numbered [OF assms(1) r]
  have "j = i" if "types_inv c1" "grows c' c1" "ir_type_id m t c1 = Ret (j, c2)" for m c1 j c2
    using ir_type_id_numbered [OF that(1,3)] numbered_grows [OF _ that(2)] numbered_grows numbered_fun 1 by blast
  with r 1 show ?thesis by blast
qed

theorem type_numbering_witness:
  "\<exists>n i c'. ir_type_id n (Node LArray [Node (LTypeId ''Byte'') []]) small_comp = Ret (i, c') \<and> types_inv c'"
proof -
  have "known small_comp (Node LArray [Node (LTypeId ''Byte'') []])"
    by (auto intro!: known.intros simp: ir_eval small_defs)
  with type_numbering [of small_comp "Node LArray [Node (LTypeId ''Byte'') []]"] assign_ids_types [OF small_assigned]
  show ?thesis by blast
qed




section \<open>Literals\<close>

text \<open>Writing an integer in any base of the language and reading the literal gives the integer,
  wherever underscores are put.\<close>

theorem integer_literal_value:
  assumes "number_base (lit_kind l) = Some b" "fits_range sg w (int n)"
    and "filter (\<lambda>c. c \<noteq> CHR ''_'') (lit_text l) = prefix @ show_base b n"
    and "length prefix = (if lit_kind l = KInt then 0 else 2)"
  shows "literal_value sg w l = int n"
  using assms by (rule int_literal_show)

theorem integer_literal_value_witness: "literal_value False 16 \<lparr>lit_kind = KHex, lit_text = ''0xff_ff''\<rparr> = 65535"
proof -
  have "char_of (102 :: nat) = CHR ''f''" by code_simp
  then have "show_base 16 65535 = ''ffff''" by (simp add: show_base.simps digit_char_def)
  then show ?thesis using integer_literal_value [of "\<lparr>lit_kind = KHex, lit_text = ''0xff_ff''\<rparr>" 16 False 16 65535 "''0x''"]
    by (simp add: number_base_def fits_range_def)
qed


lemma octal_digits: "char_of (48 :: nat) = CHR ''0''" "char_of (49 :: nat) = CHR ''1''" "char_of (50 :: nat) = CHR ''2''"
  "char_of (51 :: nat) = CHR ''3''" "char_of (52 :: nat) = CHR ''4''" "char_of (53 :: nat) = CHR ''5''"
  "char_of (54 :: nat) = CHR ''6''" "char_of (55 :: nat) = CHR ''7''" "char_of (0 :: nat) = CHR 0x00"
  by code_simp+

text \<open>C9. The character after an octal escape of one digit is lost, whatever it is, and the rest of the
  text goes on behind it: \<open>parse_number\<close> stops behind the last digit where it has read fewer
  than its limit, and \<open>unescape\<close> steps over one more.\<close>

theorem short_escape_drops:
  assumes "digit_value c = Some k" "k < 8" "\<not> is_digit 8 d" "CHR 0x5C \<notin> set rest"
  shows "unescape (CHR 0x5C # c # d # rest) = char_of k # rest"
proof -
  let ?s = "CHR 0x5C # c # d # rest"
  have c: "c \<in> set ''01234567''"
  proof -
    have n: "of_char c = 48 + k" using assms(1,2) by (auto simp: digit_value_def Let_def split: if_splits)
    then have "c = char_of (48 + k)" by (metis char_of_char)
    moreover have "k \<in> {0, 1, 2, 3, 4, 5, 6, 7}" using assms(2) by auto
    ultimately show ?thesis by (auto simp: octal_digits)
  qed
  then have simple: "simple_escape c = None" by (auto simp: simple_escape_def)
  have "digits_loop ?s 8 3 2 1 (of_nat k) = (of_nat k, 1, 2)"
    using assms(3) by (subst digits_loop.simps) (auto simp: is_digit_def numeral_2_eq_2 split: option.splits)
  then have "digits_loop ?s 8 3 1 0 0 = (of_nat k, 1, 2)"
    using assms(1,2) by (subst digits_loop.simps) (simp add: numeral_2_eq_2)
  then have "numeric_escape ?s 1 = Some (of_nat k, 2)" using c by (simp add: numeric_escape_def parse_number_def)
  moreover have "append_utf8 (of_nat k) [] = Some [char_of k]"
  proof -
    have "unat (of_nat k :: 32 word) = k" using assms(2) by (simp add: unat_of_nat take_bit_nat_eq_self)
    then show ?thesis using assms(2) by (simp add: append_utf8_def byte_char_def word_less_nat_alt word_le_nat_alt)
  qed
  ultimately have "unescape_loop ?s 0 [] = unescape_loop ?s 3 [char_of k]"
    using simple by (subst unescape_loop.simps) (simp add: numeral_3_eq_3 numeral_2_eq_2)
  also have "\<dots> = char_of k # rest"
    using unescape_plain [of 3 ?s "[char_of k]"] assms(4) by (simp add: numeral_3_eq_3)
  finally show ?thesis by (simp add: unescape_def)
qed

theorem short_escape_drops_witness: "unescape [CHR 0x5C, CHR ''0'', CHR ''Z''] = [CHR 0x00]"
  using short_escape_drops [of "CHR ''0''" 0 "CHR ''Z''" "[]"] by (simp add: digit_value_def is_digit_def octal_digits)

section \<open>The file format\<close>

text \<open>C10. Loading an emitted file gives back every table the emitter wrote: strings, classes,
  libraries, symbols, functions, complex types and memo list, with function labels made
  absolute and the debug section located right after the code, whatever bytes that holds.\<close>

theorem load_round_trip:
  assumes "loadable E f"
  shows "load E (put_file f @ debug) = Ret (Some (loaded_of f debug))"
  by (rule load_put_file [OF assms])

definition tiny_types :: "complex_type list" where
  "tiny_types =
    [\<lparr>ct_tag = TCown, ct_children = [0]\<rparr>, \<lparr>ct_tag = TArray, ct_children = [6]\<rparr>,
     \<lparr>ct_tag = TArray, ct_children = [19]\<rparr>, \<lparr>ct_tag = TRef, ct_children = [DynamicTypeId]\<rparr>,
     \<lparr>ct_tag = TArray, ct_children = [13]\<rparr>, \<lparr>ct_tag = TTuple, ct_children = [13, 22, 19]\<rparr>]"

definition tiny_file :: vbc_file where
  "tiny_file =
    \<lparr>f_strings = [[109, 97, 105, 110]], f_prim_methods = replicate 17 [],
     f_classes = [\<lparr>cls_debug_info = 3, cls_fields = [(0, 5), (1, 17)], cls_methods = [(4, 0)]\<rparr>],
     f_complex_prims = [[]], f_libs = [], f_symbols = [],
     f_functions = [\<lparr>registers = 2, debug_info = 0, param_types = [], return_type = 0,
       var_types = [5], labels = [0, 2]\<rparr>],
     f_complex_types = tiny_types, f_memo = [], f_code = [200, 1, 77, 0]\<rparr>"

definition tiny_env :: loader_env where
  "tiny_env = \<lparr>has_symbol = \<lambda>_ _ _. True, prepare_ok = \<lambda>_. True,
     struct_offsets = \<lambda>ts. Some (map (\<lambda>i. 8 * i) [0..<length ts])\<rparr>"

lemmas tiny_defs = tiny_env_def tiny_file_def tiny_types_def file_types_def num_ids_def
  DynamicTypeId_def MainFunctionId_def FinalizerMethodId_def NumPrimitiveClasses_def

lemma tiny_sizes: "sizes_ok tiny_file"
  by (simp add: sizes_ok_def tiny_defs class_ok_def function_ok_def complex_ok_def)

lemma tiny_main: "main_ok (num_ids tiny_file) (f_functions tiny_file) = Ret True"
  by (simp add: main_ok_def tiny_defs subtype_step_def eval_nat_numeral)

lemma tiny_predefined: "predefined_ok (num_ids tiny_file) (f_complex_types tiny_file)"
  by (simp add: predefined_ok_def tiny_defs)

lemma tiny_fixup: "all_ret (fixup_class tiny_env (file_types tiny_file) (f_functions tiny_file)) (file_classes tiny_file) = Ret True"
  by code_simp

lemma tiny_loadable: "loadable tiny_env tiny_file"
  using tiny_sizes tiny_main tiny_predefined tiny_fixup
  by (simp add: loadable_def) (simp add: tiny_defs)

theorem load_round_trip_witness:
  "loadable tiny_env tiny_file \<and>
   load tiny_env (put_file tiny_file @ [1, 2]) = Ret (Some (loaded_of tiny_file [1, 2]))"
  using tiny_loadable load_round_trip [OF tiny_loadable, of "[1, 2]"] by blast

section \<open>Integers in the file\<close>

text \<open>Reading back an unsigned LEB128 number written anywhere in a file gives the number and
  the position right after it.\<close>

theorem uleb_round_trip:
  "uleb_get (pre @ uleb_put v @ post) (length pre) = Ret (v, length pre + length (uleb_put v))"
  by (rule uleb_get_put)

text \<open>Reading back a signed (zigzag) 64 bit constant gives the constant.\<close>

theorem sleb_round_trip:
  "sleb_get (pre @ sleb_put64 v @ post) (length pre) = Ret (v, length pre + length (sleb_put64 v))"
  by (rule sleb_get_put64)

text \<open>C11. The emitter's zigzag writer at the 8 and 16 bit types loses every constant below -64: the loop
  test compares a promoted negative \<open>int\<close>, so the writer stops too early and the reader does not
  give the constant back.\<close>

theorem sleb_narrow_loses:
  fixes v :: "'a::len word"
  assumes "8 \<le> LENGTH('a)" "LENGTH('a) \<le> 16" "sint v < - 64"
  shows "sleb_get (pre @ sleb_put_narrow v @ post) (length pre)
    \<noteq> Ret (scast v, length pre + length (sleb_put_narrow v))"
  using assms by (rule sleb_narrow_bad)

theorem sleb_narrow_loses_witness:
  "sleb_get (sleb_put_narrow (- 65 :: 8 word) @ [7]) 0 \<noteq> Ret (- 65, length (sleb_put_narrow (- 65 :: 8 word)))"
  using sleb_narrow_loses [of "- 65 :: 8 word" "[]" "[7]"] by simp

section \<open>Subtyping\<close>

text \<open>C12. On a well-formed type table the recursive subtype check terminates with an answer for
  every pair of type identifiers.\<close>

theorem subtype_decides:
  assumes "types_ok P" "id_ok P a" "id_ok P b" "rank P a + rank P b < n"
  shows "subtype_f n P a b = Ret (subtype P a b)"
  using assms by (rule subtype_f_total)

text \<open>C13. Subtyping is transitive, through unions, tuples, arrays, cowns and references.\<close>

theorem subtype_transitive:
  assumes "types_ok P" "id_ok P a" "id_ok P b" "id_ok P c" "subtype P a b" "subtype P b c"
  shows "subtype P a c"
  using assms by (rule subtype_trans)

definition sample_types :: type_table where
  "sample_types = \<lparr>min_complex_type_id = 18,
     complex_types = [\<lparr>ct_tag = TUnion, ct_children = [5, 6]\<rparr>, \<lparr>ct_tag = TUnion, ct_children = [7, 5, 6]\<rparr>],
     ref_map = \<lambda>_. None, typeid_ref_dyn = 0\<rparr>"

lemma sample_types_ok: "types_ok sample_types" "id_ok sample_types 5" "id_ok sample_types 18" "id_ok sample_types 19"
  "rank sample_types 5 = 0" "rank sample_types 18 = 1" "rank sample_types 19 = 2"
  by (simp_all add: types_ok_def id_ok_def rank_def sample_types_def is_complex_def NumPrimitiveClasses_def
    DynamicTypeId_def complex_ok_def All_less_Suc)

theorem subtype_decides_witness: "subtype_f 4 sample_types 18 19 = Ret (subtype sample_types 18 19)"
  using sample_types_ok subtype_decides [of sample_types 18 19 4] by simp

theorem subtype_transitive_witness: "subtype sample_types 5 19"
proof -
  have "subtype sample_types 5 18" "subtype sample_types 18 19"
    by (simp_all add: subtype_def sample_types_ok eval_nat_numeral) (code_simp+)
  with sample_types_ok subtype_transitive [of sample_types 5 18 19] show ?thesis by blast
qed

section \<open>Locations\<close>

text \<open>C14. The packed \<open>Location\<close> word is a faithful representation: every tag test answers what the
  location is, and no two locations share a word.\<close>

theorem location_word_faithful:
  assumes "loc_ok l" "loc_ok m"
  shows "(raw_is_region (enc l) = is_region l \<and> raw_is_stack (enc l) = is_stack l \<and>
      raw_is_immortal (enc l) = is_immortal l \<and> raw_is_immutable (enc l) = is_immutable l \<and>
      raw_is_scc_ptr (enc l) = is_scc_ptr l \<and> raw_is_pending (enc l) = is_pending l) \<and>
    (enc l = enc m \<longleftrightarrow> l = m)"
  using enc_inject [OF assms]
  by (auto simp: enc_is_region enc_is_stack enc_is_immortal enc_is_immutable enc_is_scc_ptr enc_is_pending)

theorem location_word_faithful_witness:
  "raw_is_immutable (enc (LScc 5)) \<and> \<not> raw_is_region (enc (LScc 5)) \<and> enc (LScc 5) \<noteq> enc (LRegion 5)"
  using location_word_faithful [of "LScc 5" "LRegion 5"] by (simp add: loc_ok_def)

text \<open>Marking a region location pending and unmarking it gives the location back.\<close>

theorem pending_round_trip:
  assumes "raw_is_region v"
  shows "obind (raw_pending v) raw_unpending = Ret v"
  using assms by (rule pending_unpending)

theorem pending_round_trip_witness: "obind (raw_pending 0x1000) raw_unpending = Ret 0x1000"
  using pending_round_trip [of "0x1000"] by (simp add: raw_is_region_def LocMask_def)

section \<open>Arithmetic\<close>

text \<open>C15. Addition, subtraction and multiplication of two integers of one type compute the
  mathematical result at that type, wrapping for the unsigned ones; the only other outcome is
  the undefined signed overflow of the promoted C++ operation.\<close>

theorem integer_arithmetic:
  assumes "is_int a" "get_value_type b = get_value_type a"
  shows "op_add E a b = (if overflows (cty_of a) (ival a + ival b) then Stuck
      else Ret (mk_int (get_value_type a) (ival a + ival b))) \<and>
    op_sub E a b = (if overflows (cty_of a) (ival a - ival b) then Stuck
      else Ret (mk_int (get_value_type a) (ival a - ival b))) \<and>
    op_mul E a b = (if overflows (cty_of a) (ival a * ival b) then Stuck
      else Ret (mk_int (get_value_type a) (ival a * ival b)))"
  using op_add_int [OF assms] op_sub_int [OF assms] op_mul_int [OF assms] by simp

theorem integer_arithmetic_witness:
  "op_add sample_fp (I8V 100) (I8V 100) = Ret (I8V (- 56)) \<and> op_mul sample_fp (U16V 65535) (U16V 65535) = Stuck"
  using integer_arithmetic [of "I8V 100" "I8V 100" sample_fp] integer_arithmetic [of "U16V 65535" "U16V 65535" sample_fp]
  by (simp add: is_int_def cty_of_def overflows_def in_range_def)

text \<open>Division truncates towards zero and the remainder takes the dividend's sign, at every integer
  type: the quotient is the value at that type of the one integer that fits the remainder, which is
  exact and smaller than the divisor.\<close>

theorem division_law:
  assumes "is_int a" "get_value_type b = get_value_type a" "op_div E a b = Ret q" "op_mod E a b = Ret r"
  shows "\<exists>q'. q = mk_int (get_value_type a) q' \<and> q' * ival b + ival r = ival a \<and> \<bar>ival r\<bar> < \<bar>ival b\<bar> \<and>
    (ival r = 0 \<or> sgn (ival r) = sgn (ival a))"
  using assms by (rule div_mod_law)

theorem division_law_witness: "\<exists>q'. I32V (- 3) = mk_int VI32 q' \<and> q' * 2 + (- 1) = - 7"
proof -
  have "op_div sample_fp (I32V (- 7)) (I32V 2) = Ret (I32V (- 3))"
    "op_mod sample_fp (I32V (- 7)) (I32V 2) = Ret (I32V (- 1))"
    by (simp_all add: op_div_int op_mod_int is_int_def cty_of_def overflows_def in_range_def quot_def remainder_def)
  from division_law [OF _ _ this] show ?thesis by (auto simp: is_int_def)
qed

text \<open>C16. The ordering of two integers of one type is decided correctly, but at the 8 and 16 bit
  types the truth value comes back as a number of that type instead of a \<open>Bool\<close>, and the
  conversion that a conditional makes of it raises \<open>BadConversion\<close>, whatever the operands.\<close>

theorem comparison_result_type:
  assumes "is_int a" "get_value_type b = get_value_type a"
  shows "op_lt a b = Ret (if cty_of a \<in> {CI8, CI16, CU8, CU16}
      then mk_int (get_value_type a) (of_bool (ival a < ival b)) else BoolV (ival a < ival b)) \<and>
    obind (op_lt a b) get_bool = (if cty_of a \<in> {CI8, CI16, CU8, CU16} then Raise BadConversion else Ret (ival a < ival b))"
proof -
  have "get_bool (mk_int (get_value_type a) k) = Raise BadConversion" for k
    using assms(1) by (cases a) (simp_all add: is_int_def)
  then show ?thesis using op_compare_int(1) [OF assms] by simp
qed

theorem comparison_result_type_witness:
  "op_lt (U8V 1) (U8V 2) = Ret (U8V 1) \<and> obind (op_lt (U8V 1) (U8V 2)) get_bool = Raise BadConversion \<and>
   op_lt (I64V 1) (I64V 2) = Ret (BoolV True)"
  using comparison_result_type [of "U8V 1" "U8V 2"] comparison_result_type [of "I64V 1" "I64V 2"]
  by (simp add: is_int_def cty_of_def)

text \<open>Negation and complement of an 8 or 16 bit integer yield an \<open>I32\<close> value, not one of the
  operand's type.\<close>

theorem narrow_unop_widens:
  assumes "is_int a" "cty_of a \<in> {CI8, CI16, CU8, CU16}"
  shows "op_neg a = Ret (I32V (word_of_int (- ival a))) \<and> op_not a = Ret (I32V (word_of_int (NOT (ival a))))"
  using unop_narrow(1,2) [OF assms] by simp

theorem narrow_unop_widens_witness: "op_neg (I8V 5) = Ret (I32V (- 5)) \<and> op_not (U8V 0) = Ret (I32V (- 1))"
  using narrow_unop_widens [of "I8V 5"] narrow_unop_widens [of "U8V 0"] by (simp add: is_int_def cty_of_def)

text \<open>Conversion between integer types keeps the number modulo the target width, whatever the
  two signednesses.\<close>

theorem integer_conversion:
  assumes "is_int v" "int_type to \<noteq> None"
  shows "convert E v to = Ret (mk_int to (ival v))"
  using assms by (rule convert_int)

theorem integer_conversion_witness: "convert sample_fp (I8V (- 1)) VU32 = Ret (U32V 0xFFFFFFFF)"
  using integer_conversion [of "I8V (- 1)" VU32 sample_fp] by (simp add: is_int_def)

text \<open>Conversion of an integer to a double goes through its unsigned 64 bit pattern, for negative
  numbers too.\<close>

theorem negative_to_double:
  assumes "is_int v"
  shows "convert E v VF64 = Ret (F64V (fp64_of_nat E (nat (take_bit 64 (ival v)))))"
  using assms by (rule convert_to_double)

theorem negative_to_double_witness:
  "convert sample_fp (I32V (- 1)) VF64 = Ret (F64V (fp64_of_nat sample_fp 18446744073709551615))"
  using negative_to_double [of "I32V (- 1)" sample_fp] by (simp add: is_int_def take_bit_minus_one_eq_mask mask_eq_exp_minus_1)

section \<open>The frame stack\<close>

text \<open>C17. For every sequence of frame pushes, allocations and frame pops, walking the stack from the
  youngest frame's saved top visits exactly the headers allocated in it, oldest first, across
  chunk boundaries and their markers.\<close>

theorem frame_walk_complete:
  assumes "stack_reach s ((i, xs) # fs)"
  shows "visit_headers i (save_top s) s = Ret xs"
  using assms by (rule stack_reach_visit)

theorem frame_walk_complete_witness:
  "\<exists>s xs. length xs = 2 \<and> visit_headers (0, 0) (save_top s) s = Ret xs"
proof -
  let ?s1 = "empty_stack\<lparr>nchunks := 1, top_offset := 600, mem := \<lambda>c j. if c = 0 \<and> j = 0 then Some (Live 600) else None\<rparr>"
  let ?s2 = "?s1\<lparr>nchunks := 2, top_chunk := 1, top_offset := 600,
    mem := \<lambda>c j. if c = 0 \<and> j = 0 then Some (Live 600) else if c = 0 \<and> j = 600 then Some Marker
      else if c = 1 \<and> j = 0 then Some (Live 600) else None\<rparr>"
  have a: "create 600 empty_stack = Ret ((0, 0), ?s1)"
    by (simp add: create_def alloc_def align_up_def ChunkSize_def empty_stack_def save_top_def put_header_at_def fun_eq_iff)
  have b: "create 600 ?s1 = Ret ((1, 0), ?s2)"
    by (simp add: create_def alloc_def align_up_def ChunkSize_def HeaderSize_def empty_stack_def save_top_def put_header_at_def fun_eq_iff)
  have "stack_reach ?s2 [((0, 0), [(0, 0), (1, 0)])]"
    using sr_create [OF sr_create [OF sr_push [OF sr_empty] _ a] _ b]
    by (simp add: HeaderSize_def save_top_def empty_stack_def)
  from frame_walk_complete [OF this] show ?thesis by (intro exI conjI) auto
qed

section \<open>The bytecode thread\<close>

text \<open>C18. Every instruction of a run keeps the frame stack of its thread well-formed, through calls,
  tail calls, returns, raises, foreign calls, behaviors and nested memo runs: each frame has a
  function of the program and its depth as its level, and its registers start right behind its
  caller's. A run that returns does so at the depth it was asked to.\<close>

theorem run_keeps_frames:
  assumes "thread_ok V m" "steps n V d m = Ret m'"
  shows "thread_ok V m' \<and> length (frames m') = d"
  using yieldsD [OF steps_ok [OF assms(1)] assms(2)] steps_depth [OF assms(2)] by simp

theorem run_keeps_frames_witness:
  "case steps 3 sample_vm 0 (sample_thread [sample_frame 0 0 2] [NoneV, NoneV, NoneV] 0) of
     Ret m \<Rightarrow> thread_ok sample_vm m \<and> frames m = [] \<and> locals m = [BoolV True, InvalidV, NoneV]
   | _ \<Rightarrow> False"
proof -
  let ?m = "sample_thread [sample_frame 0 0 2] [NoneV, NoneV, NoneV] 0"
  have "case steps 3 sample_vm 0 ?m of Ret m \<Rightarrow> locals m = [BoolV True, InvalidV, NoneV] | _ \<Rightarrow> False"
    by code_simp
  then obtain m where m: "steps 3 sample_vm 0 ?m = Ret m" "locals m = [BoolV True, InvalidV, NoneV]"
    by (auto split: outcome.splits)
  moreover have "thread_ok sample_vm ?m" by (simp add: thread_ok_def thread_defs)
  ultimately show ?thesis using run_keeps_frames [of sample_vm ?m 3 0 m] by simp
qed

text \<open>C19. A call passes its arguments in place: the callee's registers start with the argument area
  of the caller, whose values and all older registers stay as they are, and the area is empty again.\<close>

theorem call_passes_arguments:
  assumes "pushframe V (Some g) dst m = Ret m'" "func_at V g = Ret fn" "frames m = f # fs" "frame_end V f = Ret e"
  shows "args m = length (param_types fn) \<and> args m' = 0 \<and> (\<forall>j < length (locals m). locals m' ! j = locals m ! j) \<and>
    (\<exists>c. frames m' = c # f # fs \<and> fr_func c = g \<and> fr_base c = e \<and> fr_dst c = dst)"
  using pushframe_Ret [OF assms] by blast

definition call_thread :: machine where
  "call_thread = sample_thread [sample_frame 0 0 2] [NoneV, NoneV, BoolV True] 1"

theorem call_passes_arguments_witness:
  "case pushframe sample_vm (Some 1) 0 call_thread of
     Ret m \<Rightarrow> locals m ! 2 = BoolV True \<and> map fr_base (frames m) = [2, 0] | _ \<Rightarrow> False"
proof -
  have "case pushframe sample_vm (Some 1) 0 call_thread of Ret m \<Rightarrow> True | _ \<Rightarrow> False" by code_simp
  then obtain m where m: "pushframe sample_vm (Some 1) 0 call_thread = Ret m" by (auto split: outcome.splits)
  have "func_at sample_vm 1 = Ret (funcs sample_program ! 1)" by (simp add: func_at_def sample_vm_def sample_program_def)
  moreover have "frames call_thread = [sample_frame 0 0 2]" "frame_end sample_vm (sample_frame 0 0 2) = Ret 2"
    by (simp_all add: call_thread_def thread_defs frame_end_def func_at_def)
  moreover have "locals call_thread = [NoneV, NoneV, BoolV True]" by (simp add: call_thread_def thread_defs)
  ultimately obtain c where "frames m = [c, sample_frame 0 0 2]" "fr_base c = 2" "\<forall>j<3. locals m ! j = [NoneV, NoneV, BoolV True] ! j"
    using call_passes_arguments [OF m, where f = "sample_frame 0 0 2" and fs = "[]" and e = 2] by auto
  then show ?thesis using m by (simp add: sample_frame_def)
qed

text \<open>C20. A return that succeeds pops one frame, stores the value into the caller's destination
  register and changes no other register below the callee's.\<close>

theorem return_restores:
  assumes "popframe V ret m = Ret m'" "frames m = f # g # fs" "fr_base f \<le> length (locals m)"
  shows "frames m' = g # fs \<and> locals m' ! (fr_base g + fr_dst f) = ret \<and>
    (\<forall>i < fr_base f. i \<noteq> fr_base g + fr_dst f \<longrightarrow> locals m' ! i = locals m ! i)"
  using assms by (rule popframe_Ret)

theorem return_restores_witness:
  "case popframe sample_vm (BoolV True) (sample_thread [sample_frame 1 1 3, sample_frame 0 0 2] [NoneV, NoneV, BoolV False, NoneV] 0) of
     Ret m \<Rightarrow> frames m = [sample_frame 0 0 2] \<and> locals m ! 1 = BoolV True \<and> locals m ! 0 = NoneV | _ \<Rightarrow> False"
proof -
  let ?m = "sample_thread [sample_frame 1 1 3, sample_frame 0 0 2] [NoneV, NoneV, BoolV False, NoneV] 0"
  have "case popframe sample_vm (BoolV True) ?m of Ret m \<Rightarrow> True | _ \<Rightarrow> False" by code_simp
  then obtain m where m: "popframe sample_vm (BoolV True) ?m = Ret m" by (auto split: outcome.splits)
  from return_restores [OF m, of "sample_frame 1 1 3" "sample_frame 0 0 2" "[]"] m show ?thesis
    by (auto simp: sample_thread_def sample_frame_def)
qed



text \<open>C22. A dynamic call and its non-failing variant decide alike about the arguments: where the call
  enters the function so does the variant, in the same state, and where it is refused, after the
  arguments are dropped, the variant drops them and stores an invalid value instead.\<close>

theorem try_call_agrees:
  assumes "func_at V g = Ret fn"
  shows "pushframe V (Some g) dst m = obind (verdict V (param_types fn) m) (\<lambda>(e, m). case e of
        None \<Rightarrow> push_checked V g dst (m\<lparr>args := 0\<rparr>)
      | Some e \<Rightarrow> fail_args V e m) \<and>
    try_pushframe V (Some g) dst m = obind (verdict V (param_types fn) m) (\<lambda>(e, m). case e of
        None \<Rightarrow> push_checked V g dst (m\<lparr>args := 0\<rparr>)
      | Some e \<Rightarrow> obind (drop_args V m) (store_invalid V dst))"
  using pushframe_verdict [OF assms] try_pushframe_verdict [OF assms] by blast

theorem try_call_agrees_witness:
  "pushframe sample_vm (Some 1) 0 (call_thread\<lparr>args := 0\<rparr>) = Raise BadArgs \<and>
   (case try_pushframe sample_vm (Some 1) 0 (call_thread\<lparr>args := 0\<rparr>) of
      Ret m \<Rightarrow> locals m = [InvalidV, NoneV, BoolV True] | _ \<Rightarrow> False)"
proof -
  have fn: "func_at sample_vm 1 = Ret (funcs sample_program ! 1)" by (simp add: func_at_def sample_vm_def sample_program_def)
  let ?m = "call_thread\<lparr>args := 0\<rparr>"
  have "case verdict sample_vm (param_types (funcs sample_program ! 1)) ?m of Ret (e, m) \<Rightarrow> e = Some BadArgs | _ \<Rightarrow> False"
    by code_simp
  moreover have "verdict sample_vm (param_types (funcs sample_program ! 1)) ?m = Ret (Some BadArgs, ?m)"
    by (simp add: verdict_def sample_program_def)
  moreover have "fail_args sample_vm BadArgs ?m = (Raise BadArgs :: machine outcome)"
    by (simp add: fail_args_def drop_args_def frame_drop_args_def cur_def call_thread_def thread_defs frame_end_def func_at_def)
  moreover have "case obind (drop_args sample_vm ?m) (store_invalid sample_vm 0) of Ret m \<Rightarrow> locals m = [InvalidV, NoneV, BoolV True] | _ \<Rightarrow> False"
    by code_simp
  ultimately show ?thesis using try_call_agrees [OF fn, of 0 ?m] by simp
qed



text \<open>A behavior leaves its thread without frames, whether it returned its result or threw and
  stored the error.\<close>

theorem behavior_leaves_no_frame:
  assumes "run_behavior n V b m = Ret m' \<or> fail_behavior V b e m1 = Ret m'"
  shows "frames m' = []"
  using assms run_behavior_frames fail_behavior_frames by blast

definition sample_behavior :: behavior where
  "sample_behavior = \<lparr>bh_func = 0, bh_closure = InvalidV, bh_result = 0, bh_cowns = []\<rparr>"

theorem behavior_leaves_no_frame_witness:
  "case run_behavior 3 sample_vm sample_behavior (sample_thread [] [NoneV, NoneV, NoneV] 0) of
     Ret m \<Rightarrow> frames m = [] \<and> map_option c_content (cowns (hp m) 0) = Some (BoolV True) | _ \<Rightarrow> False"
proof -
  let ?r = "run_behavior 3 sample_vm sample_behavior (sample_thread [] [NoneV, NoneV, NoneV] 0)"
  have "case ?r of Ret m \<Rightarrow> map_option c_content (cowns (hp m) 0) = Some (BoolV True) | _ \<Rightarrow> False" by code_simp
  then obtain m where m: "?r = Ret m" "map_option c_content (cowns (hp m) 0) = Some (BoolV True)"
    by (auto split: outcome.splits)
  moreover have "frames m = []" by (rule behavior_leaves_no_frame) (rule disjI1, rule m(1))
  ultimately show ?thesis by simp
qed

text \<open>\<open>ArgCopy\<close> with the argument area at the end of the register vector reads its source
  through a reference that the growing vector has invalidated.\<close>

theorem arg_copy_dangles:
  assumes "thread_ok V m" "frames m = f # fs" "frame_end V f = Ret e" "length (locals m) = e + args m"
    "fetch V m = Ret (i, m1)" "unat i < e - fr_base f"
  shows "i_arg_copy V m = Stuck"
  using assms by (rule arg_copy_stuck)

theorem arg_copy_dangles_witness:
  "i_arg_copy sample_vm (sample_thread [sample_frame 0 0 2] [NoneV, BoolV True] 0) = Stuck"
proof -
  let ?m = "sample_thread [sample_frame 0 0 2] [NoneV, BoolV True] 0"
  have "case fetch sample_vm ?m of Ret (w, m) \<Rightarrow> w = 0 | _ \<Rightarrow> False" by code_simp
  then obtain m1 where "fetch sample_vm ?m = Ret (0, m1)" by (auto split: outcome.splits)
  moreover have "thread_ok sample_vm ?m" by (simp add: thread_ok_def thread_defs)
  ultimately show ?thesis
    by (intro arg_copy_dangles [where f = "sample_frame 0 0 2" and fs = "[]" and e = 2 and i = 0 and ?m1.0 = m1])
      (simp_all add: thread_defs frame_end_def func_at_def)
qed

section \<open>Regions\<close>

text \<open>Counting a new stack reference into a region keeps the region accounting: every heap
  region's \<open>stack_rc\<close> stays the number of its stack references plus its counted sub-regions, up
  the whole parent chain, and nothing else of the heap changes.\<close>

theorem stack_inc_accounts:
  assumes "forest h" "rc_ok ext h" "heap_region h r" "0 < unat inc" "\<forall>q. rc h q + unat inc < 2 ^ 32"
  shows "\<exists>h'. stack_inc r inc h = Ret h' \<and> only_counts h h' \<and> rc_ok (ext(r := ext r + int (unat inc))) h'"
  using stack_inc_ok [OF assms(1-4)] stack_inc_counts assms(5) by blast

theorem stack_inc_accounts_witness:
  "\<exists>h'. stack_inc 1 2 sample_heap = Ret h' \<and> rc_ok (sample_ext(1 := 3)) h'"
proof -
  have "\<forall>q. rc sample_heap q + unat (2 :: 32 word) < 2 ^ 32" by (simp add: sample_rc)
  from stack_inc_accounts [OF sample_forest sample_rc_ok _ _ this, of 1] show ?thesis
    by (simp add: sample_heap_region sample_ext_def) blast
qed

text \<open>C24. Releasing stack references keeps the region accounting, and the result says whether the
  region is still held. \<open>True\<close>: it is anchored by a count or a cown on its parent chain, and nothing
  but counts changes. \<open>False\<close>: its root is unowned, is marked as finalizing and is queued
  behind the earlier work unless it was marked before, and no other region's mark changes. The region's chain has to stay
  held, except during a collection.\<close>

theorem stack_dec_accounts:
  assumes "forest h" "rc_ok ext h" "heap_region h r" "0 < unat d" "int (unat d) \<le> ext r" "\<forall>q. 0 \<le> ext q"
    "in_collection h \<or> (\<exists>q\<in>up h r. 0 < (ext(r := ext r - int (unat d))) q \<or>
      (\<exists>reg. regions h q = Some reg \<and> has_cown_owner reg))"
  shows "\<exists>b h'. stack_dec K r d h = Ret (b, h') \<and> same_shape h h' \<and>
    rc_ok (ext(r := ext r - int (unat d))) h' \<and>
    (if b then only_counts h h' \<and> anchored h' r
     else \<not> anchored h' r \<and> (\<exists>q\<in>up h r. freed_root h h' q))"
proof -
  from stack_dec_ok [OF assms(1-5) _ assms(7), of K] assms(6) obtain b h' where "stack_dec K r d h = Ret (b, h')"
    "same_shape h h'" "rc_ok (ext(r := ext r - int (unat d))) h'"
    "if b then worklist h' = worklist h \<and> anchored h' r else \<not> anchored h' r \<and> (\<exists>q\<in>up h r. freed_root h h' q)" by blast
  then show ?thesis using stack_dec_counts by (cases b) auto
qed

theorem stack_dec_accounts_witness:
  "\<exists>b h'. stack_dec sample_conts 1 1 sample_heap = Ret (b, h') \<and> rc_ok (sample_ext(1 := 0)) h' \<and>
    (if b then only_counts sample_heap h' \<and> anchored h' 1
     else \<not> anchored h' 1 \<and> (\<exists>q\<in>up sample_heap 1. freed_root sample_heap h' q))"
proof -
  have up: "\<exists>q\<in>up sample_heap 1. 0 < (sample_ext(1 := sample_ext 1 - int (unat (1 :: 32 word)))) q"
    by (simp add: sample_up sample_ext_def)
  then have "in_collection sample_heap \<or> (\<exists>q\<in>up sample_heap 1.
      0 < (sample_ext(1 := sample_ext 1 - int (unat (1 :: 32 word)))) q \<or>
      (\<exists>reg. regions sample_heap q = Some reg \<and> has_cown_owner reg))" by blast
  moreover have "heap_region sample_heap 1" "0 < unat (1 :: 32 word)" "int (unat (1 :: 32 word)) \<le> sample_ext 1"
      "\<forall>q. 0 \<le> sample_ext q"
    by (simp_all add: sample_heap_region) (simp add: sample_ext_def)
  ultimately have "\<exists>b h'. stack_dec sample_conts 1 1 sample_heap = Ret (b, h') \<and> same_shape sample_heap h' \<and>
    rc_ok (sample_ext(1 := sample_ext 1 - int (unat (1 :: 32 word)))) h' \<and>
    (if b then only_counts sample_heap h' \<and> anchored h' 1
     else \<not> anchored h' 1 \<and> (\<exists>q\<in>up sample_heap 1. freed_root sample_heap h' q))"
    by (intro stack_dec_accounts [OF sample_forest sample_rc_ok])
  moreover have "sample_ext 1 - int (unat (1 :: 32 word)) = 0" by (simp add: sample_ext_def)
  ultimately show ?thesis by (simp only:) blast
qed

text \<open>C25. Giving an unowned region a parent keeps the region forest acyclic and the accounting
  exact, provided the region is not the new parent or above it.\<close>

theorem set_parent_accounts:
  assumes "forest h" "rc_ok ext h" "heap_region h r" "heap_region h p"
    "\<forall>reg. regions h r = Some reg \<longrightarrow> owner reg = Unowned" "r \<notin> up h p" "\<forall>q. rc h q + 1 < 2 ^ 32"
  shows "\<exists>h'. set_parent r p e h = Ret h' \<and> forest h' \<and> rc_ok ext h' \<and> parent_of h' = (parent_of h)(r \<mapsto> p)"
  using set_parent_ok [OF assms(1-4) _ assms(6), of e] assms(5,7) by blast

theorem set_parent_accounts_witness:
  "\<exists>h'. set_parent 1 0 3 sample_free = Ret h' \<and> forest h' \<and> rc_ok (sample_ext(0 := 3)) h'"
proof -
  have "regions sample_free 1 = Some reg \<Longrightarrow> owner reg = Unowned" for reg
    by (auto simp: sample_free_def set_owner_def mod_region_def sample_heap_def)
  moreover have "1 \<notin> up sample_free 0" by (simp add: up_def above_None sample_free_ok)
  moreover have "\<forall>q. rc sample_free q + 1 < 2 ^ 32" by (simp add: sample_free_ok(5) sample_rc)
  ultimately show ?thesis
    using set_parent_accounts [OF sample_free_ok(1,2), of 1 0 3] sample_free_ok(3) [of 1] sample_free_ok(3) [of 0]
    by blast
qed

text \<open>C26. Removing a sub-region's parent keeps the region forest and the accounting: the sub-region's
  count moves off the parent, and a sub-region nothing refers to, which during a collection may be, is
  marked as finalizing and queued, once. The parents stay held outside a collection.\<close>

theorem clear_parent_accounts:
  assumes "forest h" "rc_ok ext h" "parent_of h r = Some p" "\<forall>q. 0 \<le> ext q"
    "in_collection h \<or> 0 < rc h r \<and> (\<exists>q\<in>up h p. 0 < ext q \<or>
      (\<exists>reg. regions h q = Some reg \<and> has_cown_owner reg))"
  shows "\<exists>h'. clear_parent K r h = Ret h' \<and> forest h' \<and> rc_ok ext h' \<and>
    parent_of h' = (parent_of h)(r := None) \<and> owner_of h' = (owner_of h)(r \<mapsto> Unowned) \<and>
    (in_collection h \<or> worklist h' = worklist h) \<and> (rc h r = 0 \<longrightarrow> freed_root h h' r)"
proof -
  have "0 \<le> ext q" for q using assms(4) by blast
  from clear_parent_ok [OF assms(1-3) this assms(5), of K] show ?thesis by (elim exE conjE) (intro exI conjI)
qed

theorem clear_parent_accounts_witness:
  "\<exists>h'. clear_parent sample_conts 1 sample_heap = Ret h' \<and> forest h' \<and> rc_ok sample_ext h' \<and> parent_of h' = (\<lambda>_. None)"
proof -
  have "(parent_of sample_heap)(1 := None) = (\<lambda>_. None)" by (rule ext) (simp add: sample_parent)
  moreover have "0 < rc sample_heap 1" "\<exists>q\<in>up sample_heap 0. 0 < sample_ext q"
    by (simp_all add: sample_rc sample_up sample_ext_def)
  moreover have "parent_of sample_heap 1 = Some 0" by (simp add: sample_parent)
  ultimately show ?thesis
    using clear_parent_accounts [OF sample_forest sample_rc_ok, of 1 0 sample_conts] sample_ext_nonneg
    by (simp only:) blast
qed

text \<open>The ancestor test that keeps region cycles out terminates and is exact: it answers
  whether the region lies on the parent chain.\<close>

theorem is_ancestor_exact:
  assumes "forest h" "heap_region h r"
  shows "is_ancestor_of a r h = Ret (a \<in> above (parent_of h) r)"
  using assms by (rule is_ancestor_ok)

theorem is_ancestor_exact_witness:
  "is_ancestor_of 0 1 sample_heap = Ret True \<and> is_ancestor_of 1 0 sample_heap = Ret False"
  using is_ancestor_exact [OF sample_forest, of 1 0] is_ancestor_exact [OF sample_forest, of 0 1]
  by (simp add: sample_heap_region sample_above)

section \<open>Dragging\<close>

text \<open>C27. A drag that fails leaves the heap exactly as it was, when no exchange is under way.\<close>

theorem failed_drag_changes_nothing:
  assumes "drag_allocation is_move K r root None h = Ret (False, ptr, h')"
  shows "h' = h \<and> ptr = None"
  using assms by (rule drag_failure_atomic)

theorem failed_drag_changes_nothing_witness:
  "\<exists>h'. drag_allocation False sample_conts 1 0 None sample_heap = Ret (False, None, h') \<and> h' = sample_heap"
proof -
  have "\<exists>h'. drag_allocation False sample_conts 1 0 None sample_heap = Ret (False, None, h')"
    by (simp add: drag_allocation_def sample_slots drag_step_def drag_region_ref_def drag_heap_ref_def
      get_obj_def get_region_def in_region_def location_of_def is_frame_local_def has_owner_def
      List.map_filter_def traced_def sample_objs sample_regs sample_ancestor del: One_nat_def)
  then show ?thesis using failed_drag_changes_nothing [of False sample_conts 1 0 sample_heap None] by blast
qed

text \<open>C28. On a heap without dangling references the search phase of a drag terminates with an answer
  within its fuel, from any root in a region, when no exchange is under way: it never gets stuck on
  an assertion.\<close>

theorem drag_search_terminates:
  assumes "closed_heap h" "forest h" "regions h r = Some reg" "regional h root"
  shows "\<exists>ok st. drag_search (Suc (Suc (slots_total h))) K r reg
    \<lparr>wl = [root], rcs = [], subs = [], decs = 0, pr = None\<rparr> h = Ret (ok, st, h)"
  using assms by (rule drag_search_returns)

theorem drag_search_terminates_witness:
  "\<exists>ok st. drag_search (Suc (Suc (slots_total sample_heap))) sample_conts 0 (the (regions sample_heap 0))
    \<lparr>wl = [0], rcs = [], subs = [], decs = 0, pr = None\<rparr> sample_heap = Ret (ok, st, sample_heap)"
  by (rule drag_search_terminates [OF sample_closed sample_forest])
    (simp_all add: regional_def sample_defs)

section \<open>The write barrier\<close>

text \<open>C29. Storing a value of one heap region into an object of another, by copy or by move, returns
  the old value and keeps the region forest and its accounting exact: the old value's region
  gains the returned reference, a moved value's region loses the register's, and a region without
  an owner becomes a sub-region of the storage region.\<close>

theorem exchange_accounts:
  assumes "forest h" "rc_ok ext h" "room ext h 2" "heap_region h s" "heap_region h j"
    "objs h p = Some b" "i < length (o_slots b)" "o_slots b ! i = (t, prev)"
    "is_header v" "header_of v = Some q" "\<not> is_readonly v" "objs h q = Some c" "o_loc c = LRegion j"
    "to_addr t v = Ret w" "location prev h = Ret pl"
    "\<forall>r. pl = LRegion r \<longrightarrow> heap_region h r \<and> (r = s \<or> parent_of h r = Some s)"
    "held ext s j" "\<not> store_refused h s pl j"
  shows "\<exists>h'. barrier_exchange m K (LRegion s) p i t v h = Ret (prev, h') \<and> forest h' \<and>
    rc_ok (exchanged m pl j ext) h' \<and> parent_of h' = exchanged_parents h s pl j \<and> load_slot p i h' = Ret w"
  by (rule exchange_heap_ok [OF assms(1-15) _ assms(17,18)]) (use assms(16) in blast)

theorem exchange_accounts_witness:
  "\<exists>h'. barrier_exchange False sample_conts (LRegion 0) 2 0 VObject (ObjectV 2 False) sample_heap = Ret (ObjectV 3 False, h') \<and>
    rc_ok (sample_ext(1 := 2)) h' \<and> parent_of h' = (\<lambda>_. None) \<and> load_slot 2 0 h' = Ret (ObjectV 2 False)"
proof -
  have e: "exchanged False (LRegion 1) 0 sample_ext = sample_ext(1 := 2)"
    by (rule ext) (simp add: exchanged_def sample_ext_def)
  have p: "exchanged_parents sample_heap 0 (LRegion 1) 0 = (\<lambda>_. None)"
    by (rule ext) (simp add: exchanged_parents_def sample_parent)
  have "held sample_ext 0 0" by (simp add: held_def sample_ext_def)
  then have "\<exists>h'. barrier_exchange False sample_conts (LRegion 0) 2 0 VObject (ObjectV 2 False) sample_heap = Ret (ObjectV 3 False, h') \<and>
      forest h' \<and> rc_ok (exchanged False (LRegion 1) 0 sample_ext) h' \<and>
      parent_of h' = exchanged_parents sample_heap 0 (LRegion 1) 0 \<and> load_slot 2 0 h' = Ret (ObjectV 2 False)"
    by (intro exchange_accounts [OF sample_forest sample_rc_ok sample_room, where q = 2 and t = VObject and
        b = "sample_obj 0 2 [(VObject, ObjectV 3 False)]" and c = "sample_obj 0 2 [(VObject, ObjectV 3 False)]"])
      (simp_all add: sample_heap_region sample_objs sample_locations sample_parent store_refused_def)
  then show ?thesis unfolding e p by blast
qed

text \<open>C30. A store that would give a region a second entry point, or make a region an ancestor of
  itself, raises \<open>BadStore\<close>.\<close>

theorem refused_store_raises:
  assumes "forest h" "heap_region h s" "heap_region h j" "load_slot p i h = Ret prev"
    "location prev h = Ret pl" "location v h = Ret (LRegion j)"
    "j \<noteq> s" "if owned h j then pl \<noteq> LRegion j else j \<in> above (parent_of h) s"
  shows "barrier_exchange m K (LRegion s) p i t v h = Raise BadStore"
  by (rule exchange_refused [OF assms(1-6)]) (use assms(7,8) in \<open>simp add: store_refused_def\<close>)

theorem refused_store_raises_witness:
  "barrier_exchange True sample_conts (LRegion 1) 3 0 VDyn (ObjectV 2 False) sample_heap = Raise BadStore"
  by (rule refused_store_raises [OF sample_forest, where j = 0 and prev = NoneV and pl = LImmortal])
    (simp_all add: sample_heap_region load_slot_def get_obj_def sample_objs sample_locations sample_owned sample_above)

text \<open>Replacing a reference into a sub-region by another reference into the same sub-region
  detaches the sub-region from its parent although the slot still refers into it.\<close>

theorem same_subregion_store_detaches:
  assumes "forest h" "rc_ok ext h" "room ext h 2" "heap_region h s" "parent_of h j = Some s"
    "objs h p = Some b" "i < length (o_slots b)" "o_slots b ! i = (t, prev)"
    "is_header v" "header_of v = Some q" "\<not> is_readonly v" "objs h q = Some c" "o_loc c = LRegion j"
    "to_addr t v = Ret w" "location prev h = Ret (LRegion j)" "held ext s j"
  shows "\<exists>h'. barrier_exchange m K (LRegion s) p i t v h = Ret (prev, h') \<and>
    load_slot p i h' = Ret w \<and> parent_of h' j = None"
proof -
  have "heap_region h j" "j \<noteq> s"
    using assms(1,5) not_own_parent [OF assms(1), of s] by (auto simp: forest_def)
  moreover have "owned h j"
    using assms(5) by (auto simp: owned_def parent_of_def has_owner_def split: option.splits owner.splits)
  ultimately have j: "heap_region h j" "j \<noteq> s" "owned h j" by blast+
  have "\<exists>h'. barrier_exchange m K (LRegion s) p i t v h = Ret (prev, h') \<and> forest h' \<and>
      rc_ok (exchanged m (LRegion j) j ext) h' \<and> parent_of h' = exchanged_parents h s (LRegion j) j \<and> load_slot p i h' = Ret w"
    by (rule exchange_heap_ok [OF assms(1-4) j(1) assms(6-15) _ assms(16)])
      (use j assms(5) in \<open>auto simp: store_refused_def\<close>)
  then show ?thesis using j(2,3) by (auto simp: exchanged_parents_def)
qed

theorem same_subregion_store_detaches_witness:
  "\<exists>h'. barrier_exchange False sample_conts (LRegion 0) 2 0 VObject (ObjectV 3 False) sample_heap = Ret (ObjectV 3 False, h') \<and>
    load_slot 2 0 h' = Ret (ObjectV 3 False) \<and> parent_of h' 1 = None"
  by (rule same_subregion_store_detaches [OF sample_forest sample_rc_ok sample_room, where j = 1 and q = 3 and
      t = VObject and b = "sample_obj 0 2 [(VObject, ObjectV 3 False)]" and c = "sample_obj 1 2 [(VDyn, NoneV)]"])
    (simp_all add: sample_heap_region sample_objs sample_locations sample_parent held_def sample_ext_def)

section \<open>Collection\<close>

text \<open>C31. Letting go of the last reference into an unowned region, outside a collection, deletes the
  region and exactly its objects, and nothing else of the heap changes, where the region's objects
  refer only to each other and none of them has a finalizer.\<close>

theorem last_reference_deletes_region:
  assumes "contained E h r" "regions h r = Some reg" "\<not> finalizing reg" "frame_depth reg = 0" "owner reg = Unowned"
    "stack_rc reg = d" "worklist h = []" "\<not> in_collection h"
  shows "stack_dec (runtime E (Suc n)) r d h = Ret (False, h\<lparr>regions := (regions h)(r := None),
    objs := objs h |` (- set (headers reg))\<rparr>)"
  using stack_dec_contained [OF assms(1,2,3,7,8,4,5,6)] by (simp add: without_def assms(2))

theorem last_reference_deletes_region_witness:
  "\<exists>h'. stack_dec (runtime sample_env (Suc 0)) 1 1 sample_free = Ret (False, h') \<and> regions h' 1 = None \<and>
    objs h' 3 = None \<and> objs h' 2 = objs sample_heap 2"
proof -
  have reg: "regions sample_free 1 = Some \<lparr>owner = Unowned, entry_point = None, stack_rc = 1, rtype = RegionRC,
     frame_depth = 0, headers = [3], finalizing = False\<rparr>"
    by (simp add: sample_free_def set_owner_def mod_region_def sample_regs del: One_nat_def)
  have "contained sample_env sample_free 1"
    unfolding contained_def reg
    by (simp add: sample_free_def sample_objs sample_env_def del: One_nat_def)
  from last_reference_deletes_region [OF this reg, of 1 0]
  have "stack_dec (runtime sample_env (Suc 0)) 1 1 sample_free = Ret (False, sample_free\<lparr>regions := (regions sample_free)(1 := None),
      objs := objs sample_free |` (- {3})\<rparr>)"
    by (simp add: sample_free_def sample_next del: One_nat_def)
  then show ?thesis by (intro exI conjI, assumption) (simp_all add: sample_free_def del: One_nat_def)
qed

text \<open>C32. When the last reference to a frozen object that refers to itself is dropped, its
  collection fails: the object is marked pending before its field is dropped, and \<open>drop\<close> takes
  the pending target for one in a region.\<close>

theorem frozen_cycle_collection_fails:
  assumes "objs h p = Some b" "o_loc b = LImmutable" "o_rc b = 1" "o_slots b = [(t, v)]" "traced t" "header_of v = Some p"
    "o_array b \<or> finalizer E (o_type b) = None" "worklist h = []" "\<not> in_collection h"
  shows "h_field_dec (runtime E n) p h = Stuck"
  using assms by (rule drop_self_cycle)

theorem frozen_cycle_collection_fails_witness:
  "h_field_dec (runtime sample_env 100) 0 (sample_heap\<lparr>objs := [0 \<mapsto>
    \<lparr>o_loc = LImmutable, o_rc = 1, o_type = 20, o_array = False, o_slots = [(VObject, ObjectV 0 False)]\<rparr>]\<rparr>) = Stuck"
  by (rule frozen_cycle_collection_fails [where v = "ObjectV 0 False" and t = VObject and b = "\<lparr>o_loc = LImmutable,
      o_rc = 1, o_type = 20, o_array = False, o_slots = [(VObject, ObjectV 0 False)]\<rparr>"])
    (simp_all add: traced_def sample_env_def sample_next)

section \<open>Arrays\<close>

text \<open>C33. Filling an array element that refers into the array's own region discards the reference
  the exchange hands back: the region's count goes up by one for a reference nobody holds.\<close>

theorem array_fill_leaks:
  assumes "forest h" "rc_ok ext h" "room ext h 1" "heap_region h s" "objs h p = Some b" "o_loc b = LRegion s"
    "o_slots b = [(VDyn, prev)]" "location prev h = Ret (LRegion s)" "content_type_id P p h = Ret t"
    "check_type P L NoneV t h = Ret ()"
  shows "\<exists>h'. bulk_fill P L K p 0 1 NoneV h = Ret h' \<and> rc_ok (ext(s := ext s + 1)) h' \<and>
    objs h' = (objs h)(p \<mapsto> b\<lparr>o_slots := [(VDyn, NoneV)]\<rparr>)"
  using assms by (rule fill_leaks)

definition sample_array :: heap where
  "sample_array = sample_heap\<lparr>objs := (objs sample_heap)(4 \<mapsto>
     \<lparr>o_loc = LRegion 0, o_rc = 1, o_type = 20, o_array = True, o_slots = [(VDyn, ObjectV 2 False)]\<rparr>)\<rparr>"

theorem array_fill_leaks_witness:
  "\<exists>h'. bulk_fill sample_program [] sample_conts 4 0 1 NoneV sample_array = Ret h' \<and>
    rc_ok (sample_ext(0 := 3)) h'"
proof -
  have reg: "regions sample_array = regions sample_heap" "next_rid sample_array = next_rid sample_heap"
    by (simp_all add: sample_array_def)
  note same = regions_same [OF reg]
  have "room sample_ext sample_array 1" using sample_room reg by (simp add: room_def sample_ext_def sample_next)
  moreover have "forest sample_array" "rc_ok sample_ext sample_array" "heap_region sample_array 0"
    using sample_forest sample_rc_ok by (simp_all add: same sample_heap_region)
  moreover have b: "objs sample_array 4 = Some \<lparr>o_loc = LRegion 0, o_rc = 1, o_type = 20, o_array = True,
      o_slots = [(VDyn, ObjectV 2 False)]\<rparr>"
    by (simp add: sample_array_def)
  moreover have "location (ObjectV 2 False) sample_array = Ret (LRegion 0)"
    by (simp add: location_of_def get_obj_def sample_array_def sample_objs)
  moreover have "content_type_id sample_program 4 sample_array = Ret DynamicTypeId"
    by (simp add: content_type_id_def get_obj_def b unarray_def complex_type_at_def is_complex_def sample_program_def)
  moreover have "check_type sample_program [] NoneV DynamicTypeId sample_array = Ret ()"
    by (simp add: check_type_def type_id_def check_subtype_def subtype_step_def)
  ultimately have "\<exists>h'. bulk_fill sample_program [] sample_conts 4 0 1 NoneV sample_array = Ret h' \<and>
      rc_ok (sample_ext(0 := sample_ext 0 + 1)) h' \<and> objs h' = (objs sample_array)(4 \<mapsto>
        \<lparr>o_loc = LRegion 0, o_rc = 1, o_type = 20, o_array = True, o_slots = [(VDyn, ObjectV 2 False)]\<rparr>
          \<lparr>o_slots := [(VDyn, NoneV)]\<rparr>)"
    by (intro array_fill_leaks [where prev = "ObjectV 2 False" and t = DynamicTypeId]) simp_all
  moreover have "sample_ext 0 + 1 = 3" by (simp add: sample_ext_def)
  ultimately show ?thesis by (simp only:) blast
qed

section \<open>Cowns\<close>

text \<open>C34. Exchanging the content of a cown, from one region to another, keeps the region accounting:
  the old content's region becomes unowned and is held by the reference handed back, the new
  one's becomes the cown's.\<close>

theorem cown_exchange_accounts:
  assumes "forest h" "rc_ok ext h" "room ext h 1" "\<forall>q. 0 \<le> ext q"
    "cowns h c = Some cw" "c_content cw = prev" "location prev h = Ret (LRegion r)"
    "heap_region h r" "owner_of h r = Some (CownOwner (Some c))" "heap_region h j" "owner_of h j = Some Unowned"
    "is_header v" "header_of v = Some q" "\<not> is_readonly v" "objs h q = Some b" "o_loc b = LRegion j" "m \<longrightarrow> 1 \<le> ext j"
  shows "\<exists>h'. cown_swap m K c v h = Ret (True, prev, h') \<and> forest h' \<and>
    rc_ok (ext(r := ext r + 1, j := ext j - of_bool m)) h' \<and> parent_of h' = parent_of h \<and>
    owner_of h' = (owner_of h)(r \<mapsto> Unowned, j \<mapsto> CownOwner (Some c)) \<and> cown_load c h' = Ret v"
  by (rule cown_swap_ok [OF assms(1-3) _ assms(5-16)]) (use assms(4,17) in blast)+

theorem cown_exchange_accounts_witness:
  "\<exists>h'. cown_swap True sample_conts 0 (ObjectV 2 False) sample_cown = Ret (True, ObjectV 3 False, h') \<and>
    owner_of h' 1 = Some Unowned \<and> owner_of h' 0 = Some (CownOwner (Some 0))"
proof -
  let ?e = "sample_ext(0 := 3)"
  have "\<exists>h'. cown_swap True sample_conts 0 (ObjectV 2 False) sample_cown = Ret (True, ObjectV 3 False, h') \<and> forest h' \<and>
      rc_ok (?e(1 := ?e 1 + 1, 0 := ?e 0 - of_bool True)) h' \<and> parent_of h' = parent_of sample_cown \<and>
      owner_of h' = (owner_of sample_cown)(1 \<mapsto> Unowned, 0 \<mapsto> CownOwner (Some 0)) \<and> cown_load 0 h' = Ret (ObjectV 2 False)"
    by (intro cown_exchange_accounts [OF sample_cown_ok(1,2), where q = 2 and b = "sample_obj 0 2 [(VObject, ObjectV 3 False)]"
        and cw = "\<lparr>c_refs = 1, c_type = 30, c_content = ObjectV 3 False\<rparr>"])
      (simp_all add: sample_cown_ok sample_cown_regions sample_locations sample_objs owner_of_def sample_regs room_def
        sample_ext_def del: One_nat_def)
  then show ?thesis by auto
qed

text \<open>C35. A cown exchange refused because the value is on a stack or in an owned region undoes everything
  it did: with a copy the heap is exactly as it was, ownership and counts included, and with a move
  only the register's own reference is released, by the destruction of the register.\<close>

theorem refused_cown_exchange_restores:
  assumes "cowns h c = Some cw" "c_content cw = prev" "is_header prev" "header_of prev = Some e" "location prev h = Ret (LRegion r)"
    "regions h r = Some reg" "owner reg = CownOwner (Some c)" "entry_point reg = Some e" "stack_rc reg \<noteq> - 1" "frame_depth reg = 0"
    "location v h = Ret l" "l \<noteq> LRegion r" "not_takeable l h"
  shows "cown_swap False K c v h = Ret (False, prev, h) \<and>
    cown_swap True K c v h = obind (reg_dec K v h) (\<lambda>h'. Ret (False, prev, h'))"
  using cown_swap_refused [OF assms] by simp

theorem refused_cown_exchange_restores_witness:
  "cown_swap False sample_conts 0 (RegisterRefV 0 4 False) sample_cown = Ret (False, ObjectV 3 False, sample_cown)"
proof -
  have "cown_swap False sample_conts 0 (RegisterRefV 0 4 False) sample_cown = Ret (False, ObjectV 3 False, sample_cown) \<and>
    cown_swap True sample_conts 0 (RegisterRefV 0 4 False) sample_cown =
      obind (reg_dec sample_conts (RegisterRefV 0 4 False) sample_cown) (\<lambda>h'. Ret (False, ObjectV 3 False, h'))"
    by (rule refused_cown_exchange_restores [OF sample_cown_regions(6), where r = 1 and e = 3 and l = "LStack 4"
      and reg = "the (regions sample_cown 1)"])
      (simp_all add: sample_cown_ok sample_cown_regions sample_locations not_takeable_def del: One_nat_def)
  then show ?thesis by blast
qed

text \<open>C36. Pinning a value for foreign code and unpinning it again leaves the heap as it was, the count of
  the cown that owns its region included, where the value is already in a region that is not
  frame-local and is held by a register.\<close>

theorem pin_unpin_round_trip:
  assumes "is_header v" "header_of v = Some p" "\<not> is_readonly v"
    "objs h p = Some b" "o_loc b = LRegion r" "o_rc b \<noteq> - 1" "o_rc b \<noteq> 0"
    "regions h r = Some reg" "frame_depth reg = 0" "stack_rc reg \<noteq> 0" "stack_rc reg \<noteq> - 1"
    "\<forall>c. owner reg = CownOwner (Some c) \<longrightarrow> (\<exists>cw. cowns h c = Some cw \<and> c_refs cw \<noteq> 0 \<and> c_refs cw \<noteq> - 1)"
  shows "\<exists>h'. pin K v h = Ret h' \<and> unpin K v h' = Ret h"
  by (rule pin_unpin [OF assms(1-11)]) (use assms(12) in blast)

theorem pin_unpin_round_trip_witness:
  "\<exists>h'. pin sample_conts (ObjectV 3 False) sample_cown = Ret h' \<and> unpin sample_conts (ObjectV 3 False) h' = Ret sample_cown"
  by (rule pin_unpin_round_trip [OF _ _ _ _ _ _ _ sample_cown_regions(3), where p = 3 and b = "sample_obj 1 2 [(VDyn, NoneV)]"])
    (simp_all add: sample_cown_regions sample_objs del: One_nat_def)

section \<open>Merging\<close>

text \<open>C37. Merging an unowned region into one that is not inside it moves all its objects, their locations
  and their entries in the region's table, all its sub-regions and all its stack references, changes no
  other object, keeps the region accounting, and ends by collecting the emptied region.\<close>

theorem merge_accounts:
  assumes "mergeable ext h dest src" "regions h src = Some rs" "src \<notin> up h dest"
  shows "\<exists>h'. merge_regions K dest src h = collect_region K src h' \<and> forest h' \<and>
    rc_ok (ext(dest := ext dest + ext src, src := 0)) h' \<and>
    parent_of h' = (\<lambda>c. if parent_of h c = Some src then Some dest else parent_of h c) \<and>
    header_set h' dest = header_set h dest \<union> header_set h src \<and> header_set h' src = {} \<and>
    objs h' = (\<lambda>p. if p \<in> header_set h src then map_option (\<lambda>b. b\<lparr>o_loc := LRegion dest\<rparr>) (objs h p) else objs h p)"
  using assms by (rule merge_regions_ok)

theorem merge_accounts_witness:
  "\<exists>h'. merge_regions sample_conts 0 1 sample_free = collect_region sample_conts 1 h' \<and>
    3 \<in> header_set h' 0 \<and> header_set h' 1 = {}"
proof -
  have "regions sample_free 1 = Some \<lparr>owner = Unowned, entry_point = None, stack_rc = 1, rtype = RegionRC,
     frame_depth = 0, headers = [3], finalizing = False\<rparr>"
    by (simp add: sample_free_def set_owner_def mod_region_def sample_regs del: One_nat_def)
  moreover have "1 \<notin> up sample_free 0" by (simp add: up_def above_None sample_free_ok)
  ultimately show ?thesis using merge_accounts [OF sample_free_mergeable, of _ sample_conts] by (fastforce simp: header_set_def)
qed

text \<open>C38. Merging a region into its own sub-region collects it while the sub-region still has it as
  its parent.\<close>

theorem merge_into_child_dangles:
  assumes "mergeable ext h dest src" "regions h src = Some rs" "parent_of h dest = Some src"
  shows "\<exists>h'. merge_regions K dest src h = collect_region K src h' \<and> parent_of h' dest = Some src"
  using assms by (rule merge_into_child)

theorem merge_into_child_dangles_witness:
  "\<exists>h'. merge_regions sample_conts 1 0 sample_heap = collect_region sample_conts 0 h' \<and> parent_of h' 1 = Some 0"
  by (rule merge_into_child_dangles [OF sample_mergeable sample_regs(1)]) (simp add: sample_parent)

section \<open>Freezing\<close>

text \<open>C39. Looking up the representative of a frozen header terminates, gives the end of its pointer
  chain, and compresses the path without changing any header's representative.\<close>

theorem find_compresses:
  assumes "frozen_links_ok h" "objs h p \<noteq> None"
  shows "\<exists>r h'. find_root p h = Ret (r, h') \<and> ends (scc_next h) p r \<and> ends (scc_next h') = ends (scc_next h) \<and>
    frozen_links_ok h' \<and> (scc_next h p \<noteq> None \<longrightarrow> scc_next h' p = Some r)"
  using find_root_ok [OF assms] by (auto simp: compressed_def)

theorem find_compresses_witness:
  "\<exists>r h'. find_root 2 (pair_frozen (\<lambda>p. p) 2\<lparr>objs := [0 \<mapsto> graph_obj [] 1\<lparr>o_loc := LImmutable\<rparr>,
     1 \<mapsto> graph_obj [] 1\<lparr>o_loc := LScc 0\<rparr>, 2 \<mapsto> graph_obj [] 1\<lparr>o_loc := LScc 1\<rparr>], next_oid := 3\<rparr>) = Ret (r, h') \<and>
     scc_next h' 2 = Some r"
proof -
  let ?h = "pair_frozen (\<lambda>p. p) 2\<lparr>objs := [0 \<mapsto> graph_obj [] 1\<lparr>o_loc := LImmutable\<rparr>,
     1 \<mapsto> graph_obj [] 1\<lparr>o_loc := LScc 0\<rparr>, 2 \<mapsto> graph_obj [] 1\<lparr>o_loc := LScc 1\<rparr>], next_oid := 3\<rparr>"
  have n: "scc_next ?h p = (if p = 1 then Some 0 else if p = 2 then Some 1 else None)" for p
    by (simp add: scc_next_def)
  have "chain (scc_next ?h) 3" by (rule chain_decreasing) (simp add: n split: if_splits del: One_nat_def)
  then have "frozen_links_ok ?h" by (simp add: frozen_links_ok_def n del: One_nat_def)
  from find_compresses [OF this, of 2] show ?thesis by (auto simp: n simp del: One_nat_def)
qed

text \<open>Whether freezing two children that refer back to their parent works depends on where the
  allocator put them: when the child visited first lies above the parent, it becomes the
  representative of the component, and the second child's back edge unites the component with
  itself, an assertion failure.\<close>

theorem freeze_depends_on_addresses:
  "freeze place K 0 tree_heap = Stuck \<longleftrightarrow> place 0 < place 2"
  by (rule freeze_tree)

text \<open>C40. Freezing a cycle in a heap region miscounts: edges inside the component are taken off the
  count that is compared with them. A two-object cycle held by fewer than two registers fails
  the assertion; held by more, the emptied region keeps two stack references for good.\<close>

theorem freeze_cycle_miscounts:
  "(n < 2 \<longrightarrow> freeze place K 0 (pair_heap n) = Stuck) \<and>
   (\<not> n < 2 \<longrightarrow> (\<exists>h reg. freeze place K 0 (pair_heap n) = Ret (True, h) \<and> regions h 0 = Some reg \<and>
      headers reg = [] \<and> stack_rc reg = 2))"
  using freeze_pair_left [of n place K] freeze_pair [of place K n] by auto

theorem freeze_cycle_miscounts_witness:
  "freeze (\<lambda>p. p) sample_conts 0 (pair_heap 1) = Stuck"
  using freeze_cycle_miscounts [of 1 "\<lambda>p. p" sample_conts] by simp

end
